(* ===== verification/Prelude.thy ===== *)
theory Prelude
  imports Main "HOL-Library.AList" "HOL-Library.Multiset" "HOL-Library.Word" "HOL-Library.Sublist"
begin

text \<open>
  What every component of the development shares: the strings of the compiler and the part
  of Rust's formatting the checkers use, machine integers, the association lists that stand
  for \<open>std::collections::HashMap\<close>, and the interface \<open>hash_map\<close> through which the
  components use them.  A \<open>String\<close> of the source is an Isabelle \<open>string\<close>, its UTF-8 bytes;
  a \<open>Range<usize>\<close> used as a source span is a pair of naturals.
\<close>

named_theorems checker_simps \<open>unfolding rules of the checkers' operations\<close>

type_synonym span = "nat \<times> nat"

type_synonym u8 = "8 word"
type_synonym u32 = "32 word"
type_synonym u64 = "64 word"

section \<open>Strings and formatting\<close>

text \<open>\<open>[String]::join(sep)\<close>.\<close>

fun join :: "string \<Rightarrow> string list \<Rightarrow> string" where
  "join sep [] = []"
| "join sep [s] = s"
| "join sep (s # t # ss) = s @ sep @ join sep (t # ss)"

text \<open>\<open>format!("{n}")\<close> of an unsigned and of a signed integer.\<close>

fun dec :: "nat \<Rightarrow> string" where
  "dec n = (if n < 10 then [char_of (48 + n)] else dec (n div 10) @ [char_of (48 + n mod 10)])"

declare dec.simps [simp del]

definition dec_int :: "int \<Rightarrow> string" where
  "dec_int i = (if i < 0 then ''-'' @ dec (nat (- i)) else dec (nat i))"

text \<open>
  \<open>str::split_whitespace\<close> and \<open>str::trim\<close> on the ASCII white space (tab to carriage return,
  and the blank); the other code points with the Unicode property \<open>White_Space\<close> are several
  bytes and are kept as ordinary text.
\<close>

definition is_ws :: "char \<Rightarrow> bool" where
  "is_ws c \<longleftrightarrow> c = CHR '' '' \<or> (9 \<le> (of_char c :: nat) \<and> (of_char c :: nat) \<le> 13)"

fun split_ws_acc :: "string \<Rightarrow> string \<Rightarrow> string list" where
  "split_ws_acc acc [] = (if acc = [] then [] else [rev acc])"
| "split_ws_acc acc (c # cs) =
     (if is_ws c then (if acc = [] then split_ws_acc [] cs else rev acc # split_ws_acc [] cs)
      else split_ws_acc (c # acc) cs)"

definition split_whitespace :: "string \<Rightarrow> string list" where
  "split_whitespace s = split_ws_acc [] s"

definition trim :: "string \<Rightarrow> string" where
  "trim s = rev (dropWhile is_ws (rev (dropWhile is_ws s)))"

text \<open>\<open>str::contains\<close>, \<open>str::strip_prefix\<close>.\<close>

fun str_contains :: "string \<Rightarrow> string \<Rightarrow> bool" where
  "str_contains [] pat \<longleftrightarrow> pat = []"
| "str_contains (c # cs) pat \<longleftrightarrow> prefix pat (c # cs) \<or> str_contains cs pat"

definition strip_prefix :: "string \<Rightarrow> string \<Rightarrow> string option" where
  "strip_prefix s p = (if prefix p s then Some (drop (length p) s) else None)"

lemma str_contains_sublist: "str_contains s pat \<longleftrightarrow> sublist pat s"
  by (induction s) (auto simp: sublist_Cons_right)

lemma str_contains_append_right [simp]: "str_contains (s @ pat) pat"
  by (simp add: str_contains_sublist)

section \<open>Integers read from literals\<close>

text \<open>
  \<open>str::parse::<i64>()\<close>: an optional sign, at least one digit, nothing else, and a value in
  the range of the type.  A value of type \<open>i64\<close> is an \<open>int\<close> within those bounds; a cast to an
  unsigned type is \<open>word_of_int\<close>, which wraps as \<open>as u64\<close> does.
\<close>

definition is_digit :: "char \<Rightarrow> bool" where
  "is_digit c \<longleftrightarrow> 48 \<le> (of_char c :: nat) \<and> (of_char c :: nat) \<le> 57"

definition digit_val :: "char \<Rightarrow> nat" where
  "digit_val c = (of_char c :: nat) - 48"

fun digits_val :: "nat \<Rightarrow> string \<Rightarrow> nat option" where
  "digits_val acc [] = Some acc"
| "digits_val acc (c # cs) = (if is_digit c then digits_val (10 * acc + digit_val c) cs else None)"

definition parse_digits :: "string \<Rightarrow> nat option" where
  "parse_digits s = (if s = [] then None else digits_val 0 s)"

definition parse_int :: "string \<Rightarrow> int option" where
  "parse_int s = (case s of [] \<Rightarrow> None
     | c # cs \<Rightarrow> if c = CHR ''-'' then map_option (\<lambda>n. - int n) (parse_digits cs)
                else if c = CHR ''+'' then map_option int (parse_digits cs)
                else map_option int (parse_digits s))"

definition i64_min :: int where "i64_min = - (2 ^ 63)"
definition i64_max :: int where "i64_max = 2 ^ 63 - 1"

definition parse_i64 :: "string \<Rightarrow> int option" where
  "parse_i64 s = (case parse_int s of None \<Rightarrow> None
     | Some i \<Rightarrow> if i64_min \<le> i \<and> i \<le> i64_max then Some i else None)"

text \<open>Unsigned targets accept a plus sign but no minus sign.\<close>

definition parse_uint :: "nat \<Rightarrow> string \<Rightarrow> nat option" where
  "parse_uint bits s = (case s of [] \<Rightarrow> None
     | c # cs \<Rightarrow> (case parse_digits (if c = CHR ''+'' then cs else s) of None \<Rightarrow> None
         | Some n \<Rightarrow> if n < 2 ^ bits then Some n else None))"

text \<open>Negation of an \<open>i64\<close>, which wraps at the least value in a release build.\<close>

definition i64_neg :: "int \<Rightarrow> int" where
  "i64_neg i = (if i = i64_min then i64_min else - i)"

lemma parse_i64_range: "parse_i64 s = Some i \<Longrightarrow> i64_min \<le> i \<and> i \<le> i64_max"
  by (auto simp: parse_i64_def split: option.splits if_splits)

lemma i64_neg_range: "i64_min \<le> i \<Longrightarrow> i \<le> i64_max \<Longrightarrow> i64_min \<le> i64_neg i \<and> i64_neg i \<le> i64_max"
  by (auto simp: i64_neg_def i64_min_def i64_max_def)

lemma digits_val_append:
  "digits_val a (xs @ ys) = (case digits_val a xs of Some b \<Rightarrow> digits_val b ys | None \<Rightarrow> None)"
  by (induction xs arbitrary: a) auto

lemma digit_char: "(n :: nat) < 10 \<Longrightarrow> of_char (char_of (48 + n) :: char) = 48 + n"
  by (simp add: of_char_of)

lemma digits_val_dec: "digits_val 0 (dec n) = Some n"
proof (induction n rule: dec.induct)
  case (1 n)
  show ?case
  proof (cases "n < 10")
    case True
    then show ?thesis by (simp add: dec.simps [of n] is_digit_def digit_val_def digit_char)
  next
    case False
    have "n mod 10 < 10" by simp
    with False 1 show ?thesis
      by (simp add: dec.simps [of n] digits_val_append is_digit_def digit_val_def digit_char)
  qed
qed

lemma dec_inject [simp]: "dec m = dec n \<longleftrightarrow> m = n"
  by (metis digits_val_dec option.inject)

lemma digits_val_is_digit: "digits_val a s = Some n \<Longrightarrow> list_all is_digit s"
  by (induction s arbitrary: a) (auto split: if_splits)

text \<open>\<open>slice.iter().position(|t| t == x)\<close>.\<close>

fun find_index :: "('a \<Rightarrow> bool) \<Rightarrow> 'a list \<Rightarrow> nat option" where
  "find_index p [] = None"
| "find_index p (x # xs) = (if p x then Some 0 else map_option Suc (find_index p xs))"

lemma find_index_None: "find_index p xs = None \<longleftrightarrow> (\<forall>x \<in> set xs. \<not> p x)"
  by (induction xs) auto

lemma find_index_Some:
  "find_index p xs = Some i \<Longrightarrow> i < length xs \<and> p (xs ! i) \<and> (\<forall>j < i. \<not> p (xs ! j))"
proof (induction xs arbitrary: i)
  case (Cons x xs)
  then show ?case by (cases i) (auto split: if_splits simp: less_Suc_eq_0_disj)
qed simp

lemma find_index_append:
  "\<forall>x \<in> set xs. \<not> p x \<Longrightarrow> find_index p (xs @ ys) = map_option ((+) (length xs)) (find_index p ys)"
  by (induction xs; cases "find_index p ys") auto

end
