(* ===== verification/Hash_Map.thy ===== *)
theory Hash_Map
  imports Prelude
begin

text \<open>
  \<open>std::collections::HashMap\<close> as the checkers use it.  A map is an association list with
  distinct keys; the order of the list is the order an iteration visits the entries in, which
  Rust leaves open, so every statement about an iteration is proved for all lists.  The locale
  \<open>hash_map\<close> states what the checkers rely on; its lemma \<open>entries_mset\<close> is the independence
  of the iteration order: two representations of one map hold the same multiset of entries.
\<close>

type_synonym ('k, 'v) hmap = "('k \<times> 'v) list"

definition hm_empty :: "('k, 'v) hmap" where
  "hm_empty = []"

definition hm_get :: "('k, 'v) hmap \<Rightarrow> 'k \<Rightarrow> 'v option" where
  "hm_get m k = map_of m k"

definition hm_insert :: "'k \<Rightarrow> 'v \<Rightarrow> ('k, 'v) hmap \<Rightarrow> ('k, 'v) hmap" where
  "hm_insert k v m = AList.update k v m"

definition hm_remove :: "'k \<Rightarrow> ('k, 'v) hmap \<Rightarrow> ('k, 'v) hmap" where
  "hm_remove k m = AList.delete k m"

text \<open>\<open>if let Some(v) = m.get_mut(k) { *v = f(*v) }\<close> and \<open>for v in m.values_mut()\<close>.\<close>

definition hm_modify :: "'k \<Rightarrow> ('v \<Rightarrow> 'v) \<Rightarrow> ('k, 'v) hmap \<Rightarrow> ('k, 'v) hmap" where
  "hm_modify k f m = map (\<lambda>(k', v). (k', if k' = k then f v else v)) m"

definition hm_map_values :: "('v \<Rightarrow> 'v) \<Rightarrow> ('k, 'v) hmap \<Rightarrow> ('k, 'v) hmap" where
  "hm_map_values f m = map (\<lambda>(k, v). (k, f v)) m"

definition hm_contains_key :: "('k, 'v) hmap \<Rightarrow> 'k \<Rightarrow> bool" where
  "hm_contains_key m k \<longleftrightarrow> hm_get m k \<noteq> None"

definition hm_entries :: "('k, 'v) hmap \<Rightarrow> ('k \<times> 'v) list" where
  "hm_entries m = m"

definition hm_len :: "('k, 'v) hmap \<Rightarrow> nat" where
  "hm_len m = length m"

definition hm_wf :: "('k, 'v) hmap \<Rightarrow> bool" where
  "hm_wf m \<longleftrightarrow> distinct (map fst m)"

lemmas hm_defs =
  hm_empty_def hm_get_def hm_insert_def hm_remove_def hm_modify_def hm_map_values_def
  hm_contains_key_def hm_entries_def hm_len_def hm_wf_def

locale hash_map =
  fixes empty :: "'m"
    and get :: "'m \<Rightarrow> 'k \<Rightarrow> 'v option"
    and insert :: "'k \<Rightarrow> 'v \<Rightarrow> 'm \<Rightarrow> 'm"
    and remove :: "'k \<Rightarrow> 'm \<Rightarrow> 'm"
    and modify :: "'k \<Rightarrow> ('v \<Rightarrow> 'v) \<Rightarrow> 'm \<Rightarrow> 'm"
    and entries :: "'m \<Rightarrow> ('k \<times> 'v) list"
    and wf :: "'m \<Rightarrow> bool"
  assumes get_empty: "get empty k = None"
    and get_insert: "get (insert k v m) = (get m)(k \<mapsto> v)"
    and get_remove: "get (remove k m) = (get m)(k := None)"
    and get_modify: "get (modify k f m) = (get m)(k := map_option f (get m k))"
    and entries_get: "wf m \<Longrightarrow> (k, v) \<in> set (entries m) \<longleftrightarrow> get m k = Some v"
    and entries_distinct: "wf m \<Longrightarrow> distinct (map fst (entries m))"
    and wf_empty: "wf empty"
    and wf_insert: "wf m \<Longrightarrow> wf (insert k v m)"
    and wf_remove: "wf m \<Longrightarrow> wf (remove k m)"
    and wf_modify: "wf m \<Longrightarrow> wf (modify k f m)"
begin

lemmas get_simps = get_empty get_insert get_remove get_modify

lemmas wf_intros = wf_empty wf_insert wf_remove wf_modify

lemma entries_mset:
  assumes "wf m" and "wf m'" and "get m = get m'"
  shows "mset (entries m) = mset (entries m')"
proof -
  have "set (entries m) = set (entries m')"
    using assms entries_get by (auto simp: set_eq_iff)
  moreover have "distinct (entries m)" and "distinct (entries m')"
    using assms entries_distinct by (auto simp: distinct_map)
  ultimately show ?thesis by (simp add: set_eq_iff_mset_eq_distinct)
qed

lemma iteration_order:
  assumes "wf m" and "wf m'" and "get m = get m'"
  shows "mset (concat (map f (entries m))) = mset (concat (map f (entries m')))"
proof -
  have "mset (concat (map f xs)) = \<Sum>\<^sub># (image_mset (mset \<circ> f) (mset xs))" for xs
    by (induction xs) auto
  then show ?thesis using entries_mset [OF assms] by simp
qed

lemma modify_absent: "get m k = None \<Longrightarrow> get (modify k f m) = get m"
  by (auto simp: get_modify fun_eq_iff)

lemma length_entries: "wf m \<Longrightarrow> length (entries m) = card (dom (get m))"
proof -
  assume wf: "wf m"
  have "k \<in> dom (get m) \<longleftrightarrow> k \<in> fst ` set (entries m)" for k
    by (simp add: dom_def image_iff Bex_def split_paired_Ex entries_get [OF wf])
  then have "dom (get m) = fst ` set (entries m)" by blast
  then show ?thesis
    using entries_distinct [OF wf] by (metis distinct_card length_map set_map)
qed

end

lemma hm_get_modify: "hm_get (hm_modify k f m) = (hm_get m)(k := map_option f (hm_get m k))"
  by (induction m) (auto simp: hm_defs fun_eq_iff)

lemma map_fst_hm_modify [simp]: "map fst (hm_modify k f m) = map fst m"
  by (induction m) (auto simp: hm_defs)

interpretation hm: hash_map hm_empty hm_get hm_insert hm_remove hm_modify hm_entries hm_wf
proof unfold_locales
  show "hm_get (hm_insert k v m) = (hm_get m)(k \<mapsto> v)" for k :: 'k and v :: 'v and m
    by (auto simp: hm_defs update_conv)
  show "hm_get (hm_remove k m) = (hm_get m)(k := None)" for k :: 'k and m :: "('k, 'v) hmap"
    by (simp add: hm_defs fun_eq_iff delete_conv')
  show "hm_get (hm_modify k f m) = (hm_get m)(k := map_option f (hm_get m k))"
    for k :: 'k and f :: "'v \<Rightarrow> 'v" and m by (rule hm_get_modify)
  show "hm_wf (hm_insert k v m)" if "hm_wf m" for k :: 'k and v :: 'v and m
    using that by (simp add: hm_defs distinct_update)
  show "hm_wf (hm_remove k m)" if "hm_wf m" for k :: 'k and m :: "('k, 'v) hmap"
    using that by (simp add: hm_defs distinct_delete)
  show "hm_wf (hm_modify k f m)" if "hm_wf m" for k :: 'k and f :: "'v \<Rightarrow> 'v" and m
    using that by (simp add: hm_wf_def)
qed (auto simp: hm_defs)

lemma hm_get_map_values [simp]: "hm_get (hm_map_values f m) k = map_option f (hm_get m k)"
  by (induction m) (auto simp: hm_defs)

lemma hm_wf_map_values [simp]: "hm_wf (hm_map_values f m) \<longleftrightarrow> hm_wf m"
proof -
  have "map fst (hm_map_values f m) = map fst m"
    by (simp add: hm_map_values_def comp_def case_prod_unfold)
  then show ?thesis by (simp add: hm_wf_def)
qed

lemma hm_len_dom: "hm_wf m \<Longrightarrow> hm_len m = card (dom (hm_get m))"
  using hm.length_entries by (simp add: hm_len_def hm_entries_def)

lemma hm_contains_iff: "hm_contains_key m k \<longleftrightarrow> k \<in> dom (hm_get m)"
  by (auto simp: hm_contains_key_def)

end
