(* ===== verification/Ast.thy ===== *)
theory Ast
  imports Prelude
begin

text \<open>
  The compiler's intermediate representation, \<open>crates/assura-ast/src/ast/mod.rs\<close>: literals,
  operators, patterns and expressions, clauses, declarations and source files, with the
  accessors and operator tables the passes read.  \<open>Spanned<Expr>\<close> is the type \<open>sp_expr\<close>,
  mutually recursive with \<open>expr\<close> and \<open>match_arm\<close> so that recursion over it is structural;
  \<open>Spanned<Decl>\<close> is the record \<open>spanned_decl\<close>.  Equality of expressions compares the spans,
  as the derived \<open>PartialEq\<close> does.
\<close>

section \<open>Literals, operators, patterns\<close>

datatype literal = LInt string | LFloat string | LStr string | LBool bool

datatype binop =
  Add | Sub | Mul | Div | Mod | Eq | Neq | Lt | Lte | Gt | Gte | And | Or | Implies | In | NotIn
| Concat | Range

datatype unary_op = Neg | Not

datatype pattern =
  PIdent string
| PLiteral literal
| PWildcard
| PConstructor string "pattern list"
| PTuple "pattern list"

section \<open>Expressions\<close>

datatype expr =
  Literal literal
| Ident string
| Field sp_expr string
| MethodCall sp_expr string "sp_expr list"
| Call sp_expr "sp_expr list"
| Index sp_expr sp_expr
| BinOp sp_expr binop sp_expr
| UnaryOp unary_op sp_expr
| Old sp_expr
| Forall string sp_expr sp_expr
| Exists string sp_expr sp_expr
| IfE sp_expr sp_expr "sp_expr option"
| ListE "sp_expr list"
| Cast sp_expr string
| BlockE "sp_expr list"
| Ghost sp_expr
| ApplyE string "sp_expr list"
| LetE string sp_expr sp_expr
| Match sp_expr "match_arm list"
| TupleE "sp_expr list"
| Raw "string list"
and sp_expr = Spanned (node: expr) (sp_span: span)
and match_arm = MatchArm (arm_pattern: pattern) (arm_body: sp_expr)

definition no_span :: "expr \<Rightarrow> sp_expr" where
  "no_span e = Spanned e (0, 0)"

section \<open>Type expressions\<close>

datatype type_expr =
  TNamed string
| TGeneric string "type_expr list"
| TTuple "type_expr list"
| TFn "type_expr list" type_expr
| TRefined type_expr string
| TUnit

record parsed_param =
  pp_name :: string
  pp_ty :: "type_expr option"

record param =
  p_name :: string
  p_ty :: "type_expr option"

section \<open>Clauses\<close>

datatype clause_kind =
  Requires | Ensures | Effects | Invariant | Modifies | Input | Output | Errors | Rule | DataFlow
| MustNot | Decreases | Ordering | OtherClause string

record clause =
  cl_kind :: clause_kind
  cl_body :: sp_expr
  cl_effect_variables :: "string list"

datatype memory_ordering = Relaxed | Acquire | Release | AcqRel | SeqCst

fun memory_ordering_parse :: "string \<Rightarrow> memory_ordering option" where
  "memory_ordering_parse s =
     (if s = ''relaxed'' then Some Relaxed
      else if s = ''acquire'' then Some Acquire
      else if s = ''release'' then Some Release
      else if s = ''acqrel'' \<or> s = ''acq_rel'' then Some AcqRel
      else if s = ''seq_cst'' then Some SeqCst
      else None)"

fun to_rust_ordering :: "memory_ordering \<Rightarrow> string" where
  "to_rust_ordering Relaxed = ''Relaxed''"
| "to_rust_ordering Acquire = ''Acquire''"
| "to_rust_ordering Release = ''Release''"
| "to_rust_ordering AcqRel = ''AcqRel''"
| "to_rust_ordering SeqCst = ''SeqCst''"

section \<open>Declarations\<close>

record contract_decl =
  ct_name :: string
  ct_type_params :: "string list"
  ct_clauses :: "clause list"
  ct_fn_params :: "param list"

record field_def =
  fd_name :: string
  fd_ty :: "type_expr option"
  fd_is_pub :: bool

datatype type_body =
  BodyAlias "string list" | BodyStruct "field_def list" | BodyRefined "string list" | BodyEmpty

record type_def =
  td_name :: string
  td_type_params :: "string list"
  td_body :: type_body

record enum_variant =
  ev_name :: string
  ev_fields :: "string list"

record enum_def =
  ed_name :: string
  ed_type_params :: "string list"
  ed_variants :: "enum_variant list"

record extern_decl =
  ex_name :: string
  ex_params :: "param list"
  ex_return_ty :: "type_expr option"
  ex_clauses :: "clause list"

record bind_decl =
  bd_name :: string
  bd_target_path :: string
  bd_params :: "param list"
  bd_return_ty :: "type_expr option"
  bd_clauses :: "clause list"

record prophecy_decl =
  pr_name :: string
  pr_ty :: "type_expr option"

datatype magic_pattern =
  MagicBytes "u8 list" bool | MagicExtension "string list" | MagicProbe string

record codec_entry =
  ce_name :: string
  ce_magic :: magic_pattern
  ce_decoder :: string
  ce_contracts :: "clause list"

record codec_registry_decl =
  cr_name :: string
  cr_output_type :: "string list"
  cr_codecs :: "codec_entry list"

record fn_def =
  fn_name :: string
  fn_is_ghost :: bool
  fn_is_lemma :: bool
  fn_params :: "param list"
  fn_return_ty :: "type_expr option"
  fn_clauses :: "clause list"

datatype service_item =
  SvTypeDef type_def
| SvEnumDef enum_def
| SvStates "string list"
| SvOperation string "clause list"
| SvQuery string "clause list"
| SvInvariant sp_expr
| SvOther string sp_expr

record service_decl =
  sv_name :: string
  sv_items :: "service_item list"

datatype block_kind =
  BkFeatureMax | BkFeature | BkAxiomatic | BkLockOrder | BkUnsafeEscape | BkLiveness | BkLibrary
| BkInterface | BkTable | BkIncremental | BkOther string

datatype decl =
  Contract contract_decl
| Service service_decl
| TypeDef type_def
| EnumDef enum_def
| Extern extern_decl
| Bind bind_decl
| Prophecy prophecy_decl
| FnDef fn_def
| CodecRegistry codec_registry_decl
| Block block_kind string "string list option" "clause list"

record spanned_decl =
  sd_node :: decl
  sd_span :: span

record project_decl =
  pj_name :: string
  pj_profile :: "string list"

record module_decl =
  md_path :: "string list"

record import_decl =
  im_path :: "string list"
  im_alias :: "string option"
  im_items :: "string list"
  im_span :: span

record source_file =
  sf_project :: "project_decl option"
  sf_module :: "module_decl option"
  sf_imports :: "import_decl list"
  sf_decls :: "spanned_decl list"

subsection \<open>Block kinds\<close>

definition block_kind_from_keyword :: "string \<Rightarrow> block_kind" where
  "block_kind_from_keyword s =
     (if s = ''feature_max'' then BkFeatureMax
      else if s = ''feature'' then BkFeature
      else if s = ''axiomatic'' \<or> s = ''axiom'' then BkAxiomatic
      else if s = ''lock_order'' \<or> s = ''lock_hierarchy'' then BkLockOrder
      else if s = ''unsafe'' \<or> s = ''unsafe_escape'' then BkUnsafeEscape
      else if s = ''liveness'' then BkLiveness
      else if s = ''library'' \<or> s = ''package'' then BkLibrary
      else if s = ''interface'' then BkInterface
      else if s = ''table'' then BkTable
      else if s = ''incremental'' then BkIncremental
      else BkOther s)"

fun block_kind_display :: "block_kind \<Rightarrow> string" where
  "block_kind_display BkFeatureMax = ''feature_max''"
| "block_kind_display BkFeature = ''feature''"
| "block_kind_display BkAxiomatic = ''axiomatic''"
| "block_kind_display BkLockOrder = ''lock_order''"
| "block_kind_display BkUnsafeEscape = ''unsafe_escape''"
| "block_kind_display BkLiveness = ''liveness''"
| "block_kind_display BkLibrary = ''library''"
| "block_kind_display BkInterface = ''interface''"
| "block_kind_display BkTable = ''table''"
| "block_kind_display BkIncremental = ''incremental''"
| "block_kind_display (BkOther s) = s"

text \<open>
  Printing a kind and reading it back gives the same kind, for every kind the parser can
  produce: the synonyms are normalised once and stay so.
\<close>

lemma block_kind_print_parse:
  "block_kind_from_keyword (block_kind_display (block_kind_from_keyword s)) =
   block_kind_from_keyword s"
  by (simp add: block_kind_from_keyword_def)

subsection \<open>Accessors of declarations\<close>

fun decl_name :: "decl \<Rightarrow> string option" where
  "decl_name (Contract c) = Some (ct_name c)"
| "decl_name (Service s) = Some (sv_name s)"
| "decl_name (TypeDef t) = Some (td_name t)"
| "decl_name (EnumDef e) = Some (ed_name e)"
| "decl_name (Extern e) = Some (ex_name e)"
| "decl_name (Bind b) = Some (bd_name b)"
| "decl_name (Prophecy p) = Some (pr_name p)"
| "decl_name (FnDef f) = Some (fn_name f)"
| "decl_name (CodecRegistry r) = Some (cr_name r)"
| "decl_name (Block kind name value body) = Some name"

fun decl_clauses :: "decl \<Rightarrow> clause list" where
  "decl_clauses (Contract c) = ct_clauses c"
| "decl_clauses (FnDef f) = fn_clauses f"
| "decl_clauses (Extern e) = ex_clauses e"
| "decl_clauses (Bind b) = bd_clauses b"
| "decl_clauses (Service s) = []"
| "decl_clauses (Block kind name value body) = body"
| "decl_clauses (TypeDef t) = []"
| "decl_clauses (EnumDef e) = []"
| "decl_clauses (Prophecy p) = []"
| "decl_clauses (CodecRegistry r) = []"

fun decl_summary_label :: "decl \<Rightarrow> string" where
  "decl_summary_label (Contract c) = ''contract '' @ ct_name c"
| "decl_summary_label (Bind b) = ''bind '' @ bd_name b"
| "decl_summary_label (FnDef f) = ''fn '' @ fn_name f"
| "decl_summary_label (Service s) = ''service '' @ sv_name s"
| "decl_summary_label (TypeDef t) = ''type '' @ td_name t"
| "decl_summary_label (EnumDef e) = ''enum '' @ ed_name e"
| "decl_summary_label (Extern e) = ''extern '' @ ex_name e"
| "decl_summary_label (Prophecy p) = ''prophecy '' @ pr_name p"
| "decl_summary_label (CodecRegistry c) = ''codec_registry '' @ cr_name c"
| "decl_summary_label (Block kind name value body) = block_kind_display kind @ '' '' @ name"

fun decl_params :: "decl \<Rightarrow> param list" where
  "decl_params (Contract c) = ct_fn_params c"
| "decl_params (FnDef f) = fn_params f"
| "decl_params (Extern e) = ex_params e"
| "decl_params (Bind b) = bd_params b"
| "decl_params _ = []"

fun is_ghost_or_lemma :: "decl \<Rightarrow> bool" where
  "is_ghost_or_lemma (FnDef f) \<longleftrightarrow> fn_is_ghost f \<or> fn_is_lemma f"
| "is_ghost_or_lemma _ \<longleftrightarrow> False"

fun decl_return_ty :: "decl \<Rightarrow> type_expr option" where
  "decl_return_ty (FnDef f) = fn_return_ty f"
| "decl_return_ty (Extern e) = ex_return_ty e"
| "decl_return_ty (Bind b) = bd_return_ty b"
| "decl_return_ty _ = None"

section \<open>Operator tables\<close>

text \<open>\<open>BinOp::repr\<close>: the Assura spelling, the Rust spelling and an identifier.\<close>

fun binop_repr :: "binop \<Rightarrow> string \<times> string \<times> string" where
  "binop_repr Add = (''+'', ''+'', ''add'')"
| "binop_repr Sub = (''-'', ''-'', ''sub'')"
| "binop_repr Mul = (''*'', ''*'', ''mul'')"
| "binop_repr Div = (''/'', ''/'', ''div'')"
| "binop_repr Mod = (''mod'', ''%'', ''mod'')"
| "binop_repr Eq = (''=='', ''=='', ''eq'')"
| "binop_repr Neq = (''!='', ''!='', ''neq'')"
| "binop_repr Lt = (''<'', ''<'', ''lt'')"
| "binop_repr Lte = (''<='', ''<='', ''lte'')"
| "binop_repr Gt = (''>'', ''>'', ''gt'')"
| "binop_repr Gte = (''>='', ''>='', ''gte'')"
| "binop_repr And = (''and'', ''&&'', ''and'')"
| "binop_repr Or = (''or'', ''||'', ''or'')"
| "binop_repr Implies = (''=>'', ''/* implies */'', ''implies'')"
| "binop_repr In = (''in'', ''/* in */'', ''in'')"
| "binop_repr NotIn = (''not in'', ''/* not in */'', ''notin'')"
| "binop_repr Concat = (''++'', ''/* ++ */'', ''concat'')"
| "binop_repr Range = (''..'', ''..'', ''range'')"

definition binop_as_str :: "binop \<Rightarrow> string" where
  "binop_as_str b = fst (binop_repr b)"

definition binop_as_ident :: "binop \<Rightarrow> string" where
  "binop_as_ident b = snd (snd (binop_repr b))"

definition binop_as_rust_str :: "binop \<Rightarrow> string" where
  "binop_as_rust_str b = fst (snd (binop_repr b))"

definition is_arithmetic :: "binop \<Rightarrow> bool" where
  "is_arithmetic b \<longleftrightarrow> b \<in> {Add, Sub, Mul, Div, Mod}"

definition is_comparison :: "binop \<Rightarrow> bool" where
  "is_comparison b \<longleftrightarrow> b \<in> {Eq, Neq, Lt, Lte, Gt, Gte}"

definition is_ordering_comparison :: "binop \<Rightarrow> bool" where
  "is_ordering_comparison b \<longleftrightarrow> b \<in> {Lt, Lte, Gt, Gte}"

definition is_logical :: "binop \<Rightarrow> bool" where
  "is_logical b \<longleftrightarrow> b \<in> {And, Or, Implies}"

definition is_division_like :: "binop \<Rightarrow> bool" where
  "is_division_like b \<longleftrightarrow> b \<in> {Div, Mod}"

definition is_membership :: "binop \<Rightarrow> bool" where
  "is_membership b \<longleftrightarrow> b \<in> {In, NotIn}"

fun unary_op_as_str :: "unary_op \<Rightarrow> string" where
  "unary_op_as_str Neg = ''-''"
| "unary_op_as_str Not = ''not''"

fun unary_op_as_rust_str :: "unary_op \<Rightarrow> string" where
  "unary_op_as_rust_str Neg = ''-''"
| "unary_op_as_rust_str Not = ''!''"

lemma binop_as_str_inj: "binop_as_str a = binop_as_str b \<Longrightarrow> a = b"
  by (cases a; cases b) (simp_all add: binop_as_str_def)

lemma binop_as_ident_inj: "binop_as_ident a = binop_as_ident b \<Longrightarrow> a = b"
  by (cases a; cases b) (simp_all add: binop_as_ident_def)

end
