(* ===== verification/Ast_Walk.thy ===== *)
theory Ast_Walk
  imports Ast
begin

text \<open>
  Traversals of expressions: the default methods of the trait \<open>ExprVisitor\<close>
  (\<open>crates/assura-ast/src/ast/mod.rs\<close>), the visitors the checkers instantiate it with
  (\<open>checkers/frame.rs\<close>, \<open>checkers/memory.rs\<close>, \<open>checkers/typestate.rs\<close> of
  \<open>crates/assura-types/src\<close>), the hand-written recursion \<open>expr_references_result\<close>, and the
  extraction helpers of \<open>checkers/error_propagation.rs\<close>.
\<close>

section \<open>The expression visitor\<close>

text \<open>
  \<open>walk_children\<close> lists the sub-expressions the default methods visit, in their order: no
  default looks into binder names, patterns, literals or raw tokens.
\<close>

fun walk_children :: "expr \<Rightarrow> sp_expr list" where
  "walk_children (Literal l) = []"
| "walk_children (Ident n) = []"
| "walk_children (Field b f) = [b]"
| "walk_children (MethodCall r m args) = r # args"
| "walk_children (Call f args) = f # args"
| "walk_children (Index b i) = [b, i]"
| "walk_children (BinOp l op r) = [l, r]"
| "walk_children (UnaryOp op e) = [e]"
| "walk_children (Old e) = [e]"
| "walk_children (Forall v d b) = [d, b]"
| "walk_children (Exists v d b) = [d, b]"
| "walk_children (IfE c t e) = c # t # (case e of None \<Rightarrow> [] | Some x \<Rightarrow> [x])"
| "walk_children (ListE es) = es"
| "walk_children (Cast e ty) = [e]"
| "walk_children (BlockE es) = es"
| "walk_children (Ghost e) = [e]"
| "walk_children (ApplyE n args) = args"
| "walk_children (LetE n v b) = [v, b]"
| "walk_children (Match s arms) = s # map arm_body arms"
| "walk_children (TupleE es) = es"
| "walk_children (Raw ts) = []"

lemma size_member: "c \<in> set cs \<Longrightarrow> size c \<le> size_list size cs"
  using size_list_estimation' [of c cs "size c" size] by simp

lemma size_arm_body: "size (arm_body a) < size a"
  by (cases a) simp

lemma walk_children_size: "c \<in> set (walk_children x) \<Longrightarrow> size c < size x"
proof (cases x)
  case (Match s arms)
  moreover assume "c \<in> set (walk_children x)"
  ultimately have "c = s \<or> (\<exists>a \<in> set arms. c = arm_body a)" by auto
  then show ?thesis
  proof
    assume "\<exists>a \<in> set arms. c = arm_body a"
    then obtain a where a: "a \<in> set arms" and c: "c = arm_body a" by blast
    from a have "size a \<le> size_list size arms" by (rule size_member)
    with c size_arm_body [of a] show ?thesis by (simp add: Match)
  qed (simp add: Match)
qed (auto split: option.splits simp: less_Suc_eq_le trans_le_add1 size_member)

text \<open>
  A visitor overrides some of the methods.  Every visitor of the passes modelled here emits
  values at a node and then either runs the default traversal of that node or stops there, so
  it is given by a hook: the emitted values, and whether the walk goes on below the node.
\<close>

type_synonym 'a hook = "expr \<Rightarrow> 'a list \<times> bool"

function visit :: "'a hook \<Rightarrow> sp_expr \<Rightarrow> 'a list" where
  "visit h (Spanned x s) =
     fst (h x) @ (if snd (h x) then concat (map (visit h) (walk_children x)) else [])"
  by pat_completeness auto
termination
  by (relation "measure (\<lambda>(h, e). size e)") (auto dest!: walk_children_size)

text \<open>The nodes a visitor reaches, as a relation.\<close>

inductive visits :: "'a hook \<Rightarrow> sp_expr \<Rightarrow> sp_expr \<Rightarrow> bool" where
  here: "visits h e e"
| below: "snd (h (node e)) \<Longrightarrow> c \<in> set (walk_children (node e)) \<Longrightarrow> visits h c e' \<Longrightarrow> visits h e e'"

inductive_cases visits_step: "visits h (Spanned x s) e'"

lemma set_visit: "a \<in> set (visit h e) \<longleftrightarrow> (\<exists>e'. visits h e e' \<and> a \<in> set (fst (h (node e'))))"
proof
  show "a \<in> set (visit h e) \<Longrightarrow> \<exists>e'. visits h e e' \<and> a \<in> set (fst (h (node e')))"
  proof (induction h e rule: visit.induct)
    case (1 h x s)
    then consider (here) "a \<in> set (fst (h x))"
      | (below) c where "snd (h x)" "c \<in> set (walk_children x)" "a \<in> set (visit h c)"
      by (auto split: if_splits)
    then show ?case
    proof cases
      case here
      then show ?thesis by (intro exI [of _ "Spanned x s"]) (simp add: visits.here)
    next
      case below
      with "1.IH" obtain e' where "visits h c e'" "a \<in> set (fst (h (node e')))" by blast
      with below show ?thesis by (auto intro!: visits.below [of h "Spanned x s" c])
    qed
  qed
next
  assume "\<exists>e'. visits h e e' \<and> a \<in> set (fst (h (node e')))"
  then obtain e' where "visits h e e'" and "a \<in> set (fst (h (node e')))" by blast
  then show "a \<in> set (visit h e)"
  proof (induction rule: visits.induct)
    case (here h e)
    then show ?case by (cases e) simp
  next
    case (below h e c e')
    then show ?case by (cases e) auto
  qed
qed

lemma visit_nonempty: "visit h e \<noteq> [] \<longleftrightarrow> (\<exists>e'. visits h e e' \<and> fst (h (node e')) \<noteq> [])"
proof -
  have "visit h e \<noteq> [] \<longleftrightarrow> (\<exists>a. a \<in> set (visit h e))"
    by (metis list.set_intros(1) neq_Nil_conv set_empty2 empty_iff)
  also have "\<dots> \<longleftrightarrow> (\<exists>e'. visits h e e' \<and> fst (h (node e')) \<noteq> [])"
    by (simp add: set_visit ex_comm [of "\<lambda>a e'. visits h e e' \<and> a \<in> set (fst (h (node e')))"])
      (metis all_not_in_conv set_empty2)
  finally show ?thesis .
qed

section \<open>References to the result\<close>

fun expr_references_result :: "sp_expr \<Rightarrow> bool" where
  "expr_references_result (Spanned (Ident name) s) \<longleftrightarrow> name = ''result''"
| "expr_references_result (Spanned (BinOp l op r) s) \<longleftrightarrow>
     expr_references_result l \<or> expr_references_result r"
| "expr_references_result (Spanned (UnaryOp op e) s) \<longleftrightarrow> expr_references_result e"
| "expr_references_result (Spanned (Old e) s) \<longleftrightarrow> expr_references_result e"
| "expr_references_result (Spanned (Cast e ty) s) \<longleftrightarrow> expr_references_result e"
| "expr_references_result (Spanned (Ghost e) s) \<longleftrightarrow> expr_references_result e"
| "expr_references_result (Spanned (Call f args) s) \<longleftrightarrow>
     expr_references_result f \<or> list_ex expr_references_result args"
| "expr_references_result (Spanned (MethodCall r m args) s) \<longleftrightarrow>
     expr_references_result r \<or> list_ex expr_references_result args"
| "expr_references_result (Spanned (Field r f) s) \<longleftrightarrow> expr_references_result r"
| "expr_references_result (Spanned (Index e i) s) \<longleftrightarrow>
     expr_references_result e \<or> expr_references_result i"
| "expr_references_result (Spanned (IfE c t e) s) \<longleftrightarrow>
     expr_references_result c \<or> expr_references_result t \<or>
     (case e of None \<Rightarrow> False | Some x \<Rightarrow> expr_references_result x)"
| "expr_references_result (Spanned (Forall v d b) s) \<longleftrightarrow>
     expr_references_result d \<or> expr_references_result b"
| "expr_references_result (Spanned (Exists v d b) s) \<longleftrightarrow>
     expr_references_result d \<or> expr_references_result b"
| "expr_references_result (Spanned (LetE n v b) s) \<longleftrightarrow>
     expr_references_result v \<or> expr_references_result b"
| "expr_references_result (Spanned (Match sc arms) s) \<longleftrightarrow>
     expr_references_result sc \<or> list_ex (\<lambda>a. case a of MatchArm p b \<Rightarrow> expr_references_result b) arms"
| "expr_references_result (Spanned (TupleE es) s) \<longleftrightarrow> list_ex expr_references_result es"
| "expr_references_result (Spanned (ListE es) s) \<longleftrightarrow> list_ex expr_references_result es"
| "expr_references_result (Spanned (BlockE es) s) \<longleftrightarrow> list_ex expr_references_result es"
| "expr_references_result (Spanned (Raw ts) s) \<longleftrightarrow> list_ex (\<lambda>t. t = ''result'') ts"
| "expr_references_result (Spanned (Literal l) s) \<longleftrightarrow> False"
| "expr_references_result (Spanned (ApplyE n args) s) \<longleftrightarrow> False"

text \<open>The visitor the recursion amounts to: it stops at \<open>apply\<close>.\<close>

fun result_hook :: "unit hook" where
  "result_hook (Ident n) = (if n = ''result'' then [()] else [], True)"
| "result_hook (Raw ts) = (if ''result'' \<in> set ts then [()] else [], True)"
| "result_hook (ApplyE n args) = ([], False)"
| "result_hook _ = ([], True)"

lemma expr_references_result_visit: "expr_references_result e \<longleftrightarrow> visit result_hook e \<noteq> []"
proof (induction e rule: expr_references_result.induct)
  case (15 sc arms s)
  have "list_ex (\<lambda>a. case a of MatchArm p b \<Rightarrow> expr_references_result b) arms \<longleftrightarrow>
        (\<exists>a \<in> set arms. visit result_hook (arm_body a) \<noteq> [])"
    unfolding list_ex_iff
  proof (rule bex_cong [OF refl])
    show "(case a of MatchArm p b \<Rightarrow> expr_references_result b) \<longleftrightarrow>
          visit result_hook (arm_body a) \<noteq> []" if "a \<in> set arms" for a
      using "15.IH"(2) [OF that] by (cases a) simp
  qed
  with 15 show ?case by auto
qed (auto simp: list_ex_iff split: option.splits)

end
