(* ===== verification/Checker_Base.thy ===== *)
theory Checker_Base
  imports Hash_Map Ast_Walk
begin

text \<open>
  What the checkers of \<open>crates/assura-types\<close> share: the errors (\<open>types.rs\<close>,
  \<open>checkers/mod.rs\<close>), the default parameters, the selection of a declaration's clauses
  (\<open>checks/mod.rs\<close>), the extraction of values from clause bodies
  (\<open>checkers/error_propagation.rs\<close>), the collection of identifiers (\<open>checkers/frame.rs\<close>),
  and the loop over all clauses that every \<open>check_source\<close> runs, with its locale.
\<close>

section \<open>Errors\<close>

record type_error =
  te_code :: string
  te_message :: string
  te_span :: span
  te_secondary :: "(span \<times> string) option"
  te_suggestion :: "string option"

record checker_error =
  ck_code :: string
  ck_message :: string
  ck_span :: span

definition type_error_at :: "string \<Rightarrow> string \<Rightarrow> span \<Rightarrow> type_error" where
  "type_error_at c m s = \<lparr>te_code = c, te_message = m, te_span = s, te_secondary = None,
     te_suggestion = None\<rparr>"

definition type_error_of_checker_error :: "checker_error \<Rightarrow> type_error" where
  "type_error_of_checker_error e = type_error_at (ck_code e) (ck_message e) (ck_span e)"

definition checker_error_with_context :: "string \<Rightarrow> checker_error \<Rightarrow> checker_error" where
  "checker_error_with_context ctx e = e\<lparr>ck_message := ctx @ '': '' @ ck_message e\<rparr>"

definition type_error_with_context :: "string \<Rightarrow> type_error \<Rightarrow> type_error" where
  "type_error_with_context ctx e = e\<lparr>te_message := te_message e @ '' ('' @ ctx @ '')''\<rparr>"

text \<open>A name between backquotes, as every message writes it.\<close>

definition quoted :: "string \<Rightarrow> string" where
  "quoted s = ''`'' @ s @ ''`''"

lemma te_code_at [simp]: "te_code (type_error_at c m s) = c"
  by (simp add: type_error_at_def)

lemma te_span_at [simp]: "te_span (type_error_at c m s) = s"
  by (simp add: type_error_at_def)

lemma te_message_at [simp]: "te_message (type_error_at c m s) = m"
  by (simp add: type_error_at_def)

section \<open>Default parameters\<close>

definition default_buffer_capacity :: int where "default_buffer_capacity = 256"
definition default_deadline_ms :: int where "default_deadline_ms = 1000"
definition default_bit_container_bits :: int where "default_bit_container_bits = 64"
definition default_region_size :: int where "default_region_size = 1024"
definition default_page_size :: int where "default_page_size = 1024"
definition default_feature_max :: int where "default_feature_max = 256"
definition default_hash_bits :: int where "default_hash_bits = 32"
definition default_param_zero :: int where "default_param_zero = 0"
definition default_param_one :: int where "default_param_one = 1"

lemmas default_params =
  default_buffer_capacity_def default_deadline_ms_def default_bit_container_bits_def
  default_region_size_def default_page_size_def default_feature_max_def default_hash_bits_def
  default_param_zero_def default_param_one_def

text \<open>\<open>Option::unwrap_or\<close>.\<close>

definition unwrap_or :: "'a option \<Rightarrow> 'a \<Rightarrow> 'a" where
  "unwrap_or x d = (case x of None \<Rightarrow> d | Some v \<Rightarrow> v)"

lemma unwrap_or_simps [simp]: "unwrap_or None d = d" "unwrap_or (Some v) d = v"
  by (simp_all add: unwrap_or_def)

text \<open>\<open>slice.first()\<close> and \<open>slice.get(i)\<close>.\<close>

definition list_get :: "'a list \<Rightarrow> nat \<Rightarrow> 'a option" where
  "list_get xs i = (if i < length xs then Some (xs ! i) else None)"

section \<open>The clauses of a declaration\<close>

fun fn_or_contract_name_clauses :: "decl \<Rightarrow> (string \<times> clause list) option" where
  "fn_or_contract_name_clauses (FnDef f) = Some (fn_name f, fn_clauses f)"
| "fn_or_contract_name_clauses (Contract c) = Some (ct_name c, ct_clauses c)"
| "fn_or_contract_name_clauses _ = None"

fun runtime_decl_clauses_params :: "decl \<Rightarrow> (clause list \<times> param list) option" where
  "runtime_decl_clauses_params (FnDef f) = Some (fn_clauses f, fn_params f)"
| "runtime_decl_clauses_params (Contract c) = Some (ct_clauses c, [])"
| "runtime_decl_clauses_params (Extern e) = Some (ex_clauses e, ex_params e)"
| "runtime_decl_clauses_params _ = None"

fun clauses_contract_fn_block :: "decl \<Rightarrow> clause list option" where
  "clauses_contract_fn_block (Contract c) = Some (ct_clauses c)"
| "clauses_contract_fn_block (FnDef f) = Some (fn_clauses f)"
| "clauses_contract_fn_block (Block kind name value body) = Some body"
| "clauses_contract_fn_block _ = None"

fun clauses_contract_fn :: "decl \<Rightarrow> clause list option" where
  "clauses_contract_fn (Contract c) = Some (ct_clauses c)"
| "clauses_contract_fn (FnDef f) = Some (fn_clauses f)"
| "clauses_contract_fn _ = None"

fun clauses_contract_fn_extern :: "decl \<Rightarrow> clause list option" where
  "clauses_contract_fn_extern (Contract c) = Some (ct_clauses c)"
| "clauses_contract_fn_extern (FnDef f) = Some (fn_clauses f)"
| "clauses_contract_fn_extern (Extern e) = Some (ex_clauses e)"
| "clauses_contract_fn_extern _ = None"

lemma clauses_contract_fn_clauses: "clauses_contract_fn d = Some cs \<Longrightarrow> decl_clauses d = cs"
  by (cases d) auto

lemma clauses_contract_fn_block_clauses:
  "clauses_contract_fn_block d = Some cs \<Longrightarrow> decl_clauses d = cs"
  by (cases d) auto

section \<open>Values in clause bodies\<close>

fun extract_int_literal :: "sp_expr \<Rightarrow> int option" where
  "extract_int_literal (Spanned (Literal (LInt s)) sp) = parse_i64 s"
| "extract_int_literal (Spanned (UnaryOp Neg (Spanned (Literal (LInt s)) sp')) sp) =
     map_option i64_neg (parse_i64 s)"
| "extract_int_literal _ = None"

fun extract_ident :: "sp_expr \<Rightarrow> string option" where
  "extract_ident (Spanned (Ident name) sp) = Some name"
| "extract_ident _ = None"

fun extract_kv_pair :: "sp_expr \<Rightarrow> (string \<times> sp_expr) option" where
  "extract_kv_pair (Spanned (BinOp (Spanned (Ident key) sp') Eq rhs) sp) = Some (key, rhs)"
| "extract_kv_pair _ = None"

fun extract_call :: "sp_expr \<Rightarrow> (string \<times> sp_expr list) option" where
  "extract_call (Spanned (Call (Spanned (Ident name) sp') args) sp) = Some (name, args)"
| "extract_call _ = None"

fun extract_kv_pairs :: "sp_expr \<Rightarrow> (string \<times> sp_expr) list" where
  "extract_kv_pairs (Spanned (BlockE es) sp) = List.map_filter extract_kv_pair es"
| "extract_kv_pairs (Spanned (ListE es) sp) = List.map_filter extract_kv_pair es"
| "extract_kv_pairs e = (case extract_kv_pair e of None \<Rightarrow> [] | Some kv \<Rightarrow> [kv])"

text \<open>\<open>kvs.iter().find(|(k, _)| p(k)).and_then(|(_, v)| f(v))\<close>.\<close>

definition kv_find :: "(string \<Rightarrow> bool) \<Rightarrow> (sp_expr \<Rightarrow> 'a option) \<Rightarrow> (string \<times> sp_expr) list \<Rightarrow> 'a option"
  where
  "kv_find p f kvs = (case find (\<lambda>(k, v). p k) kvs of None \<Rightarrow> None | Some (k, v) \<Rightarrow> f v)"

text \<open>A cast from \<open>i64\<close> to \<open>u64\<close> or \<open>usize\<close> wraps.\<close>

definition as_u64 :: "int \<Rightarrow> u64" where
  "as_u64 i = word_of_int i"

definition as_usize :: "int \<Rightarrow> nat" where
  "as_usize i = unat (word_of_int i :: u64)"

definition first_int_arg :: "sp_expr list \<Rightarrow> int \<Rightarrow> int" where
  "first_int_arg args d = unwrap_or (Option.bind (list_get args 0) extract_int_literal) d"

definition first_ident_arg :: "sp_expr list \<Rightarrow> string \<Rightarrow> string" where
  "first_ident_arg args d = unwrap_or (Option.bind (list_get args 0) extract_ident) d"

definition int_arg :: "sp_expr list \<Rightarrow> nat \<Rightarrow> int \<Rightarrow> int" where
  "int_arg args i d = unwrap_or (Option.bind (list_get args i) extract_int_literal) d"

definition ident_arg :: "sp_expr list \<Rightarrow> nat \<Rightarrow> string option" where
  "ident_arg args i = Option.bind (list_get args i) extract_ident"

lemma extract_int_literal_range:
  "extract_int_literal e = Some i \<Longrightarrow> i64_min \<le> i \<and> i \<le> i64_max"
  by (induction e rule: extract_int_literal.induct)
    (auto dest!: parse_i64_range intro!: i64_neg_range)

section \<open>Identifiers of an expression\<close>

fun build_field_path :: "sp_expr \<Rightarrow> string" where
  "build_field_path (Spanned (Ident name) sp) = name"
| "build_field_path (Spanned (Field r f) sp) = build_field_path r @ ''.'' @ f"
| "build_field_path _ = []"

text \<open>The path of the node \<open>base.field\<close>: no leading dot when the base has no path.\<close>

definition field_path :: "sp_expr \<Rightarrow> string \<Rightarrow> string" where
  "field_path base f =
     (let p = build_field_path base in if p = [] then f else p @ ''.'' @ f)"

fun ident_hook :: "string hook" where
  "ident_hook (Old e) = ([], False)"
| "ident_hook (Ident name) =
     (if name \<in> {''true'', ''false'', ''result'', ''self''} then [] else [name], True)"
| "ident_hook (Field base f) = ([field_path base f], True)"
| "ident_hook _ = ([], True)"

definition collect_ident_references :: "sp_expr \<Rightarrow> string list" where
  "collect_ident_references e = visit ident_hook e"

fun var_hook :: "string \<Rightarrow> unit hook" where
  "var_hook v (Ident name) = (if name = v then [()] else [], True)"
| "var_hook v (Raw ts) = (if list_ex (\<lambda>t. trim t = v) ts then [()] else [], True)"
| "var_hook v _ = ([], True)"

definition expr_references_var :: "sp_expr \<Rightarrow> string \<Rightarrow> bool" where
  "expr_references_var e v \<longleftrightarrow> visit (var_hook v) e \<noteq> []"

text \<open>\<open>ClauseKind::Other(k)\<close> with one of the given keywords.\<close>

fun other_kind_in :: "string list \<Rightarrow> clause_kind \<Rightarrow> bool" where
  "other_kind_in ks (OtherClause k) \<longleftrightarrow> k \<in> set ks"
| "other_kind_in ks _ \<longleftrightarrow> False"

text \<open>A source file with one contract, for examples.\<close>

definition other_clause :: "string \<Rightarrow> sp_expr \<Rightarrow> clause" where
  "other_clause k e = \<lparr>cl_kind = OtherClause k, cl_body = e, cl_effect_variables = []\<rparr>"

definition one_contract :: "clause list \<Rightarrow> source_file" where
  "one_contract cs = \<lparr>sf_project = None, sf_module = None, sf_imports = [], sf_decls =
     [\<lparr>sd_node = Contract \<lparr>ct_name = ''C'', ct_type_params = [], ct_clauses = cs, ct_fn_params = []\<rparr>,
       sd_span = (0, 1)\<rparr>]\<rparr>"

section \<open>The loop over all clauses\<close>

text \<open>
  \<open>for decl in &source.decls { let Some(clauses) = sel(&decl.node) else { continue };
  for clause in clauses { ... } }\<close> over a state: the step gets the span of the declaration
  and the clause.
\<close>

definition scan_clauses :: "('c \<Rightarrow> 's \<Rightarrow> 's) \<Rightarrow> 'c list \<Rightarrow> 's \<Rightarrow> 's" where
  "scan_clauses step cs s = fold step cs s"

fun scan_decls ::
  "(decl \<Rightarrow> clause list option) \<Rightarrow> (span \<Rightarrow> clause \<Rightarrow> 's \<Rightarrow> 's) \<Rightarrow> spanned_decl list \<Rightarrow> 's \<Rightarrow> 's" where
  "scan_decls sel step [] s = s"
| "scan_decls sel step (d # ds) s =
     scan_decls sel step ds
       (case sel (sd_node d) of None \<Rightarrow> s
        | Some cs \<Rightarrow> scan_clauses (step (sd_span d)) cs s)"

text \<open>
  The contract of a scan: an invariant of the checker's state that each clause keeps.  Every
  checker below instantiates it with its own step and its own invariant.
\<close>

locale clause_scanner =
  fixes sel :: "decl \<Rightarrow> clause list option"
    and step :: "span \<Rightarrow> clause \<Rightarrow> 's \<Rightarrow> 's"
    and inv :: "'s \<Rightarrow> bool"
  assumes step_inv: "inv s \<Longrightarrow> inv (step sp c s)"
begin

lemma clauses_inv: "inv s \<Longrightarrow> inv (scan_clauses (step sp) cs s)"
  unfolding scan_clauses_def by (induction cs arbitrary: s) (simp_all add: step_inv)

lemma scan_inv: "inv s \<Longrightarrow> inv (scan_decls sel step ds s)"
proof (induction ds arbitrary: s)
  case (Cons d ds)
  then have "inv (case sel (sd_node d) of None \<Rightarrow> s
                  | Some cs \<Rightarrow> scan_clauses (step (sd_span d)) cs s)"
    by (auto split: option.splits intro: clauses_inv)
  then show ?case by (simp add: Cons.IH)
qed simp

end

lemma scan_decls_append:
  "scan_decls sel step (ds @ ds') s = scan_decls sel step ds' (scan_decls sel step ds s)"
  by (induction ds arbitrary: s) simp_all

end
