(* ===== verification/Ast_Display.thy ===== *)
theory Ast_Display
  imports Ast_Walk
begin

text \<open>
  Expressions as text and their negation, \<open>crates/assura-ast/src/ast/display.rs\<close>: the folder
  \<open>AssuraDisplayFolder\<close> with its loop over left-leaning operator chains, the display of
  patterns (which prints literals in Rust's debug format), \<open>truncate\<close>, and the negation
  \<open>negate_expr\<close> that the bounded model checker uses, with its meaning.
\<close>

section \<open>Literals and patterns\<close>

fun literal_to_string :: "literal \<Rightarrow> string" where
  "literal_to_string (LInt s) = s"
| "literal_to_string (LFloat s) = s"
| "literal_to_string (LStr s) = ''\"'' @ s @ ''\"''"
| "literal_to_string (LBool b) = (if b then ''true'' else ''false'')"

text \<open>
  Rust's \<open>{:?}\<close> of a string: quotes, backslashes and control characters are escaped; the
  bytes of printable characters outside ASCII are kept.
\<close>

definition hex_digit :: "nat \<Rightarrow> char" where
  "hex_digit n = char_of (if n < 10 then 48 + n else 87 + n)"

definition debug_char :: "char \<Rightarrow> string" where
  "debug_char c =
     (let n = of_char c :: nat in
      if c = CHR ''\"'' then [CHR 92, c]
      else if n = 92 then [CHR 92, CHR 92]
      else if n = 9 then [CHR 92, CHR ''t'']
      else if n = 10 then [CHR 92, CHR ''n'']
      else if n = 13 then [CHR 92, CHR ''r'']
      else if n = 0 then [CHR 92, CHR ''0'']
      else if n < 16 then CHR 92 # ''u{'' @ [hex_digit n] @ ''}''
      else if n < 32 \<or> n = 127 then CHR 92 # ''u{'' @ [hex_digit (n div 16), hex_digit (n mod 16)] @ ''}''
      else [c])"

definition debug_string :: "string \<Rightarrow> string" where
  "debug_string s = ''\"'' @ concat (map debug_char s) @ ''\"''"

fun literal_debug :: "literal \<Rightarrow> string" where
  "literal_debug (LInt s) = ''Int('' @ debug_string s @ '')''"
| "literal_debug (LFloat s) = ''Float('' @ debug_string s @ '')''"
| "literal_debug (LStr s) = ''Str('' @ debug_string s @ '')''"
| "literal_debug (LBool b) = ''Bool('' @ (if b then ''true'' else ''false'') @ '')''"

fun pattern_to_display :: "pattern \<Rightarrow> string" where
  "pattern_to_display (PIdent name) = name"
| "pattern_to_display PWildcard = ''_''"
| "pattern_to_display (PLiteral lit) = literal_debug lit"
| "pattern_to_display (PConstructor name fs) =
     name @ ''('' @ join '', '' (map pattern_to_display fs) @ '')''"
| "pattern_to_display (PTuple pats) = ''('' @ join '', '' (map pattern_to_display pats) @ '')''"

section \<open>Expressions\<close>

text \<open>
  \<open>fold_joined f items sep\<close>, for the folder's method on expressions, and the suffix that
  one operator contributes to a chain.
\<close>

definition fold_joined :: "('e \<Rightarrow> string) \<Rightarrow> 'e list \<Rightarrow> string \<Rightarrow> string" where
  "fold_joined f items sep = join sep (map f items)"

lemma fold_joined_cong [fundef_cong]:
  "items = items' \<Longrightarrow> sep = sep' \<Longrightarrow> (\<And>e. e \<in> set items' \<Longrightarrow> f e = g e) \<Longrightarrow>
   fold_joined f items sep = fold_joined g items' sep'"
  by (simp add: fold_joined_def cong: map_cong)

definition op_suffix :: "binop \<Rightarrow> string \<Rightarrow> string" where
  "op_suffix op rhs = '' '' @ binop_as_str op @ '' '' @ rhs"

text \<open>
  \<open>fold_expr\<close> dispatches to the methods of the folder; \<open>binop_loop\<close> is the loop of
  \<open>fold_binop\<close> over the left spine, with the vector \<open>parts\<close> it pushes to.
\<close>

function (sequential) fold_expr :: "sp_expr \<Rightarrow> string"
  and binop_loop :: "sp_expr \<Rightarrow> string list \<Rightarrow> string list" where
  "fold_expr (Spanned (Literal lit) s) = literal_to_string lit"
| "fold_expr (Spanned (Ident name) s) = name"
| "fold_expr (Spanned (Field base f) s) = fold_expr base @ ''.'' @ f"
| "fold_expr (Spanned (MethodCall r m args) s) =
     fold_expr r @ ''.'' @ m @ ''('' @ fold_joined fold_expr args '', '' @ '')''"
| "fold_expr (Spanned (Call f args) s) =
     fold_expr f @ ''('' @ fold_joined fold_expr args '', '' @ '')''"
| "fold_expr (Spanned (Index b i) s) = fold_expr b @ ''['' @ fold_expr i @ '']''"
| "fold_expr (Spanned (BinOp l op r) s) =
     concat (rev (binop_loop l [op_suffix op (fold_expr r)]))"
| "fold_expr (Spanned (UnaryOp op e) s) = unary_op_as_str op @ '' '' @ fold_expr e"
| "fold_expr (Spanned (Old e) s) = ''old('' @ fold_expr e @ '')''"
| "fold_expr (Spanned (Forall v d b) s) =
     ''forall '' @ v @ '' in '' @ fold_expr d @ '': '' @ fold_expr b"
| "fold_expr (Spanned (Exists v d b) s) =
     ''exists '' @ v @ '' in '' @ fold_expr d @ '': '' @ fold_expr b"
| "fold_expr (Spanned (IfE c t (Some e)) s) =
     ''if '' @ fold_expr c @ '' then '' @ fold_expr t @ '' else '' @ fold_expr e"
| "fold_expr (Spanned (IfE c t None) s) = ''if '' @ fold_expr c @ '' then '' @ fold_expr t"
| "fold_expr (Spanned (ListE es) s) = ''['' @ fold_joined fold_expr es '', '' @ '']''"
| "fold_expr (Spanned (Cast e ty) s) = fold_expr e @ '' as '' @ ty"
| "fold_expr (Spanned (BlockE es) s) = fold_joined fold_expr es '' ''"
| "fold_expr (Spanned (Ghost e) s) = ''ghost { '' @ fold_expr e @ '' }''"
| "fold_expr (Spanned (ApplyE n args) s) =
     ''apply '' @ n @ ''('' @ fold_joined fold_expr args '', '' @ '')''"
| "fold_expr (Spanned (LetE n v b) s) =
     ''let '' @ n @ '' = '' @ fold_expr v @ '' in '' @ fold_expr b"
| "fold_expr (Spanned (Match sc arms) s) =
     ''match '' @ fold_expr sc @ '' { '' @
     fold_joined (\<lambda>arm. pattern_to_display (arm_pattern arm) @ '' => '' @ fold_expr (arm_body arm))
       arms '', '' @ '' }''"
| "fold_expr (Spanned (TupleE es) s) = ''('' @ fold_joined fold_expr es '', '' @ '')''"
| "fold_expr (Spanned (Raw ts) s) = join '' '' ts"
| "binop_loop (Spanned (BinOp l op r) s) parts = binop_loop l (parts @ [op_suffix op (fold_expr r)])"
| "binop_loop cur parts = parts @ [fold_expr cur]"
  by pat_completeness auto

lemma arm_body_bound: "a \<in> set arms \<Longrightarrow> size (arm_body a) < size_list size arms"
  using size_member [of a arms] size_arm_body [of a] by simp

lemma expr_member_bound: "e \<in> set es \<Longrightarrow> size (e :: sp_expr) < Suc (size_list size es)"
  using size_member [of e es] by simp

termination fold_expr
proof (relation "measure (\<lambda>x. case x of Inl e \<Rightarrow> 2 * size e | Inr (e, ps) \<Rightarrow> 2 * size e + 1)",
    goal_cases)
  case 1
  show ?case by simp
qed (auto dest!: arm_body_bound expr_member_bound)

definition expr_to_string :: "sp_expr \<Rightarrow> string" where
  "expr_to_string e = fold_expr e"

text \<open>The loop over the left spine is the plain recursion.\<close>

lemma concat_rev_binop_loop: "concat (rev (binop_loop e parts)) = fold_expr e @ concat (rev parts)"
proof (induction "size e" arbitrary: e parts rule: less_induct)
  case less
  show ?case
  proof (cases "\<exists>l op r s. e = Spanned (BinOp l op r) s")
    case True
    then obtain l op r s where e: "e = Spanned (BinOp l op r) s" by blast
    then show ?thesis using less [of l] by simp
  next
    case False
    then have "binop_loop e parts = parts @ [fold_expr e]"
      by (cases "(e, parts)" rule: binop_loop.cases) auto
    then show ?thesis by simp
  qed
qed

lemma fold_expr_binop:
  "fold_expr (Spanned (BinOp l op r) s) = fold_expr l @ op_suffix op (fold_expr r)"
  by (simp add: concat_rev_binop_loop)

text \<open>the text of an operator node is the text of its left operand, the operator between
  blanks and the text of its right operand: the loop over the left spine of \<open>fold_binop\<close>, which
  keeps its parts in reverse, gives what the plain recursion would give.\<close>

theorem expr_to_string_binop:
  "expr_to_string (Spanned (BinOp l op r) s) =
   expr_to_string l @ '' '' @ binop_as_str op @ '' '' @ expr_to_string r"
  by (simp only: expr_to_string_def fold_expr_binop op_suffix_def)

section \<open>Truncation\<close>

text \<open>
  \<open>truncate(s, max)\<close> counts characters, not bytes: a byte that continues a UTF-8 sequence does
  not start one.
\<close>

definition is_char_start :: "char \<Rightarrow> bool" where
  "is_char_start c \<longleftrightarrow> \<not> (128 \<le> (of_char c :: nat) \<and> (of_char c :: nat) < 192)"

definition chars_count :: "string \<Rightarrow> nat" where
  "chars_count s = length (filter is_char_start s)"

fun char_index_nth :: "string \<Rightarrow> nat \<Rightarrow> nat option" where
  "char_index_nth [] n = None"
| "char_index_nth (c # cs) n =
     (if is_char_start c
      then (case n of 0 \<Rightarrow> Some 0 | Suc k \<Rightarrow> map_option Suc (char_index_nth cs k))
      else map_option Suc (char_index_nth cs n))"

definition truncate :: "string \<Rightarrow> nat \<Rightarrow> string" where
  "truncate s lim =
     (if chars_count s > lim
      then take (case char_index_nth s lim of None \<Rightarrow> length s | Some i \<Rightarrow> i) s @ ''...''
      else s)"

lemma char_index_nth_count:
  "n < chars_count s \<Longrightarrow> \<exists>i. char_index_nth s n = Some i \<and> chars_count (take i s) = n"
proof (induction s n rule: char_index_nth.induct)
  case (2 c cs n)
  then show ?case by (cases n) (auto simp: chars_count_def)
qed (simp add: chars_count_def)

lemma chars_count_append: "chars_count (s @ t) = chars_count s + chars_count t"
  by (simp add: chars_count_def)

lemma truncate_count: "chars_count (truncate s lim) = (if chars_count s > lim then lim + 3 else chars_count s)"
proof (cases "chars_count s > lim")
  case True
  then obtain i where "char_index_nth s lim = Some i" and "chars_count (take i s) = lim"
    using char_index_nth_count by blast
  moreover have "chars_count ''...'' = 3" by (simp add: chars_count_def is_char_start_def)
  ultimately show ?thesis using True by (simp add: truncate_def chars_count_append)
qed (simp add: truncate_def)

section \<open>Negation\<close>

fun negate_comparison :: "binop \<Rightarrow> binop option" where
  "negate_comparison Eq = Some Neq"
| "negate_comparison Neq = Some Eq"
| "negate_comparison Lt = Some Gte"
| "negate_comparison Lte = Some Gt"
| "negate_comparison Gt = Some Lte"
| "negate_comparison Gte = Some Lt"
| "negate_comparison In = Some NotIn"
| "negate_comparison NotIn = Some In"
| "negate_comparison _ = None"

fun negate_expr :: "sp_expr \<Rightarrow> sp_expr" where
  "negate_expr (Spanned (BinOp l And r) s) = Spanned (BinOp (negate_expr l) Or (negate_expr r)) s"
| "negate_expr (Spanned (BinOp l Or r) s) = Spanned (BinOp (negate_expr l) And (negate_expr r)) s"
| "negate_expr (Spanned (BinOp l op r) s) =
     (case negate_comparison op of
        Some neg_op \<Rightarrow> Spanned (BinOp l neg_op r) s
      | None \<Rightarrow> Spanned (UnaryOp Not (Spanned (BinOp l op r) s)) s)"
| "negate_expr (Spanned (UnaryOp Not inner) s) = inner"
| "negate_expr (Spanned (Literal (LBool b)) s) = Spanned (Literal (LBool (\<not> b))) s"
| "negate_expr (Spanned x s) = Spanned (UnaryOp Not (Spanned x s)) s"

lemma negate_comparison_involution:
  "negate_comparison op = Some op' \<Longrightarrow> negate_comparison op' = Some op"
  by (cases op) auto

text \<open>
  The meaning of a condition: integers and truth values, connectives that short-circuit, and a
  model that gives the variables, membership, and the value of every other form.
\<close>

datatype sem_value = VInt int | VBool bool

record sem_model =
  m_var :: "string \<Rightarrow> sem_value option"
  m_member :: "sem_value \<Rightarrow> sem_value \<Rightarrow> bool option"
  m_opaque :: "expr \<Rightarrow> sem_value option"

definition sem_arith :: "(int \<Rightarrow> int \<Rightarrow> int) \<Rightarrow> sem_value option \<Rightarrow> sem_value option \<Rightarrow> sem_value option"
  where
  "sem_arith f x y = (case (x, y) of (Some (VInt a), Some (VInt b)) \<Rightarrow> Some (VInt (f a b)) | _ \<Rightarrow> None)"

definition sem_order :: "(int \<Rightarrow> int \<Rightarrow> bool) \<Rightarrow> sem_value option \<Rightarrow> sem_value option \<Rightarrow> sem_value option"
  where
  "sem_order f x y = (case (x, y) of (Some (VInt a), Some (VInt b)) \<Rightarrow> Some (VBool (f a b)) | _ \<Rightarrow> None)"

definition sem_lift :: "(sem_value \<Rightarrow> sem_value \<Rightarrow> bool option) \<Rightarrow>
    sem_value option \<Rightarrow> sem_value option \<Rightarrow> sem_value option" where
  "sem_lift f x y = (case (x, y) of (Some a, Some b) \<Rightarrow> map_option VBool (f a b) | _ \<Rightarrow> None)"

definition sem_not :: "sem_value option \<Rightarrow> sem_value option" where
  "sem_not x = (case x of Some (VBool b) \<Rightarrow> Some (VBool (\<not> b)) | _ \<Rightarrow> None)"

definition sem_bool :: "sem_value option \<Rightarrow> sem_value option" where
  "sem_bool x = (case x of Some (VBool b) \<Rightarrow> Some (VBool b) | _ \<Rightarrow> None)"

definition sem_if :: "sem_value option \<Rightarrow> sem_value option \<Rightarrow> sem_value option \<Rightarrow> sem_value option" where
  "sem_if c t e = (case c of Some (VBool b) \<Rightarrow> if b then t else e | _ \<Rightarrow> None)"

fun sem_binop :: "sem_model \<Rightarrow> binop \<Rightarrow> sem_value option \<Rightarrow> sem_value option \<Rightarrow> sem_value option" where
  "sem_binop m Add x y = sem_arith (+) x y"
| "sem_binop m Sub x y = sem_arith (-) x y"
| "sem_binop m Mul x y = sem_arith (*) x y"
| "sem_binop m Lt x y = sem_order (<) x y"
| "sem_binop m Lte x y = sem_order (\<le>) x y"
| "sem_binop m Gt x y = sem_order (>) x y"
| "sem_binop m Gte x y = sem_order (\<ge>) x y"
| "sem_binop m Eq x y = sem_lift (\<lambda>a b. Some (a = b)) x y"
| "sem_binop m Neq x y = sem_lift (\<lambda>a b. Some (a \<noteq> b)) x y"
| "sem_binop m In x y = sem_lift (m_member m) x y"
| "sem_binop m NotIn x y = sem_lift (\<lambda>a b. map_option (\<lambda>r. \<not> r) (m_member m a b)) x y"
| "sem_binop m And x y = sem_if x (sem_bool y) (Some (VBool False))"
| "sem_binop m Or x y = sem_if x (Some (VBool True)) (sem_bool y)"
| "sem_binop m Implies x y = sem_if x (sem_bool y) (Some (VBool True))"
| "sem_binop m _ x y = None"

fun eval_expr :: "sem_model \<Rightarrow> sp_expr \<Rightarrow> sem_value option" where
  "eval_expr m (Spanned (Literal (LInt t)) s) = map_option VInt (parse_int t)"
| "eval_expr m (Spanned (Literal (LBool b)) s) = Some (VBool b)"
| "eval_expr m (Spanned (Ident name) s) = m_var m name"
| "eval_expr m (Spanned (BinOp l op r) s) =
     (if op \<in> {Div, Mod, Concat, Range} then m_opaque m (BinOp l op r)
      else sem_binop m op (eval_expr m l) (eval_expr m r))"
| "eval_expr m (Spanned (UnaryOp Not e) s) = sem_not (eval_expr m e)"
| "eval_expr m (Spanned (UnaryOp Neg e) s) =
     sem_arith (-) (Some (VInt 0)) (eval_expr m e)"
| "eval_expr m (Spanned (IfE c t (Some e)) s) =
     sem_if (eval_expr m c) (eval_expr m t) (eval_expr m e)"
| "eval_expr m (Spanned (Ghost e) s) = eval_expr m e"
| "eval_expr m (Spanned x s) = m_opaque m x"

lemmas sem_defs = sem_arith_def sem_order_def sem_lift_def sem_not_def sem_bool_def sem_if_def

lemma sem_not_iff: "sem_not x = Some (VBool b) \<longleftrightarrow> x = Some (VBool (\<not> b))"
  by (auto simp: sem_not_def split: option.splits sem_value.splits)

lemma sem_if_iff:
  "sem_if c t e = Some v \<longleftrightarrow>
   c = Some (VBool True) \<and> t = Some v \<or> c = Some (VBool False) \<and> e = Some v"
  by (auto simp: sem_if_def split: option.splits sem_value.splits)

lemma sem_bool_iff: "sem_bool x = Some (VBool b) \<longleftrightarrow> x = Some (VBool b)"
  by (auto simp: sem_bool_def split: option.splits sem_value.splits)

lemma sem_order_iff:
  "sem_order f x y = Some (VBool b) \<longleftrightarrow>
   (\<exists>a c. x = Some (VInt a) \<and> y = Some (VInt c) \<and> b = f a c)"
  by (auto simp: sem_order_def split: option.splits sem_value.splits)

lemma sem_lift_iff:
  "sem_lift f x y = Some (VBool b) \<longleftrightarrow> (\<exists>a c. x = Some a \<and> y = Some c \<and> f a c = Some b)"
  by (auto simp: sem_lift_def split: option.splits)

lemmas sem_iffs = sem_not_iff sem_if_iff sem_bool_iff sem_order_iff sem_lift_iff

text \<open>C8: the negated expression of \<open>negate_expr\<close> (De Morgan's laws, inverted comparisons,
  dropped double negation) is true exactly where the expression is false and false exactly where
  it is true, in every model, and has no truth value where the expression has none.\<close>

theorem negate_expr_sound:
  "eval_expr m (negate_expr e) = Some (VBool b) \<longleftrightarrow> eval_expr m e = Some (VBool (\<not> b))"
proof (induction e arbitrary: b rule: negate_expr.induct)
qed (auto simp: sem_iffs not_less not_le)

end
