(* ===== verification/Type_Expr.thy ===== *)
theory Type_Expr
  imports Ast_Walk
begin

text \<open>
  Structured type expressions, the second half of \<open>crates/assura-ast/src/ast/mod.rs\<close>: their
  display, the bridge \<open>to_tokens\<close> back to raw tokens, the best-effort parser
  \<open>try_parse_type_tokens\<close>, and the extraction of parameters from clause bodies.  The slices
  \<open>inner[start..i]\<close> of the parser's loops are computed by \<open>split_commas\<close>.  Depth counters are
  \<open>i32\<close> in the source; no token list is long enough to overflow them, so they are \<open>int\<close>
  (\<open>saturating_sub\<close> on a signed integer goes below zero).  Tokens are ASCII.
\<close>

section \<open>Display and tokens\<close>

fun to_display_string :: "type_expr \<Rightarrow> string" where
  "to_display_string (TNamed name) = name"
| "to_display_string (TGeneric name args) =
     name @ ''<'' @ join '', '' (map to_display_string args) @ ''>''"
| "to_display_string (TTuple elems) =
     (let body = join '', '' (map to_display_string elems)
      in if length elems = 1 then ''('' @ body @ '',)'' else ''('' @ body @ '')'')"
| "to_display_string (TFn params ret) =
     ''fn('' @ join '', '' (map to_display_string params) @ '') -> '' @ to_display_string ret"
| "to_display_string (TRefined base predicate) = ''{ '' @ to_display_string base @ '' | ... }''"
| "to_display_string TUnit = ''()''"

text \<open>The token loop \<open>if i > 0 { push(",") }; extend(..)\<close> of the three list-like forms.\<close>

fun comma_tokens :: "string list list \<Rightarrow> string list" where
  "comma_tokens [] = []"
| "comma_tokens [ts] = ts"
| "comma_tokens (ts # us # tss) = ts @ '','' # comma_tokens (us # tss)"

fun to_tokens :: "type_expr \<Rightarrow> string list" where
  "to_tokens (TNamed name) = (if CHR '' '' \<in> set name then split_whitespace name else [name])"
| "to_tokens (TGeneric name args) = name # ''<'' # comma_tokens (map to_tokens args) @ [''>'']"
| "to_tokens (TTuple elems) = ''('' # comma_tokens (map to_tokens elems) @ ['')'']"
| "to_tokens (TFn params ret) =
     ''fn'' # ''('' # comma_tokens (map to_tokens params) @ '')'' # ''->'' # to_tokens ret"
| "to_tokens (TRefined base predicate) =
     ''{'' # ''x'' # '':'' # to_tokens base @ ''|'' # predicate # [''}'']"
| "to_tokens TUnit = [''('', '')'']"

section \<open>The parser\<close>

definition open_token :: "string \<Rightarrow> bool" where
  "open_token t \<longleftrightarrow> t = ''('' \<or> t = ''['' \<or> t = ''<'' \<or> t = ''{''"

definition close_token :: "string \<Rightarrow> bool" where
  "close_token t \<longleftrightarrow> t = '')'' \<or> t = '']'' \<or> t = ''>'' \<or> t = ''}''"

text \<open>The slices between the commas at depth zero, the last one included.\<close>

fun split_commas :: "int \<Rightarrow> string list \<Rightarrow> string list \<Rightarrow> string list list" where
  "split_commas depth cur [] = [cur]"
| "split_commas depth cur (t # ts) =
     (if open_token t then split_commas (depth + 1) (cur @ [t]) ts
      else if close_token t then split_commas (depth - 1) (cur @ [t]) ts
      else if t = '','' \<and> depth = 0 then cur # split_commas depth [] ts
      else split_commas depth (cur @ [t]) ts)"

text \<open>The scan for \<open>base_end\<close>: the base type of a refinement and the tokens from there on.\<close>

fun refinement_base :: "int \<Rightarrow> string list \<Rightarrow> string list \<times> string list" where
  "refinement_base angle [] = ([], [])"
| "refinement_base angle (t # ts) =
     (if t = ''<'' then (let (b, r) = refinement_base (angle + 1) ts in (t # b, r))
      else if t = ''>'' \<and> angle > 0 then (let (b, r) = refinement_base (angle - 1) ts in (t # b, r))
      else if (t = ''|'' \<or> t = ''}'') \<and> angle = 0 then ([], t # ts)
      else (let (b, r) = refinement_base angle ts in (t # b, r)))"

text \<open>The predicate after the bar: up to a closing brace if that is the last token.\<close>

definition predicate_text :: "string list \<Rightarrow> string" where
  "predicate_text ts = join '' '' (if ts \<noteq> [] \<and> last ts = ''}'' then butlast ts else ts)"

definition token_pos :: "string \<Rightarrow> string list \<Rightarrow> nat option" where
  "token_pos t ts = find_index (\<lambda>u. u = t) ts"

lemma split_commas_bound: "sl \<in> set (split_commas d cur ts) \<Longrightarrow> length sl \<le> length cur + length ts"
  by (induction d cur ts rule: split_commas.induct) (fastforce split: if_splits)+

lemma refinement_base_bound: "refinement_base a ts = (b, r) \<Longrightarrow> length b \<le> length ts"
  by (induction a ts arbitrary: b r rule: refinement_base.induct)
    (auto split: if_splits prod.splits)

lemma token_pos_bound: "token_pos t ts = Some i \<Longrightarrow> i < length ts"
  by (auto simp: token_pos_def dest: find_index_Some)

text \<open>
  The branches of \<open>try_parse_type_tokens\<close> below its early returns, over the parser \<open>p\<close> for
  shorter slices.  \<open>parse_slices\<close> is \<open>try_parse_type_tokens(slice).unwrap_or_else(..)\<close> on the
  slices that are not empty.
\<close>

definition or_named :: "string list \<Rightarrow> type_expr option \<Rightarrow> type_expr" where
  "or_named sl r = (case r of Some t \<Rightarrow> t | None \<Rightarrow> TNamed (join '' '' sl))"

definition parse_slices ::
  "(string list \<Rightarrow> type_expr option) \<Rightarrow> string list list \<Rightarrow> type_expr list" where
  "parse_slices p slices = map (\<lambda>s. or_named s (p s)) (filter (\<lambda>s. s \<noteq> []) slices)"

definition or_unknown :: "type_expr option \<Rightarrow> type_expr" where
  "or_unknown r = (case r of Some t \<Rightarrow> t | None \<Rightarrow> TNamed ''Unknown'')"

definition parse_refinement ::
  "(string list \<Rightarrow> type_expr option) \<Rightarrow> string list \<Rightarrow> type_expr option" where
  "parse_refinement p tokens =
     (let long = (case token_pos '':'' tokens of
         None \<Rightarrow> None
       | Some colon \<Rightarrow>
           (let (base, rest) = refinement_base 0 (drop (colon + 1) tokens)
            in Some (TRefined (or_unknown (p base))
                 (if rest \<noteq> [] \<and> hd rest = ''|'' then predicate_text (tl rest) else []))))
      in case token_pos ''|'' tokens of
           None \<Rightarrow> long
         | Some pipe \<Rightarrow>
             (let base = take (pipe - 1) (drop 1 tokens)
              in if '':'' \<in> set base then long
                 else Some (TRefined (or_unknown (p base)) (predicate_text (drop (pipe + 1) tokens)))))"

definition parse_generic ::
  "(string list \<Rightarrow> type_expr option) \<Rightarrow> string list \<Rightarrow> type_expr option" where
  "parse_generic p tokens =
     (if length tokens \<ge> 4 \<and> tokens ! 1 = ''<'' \<and> last tokens = ''>''
      then (let args = parse_slices p (split_commas 0 [] (butlast (drop 2 tokens)))
            in if args \<noteq> [] then Some (TGeneric (hd tokens) args) else None)
      else None)"

definition parse_tuple ::
  "(string list \<Rightarrow> type_expr option) \<Rightarrow> string list \<Rightarrow> type_expr option" where
  "parse_tuple p tokens =
     (if hd tokens = ''('' \<and> last tokens = '')'' \<and> length tokens \<ge> 3
      then (let slices = split_commas 0 [] (butlast (drop 1 tokens));
                saw_comma = (length slices > 1);
                empty_slot = ([] \<in> set (butlast slices));
                elems = parse_slices p slices
            in if saw_comma then Some (TTuple (if empty_slot \<or> elems = [] then [] else elems))
               else None)
      else None)"

text \<open>\<open>if let Some(r) = a { return Some(r) }\<close>.\<close>

definition or_else :: "'a option \<Rightarrow> 'a option \<Rightarrow> 'a option" where
  "or_else a b = (case a of Some x \<Rightarrow> Some x | None \<Rightarrow> b)"

lemma or_else_simps [simp]: "or_else (Some x) b = Some x" "or_else None b = b"
  by (simp_all add: or_else_def)

lemma parse_slices_cong [fundef_cong]:
  "slices = slices' \<Longrightarrow> (\<And>s. s \<in> set slices' \<Longrightarrow> p s = q s) \<Longrightarrow>
   parse_slices p slices = parse_slices q slices'"
  by (simp add: parse_slices_def cong: map_cong)

lemma parse_refinement_cong [fundef_cong]:
  assumes "tokens = tokens'"
    and "\<And>s. length s < length tokens' \<Longrightarrow> p s = q s"
  shows "parse_refinement p tokens = parse_refinement q tokens'"
proof -
  have long: "p b = q b" if "token_pos '':'' tokens' = Some c"
    "refinement_base 0 (drop (Suc c) tokens') = (b, r)" for b c r
    using refinement_base_bound [OF that(2)] token_pos_bound [OF that(1)] by (auto intro!: assms(2))
  have short: "p (take (i - 1) (drop 1 tokens')) = q (take (i - 1) (drop 1 tokens'))"
    if "token_pos ''|'' tokens' = Some i" for i
    using token_pos_bound [OF that] by (intro assms(2)) auto
  show ?thesis
    unfolding assms(1) parse_refinement_def Let_def
    by (auto simp: long short[simplified] split: option.splits prod.splits)
qed

lemma parse_generic_cong [fundef_cong]:
  assumes "tokens = tokens'" and "\<And>s. length s < length tokens' \<Longrightarrow> p s = q s"
  shows "parse_generic p tokens = parse_generic q tokens'"
proof -
  have "parse_slices p (split_commas 0 [] (butlast (drop 2 tokens'))) =
        parse_slices q (split_commas 0 [] (butlast (drop 2 tokens')))" if "length tokens' \<ge> 4"
    using that by (intro parse_slices_cong refl assms(2)) (auto dest!: split_commas_bound)
  then show ?thesis unfolding assms(1) parse_generic_def by simp
qed

lemma parse_tuple_cong [fundef_cong]:
  assumes "tokens = tokens'" and "\<And>s. length s < length tokens' \<Longrightarrow> p s = q s"
  shows "parse_tuple p tokens = parse_tuple q tokens'"
proof -
  have "parse_slices p (split_commas 0 [] (butlast (drop 1 tokens'))) =
        parse_slices q (split_commas 0 [] (butlast (drop 1 tokens')))" if "length tokens' \<ge> 3"
    using that by (intro parse_slices_cong refl assms(2)) (auto dest!: split_commas_bound)
  then show ?thesis unfolding assms(1) parse_tuple_def by (simp add: Let_def)
qed

function try_parse_type_tokens :: "string list \<Rightarrow> type_expr option" where
  "try_parse_type_tokens tokens =
     (if tokens = [] then Some TUnit
      else if length tokens = 1 then
        (if hd tokens = ''()'' then Some TUnit else Some (TNamed (hd tokens)))
      else if tokens = [''('', '')''] then Some TUnit
      else case token_pos ''@'' tokens of
        Some at_pos \<Rightarrow> try_parse_type_tokens (take at_pos tokens)
      | None \<Rightarrow>
          or_else (if hd tokens = ''{'' then parse_refinement try_parse_type_tokens tokens else None)
            (or_else (parse_generic try_parse_type_tokens tokens)
              (or_else (parse_tuple try_parse_type_tokens tokens)
                (Some (TNamed (join '' '' tokens))))))"
  by pat_completeness auto
termination
  by (relation "measure length") (auto dest: token_pos_bound)

declare try_parse_type_tokens.simps [simp del]

section \<open>The parser inverts the token bridge\<close>

definition special_tokens :: "string list" where
  "special_tokens = [''('', '')'', ''['', '']'', ''<'', ''>'', ''{'', ''}'', '','', ''@'', ''|'', '':'', ''()'']"

definition ident_token :: "string \<Rightarrow> bool" where
  "ident_token n \<longleftrightarrow> n \<noteq> [] \<and> \<not> list_ex is_ws n \<and> n \<notin> set special_tokens"

text \<open>No refinement outside angle brackets: its bar would end an enclosing refinement's base.\<close>

fun angle_safe :: "type_expr \<Rightarrow> bool" where
  "angle_safe (TTuple es) \<longleftrightarrow> list_all angle_safe es"
| "angle_safe (TRefined b p) \<longleftrightarrow> False"
| "angle_safe _ \<longleftrightarrow> True"

text \<open>The type expressions the token bridge keeps.\<close>

fun bridge_wf :: "type_expr \<Rightarrow> bool" where
  "bridge_wf (TNamed n) \<longleftrightarrow> ident_token n"
| "bridge_wf (TGeneric n args) \<longleftrightarrow> ident_token n \<and> args \<noteq> [] \<and> list_all bridge_wf args"
| "bridge_wf (TTuple es) \<longleftrightarrow> length es \<ge> 2 \<and> list_all bridge_wf es"
| "bridge_wf (TFn ps r) \<longleftrightarrow> False"
| "bridge_wf (TRefined b p) \<longleftrightarrow> bridge_wf b \<and> angle_safe b \<and> p \<notin> set special_tokens"
| "bridge_wf TUnit \<longleftrightarrow> True"

lemma ident_token_tokens: "ident_token n \<Longrightarrow> to_tokens (TNamed n) = [n]"
  by (auto simp: ident_token_def list_ex_iff is_ws_def)

lemma plain_token:
  "n \<notin> set special_tokens \<Longrightarrow>
   \<not> open_token n \<and> \<not> close_token n \<and> n \<noteq> '','' \<and> n \<noteq> ''@'' \<and> n \<noteq> ''|'' \<and> n \<noteq> '':'' \<and> n \<noteq> ''()''"
  by (auto simp: special_tokens_def open_token_def close_token_def)

lemma ident_plain: "ident_token n \<Longrightarrow> n \<notin> set special_tokens"
  by (simp add: ident_token_def)

lemma to_tokens_nonempty: "bridge_wf t \<Longrightarrow> to_tokens t \<noteq> []"
  by (cases t) (auto simp: ident_token_tokens simp del: to_tokens.simps(1))

lemma set_comma_tokens: "t \<in> set (comma_tokens tss) \<Longrightarrow> t = '','' \<or> (\<exists>ts \<in> set tss. t \<in> set ts)"
  by (induction tss rule: comma_tokens.induct) auto

lemma no_at_token: "bridge_wf t \<Longrightarrow> ''@'' \<notin> set (to_tokens t)"
proof (induction t)
  case (TNamed n)
  then show ?case using plain_token [of n] by (auto simp: ident_token_tokens ident_plain simp del: to_tokens.simps(1))
next
  case (TGeneric n args)
  then show ?case using plain_token [of n]
    by (auto simp: ident_plain list_all_iff dest!: set_comma_tokens)
next
  case (TTuple es)
  then show ?case by (auto simp: list_all_iff dest!: set_comma_tokens)
next
  case (TRefined b p)
  then show ?case using plain_token [of p] by auto
qed auto

text \<open>
  The tokens of every type expression whose names and predicates are not punctuation: the
  condition under which a splitter passes over them.
\<close>

fun tokens_wf :: "type_expr \<Rightarrow> bool" where
  "tokens_wf (TNamed n) \<longleftrightarrow> ident_token n"
| "tokens_wf (TGeneric n args) \<longleftrightarrow> ident_token n \<and> list_all tokens_wf args"
| "tokens_wf (TTuple es) \<longleftrightarrow> list_all tokens_wf es"
| "tokens_wf (TFn ps r) \<longleftrightarrow> list_all tokens_wf ps \<and> tokens_wf r"
| "tokens_wf (TRefined b p) \<longleftrightarrow> tokens_wf b \<and> p \<notin> set special_tokens"
| "tokens_wf TUnit \<longleftrightarrow> True"

lemma bridge_tokens_wf: "bridge_wf t \<Longrightarrow> tokens_wf t"
  by (induction t) (auto simp: list_all_iff)

text \<open>
  What the comma splitters of the parsers share: they count brackets and cut at a comma at depth
  zero.  A segment is \<open>balanced\<close> when a splitter passes over it at any depth that is not
  negative; the tokens of a type expression are, and so splitting a comma-separated list of
  types gives the types back.
\<close>

locale comma_splitter =
  fixes split :: "int \<Rightarrow> string list \<Rightarrow> string list \<Rightarrow> string list list"
    and opn cls :: "string \<Rightarrow> bool"
  assumes split_Nil: "split d cur [] = [cur]"
    and split_open: "opn t \<Longrightarrow> split d cur (t # ts) = split (d + 1) (cur @ [t]) ts"
    and split_close: "cls t \<Longrightarrow> split d cur (t # ts) = split (d - 1) (cur @ [t]) ts"
    and split_comma: "split 0 cur ('','' # ts) = cur # split 0 [] ts"
    and split_other: "\<not> opn t \<Longrightarrow> \<not> cls t \<Longrightarrow> t = '','' \<longrightarrow> d \<noteq> 0 \<Longrightarrow>
      split d cur (t # ts) = split d (cur @ [t]) ts"
    and brackets: "opn ''<''" "opn ''(''" "cls ''>''" "cls '')''" "opn ''{'' \<longleftrightarrow> cls ''}''"
      "\<not> cls ''{''" "\<not> opn ''}''"
    and plain: "t \<notin> {''<'', ''('', ''['', ''{'', ''>'', '')'', '']'', ''}''} \<Longrightarrow> \<not> opn t \<and> \<not> cls t"
begin

definition balanced :: "string list \<Rightarrow> bool" where
  "balanced ts \<longleftrightarrow> (\<forall>d cur rest. d \<ge> 0 \<longrightarrow> split d cur (ts @ rest) = split d (cur @ ts) rest)"

lemma balancedD: "balanced ts \<Longrightarrow> d \<ge> 0 \<Longrightarrow> split d cur (ts @ rest) = split d (cur @ ts) rest"
  by (simp add: balanced_def)

lemma balanced_plain: "t \<notin> {''<'', ''('', ''['', ''{'', ''>'', '')'', '']'', ''}'', '',''} \<Longrightarrow> balanced [t]"
  using plain [of t] by (simp add: balanced_def split_other)

lemma balanced_append: "balanced ts \<Longrightarrow> balanced us \<Longrightarrow> balanced (ts @ us)"
  by (simp add: balanced_def)

lemma split_inner:
  assumes "\<forall>ts \<in> set tss. balanced ts" and "d > 0"
  shows "split d cur (comma_tokens tss @ rest) = split d (cur @ comma_tokens tss) rest"
  using assms
proof (induction tss arbitrary: cur rule: comma_tokens.induct)
  case (3 ts us tss)
  then show ?case using plain [of "'',''"] by (simp add: balancedD split_other)
qed (simp_all add: balancedD)

lemma split_list:
  assumes "\<forall>ts \<in> set tss. balanced ts" and "tss \<noteq> []"
  shows "split 0 cur (comma_tokens tss) = (cur @ hd tss) # tl tss"
  using assms
proof (induction tss arbitrary: cur rule: comma_tokens.induct)
  case (2 ts)
  then show ?case using balancedD [of ts 0 cur "[]"] by (simp add: split_Nil)
next
  case (3 ts us tss)
  then show ?case by (simp add: balancedD split_comma)
qed simp

lemma balanced_brackets:
  assumes "opn a" and "cls b" and "\<forall>ts \<in> set tss. balanced ts"
  shows "balanced (a # comma_tokens tss @ [b])"
  using assms by (simp add: balanced_def split_open split_close split_inner)

lemma balanced_braces: "balanced ts \<Longrightarrow> balanced (''{'' # ts @ [''}''])"
  using brackets
  by (cases "opn ''{''") (simp_all add: balanced_def split_open split_close split_other)

lemma balanced_ident: "n \<notin> set special_tokens \<Longrightarrow> balanced [n]"
  by (rule balanced_plain) (auto simp: special_tokens_def)

lemma balanced_to_tokens: "tokens_wf t \<Longrightarrow> balanced (to_tokens t)"
proof (induction t)
  case (TNamed n)
  then show ?case by (simp add: ident_token_tokens ident_plain balanced_ident del: to_tokens.simps(1))
next
  case (TGeneric n args)
  then have "balanced ([n] @ (''<'' # comma_tokens (map to_tokens args) @ [''>'']))"
    by (intro balanced_append balanced_ident balanced_brackets)
      (auto simp: ident_plain brackets list_all_iff)
  then show ?case by simp
next
  case (TTuple es)
  then show ?case by (auto intro!: balanced_brackets simp: brackets list_all_iff)
next
  case (TFn ps r)
  then have "balanced ([''fn''] @ (''('' # comma_tokens (map to_tokens ps) @ ['')'']) @ [''->''] @ to_tokens r)"
    by (intro balanced_append balanced_plain balanced_brackets) (auto simp: brackets list_all_iff)
  then show ?case by simp
next
  case (TRefined b p)
  then have "balanced (''{'' # ([''x''] @ ['':''] @ to_tokens b @ [''|''] @ [p]) @ [''}''])"
    by (intro balanced_braces balanced_append balanced_plain balanced_ident) simp_all
  then show ?case by simp
next
  case TUnit
  then show ?case using balanced_brackets [of "''(''" "'')''" "[]"] by (simp add: brackets)
qed

lemma split_types:
  assumes "list_all tokens_wf es" and "es \<noteq> []"
  shows "split 0 [] (comma_tokens (map to_tokens es)) = map to_tokens es"
  using assms split_list [of "map to_tokens es" "[]"]
  by (cases es) (auto simp: list_all_iff balanced_to_tokens)

end

interpretation sc: comma_splitter split_commas open_token close_token
  by unfold_locales (auto simp: open_token_def close_token_def)

text \<open>The scan for the base of a refinement passes over a base type.\<close>

definition angle_pass :: "bool \<Rightarrow> string list \<Rightarrow> bool" where
  "angle_pass safe ts \<longleftrightarrow> (\<forall>a rest. a > 0 \<or> safe \<and> a = 0 \<longrightarrow>
     refinement_base a (ts @ rest) = (let (b, r) = refinement_base a rest in (ts @ b, r)))"

lemma angle_passD:
  "angle_pass safe ts \<Longrightarrow> a > 0 \<or> safe \<and> a = 0 \<Longrightarrow>
   refinement_base a (ts @ rest) = (let (b, r) = refinement_base a rest in (ts @ b, r))"
  unfolding angle_pass_def by blast

lemma angle_pass_append: "angle_pass s ts \<Longrightarrow> angle_pass s us \<Longrightarrow> angle_pass s (ts @ us)"
  by (simp add: angle_pass_def split: prod.splits)

lemma angle_pass_plain: "n \<notin> {''<'', ''>'', ''|'', ''}''} \<Longrightarrow> angle_pass s [n]"
  by (auto simp: angle_pass_def)

lemma angle_pass_weaken: "angle_pass s ts \<Longrightarrow> (s' \<Longrightarrow> s) \<Longrightarrow> angle_pass s' ts"
  unfolding angle_pass_def by blast

lemma angle_pass_False: "angle_pass s ts \<Longrightarrow> angle_pass False ts"
  by (erule angle_pass_weaken) simp

lemma angle_pass_Cons: "angle_pass s [t] \<Longrightarrow> angle_pass s ts \<Longrightarrow> angle_pass s (t # ts)"
  using angle_pass_append [of s "[t]" ts] by simp

lemma angle_pass_commas: "\<forall>ts \<in> set tss. angle_pass s ts \<Longrightarrow> angle_pass s (comma_tokens tss)"
  by (induction tss rule: comma_tokens.induct)
    (auto intro!: angle_pass_append angle_pass_Cons angle_pass_plain simp: angle_pass_def [of _ "[]"])

lemma angle_pass_angles: "angle_pass False ts \<Longrightarrow> angle_pass s (''<'' # ts @ [''>''])"
  by (auto simp: angle_pass_def split: prod.splits)

lemma angle_pass_close: "t \<noteq> ''<'' \<Longrightarrow> t \<noteq> ''>'' \<Longrightarrow> angle_pass False [t]"
  by (auto simp: angle_pass_def)

lemma angle_pass_to_tokens: "bridge_wf t \<Longrightarrow> angle_pass (angle_safe t) (to_tokens t)"
proof (induction t)
  case (TNamed n)
  then show ?case
    by (auto simp: ident_token_tokens ident_token_def special_tokens_def intro!: angle_pass_plain
        simp del: to_tokens.simps(1))
next
  case (TGeneric n args)
  then have "angle_pass True ([n] @ (''<'' # comma_tokens (map to_tokens args) @ [''>'']))"
    by (intro angle_pass_append angle_pass_plain angle_pass_angles angle_pass_commas)
      (auto simp: ident_token_def special_tokens_def list_all_iff intro: angle_pass_False)
  then show ?case by simp
next
  case (TTuple es)
  have "angle_pass (angle_safe (TTuple es)) (to_tokens e)" if "e \<in> set es" for e
  proof (rule angle_pass_weaken)
    show "angle_pass (angle_safe e) (to_tokens e)"
      using TTuple.prems that by (intro TTuple.IH that) (simp add: list_all_iff)
    show "angle_safe (TTuple es) \<Longrightarrow> angle_safe e" using that by (simp add: list_all_iff)
  qed
  then have "angle_pass (angle_safe (TTuple es)) ([''(''] @ comma_tokens (map to_tokens es) @ ['')''])"
    by (intro angle_pass_append angle_pass_plain angle_pass_commas) auto
  then show ?case by (simp del: angle_safe.simps)
next
  case (TRefined b p)
  then have "angle_pass False (to_tokens b)" and "p \<noteq> ''<'' \<and> p \<noteq> ''>''"
    by (auto simp: special_tokens_def intro: angle_pass_False)
  then show ?case
    by (auto intro!: angle_pass_append angle_pass_Cons angle_pass_close)
next
  case TUnit
  then show ?case by (auto intro!: angle_pass_Cons angle_pass_plain)
qed simp

lemma token_pos_None: "token_pos t ts = None \<longleftrightarrow> t \<notin> set ts"
  by (auto simp: token_pos_def find_index_None)

lemma token_pos_append:
  "t \<notin> set ts \<Longrightarrow> token_pos t (ts @ us) = map_option ((+) (length ts)) (token_pos t us)"
  unfolding token_pos_def by (rule find_index_append) auto

lemma token_pos_Cons: "token_pos t (u # us) = (if u = t then Some 0 else map_option Suc (token_pos t us))"
  by (simp add: token_pos_def)

lemma parse_slices_tokens:
  assumes "\<And>e. e \<in> set es \<Longrightarrow> p (to_tokens e) = Some e" and "list_all bridge_wf es"
  shows "parse_slices p (map to_tokens es) = es"
proof -
  have "filter (\<lambda>s. s \<noteq> []) (map to_tokens es) = map to_tokens es"
    using assms(2) by (auto simp: list_all_iff to_tokens_nonempty)
  then show ?thesis
    using assms(1) by (simp add: parse_slices_def or_named_def map_idI)
qed

lemma split_to_tokens:
  "list_all bridge_wf es \<Longrightarrow> es \<noteq> [] \<Longrightarrow> split_commas 0 [] (comma_tokens (map to_tokens es)) = map to_tokens es"
  by (rule sc.split_types) (auto simp: list_all_iff bridge_tokens_wf)

lemma comma_tokens_nonempty: "tss \<noteq> [] \<Longrightarrow> hd tss \<noteq> [] \<Longrightarrow> comma_tokens tss \<noteq> []"
  by (induction tss rule: comma_tokens.induct) auto

lemma comma_tokens_es_nonempty:
  "list_all bridge_wf es \<Longrightarrow> es \<noteq> [] \<Longrightarrow> comma_tokens (map to_tokens es) \<noteq> []"
  by (rule comma_tokens_nonempty) (cases es; simp add: to_tokens_nonempty)+

lemma length_ge_1: "xs \<noteq> [] \<Longrightarrow> Suc 0 \<le> length xs"
  by (cases xs) auto

lemma parse_generic_tokens:
  assumes "ident_token n" and "args \<noteq> []" and "list_all bridge_wf args"
    and "\<And>e. e \<in> set args \<Longrightarrow> p (to_tokens e) = Some e"
  shows "parse_generic p (to_tokens (TGeneric n args)) = Some (TGeneric n args)"
  using assms parse_slices_tokens [of args p] length_ge_1 [OF comma_tokens_es_nonempty [of args]]
  by (simp add: parse_generic_def split_to_tokens butlast_append)

lemma parse_tuple_tokens:
  assumes "length es \<ge> 2" and "list_all bridge_wf es"
    and "\<And>e. e \<in> set es \<Longrightarrow> p (to_tokens e) = Some e"
  shows "parse_tuple p (to_tokens (TTuple es)) = Some (TTuple es)"
proof -
  have "es \<noteq> []" using assms(1) by auto
  moreover have "[] \<notin> set (butlast (map to_tokens es))"
    using assms(2) to_tokens_nonempty by (fastforce simp: list_all_iff dest!: in_set_butlastD)
  ultimately show ?thesis
    using assms parse_slices_tokens [of es p] length_ge_1 [OF comma_tokens_es_nonempty [of es]]
    by (simp add: parse_tuple_def split_to_tokens butlast_append)
qed

lemma parse_refinement_tokens:
  assumes "bridge_wf b" and "angle_safe b" and "p (to_tokens b) = Some b" and "q \<notin> set special_tokens"
  shows "parse_refinement p (to_tokens (TRefined b q)) = Some (TRefined b q)"
proof -
  have "refinement_base 0 (to_tokens b @ [''|'', q, ''}'']) = (to_tokens b, [''|'', q, ''}''])"
    using angle_passD [OF angle_pass_to_tokens [OF assms(1)]] assms(2) by simp
  moreover have "'':'' \<in> set (take (i - 1) (drop 1 (to_tokens (TRefined b q))))"
    if "token_pos ''|'' (to_tokens (TRefined b q)) = Some i" for i
  proof -
    have "i \<ge> 3" using that by (auto simp: token_pos_Cons split: if_splits)
    then obtain k where "i = Suc (Suc (Suc k))" by (metis numeral_3_eq_3 Suc_le_D Suc_le_mono)
    then show ?thesis by simp
  qed
  moreover have "token_pos ''|'' (to_tokens (TRefined b q)) \<noteq> None"
    by (simp add: token_pos_None)
  moreover have "token_pos '':'' (to_tokens (TRefined b q)) = Some 2"
    by (simp add: token_pos_Cons)
  ultimately show ?thesis
    using assms(3)
    by (auto simp: parse_refinement_def predicate_text_def or_unknown_def split: option.splits)
qed

lemma type_expr_roundtrip: "bridge_wf t \<Longrightarrow> try_parse_type_tokens (to_tokens t) = Some t"
proof (induction t)
  case (TNamed n)
  then show ?case using plain_token [of n]
    by (simp add: ident_token_tokens ident_plain try_parse_type_tokens.simps del: to_tokens.simps(1))
next
  case (TGeneric n args)
  have "parse_generic try_parse_type_tokens (to_tokens (TGeneric n args)) = Some (TGeneric n args)"
    using TGeneric.prems by (intro parse_generic_tokens TGeneric.IH) (auto simp: list_all_iff)
  moreover have "n \<noteq> ''{''" using TGeneric.prems by (auto simp: ident_token_def special_tokens_def)
  moreover have "token_pos ''@'' (to_tokens (TGeneric n args)) = None"
    using no_at_token [OF TGeneric.prems] by (simp only: token_pos_None not_False_eq_True)
  ultimately show ?case by (subst try_parse_type_tokens.simps) simp
next
  case (TTuple es)
  have "parse_tuple try_parse_type_tokens (to_tokens (TTuple es)) = Some (TTuple es)"
    using TTuple.prems by (intro parse_tuple_tokens TTuple.IH) (auto simp: list_all_iff)
  moreover have "token_pos ''@'' (to_tokens (TTuple es)) = None"
    using no_at_token [OF TTuple.prems] by (simp only: token_pos_None not_False_eq_True)
  moreover have "comma_tokens (map to_tokens es) \<noteq> []"
    using TTuple.prems by (intro comma_tokens_es_nonempty) auto
  ultimately show ?case
    by (subst try_parse_type_tokens.simps) (simp add: parse_generic_def)
next
  case (TRefined b q)
  then have "parse_refinement try_parse_type_tokens (to_tokens (TRefined b q)) = Some (TRefined b q)"
    by (intro parse_refinement_tokens) auto
  moreover have "token_pos ''@'' (to_tokens (TRefined b q)) = None"
    using no_at_token [OF TRefined.prems] by (simp only: token_pos_None not_False_eq_True)
  ultimately show ?case by (subst try_parse_type_tokens.simps) simp
next
  case TUnit
  then show ?case by (simp add: try_parse_type_tokens.simps)
qed simp

text \<open>C21: reading back the tokens of a type expression gives the type expression, for type expressions
  made of identifiers, generics with at least one argument, tuples of at least two components,
  refinements by one word that do not nest outside angle brackets, and the unit type, at any depth of
  nesting.  Function types and tuples of one component are lost (\<open>fn_type_lost\<close>, \<open>one_tuple_lost\<close>).\<close>

theorem type_expr_token_roundtrip: "bridge_wf t \<Longrightarrow> try_parse_type_tokens (to_tokens t) = Some t"
  by (rule type_expr_roundtrip)

lemma type_expr_token_roundtrip_witness:
  "try_parse_type_tokens (to_tokens (TGeneric ''Map'' [TTuple [TNamed ''Int'', TUnit],
     TRefined (TGeneric ''List'' [TNamed ''Nat'']) ''v > 0''])) =
   Some (TGeneric ''Map'' [TTuple [TNamed ''Int'', TUnit],
     TRefined (TGeneric ''List'' [TNamed ''Nat'']) ''v > 0''])"
  by (rule type_expr_token_roundtrip)
    (simp add: ident_token_def special_tokens_def is_ws_def)

text \<open>
  The parser gives a result on every token list, the empty one included; the comment above it
  says that an empty slice may give \<open>None\<close>.
\<close>

lemma or_else_None: "or_else a b = None \<longleftrightarrow> a = None \<and> b = None"
  by (cases a) auto

lemma try_parse_total: "try_parse_type_tokens tokens \<noteq> None"
proof (induction tokens rule: measure_induct_rule [of length])
  case (less tokens)
  show ?case
    unfolding try_parse_type_tokens.simps [of tokens]
    by (auto simp: or_else_None simp del: not_None_eq split: option.split
        intro!: less [unfolded not_None_eq] dest: token_pos_bound)
qed

text \<open>
  Two forms the bridge loses: a one-component tuple, whose tokens have no comma although its
  display has one, comes back as a name; so does a function type.
\<close>

lemma one_tuple_lost:
  "to_tokens (TTuple [TNamed ''Int'']) = [''('', ''Int'', '')'']"
  "to_display_string (TTuple [TNamed ''Int'']) = ''(Int,)''"
  "try_parse_type_tokens [''('', ''Int'', '')''] = Some (TNamed ''( Int )'')"
  by (simp_all add: try_parse_type_tokens.simps token_pos_def parse_generic_def parse_tuple_def
      open_token_def close_token_def)

lemma fn_type_lost:
  "try_parse_type_tokens (to_tokens (TFn [TNamed ''Int''] (TNamed ''Bool''))) =
   Some (TNamed ''fn ( Int ) -> Bool'')"
  by (simp add: try_parse_type_tokens.simps token_pos_def parse_generic_def parse_tuple_def)

section \<open>Invalid empty tuples\<close>

fun type_expr_is_invalid_empty_tuple :: "type_expr \<Rightarrow> bool" where
  "type_expr_is_invalid_empty_tuple (TTuple elems) \<longleftrightarrow>
     elems = [] \<or> list_ex type_expr_is_invalid_empty_tuple elems"
| "type_expr_is_invalid_empty_tuple (TGeneric n args) \<longleftrightarrow> list_ex type_expr_is_invalid_empty_tuple args"
| "type_expr_is_invalid_empty_tuple (TFn params ret) \<longleftrightarrow>
     list_ex type_expr_is_invalid_empty_tuple params \<or> type_expr_is_invalid_empty_tuple ret"
| "type_expr_is_invalid_empty_tuple (TRefined base p) \<longleftrightarrow> type_expr_is_invalid_empty_tuple base"
| "type_expr_is_invalid_empty_tuple (TNamed n) \<longleftrightarrow> False"
| "type_expr_is_invalid_empty_tuple TUnit \<longleftrightarrow> False"

lemma bridge_wf_valid: "bridge_wf t \<Longrightarrow> \<not> type_expr_is_invalid_empty_tuple t"
  by (induction t) (auto simp: list_all_iff list_ex_iff)

section \<open>Parameters of a clause\<close>

text \<open>
  The scan for the end of a parameter's type, \<open>tokens[type_start..j]\<close> and the rest, with the
  counters of open angle brackets, braces and parentheses: inside braces the angle brackets are
  comparison operators.
\<close>

definition scan_counters :: "string \<Rightarrow> int \<times> int \<times> int \<Rightarrow> int \<times> int \<times> int" where
  "scan_counters t = (\<lambda>(angle, brace, paren).
     if t = ''<'' \<and> brace = 0 then (angle + 1, brace, paren)
     else if t = ''>'' \<and> brace = 0 \<and> angle > 0 then (angle - 1, brace, paren)
     else if t = ''{'' then (angle, brace + 1, paren)
     else if t = ''}'' \<and> brace > 0 then (angle, brace - 1, paren)
     else if t = ''('' then (angle, brace, paren + 1)
     else if t = '')'' \<and> paren > 0 then (angle, brace, paren - 1)
     else (angle, brace, paren))"

fun scan_param_type :: "int \<times> int \<times> int \<Rightarrow> string list \<Rightarrow> string list \<times> string list" where
  "scan_param_type st [] = ([], [])"
| "scan_param_type st (t # ts) =
     (if t = '','' \<and> st = (0, 0, 0) then ([], t # ts)
      else (case scan_param_type (scan_counters t st) ts of (ty, rest) \<Rightarrow> (t # ty, rest)))"

lemma scan_param_type_bound: "scan_param_type st ts = (ty, rest) \<Longrightarrow> length rest \<le> length ts"
  by (induction st ts arbitrary: ty rest rule: scan_param_type.induct)
    (auto split: if_splits prod.splits)

text \<open>\<open>c.is_alphabetic() || c == '_'\<close> on an ASCII token.\<close>

definition starts_like_ident :: "string \<Rightarrow> bool" where
  "starts_like_ident s = (case s of [] \<Rightarrow> False
     | c # cs \<Rightarrow> (let n = of_char c :: nat in
         65 \<le> n \<and> n \<le> 90 \<or> 97 \<le> n \<and> n \<le> 122 \<or> c = CHR ''_''))"

function (sequential) extract_clause_params_from_raw :: "string list \<Rightarrow> parsed_param list" where
  "extract_clause_params_from_raw [] = []"
| "extract_clause_params_from_raw (t # ts) =
     (if t = '','' then extract_clause_params_from_raw ts
      else if length ts \<ge> 2 \<and> (hd ts = '':'' \<or> hd ts = ''as'')
      then (case scan_param_type (0, 0, 0) (tl ts) of (ty, rest) \<Rightarrow>
              \<lparr>pp_name = t, pp_ty = try_parse_type_tokens ty\<rparr> # extract_clause_params_from_raw rest)
      else (if starts_like_ident t then [\<lparr>pp_name = t, pp_ty = None\<rparr>] else [])
             @ extract_clause_params_from_raw ts)"
  by pat_completeness auto
termination
proof (relation "measure length", goal_cases)
  case (3 t ts ty rest)
  then have "length rest \<le> length (tl ts)"
    using scan_param_type_bound [of "(0, 0, 0)" "tl ts" ty rest] by simp
  with 3 show ?case by (cases ts) auto
qed auto

fun extract_single_param :: "sp_expr \<Rightarrow> parsed_param list" where
  "extract_single_param (Spanned (Cast (Spanned (Ident name) s') ty) s) =
     [\<lparr>pp_name = name, pp_ty = try_parse_type_tokens [ty]\<rparr>]"
| "extract_single_param (Spanned (Ident name) s) = [\<lparr>pp_name = name, pp_ty = None\<rparr>]"
| "extract_single_param _ = []"

fun extract_clause_params :: "sp_expr \<Rightarrow> parsed_param list" where
  "extract_clause_params (Spanned (Call f args) s) = concat (map extract_single_param args)"
| "extract_clause_params (Spanned (Cast (Spanned (Ident name) s') ty) s) =
     [\<lparr>pp_name = name, pp_ty = try_parse_type_tokens [ty]\<rparr>]"
| "extract_clause_params (Spanned (Ident name) s) = [\<lparr>pp_name = name, pp_ty = None\<rparr>]"
| "extract_clause_params (Spanned (TupleE items) s) = concat (map extract_single_param items)"
| "extract_clause_params (Spanned (BlockE items) s) = concat (map extract_single_param items)"
| "extract_clause_params (Spanned (Raw tokens) s) = extract_clause_params_from_raw tokens"
| "extract_clause_params _ = []"

text \<open>A segment the scan passes over, in any state and in a nested one.\<close>

definition scan_pass :: "bool \<Rightarrow> string list \<Rightarrow> bool" where
  "scan_pass outer ts \<longleftrightarrow> (\<forall>a b p rest. a \<ge> 0 \<and> b \<ge> 0 \<and> p \<ge> 0 \<and> (outer \<or> a > 0 \<or> b > 0 \<or> p > 0) \<longrightarrow>
     scan_param_type (a, b, p) (ts @ rest) = (let (ty, r) = scan_param_type (a, b, p) rest in (ts @ ty, r)))"

lemma scan_passD:
  "scan_pass outer ts \<Longrightarrow> a \<ge> 0 \<Longrightarrow> b \<ge> 0 \<Longrightarrow> p \<ge> 0 \<Longrightarrow> outer \<or> a > 0 \<or> b > 0 \<or> p > 0 \<Longrightarrow>
   scan_param_type (a, b, p) (ts @ rest) = (let (ty, r) = scan_param_type (a, b, p) rest in (ts @ ty, r))"
  unfolding scan_pass_def by blast

lemma scan_pass_append: "scan_pass s ts \<Longrightarrow> scan_pass s us \<Longrightarrow> scan_pass s (ts @ us)"
  by (simp add: scan_pass_def split: prod.splits)

lemma scan_pass_nested: "scan_pass True ts \<Longrightarrow> scan_pass s ts"
  unfolding scan_pass_def by blast

lemma scan_pass_plain:
  "n \<notin> {''<'', ''>'', ''{'', ''}'', ''('', '')'', '',''} \<Longrightarrow> scan_pass s [n]"
  by (auto simp: scan_pass_def scan_counters_def)

lemma scan_pass_comma: "scan_pass False ['','']"
  by (auto simp: scan_pass_def scan_counters_def)

lemma scan_pass_commas: "\<forall>ts \<in> set tss. scan_pass True ts \<Longrightarrow> scan_pass False (comma_tokens tss)"
proof (induction tss rule: comma_tokens.induct)
  case (3 ts us tss)
  then have "scan_pass False (ts @ ['',''] @ comma_tokens (us # tss))"
    by (intro scan_pass_append scan_pass_comma) (auto intro: scan_pass_nested)
  then show ?case by simp
qed (auto intro: scan_pass_nested simp: scan_pass_def)

lemma scan_pass_brackets:
  assumes "scan_pass False ts"
  shows "scan_pass True (''<'' # ts @ [''>''])"
    and "scan_pass True (''('' # ts @ ['')''])"
    and "scan_pass True (''{'' # ts @ [''}''])"
  by (auto simp: scan_pass_def scan_counters_def scan_passD [OF assms] split: prod.splits)

lemma scan_pass_to_tokens: "bridge_wf t \<Longrightarrow> scan_pass True (to_tokens t)"
proof (induction t)
  case (TNamed n)
  then show ?case
    by (auto simp: ident_token_tokens ident_token_def special_tokens_def intro!: scan_pass_plain
        simp del: to_tokens.simps(1))
next
  case (TGeneric n args)
  have "scan_pass True ([n] @ (''<'' # comma_tokens (map to_tokens args) @ [''>'']))"
    using TGeneric.prems
    by (intro scan_pass_append scan_pass_plain scan_pass_brackets scan_pass_commas)
      (auto simp: ident_token_def special_tokens_def list_all_iff TGeneric.IH)
  then show ?case by simp
next
  case (TTuple es)
  have "scan_pass True (''('' # comma_tokens (map to_tokens es) @ ['')''])"
    using TTuple.prems by (intro scan_pass_brackets scan_pass_commas) (auto simp: list_all_iff TTuple.IH)
  then show ?case by simp
next
  case (TRefined b q)
  then have b: "scan_pass True (to_tokens b)" and q: "q \<notin> set special_tokens" by simp_all
  have "scan_pass True (''{'' # ([''x''] @ ['':''] @ to_tokens b @ [''|''] @ [q]) @ [''}''])"
    using q by (intro scan_pass_brackets scan_pass_append scan_pass_plain scan_pass_nested [OF b])
      (auto simp: special_tokens_def)
  then show ?case by simp
next
  case TUnit
  have "scan_pass True (''('' # [] @ ['')''])" by (rule scan_pass_brackets) (simp add: scan_pass_def)
  then show ?case by simp
qed simp

definition param_tokens :: "string \<times> type_expr \<Rightarrow> string list" where
  "param_tokens nt = fst nt # '':'' # to_tokens (snd nt)"

lemma extract_param_tokens:
  assumes "ident_token n" and "bridge_wf t"
    and "scan_param_type (0, 0, 0) rest = ([], rest)"
  shows "extract_clause_params_from_raw (param_tokens (n, t) @ rest) =
         \<lparr>pp_name = n, pp_ty = Some t\<rparr> # extract_clause_params_from_raw rest"
proof -
  have "scan_param_type (0, 0, 0) (to_tokens t @ rest) = (to_tokens t, rest)"
    using scan_passD [OF scan_pass_to_tokens [OF assms(2)], of 0 0 0 rest] assms(3) by simp
  moreover have "n \<noteq> '',''" using assms(1) by (auto simp: ident_token_def special_tokens_def)
  moreover have "Suc 0 \<le> length (to_tokens t)"
    by (intro length_ge_1 to_tokens_nonempty assms(2))
  ultimately show ?thesis
    using type_expr_roundtrip [OF assms(2)] by (simp add: param_tokens_def)
qed

text \<open>C23: a clause body written as raw tokens, parameters \<open>name : type\<close> separated by commas, gives
  back exactly its parameters with their types, in their order, where the names are identifiers and the
  types are ones the tokens keep (no function types, no tuples of one component, nothing from \<open>@\<close> on):
  no comma, angle bracket, brace or parenthesis inside a type splits it.\<close>

theorem clause_params_roundtrip:
  "list_all (\<lambda>(n, t). ident_token n \<and> bridge_wf t) ps \<Longrightarrow>
   extract_clause_params (Spanned (Raw (comma_tokens (map param_tokens ps))) s) =
   map (\<lambda>(n, t). \<lparr>pp_name = n, pp_ty = Some t\<rparr>) ps"
proof (induction ps rule: induct_list012)
  case (2 p)
  then show ?case using extract_param_tokens [of "fst p" "snd p" "[]"] by (cases p) auto
next
  case (3 p q ps)
  then show ?case
    using extract_param_tokens [of "fst p" "snd p" "'','' # comma_tokens (map param_tokens (q # ps))"]
    by (cases p) auto
qed simp

lemma clause_params_roundtrip_witness:
  "extract_clause_params (Spanned (Raw (comma_tokens (map param_tokens
     [(''m'', TGeneric ''Map'' [TNamed ''Int'', TNamed ''Bool'']), (''n'', TNamed ''Nat'')]))) (0, 9)) =
   [\<lparr>pp_name = ''m'', pp_ty = Some (TGeneric ''Map'' [TNamed ''Int'', TNamed ''Bool''])\<rparr>,
    \<lparr>pp_name = ''n'', pp_ty = Some (TNamed ''Nat'')\<rparr>]"
  by (subst clause_params_roundtrip) (simp_all add: ident_token_def special_tokens_def is_ws_def)

end
