(* ===== verification/Type_Core.thy ===== *)
theory Type_Core
  imports Hash_Map Ast_Display Type_Expr
begin

text \<open>
  The types of the checker and the typing environment: \<open>Type\<close>, its display, \<open>builtin_type\<close> and
  \<open>TypeEnv\<close> of \<open>crates/assura-types/src/types.rs\<close>, and the two conversions of
  \<open>crates/assura-types/src/convert.rs\<close>, from structured type expressions and from raw tokens.
  The environment's interface is the locale \<open>scoped_env\<close>.
\<close>

section \<open>Types\<close>

datatype ty =
  TyInt | TyNat | TyFloat | TyBool | TyString | TyBytes | TyUnit | TyNever
| TyU8 | TyU16 | TyU32 | TyU64 | TyI8 | TyI16 | TyI32 | TyI64 | TyF32 | TyF64
| TyList ty
| TyMap ty ty
| TySet ty
| TyOption ty
| TyResult ty ty
| TySequence ty
| TyNamed string
| TyTypeParam string
| TyFn "ty list" ty
| TyTuple "ty list"
| TyRefined ty sp_expr string
| TyUnknown
| TyError

fun is_indeterminate :: "ty \<Rightarrow> bool" where
  "is_indeterminate TyUnknown \<longleftrightarrow> True"
| "is_indeterminate TyError \<longleftrightarrow> True"
| "is_indeterminate _ \<longleftrightarrow> False"

definition refined_from_str :: "ty \<Rightarrow> string \<Rightarrow> string \<Rightarrow> ty" where
  "refined_from_str base bound_var text =
     TyRefined base (no_span (Raw (if text = [] then [] else split_whitespace text)))
       bound_var"

fun predicate_str :: "ty \<Rightarrow> string option" where
  "predicate_str (TyRefined base predicate bound_var) =
     (let s = expr_to_string predicate in if s = [] then None else Some s)"
| "predicate_str _ = None"

definition builtin_type :: "string \<Rightarrow> ty option" where
  "builtin_type name = map_of
     [(''Int'', TyInt), (''Nat'', TyNat), (''Float'', TyFloat), (''Bool'', TyBool),
      (''String'', TyString), (''Bytes'', TyBytes), (''Unit'', TyUnit), (''Never'', TyNever),
      (''U8'', TyU8), (''U16'', TyU16), (''U32'', TyU32), (''U64'', TyU64),
      (''I8'', TyI8), (''I16'', TyI16), (''I32'', TyI32), (''I64'', TyI64),
      (''F32'', TyF32), (''F64'', TyF64), (''List'', TyList TyUnknown),
      (''Map'', TyMap TyUnknown TyUnknown), (''Set'', TySet TyUnknown),
      (''Option'', TyOption TyUnknown), (''Result'', TyResult TyUnknown TyUnknown),
      (''Sequence'', TySequence TyUnknown)] name"

fun type_display :: "ty \<Rightarrow> string" where
  "type_display TyInt = ''Int''"
| "type_display TyNat = ''Nat''"
| "type_display TyFloat = ''Float''"
| "type_display TyBool = ''Bool''"
| "type_display TyString = ''String''"
| "type_display TyBytes = ''Bytes''"
| "type_display TyUnit = ''Unit''"
| "type_display TyNever = ''Never''"
| "type_display TyU8 = ''U8''"
| "type_display TyU16 = ''U16''"
| "type_display TyU32 = ''U32''"
| "type_display TyU64 = ''U64''"
| "type_display TyI8 = ''I8''"
| "type_display TyI16 = ''I16''"
| "type_display TyI32 = ''I32''"
| "type_display TyI64 = ''I64''"
| "type_display TyF32 = ''F32''"
| "type_display TyF64 = ''F64''"
| "type_display (TyList t) = ''List<'' @ type_display t @ ''>''"
| "type_display (TyMap k v) = ''Map<'' @ type_display k @ '', '' @ type_display v @ ''>''"
| "type_display (TySet t) = ''Set<'' @ type_display t @ ''>''"
| "type_display (TyOption t) = ''Option<'' @ type_display t @ ''>''"
| "type_display (TyResult t e) = ''Result<'' @ type_display t @ '', '' @ type_display e @ ''>''"
| "type_display (TySequence t) = ''Sequence<'' @ type_display t @ ''>''"
| "type_display (TyNamed n) = n"
| "type_display (TyTypeParam n) = n"
| "type_display (TyFn params ret) =
     ''fn('' @ join '', '' (map type_display params) @ '') -> '' @ type_display ret"
| "type_display (TyTuple elems) =
     ''('' @ join '', '' (map type_display elems) @ (if length elems = 1 then '','' else []) @ '')''"
| "type_display (TyRefined base predicate bound_var) =
     (let pred_str = expr_to_string predicate in
      if pred_str = [] then type_display base
      else ''{ '' @ bound_var @ '' : '' @ type_display base @ '' | '' @ pred_str @ '' }'')"
| "type_display TyUnknown = ''Unknown''"
| "type_display TyError = ''<error>''"

text \<open>A built-in name that is not a bare container displays as itself.\<close>

lemma builtin_type_display:
  "builtin_type n = Some t \<Longrightarrow> n \<notin> {''List'', ''Map'', ''Set'', ''Option'', ''Result'', ''Sequence''} \<Longrightarrow>
   type_display t = n"
  by (auto simp: builtin_type_def split: if_splits)

section \<open>The typing environment\<close>

record type_env =
  env_scopes :: "(string, ty) hmap list"
  env_struct_fields :: "(string, (string \<times> ty) list) hmap"

definition env_new :: type_env where
  "env_new = \<lparr>env_scopes = [hm_empty], env_struct_fields = hm_empty\<rparr>"

definition push_scope :: "type_env \<Rightarrow> type_env" where
  "push_scope env = env\<lparr>env_scopes := env_scopes env @ [hm_empty]\<rparr>"

text \<open>The assertion of \<open>pop_scope\<close> and the \<open>expect\<close> of \<open>insert\<close> panic: the result is \<open>None\<close>.\<close>

definition pop_scope :: "type_env \<Rightarrow> type_env option" where
  "pop_scope env = (if length (env_scopes env) > 1
     then Some (env\<lparr>env_scopes := butlast (env_scopes env)\<rparr>) else None)"

definition env_depth :: "type_env \<Rightarrow> nat" where
  "env_depth env = length (env_scopes env) - 1"

definition env_insert :: "string \<Rightarrow> ty \<Rightarrow> type_env \<Rightarrow> (ty option \<times> type_env) option" where
  "env_insert name t env =
     (if env_scopes env = [] then None
      else (let scope = last (env_scopes env)
            in Some (hm_get scope name,
                     env\<lparr>env_scopes := butlast (env_scopes env) @ [hm_insert name t scope]\<rparr>)))"

fun lookup_scopes :: "(string, ty) hmap list \<Rightarrow> string \<Rightarrow> ty option" where
  "lookup_scopes [] name = None"
| "lookup_scopes (scope # scopes) name =
     (case hm_get scope name of Some t \<Rightarrow> Some t | None \<Rightarrow> lookup_scopes scopes name)"

definition env_lookup :: "type_env \<Rightarrow> string \<Rightarrow> ty option" where
  "env_lookup env name = lookup_scopes (rev (env_scopes env)) name"

definition lookup_field :: "type_env \<Rightarrow> string \<Rightarrow> string \<Rightarrow> ty option" where
  "lookup_field env struct_name field_name =
     (case hm_get (env_struct_fields env) struct_name of None \<Rightarrow> None
      | Some fs \<Rightarrow> map_option snd (find (\<lambda>(n, t). n = field_name) fs))"

definition env_len :: "type_env \<Rightarrow> nat" where
  "env_len env = sum_list (map hm_len (env_scopes env))"

definition env_is_empty :: "type_env \<Rightarrow> bool" where
  "env_is_empty env \<longleftrightarrow> list_all (\<lambda>s. hm_len s = 0) (env_scopes env)"

text \<open>The map \<open>seen\<close> that \<open>iter\<close> fills, outermost scope first.\<close>

definition env_iter :: "type_env \<Rightarrow> (string, ty) hmap" where
  "env_iter env = fold (\<lambda>scope seen. fold (\<lambda>(n, t). hm_insert n t) (hm_entries scope) seen)
     (env_scopes env) hm_empty"

definition env_wf :: "type_env \<Rightarrow> bool" where
  "env_wf env \<longleftrightarrow> env_scopes env \<noteq> [] \<and> (\<forall>s \<in> set (env_scopes env). hm_wf s)"

definition env_bind :: "string \<Rightarrow> ty \<Rightarrow> type_env \<Rightarrow> type_env" where
  "env_bind name t env = (case env_insert name t env of Some (old, env') \<Rightarrow> env' | None \<Rightarrow> env)"

lemmas env_defs = env_new_def push_scope_def pop_scope_def env_depth_def env_insert_def
  env_lookup_def env_wf_def env_bind_def

subsection \<open>The contract of scopes\<close>

text \<open>
  What the checker relies on: a binding is visible until its scope is closed and then gone.
  \<open>block_restores\<close> is the client's lemma: whatever a block binds, closing its scope gives back
  the environment from before.
\<close>

locale scoped_env =
  fixes new :: "'e"
    and push :: "'e \<Rightarrow> 'e"
    and pop :: "'e \<Rightarrow> 'e option"
    and bind :: "'n \<Rightarrow> 't \<Rightarrow> 'e \<Rightarrow> 'e"
    and look :: "'e \<Rightarrow> 'n \<Rightarrow> 't option"
    and depth :: "'e \<Rightarrow> nat"
    and wf :: "'e \<Rightarrow> bool"
  assumes wf_new: "wf new"
    and wf_push: "wf e \<Longrightarrow> wf (push e)"
    and wf_bind: "wf e \<Longrightarrow> wf (bind n t e)"
    and look_new: "look new n = None"
    and look_push: "look (push e) n = look e n"
    and look_bind: "wf e \<Longrightarrow> look (bind n t e) = (look e)(n \<mapsto> t)"
    and pop_push: "wf e \<Longrightarrow> pop (push e) = Some e"
    and pop_bind: "wf e \<Longrightarrow> depth e > 0 \<Longrightarrow> pop (bind n t e) = pop e"
    and pop_global: "pop e = None \<longleftrightarrow> depth e = 0"
    and depth_push: "wf e \<Longrightarrow> depth (push e) = Suc (depth e)"
    and depth_bind: "wf e \<Longrightarrow> depth (bind n t e) = depth e"
begin

definition bind_all :: "('n \<times> 't) list \<Rightarrow> 'e \<Rightarrow> 'e" where
  "bind_all bs e = fold (\<lambda>(n, t). bind n t) bs e"

lemma bind_all_keeps: "wf e \<Longrightarrow> wf (bind_all bs e) \<and> depth (bind_all bs e) = depth e"
  unfolding bind_all_def
  by (induction bs arbitrary: e) (auto simp: wf_bind depth_bind)

lemma pop_bind_all: "wf e \<Longrightarrow> depth e > 0 \<Longrightarrow> pop (bind_all bs e) = pop e"
  unfolding bind_all_def
  by (induction bs arbitrary: e) (auto simp: wf_bind depth_bind pop_bind)

lemma block_restores: "wf e \<Longrightarrow> pop (bind_all bs (push e)) = Some e"
  by (simp add: pop_bind_all wf_push depth_push pop_push)

lemma look_bind_all: "wf e \<Longrightarrow> look (bind_all bs e) = look e ++ map_of (rev bs)"
  unfolding bind_all_def
  by (induction bs arbitrary: e) (auto simp: wf_bind look_bind map_add_upd_left map_add_def fun_eq_iff split: option.splits)

end

lemma lookup_scopes_append:
  "lookup_scopes (xs @ ys) n = (case lookup_scopes xs n of Some t \<Rightarrow> Some t | None \<Rightarrow> lookup_scopes ys n)"
  by (induction xs) (auto split: option.splits)

lemma env_wf_split:
  assumes "env_wf env"
  obtains ss s fs where "env = \<lparr>env_scopes = ss @ [s], env_struct_fields = fs\<rparr>"
    and "hm_wf s" and "\<forall>s \<in> set ss. hm_wf s"
proof (cases env)
  case (fields scopes fs)
  with assms have "scopes \<noteq> []" by (simp add: env_wf_def)
  then obtain ss s where "scopes = ss @ [s]" by (metis rev_exhaust)
  with fields assms show thesis by (intro that) (auto simp: env_wf_def)
qed

lemma env_bind_snoc [simp]:
  "env_bind n t \<lparr>env_scopes = ss @ [s], env_struct_fields = fs\<rparr> =
   \<lparr>env_scopes = ss @ [hm_insert n t s], env_struct_fields = fs\<rparr>"
  by (simp add: env_bind_def env_insert_def Let_def)

interpretation tenv: scoped_env env_new push_scope pop_scope env_bind env_lookup env_depth env_wf
proof unfold_locales
  show "env_lookup (env_bind n t e) = (env_lookup e)(n \<mapsto> t)" if "env_wf e" for e n t
    using that by (rule env_wf_split) (auto simp: env_lookup_def hm.get_simps fun_eq_iff)
  show "pop_scope (env_bind n t e) = pop_scope e" if "env_wf e" "env_depth e > 0" for e n t
    using that(1) by (rule env_wf_split) (simp add: pop_scope_def)
  show "env_wf (env_bind n t e)" if "env_wf e" for e n t
    using that by (rule env_wf_split) (auto simp: env_wf_def hm.wf_insert)
  show "env_depth (env_bind n t e) = env_depth e" if "env_wf e" for e n t
    using that by (rule env_wf_split) (simp add: env_depth_def)
  show "pop_scope e = None \<longleftrightarrow> env_depth e = 0" for e
    by (auto simp: pop_scope_def env_depth_def)
  show "env_depth (push_scope e) = Suc (env_depth e)" if "env_wf e" for e
    using that by (rule env_wf_split) (simp add: push_scope_def env_depth_def)
  show "pop_scope (push_scope e) = Some e" if "env_wf e" for e
    using that by (rule env_wf_split) (simp add: push_scope_def pop_scope_def butlast_append)
qed (simp_all add: env_new_def push_scope_def env_lookup_def env_wf_def hm.get_simps hm.wf_empty)

text \<open>C25: opening a scope, binding any names in it and closing it gives back the environment as it
  was, and inside the block a name has the type bound last, or the type from outside when the
  block does not bind it.\<close>

theorem scope_block_restores:
  assumes "env_wf env"
  shows "pop_scope (fold (\<lambda>(n, t). env_bind n t) bs (push_scope env)) = Some env \<and>
         env_lookup (fold (\<lambda>(n, t). env_bind n t) bs (push_scope env)) =
           env_lookup env ++ map_of (rev bs)"
  using tenv.block_restores [OF assms] tenv.look_bind_all [OF tenv.wf_push [OF assms]]
  by (simp add: tenv.bind_all_def tenv.look_push fun_eq_iff map_add_def split: option.split)

lemma scope_block_restores_witness:
  "pop_scope (fold (\<lambda>(n, t). env_bind n t) [(''x'', TyInt)] (push_scope env_new)) = Some env_new"
  using scope_block_restores [OF tenv.wf_new, of "[(''x'', TyInt)]"] by simp

text \<open>The iteration over all bindings yields each visible name once, with its visible type.\<close>

lemma fold_insert_entries:
  "hm_wf s \<Longrightarrow> hm_wf m \<Longrightarrow>
   hm_wf (fold (\<lambda>(n, t). hm_insert n t) (hm_entries s) m) \<and>
   hm_get (fold (\<lambda>(n, t). hm_insert n t) (hm_entries s) m) = hm_get m ++ hm_get s"
proof (unfold hm_entries_def, induction s arbitrary: m)
  case (Cons p s)
  obtain n t where p: "p = (n, t)" by (cases p)
  have "n \<notin> fst ` set s" and wf: "hm_wf s" using Cons.prems p by (auto simp: hm_wf_def)
  then have "hm_get s n = None" by (simp add: hm_get_def map_of_eq_None_iff)
  with Cons.IH [OF wf hm.wf_insert [OF Cons.prems(2)]] p show ?case
    by (auto simp: hm.get_insert hm_get_def map_add_def fun_eq_iff split: option.splits)
qed (auto simp: hm_get_def map_add_def fun_eq_iff)

lemma env_iter_lookup:
  assumes "env_wf env"
  shows "hm_wf (env_iter env) \<and> hm_get (env_iter env) = env_lookup env"
proof -
  have "hm_wf (fold (\<lambda>scope seen. fold (\<lambda>(n, t). hm_insert n t) (hm_entries scope) seen) ss m) \<and>
        hm_get (fold (\<lambda>scope seen. fold (\<lambda>(n, t). hm_insert n t) (hm_entries scope) seen) ss m) =
        hm_get m ++ lookup_scopes (rev ss)" if "\<forall>s \<in> set ss. hm_wf s" "hm_wf m" for ss m
    using that
  proof (induction ss arbitrary: m)
    case (Cons s ss)
    then show ?case using fold_insert_entries [of s m]
      by (auto simp: lookup_scopes_append map_add_def fun_eq_iff split: option.splits)
  qed (auto simp: map_add_def fun_eq_iff)
  with assms show ?thesis
    by (auto simp: env_iter_def env_lookup_def env_wf_def hm.wf_empty hm.get_empty map_add_def fun_eq_iff
        split: option.splits)
qed

end
