(* ===== verification/Type_Convert.thy ===== *)
theory Type_Convert
  imports Type_Core
begin

text \<open>
  The two conversions to types of \<open>crates/assura-types/src/convert.rs\<close>: \<open>type_from_expr\<close> from a
  structured type expression, and \<open>parse_type_tokens\<close> from raw tokens.  Each loop of the second
  that splits on commas gives its segments first (\<open>split_commas\<close>, \<open>split_commas_pa\<close>), which
  are then parsed.  The last section shows that the two agree on the token form of a type.
\<close>

section \<open>From type expressions\<close>

definition or_unknown_type :: "ty list \<Rightarrow> nat \<Rightarrow> ty" where
  "or_unknown_type ts i = (if i < length ts then ts ! i else TyUnknown)"

text \<open>The table of generic containers, shared by both conversions.\<close>

definition generic_type :: "string \<Rightarrow> ty list \<Rightarrow> ty" where
  "generic_type name ts =
     (if name = ''List'' \<or> name = ''Vec'' then TyList (or_unknown_type ts 0)
      else if name = ''Sequence'' then TySequence (or_unknown_type ts 0)
      else if name = ''Set'' then TySet (or_unknown_type ts 0)
      else if name = ''Option'' then TyOption (or_unknown_type ts 0)
      else if name = ''Map'' then TyMap (or_unknown_type ts 0) (or_unknown_type ts 1)
      else if name = ''Result'' then TyResult (or_unknown_type ts 0) (or_unknown_type ts 1)
      else TyNamed name)"

definition named_type :: "string \<Rightarrow> ty" where
  "named_type name = (case builtin_type name of Some t \<Rightarrow> t | None \<Rightarrow> TyNamed name)"

text \<open>\<open>c.is_alphanumeric() || c == '_'\<close> on an ASCII token.\<close>

definition is_word_char :: "char \<Rightarrow> bool" where
  "is_word_char c \<longleftrightarrow> (let n = of_char c :: nat in
     48 \<le> n \<and> n \<le> 57 \<or> 65 \<le> n \<and> n \<le> 90 \<or> 97 \<le> n \<and> n \<le> 122 \<or> c = CHR ''_'')"

definition refinement_var :: "string \<Rightarrow> string" where
  "refinement_var predicate =
     (case split_whitespace predicate of [] \<Rightarrow> ''x''
      | w # ws \<Rightarrow> if list_all is_word_char w then w else ''x'')"

fun type_from_expr :: "type_expr \<Rightarrow> ty" where
  "type_from_expr TUnit = TyUnit"
| "type_from_expr (TNamed name) = named_type name"
| "type_from_expr (TGeneric name args) = generic_type name (map type_from_expr args)"
| "type_from_expr (TTuple elems) =
     (if elems = [] then TyError else TyTuple (map type_from_expr elems))"
| "type_from_expr (TFn params ret) = TyFn (map type_from_expr params) (type_from_expr ret)"
| "type_from_expr (TRefined base predicate) =
     TyRefined (type_from_expr base)
       (no_span (Raw (if predicate = [] then [] else split_whitespace predicate)))
       (refinement_var predicate)"

definition resolve_type_opt :: "type_expr option \<Rightarrow> ty" where
  "resolve_type_opt te = (case te of Some t \<Rightarrow> type_from_expr t | None \<Rightarrow> TyUnit)"

section \<open>From raw tokens\<close>

definition enum_field_type_tokens :: "string \<Rightarrow> string list" where
  "enum_field_type_tokens f = split_whitespace f"

text \<open>Segments between commas outside parentheses and angle brackets.\<close>

fun split_commas_pa :: "int \<Rightarrow> string list \<Rightarrow> string list \<Rightarrow> string list list" where
  "split_commas_pa d cur [] = [cur]"
| "split_commas_pa d cur (t # ts) =
     (if t = ''('' \<or> t = ''<'' then split_commas_pa (d + 1) (cur @ [t]) ts
      else if t = '')'' \<or> t = ''>'' then split_commas_pa (d - 1) (cur @ [t]) ts
      else if t = '','' \<and> d = 0 then cur # split_commas_pa d [] ts
      else split_commas_pa d (cur @ [t]) ts)"

text \<open>The first bar outside angle brackets: the tokens before it and after it.\<close>

fun split_union :: "int \<Rightarrow> string list \<Rightarrow> (string list \<times> string list) option" where
  "split_union depth [] = None"
| "split_union depth (t # ts) =
     (if t = ''|'' \<and> depth = 0 then Some ([], ts)
      else map_option (\<lambda>(a, b). (t # a, b))
        (split_union (if t = ''<'' then depth + 1
                      else if t = ''>'' \<and> depth > 0 then depth - 1 else depth) ts))"

text \<open>The search for the parenthesis that closes the parameters of a function type.\<close>

fun close_paren :: "int \<Rightarrow> string list \<Rightarrow> (string list \<times> string list) option" where
  "close_paren depth [] = None"
| "close_paren depth (t # ts) =
     (if t = '')'' \<and> depth - 1 = 0 then Some ([], ts)
      else map_option (\<lambda>(a, b). (t # a, b))
        (close_paren (if t = ''('' then depth + 1 else if t = '')'' then depth - 1 else depth) ts))"

text \<open>Taint annotations and a leading reference.\<close>

definition strip_reference :: "string list \<Rightarrow> string list" where
  "strip_reference clean =
     (if clean \<noteq> [] \<and> hd clean = ''&''
      then (if length clean > 1 \<and> clean ! 1 = ''mut'' then drop 2 clean else drop 1 clean)
      else clean)"

definition parse_segments :: "(string list \<Rightarrow> ty) \<Rightarrow> string list list \<Rightarrow> ty list" where
  "parse_segments p segs = map p (filter (\<lambda>s. s \<noteq> []) segs)"

lemma parse_segments_cong [fundef_cong]:
  "segs = segs' \<Longrightarrow> (\<And>s. s \<in> set segs' \<Longrightarrow> p s = q s) \<Longrightarrow> parse_segments p segs = parse_segments q segs'"
  by (simp add: parse_segments_def cong: map_cong)

definition refinement_type :: "(string list \<Rightarrow> ty) \<Rightarrow> string list \<Rightarrow> ty" where
  "refinement_type p clean =
     (case token_pos '':'' clean of
        None \<Rightarrow> TyUnknown
      | Some colon_pos \<Rightarrow>
          TyRefined
            (p (takeWhile (\<lambda>t. t \<noteq> ''|'' \<and> t \<noteq> ''}'') (drop (colon_pos + 1) clean)))
            (no_span (Raw (case token_pos ''|'' clean of
               Some pipe_pos \<Rightarrow> takeWhile (\<lambda>t. t \<noteq> ''}'') (drop (pipe_pos + 1) clean)
             | None \<Rightarrow> [])))
            (if colon_pos > 1 then clean ! (colon_pos - 1) else ''x''))"

definition fn_type :: "(string list \<Rightarrow> ty) \<Rightarrow> string list \<Rightarrow> ty option" where
  "fn_type p clean =
     (if hd clean = ''fn'' \<and> length clean \<ge> 3 \<and> clean ! 1 = ''(''
      then (case close_paren 1 (drop 2 clean) of
          None \<Rightarrow> None
        | Some (params, after_paren) \<Rightarrow>
            Some (TyFn (parse_segments p (split_commas_pa 0 [] params))
              (if length after_paren \<ge> 2 \<and> hd after_paren = ''->'' then p (tl after_paren) else TyUnit)))
      else None)"

definition container_type :: "(string list \<Rightarrow> ty) \<Rightarrow> string list \<Rightarrow> ty" where
  "container_type p clean =
     (let inner = drop 2 clean;
          inner = (if last inner = ''>'' then butlast inner else inner)
      in generic_type (hd clean) (parse_segments p (split_commas 0 [] inner)))"

definition tuple_type :: "(string list \<Rightarrow> ty) \<Rightarrow> string list \<Rightarrow> ty" where
  "tuple_type p clean =
     (let inner = butlast (tl clean) in
      if inner = [] then TyUnit
      else (let segs = split_commas_pa 0 [] inner;
                saw_comma = (length segs > 1);
                empty_slot = ([] \<in> set (butlast segs));
                elems = parse_segments p segs
            in if empty_slot \<or> (saw_comma \<and> elems = []) then TyError
               else if \<not> saw_comma \<and> length elems = 1 then hd elems
               else TyTuple elems))"

lemma split_commas_pa_bound: "s \<in> set (split_commas_pa d cur ts) \<Longrightarrow> length s \<le> length cur + length ts"
proof (induction d cur ts arbitrary: s rule: split_commas_pa.induct)
  case (2 d cur t ts)
  then show ?case by (auto split: if_splits intro: le_SucI [OF trans_le_add2])
qed (simp split: if_splits)

lemma split_union_bound: "split_union d ts = Some (a, b) \<Longrightarrow> length a + length b < length ts"
  by (induction d ts arbitrary: a b rule: split_union.induct) (auto split: if_splits)

lemma close_paren_bound: "close_paren d ts = Some (a, b) \<Longrightarrow> length a + length b < length ts"
  by (induction d ts arbitrary: a b rule: close_paren.induct) (auto split: if_splits)

lemma strip_reference_bound: "length (strip_reference c) \<le> length c"
  by (simp add: strip_reference_def)

lemma refinement_type_cong [fundef_cong]:
  assumes "clean = clean'" and "\<And>s. length s < length clean' \<Longrightarrow> p s = q s"
  shows "refinement_type p clean = refinement_type q clean'"
proof -
  have "length (takeWhile P (drop (Suc i) clean')) < length clean'"
    if "token_pos t clean' = Some i" for P t i
    using token_pos_bound [OF that] length_takeWhile_le [of P "drop (Suc i) clean'"] by simp
  then show ?thesis unfolding assms(1) by (auto simp: refinement_type_def assms(2) split: option.split)
qed

lemma fn_type_cong [fundef_cong]:
  assumes "clean = clean'" and "\<And>s. length s < length clean' \<Longrightarrow> p s = q s"
  shows "fn_type p clean = fn_type q clean'"
proof -
  have "parse_segments p (split_commas_pa 0 [] a) = parse_segments q (split_commas_pa 0 [] a) \<and>
        (b \<noteq> [] \<longrightarrow> p (tl b) = q (tl b))"
    if "close_paren 1 (drop 2 clean') = Some (a, b)" for a b
    using close_paren_bound [OF that]
    by (auto intro!: parse_segments_cong assms(2) dest!: split_commas_pa_bound)
  then show ?thesis unfolding assms(1) by (auto simp: fn_type_def split: option.split)
qed

lemma container_type_cong [fundef_cong]:
  assumes "clean = clean'" and "\<And>s. length s < length clean' \<Longrightarrow> p s = q s"
  shows "container_type p clean = container_type q clean'"
proof -
  have "parse_segments p (split_commas 0 [] i) = parse_segments q (split_commas 0 [] i)"
    if "length i < length clean'" for i
    using that by (intro parse_segments_cong assms(2)) (auto dest!: split_commas_bound)
  moreover have "parse_segments p (split_commas 0 [] []) = parse_segments q (split_commas 0 [] [])"
    by (simp add: parse_segments_def)
  moreover have "length (if last (drop 2 clean') = ''>'' then butlast (drop 2 clean') else drop 2 clean')
      < length clean' \<or> (if last (drop 2 clean') = ''>'' then butlast (drop 2 clean') else drop 2 clean') = []"
    by (cases clean') auto
  ultimately show ?thesis unfolding assms(1) container_type_def Let_def by fastforce
qed

lemma tuple_type_cong [fundef_cong]:
  assumes "clean = clean'" and "\<And>s. length s < length clean' \<Longrightarrow> p s = q s"
  shows "tuple_type p clean = tuple_type q clean'"
proof (cases clean')
  case (Cons t ts)
  then have "parse_segments p (split_commas_pa 0 [] (butlast (tl clean'))) =
        parse_segments q (split_commas_pa 0 [] (butlast (tl clean')))"
    by (intro parse_segments_cong assms(2)) (auto dest!: split_commas_pa_bound)
  then show ?thesis unfolding assms(1) by (simp add: tuple_type_def Let_def)
qed (simp add: assms(1) tuple_type_def)

function parse_type_tokens :: "string list \<Rightarrow> ty" where
  "parse_type_tokens tokens =
     (let untainted = takeWhile (\<lambda>t. t \<noteq> ''@'') tokens in
      if untainted = [] then TyUnit
      else (let clean = strip_reference untainted in
        if clean = [] then TyUnknown
        else if hd clean = ''{'' then refinement_type parse_type_tokens clean
        else case split_union 0 clean of
          Some (ok, err) \<Rightarrow> TyResult (parse_type_tokens ok) (parse_type_tokens err)
        | None \<Rightarrow>
            (case fn_type parse_type_tokens clean of
               Some t \<Rightarrow> t
             | None \<Rightarrow>
                 if length clean = 1 then named_type (hd clean)
                 else if length clean \<ge> 3 \<and> clean ! 1 = ''<'' then container_type parse_type_tokens clean
                 else if hd clean = ''('' \<and> last clean = '')'' then tuple_type parse_type_tokens clean
                 else named_type (hd clean))))"
  by pat_completeness auto

lemma clean_less: "length s < length (strip_reference (takeWhile P ts)) \<Longrightarrow> length s < length ts"
  using strip_reference_bound [of "takeWhile P ts"] length_takeWhile_le [of P ts] by linarith

lemma split_union_less:
  assumes "split_union d (strip_reference (takeWhile P ts)) = Some (a, b)"
  shows "length a < length ts" and "length b < length ts"
  using split_union_bound [OF assms] strip_reference_bound [of "takeWhile P ts"]
    length_takeWhile_le [of P ts] by linarith+

termination parse_type_tokens
  by (relation "measure length") (auto dest: clean_less split_union_less)

declare parse_type_tokens.simps [simp del]

section \<open>The two conversions agree\<close>

interpretation pa: comma_splitter split_commas_pa "\<lambda>t. t = ''('' \<or> t = ''<''" "\<lambda>t. t = '')'' \<or> t = ''>''"
  by unfold_locales auto

definition plain_name :: "string \<Rightarrow> bool" where
  "plain_name n \<longleftrightarrow> ident_token n \<and> n \<noteq> ''&''"

fun agree_wf :: "type_expr \<Rightarrow> bool" where
  "agree_wf (TNamed n) \<longleftrightarrow> plain_name n"
| "agree_wf (TGeneric n args) \<longleftrightarrow> plain_name n \<and> args \<noteq> [] \<and> list_all agree_wf args"
| "agree_wf (TTuple es) \<longleftrightarrow> length es \<ge> 2 \<and> list_all agree_wf es"
| "agree_wf (TFn ps r) \<longleftrightarrow> list_all agree_wf ps \<and> agree_wf r"
| "agree_wf (TRefined b p) \<longleftrightarrow> False"
| "agree_wf TUnit \<longleftrightarrow> True"

lemma agree_tokens_wf: "agree_wf t \<Longrightarrow> tokens_wf t"
  by (induction t) (auto simp: list_all_iff plain_name_def)

lemma plain_name_tokens: "plain_name n \<Longrightarrow> to_tokens (TNamed n) = [n]"
  by (simp add: plain_name_def ident_token_tokens del: to_tokens.simps(1))

lemma plain_name_not_special:
  "plain_name n \<Longrightarrow> n \<noteq> '''' \<and> n \<noteq> ''&'' \<and> n \<noteq> ''{'' \<and> n \<noteq> ''<'' \<and> n \<noteq> ''|'' \<and> n \<noteq> ''@'' \<and> n \<noteq> ''('' \<and> n \<noteq> '')''"
  by (auto simp: plain_name_def ident_token_def special_tokens_def)

lemma agree_hd: "agree_wf t \<Longrightarrow> \<exists>h ts. to_tokens t = h # ts \<and> h \<noteq> ''{'' \<and> h \<noteq> ''&'' \<and> h \<noteq> ''<''"
  using plain_name_not_special
  by (cases t) (auto simp: plain_name_tokens simp del: to_tokens.simps(1))

lemma agree_nonempty: "agree_wf t \<Longrightarrow> to_tokens t \<noteq> []"
  using agree_hd by fastforce

lemma agree_no_marks: "agree_wf t \<Longrightarrow> m = ''|'' \<or> m = ''@'' \<Longrightarrow> m \<notin> set (to_tokens t)"
proof (induction t)
  case (TNamed n)
  then show ?case using plain_name_not_special [of n]
    by (auto simp: plain_name_tokens simp del: to_tokens.simps(1))
next
  case (TGeneric n args)
  then show ?case using plain_name_not_special [of n]
    by (auto simp: list_all_iff dest!: set_comma_tokens)
next
  case (TTuple es)
  then show ?case by (auto simp: list_all_iff dest!: set_comma_tokens)
next
  case (TFn ps r)
  then show ?case by (auto simp: list_all_iff dest!: set_comma_tokens)
qed auto

lemma split_union_none: "''|'' \<notin> set ts \<Longrightarrow> split_union d ts = None"
  by (induction ts arbitrary: d) auto

text \<open>The search for a closing parenthesis passes over a type.\<close>

definition paren_pass :: "string list \<Rightarrow> bool" where
  "paren_pass ts \<longleftrightarrow> (\<forall>d rest. d \<ge> 1 \<longrightarrow>
     close_paren d (ts @ rest) = map_option (\<lambda>(a, b). (ts @ a, b)) (close_paren d rest))"

lemma paren_passD:
  "paren_pass ts \<Longrightarrow> d \<ge> 1 \<Longrightarrow>
   close_paren d (ts @ rest) = map_option (\<lambda>(a, b). (ts @ a, b)) (close_paren d rest)"
  unfolding paren_pass_def by blast

lemma paren_pass_Nil: "paren_pass []"
  by (simp add: paren_pass_def option.map_ident case_prod_unfold)

lemma paren_pass_append: "paren_pass ts \<Longrightarrow> paren_pass us \<Longrightarrow> paren_pass (ts @ us)"
  by (auto simp: paren_pass_def option.map_comp comp_def case_prod_unfold)

lemma paren_pass_plain: "t \<noteq> ''('' \<Longrightarrow> t \<noteq> '')'' \<Longrightarrow> paren_pass [t]"
  by (simp add: paren_pass_def)

lemma paren_pass_parens: "paren_pass ts \<Longrightarrow> paren_pass (''('' # ts @ ['')''])"
  by (auto simp: paren_pass_def option.map_comp comp_def case_prod_unfold)

lemma paren_pass_commas: "\<forall>ts \<in> set tss. paren_pass ts \<Longrightarrow> paren_pass (comma_tokens tss)"
proof (induction tss rule: comma_tokens.induct)
  case (3 ts us tss)
  then have "paren_pass (ts @ ['',''] @ comma_tokens (us # tss))"
    by (intro paren_pass_append paren_pass_plain) auto
  then show ?case by simp
qed (auto intro: paren_pass_Nil)

lemma paren_pass_to_tokens: "agree_wf t \<Longrightarrow> paren_pass (to_tokens t)"
proof (induction t)
  case (TNamed n)
  then show ?case using plain_name_not_special [of n]
    by (simp add: plain_name_tokens paren_pass_plain del: to_tokens.simps(1))
next
  case (TGeneric n args)
  then have "paren_pass ([n] @ [''<''] @ comma_tokens (map to_tokens args) @ [''>''])"
    using plain_name_not_special [of n]
    by (intro paren_pass_append paren_pass_plain paren_pass_commas) (auto simp: list_all_iff)
  then show ?case by simp
next
  case (TTuple es)
  then show ?case by (auto intro!: paren_pass_parens paren_pass_commas simp: list_all_iff)
next
  case (TFn ps r)
  then have "paren_pass ([''fn''] @ (''('' # comma_tokens (map to_tokens ps) @ ['')'']) @ [''->''] @ to_tokens r)"
    by (intro paren_pass_append paren_pass_plain paren_pass_parens paren_pass_commas)
      (auto simp: list_all_iff)
  then show ?case by simp
next
  case TUnit
  then show ?case using paren_pass_parens [OF paren_pass_Nil] by simp
qed simp

lemma parse_segments_types:
  assumes "list_all agree_wf es" and "\<And>e. e \<in> set es \<Longrightarrow> p (to_tokens e) = type_from_expr e"
  shows "parse_segments p (map to_tokens es) = map type_from_expr es"
proof -
  have "filter (\<lambda>s. s \<noteq> []) (map to_tokens es) = map to_tokens es"
    using assms(1) by (auto simp: list_all_iff agree_nonempty)
  then show ?thesis using assms(2) by (simp add: parse_segments_def)
qed

lemma agree_list: "list_all agree_wf es \<Longrightarrow> list_all tokens_wf es"
  by (auto simp: list_all_iff agree_tokens_wf)

text \<open>The clean-up steps leave the tokens of a type as they are.\<close>

lemma parse_type_tokens_clean:
  assumes "agree_wf t" and "to_tokens t = clean"
  shows "parse_type_tokens clean =
     (case fn_type parse_type_tokens clean of
        Some t \<Rightarrow> t
      | None \<Rightarrow>
          if length clean = 1 then named_type (hd clean)
          else if length clean \<ge> 3 \<and> clean ! 1 = ''<'' then container_type parse_type_tokens clean
          else if hd clean = ''('' \<and> last clean = '')'' then tuple_type parse_type_tokens clean
          else named_type (hd clean))"
proof -
  have untainted: "takeWhile (\<lambda>t. t \<noteq> ''@'') clean = clean"
    using agree_no_marks [OF assms(1), of "''@''"] assms(2) by (auto simp: takeWhile_eq_all_conv)
  have "clean \<noteq> []" and "hd clean \<noteq> ''{''" and ref: "strip_reference clean = clean"
    using agree_hd [OF assms(1)] assms(2) by (auto simp: strip_reference_def)
  moreover have "split_union 0 clean = None"
    using agree_no_marks [OF assms(1), of "''|''"] assms(2) by (simp add: split_union_none)
  ultimately show ?thesis
    unfolding parse_type_tokens.simps [of clean] Let_def untainted ref by simp
qed

lemma fn_type_tokens:
  assumes "list_all agree_wf ps" and "agree_wf r"
    and "\<And>e. e \<in> set ps \<Longrightarrow> p (to_tokens e) = type_from_expr e"
    and "p (to_tokens r) = type_from_expr r"
  shows "fn_type p (to_tokens (TFn ps r)) = Some (type_from_expr (TFn ps r))"
proof -
  have "close_paren 1 (comma_tokens (map to_tokens ps) @ '')'' # ''->'' # to_tokens r) =
        Some (comma_tokens (map to_tokens ps), ''->'' # to_tokens r)"
    using assms(1) paren_pass_commas [of "map to_tokens ps"]
    by (subst paren_passD) (auto simp: list_all_iff paren_pass_to_tokens)
  moreover have "parse_segments p (split_commas_pa 0 [] (comma_tokens (map to_tokens ps))) =
      map type_from_expr ps"
  proof (cases "ps = []")
    case False
    then show ?thesis
      using pa.split_types [OF agree_list [OF assms(1)]] parse_segments_types [OF assms(1,3)] by simp
  qed (simp add: parse_segments_def)
  moreover have "Suc 0 \<le> length (to_tokens r)"
    by (intro length_ge_1 agree_nonempty assms(2))
  ultimately show ?thesis using assms(4) by (simp add: fn_type_def)
qed

lemma comma_tokens_agree_nonempty:
  "list_all agree_wf es \<Longrightarrow> es \<noteq> [] \<Longrightarrow> comma_tokens (map to_tokens es) \<noteq> []"
  by (rule comma_tokens_nonempty) (cases es; simp add: agree_nonempty)+

lemma container_type_tokens:
  assumes "list_all agree_wf args" and "args \<noteq> []"
    and "\<And>e. e \<in> set args \<Longrightarrow> p (to_tokens e) = type_from_expr e"
  shows "container_type p (to_tokens (TGeneric n args)) = type_from_expr (TGeneric n args)"
  using sc.split_types [OF agree_list [OF assms(1)] assms(2)] parse_segments_types [OF assms(1,3)]
  by (simp add: container_type_def)

lemma tuple_type_tokens:
  assumes "list_all agree_wf es" and "length es \<ge> 2"
    and "\<And>e. e \<in> set es \<Longrightarrow> p (to_tokens e) = type_from_expr e"
  shows "tuple_type p (to_tokens (TTuple es)) = type_from_expr (TTuple es)"
proof -
  have es: "es \<noteq> []" using assms(2) by auto
  moreover have "[] \<notin> set (butlast (map to_tokens es))"
    using assms(1) agree_nonempty by (fastforce simp: list_all_iff dest!: in_set_butlastD)
  ultimately show ?thesis
    using pa.split_types [OF agree_list [OF assms(1)]] parse_segments_types [OF assms(1,3)] assms(2)
      comma_tokens_agree_nonempty [OF assms(1)]
    by (simp add: tuple_type_def Let_def)
qed

text \<open>C20: converting a type expression directly and converting its tokens give the same type, for
  type expressions made of plain names, generics with at least one argument, function types, tuples of
  at least two components and the unit type, at any depth of nesting; refinements are excepted, since
  the token form writes the bound variable \<open>x\<close> in place of the one the predicate starts with
  (\<open>refinement_in_tuple_misread\<close>).\<close>

theorem conversions_agree: "agree_wf t \<Longrightarrow> parse_type_tokens (to_tokens t) = type_from_expr t"
proof (induction t)
  case (TNamed n)
  then show ?case
    by (subst parse_type_tokens_clean [OF TNamed refl])
      (simp add: plain_name_tokens fn_type_def del: to_tokens.simps(1))
next
  case (TGeneric n args)
  have "container_type parse_type_tokens (to_tokens (TGeneric n args)) = type_from_expr (TGeneric n args)"
    using TGeneric.prems by (intro container_type_tokens TGeneric.IH) (auto simp: list_all_iff)
  then show ?case
    by (subst parse_type_tokens_clean [OF TGeneric.prems refl]) (simp add: fn_type_def)
next
  case (TTuple es)
  have "tuple_type parse_type_tokens (to_tokens (TTuple es)) = type_from_expr (TTuple es)"
    using TTuple.prems by (intro tuple_type_tokens TTuple.IH) (auto simp: list_all_iff)
  moreover have "comma_tokens (map to_tokens es) \<noteq> [] \<and> hd (comma_tokens (map to_tokens es)) \<noteq> ''<''"
  proof -
    obtain e1 e2 es' where "es = e1 # e2 # es'"
      using TTuple.prems by (cases es; cases "tl es") auto
    moreover from this obtain h ts where "to_tokens e1 = h # ts" and "h \<noteq> ''<''"
      using TTuple.prems agree_hd [of e1] by auto
    ultimately show ?thesis by simp
  qed
  ultimately show ?case
    by (subst parse_type_tokens_clean [OF TTuple.prems refl])
      (auto simp: fn_type_def hd_conv_nth nth_append)
next
  case (TFn ps r)
  have "fn_type parse_type_tokens (to_tokens (TFn ps r)) = Some (type_from_expr (TFn ps r))"
    using TFn.prems by (intro fn_type_tokens TFn.IH) (auto simp: list_all_iff)
  then show ?case by (subst parse_type_tokens_clean [OF TFn.prems refl]) simp
next
  case TUnit
  then show ?case by (subst parse_type_tokens_clean [of TUnit]) (simp_all add: fn_type_def tuple_type_def)
qed simp

lemma conversions_agree_witness:
  "parse_type_tokens (to_tokens (TFn [TGeneric ''Map'' [TNamed ''Int'', TNamed ''Key'']]
     (TTuple [TUnit, TNamed ''Bool'']))) =
   TyFn [TyMap TyInt (TyNamed ''Key'')] (TyTuple [TyUnit, TyBool])"
  by (subst conversions_agree)
    (simp_all add: plain_name_def ident_token_def special_tokens_def is_ws_def generic_type_def
      or_unknown_type_def named_type_def builtin_type_def)

text \<open>
  Where they differ: the bar of a refinement inside a tuple is taken for a union type, because
  only angle brackets hide a bar.
\<close>

lemma refinement_in_tuple_misread:
  "parse_type_tokens [''('', ''{'', ''x'', '':'', ''Int'', ''|'', ''p'', ''}'', '','', ''Bool'', '')''] =
   TyResult (TyNamed ''('') (TyNamed ''p'')"
  by (simp add: parse_type_tokens.simps strip_reference_def fn_type_def named_type_def builtin_type_def)

end
