(* ===== verification/Infer.thy ===== *)
theory Infer
  imports Type_Convert Checker_Base
begin

text \<open>
  Inference of expression types: \<open>crates/assura-types/src/inference.rs\<close>, with the binding of
  pattern variables of \<open>clauses.rs\<close>.  \<open>Result<Type, TypeError>\<close> is a sum; \<open>and_then\<close> is the
  operator \<open>?\<close>.
\<close>

section \<open>Results\<close>

definition and_then :: "'e + 'a \<Rightarrow> ('a \<Rightarrow> 'e + 'b) \<Rightarrow> 'e + 'b" where
  "and_then r f = (case r of Inl e \<Rightarrow> Inl e | Inr x \<Rightarrow> f x)"

lemma and_then_simps [simp]: "and_then (Inl e) f = Inl e" "and_then (Inr x) f = f x"
  by (simp_all add: and_then_def)

lemma and_then_Inr: "and_then r f = Inr y \<longleftrightarrow> (\<exists>x. r = Inr x \<and> f x = Inr y)"
  by (cases r) simp_all

lemma and_then_Inl: "and_then r f = Inl e \<longleftrightarrow> r = Inl e \<or> (\<exists>x. r = Inr x \<and> f x = Inl e)"
  by (cases r) auto

lemma and_then_cong [fundef_cong]:
  "r = r' \<Longrightarrow> (\<And>x. r' = Inr x \<Longrightarrow> f x = g x) \<Longrightarrow> and_then r f = and_then r' g"
  by (cases r') simp_all

type_synonym infer_result = "type_error + ty"

definition type_fail :: "string \<Rightarrow> string \<Rightarrow> span \<Rightarrow> type_error + 'a" where
  "type_fail code message span = Inl (type_error_at code message span)"

section \<open>Predicates on types\<close>

fun is_literal_zero :: "sp_expr \<Rightarrow> bool" where
  "is_literal_zero (Spanned (Literal (LInt s)) sp) \<longleftrightarrow> s = ''0''"
| "is_literal_zero (Spanned (Literal (LFloat s)) sp) \<longleftrightarrow> s = ''0.0'' \<or> s = ''0''"
| "is_literal_zero _ \<longleftrightarrow> False"

fun element_type_of :: "ty \<Rightarrow> ty" where
  "element_type_of (TyList t) = t"
| "element_type_of (TySet t) = t"
| "element_type_of (TySequence t) = t"
| "element_type_of (TyMap k v) = k"
| "element_type_of TyInt = TyInt"
| "element_type_of TyNat = TyInt"
| "element_type_of TyString = TyString"
| "element_type_of _ = TyUnknown"

fun is_numeric :: "ty \<Rightarrow> bool" where
  "is_numeric (TyRefined base p x) \<longleftrightarrow> is_numeric base"
| "is_numeric (TyNamed n) \<longleftrightarrow> True"
| "is_numeric t \<longleftrightarrow>
     t \<in> {TyInt, TyNat, TyFloat, TyU8, TyU16, TyU32, TyU64, TyI8, TyI16, TyI32, TyI64, TyF32, TyF64,
          TyUnknown, TyError}"

fun is_named :: "ty \<Rightarrow> bool" where
  "is_named (TyNamed n) \<longleftrightarrow> True"
| "is_named _ \<longleftrightarrow> False"

fun is_type_param :: "ty \<Rightarrow> bool" where
  "is_type_param (TyTypeParam n) \<longleftrightarrow> True"
| "is_type_param _ \<longleftrightarrow> False"

fun refined_base :: "ty \<Rightarrow> ty option" where
  "refined_base (TyRefined base p x) = Some base"
| "refined_base _ = None"

fun tuple_elems :: "ty \<Rightarrow> ty list option" where
  "tuple_elems (TyTuple ts) = Some ts"
| "tuple_elems _ = None"

lemma refined_base_size: "refined_base t = Some b \<Longrightarrow> size b < size t"
  by (cases t) auto

lemma tuple_elems_size: "tuple_elems t = Some ts \<Longrightarrow> x \<in> set ts \<Longrightarrow> size x < size t"
  by (cases t) (auto dest: size_member simp: less_Suc_eq_le)

lemma zip_tuple_size:
  assumes "(x, y) \<in> set (zip as bs)" and "tuple_elems a = Some as" and "tuple_elems b = Some bs"
  shows "size x + size y < size a + size b"
  using tuple_elems_size [OF assms(2) set_zip_leftD [OF assms(1)]]
    tuple_elems_size [OF assms(3) set_zip_rightD [OF assms(1)]] by linarith

function types_compatible :: "ty \<Rightarrow> ty \<Rightarrow> bool" where
  "types_compatible a b \<longleftrightarrow>
     (if a = b then True
      else if is_indeterminate a \<or> is_indeterminate b then True
      else if is_named a \<or> is_named b then True
      else case refined_base a of
        Some base \<Rightarrow> types_compatible base b
      | None \<Rightarrow>
          (case refined_base b of
             Some base \<Rightarrow> types_compatible a base
           | None \<Rightarrow>
               if is_type_param a \<or> is_type_param b then True
               else if a = TyNat \<and> b = TyInt \<or> a = TyInt \<and> b = TyNat then True
               else if is_numeric a \<and> is_numeric b then True
               else (case (tuple_elems a, tuple_elems b) of
                       (Some as, Some bs) \<Rightarrow>
                         length as = length bs \<and> (\<forall>(x, y) \<in> set (zip as bs). types_compatible x y)
                     | _ \<Rightarrow> False)))"
  by pat_completeness auto
termination
  by (relation "measure (\<lambda>(a, b). size a + size b)") (auto dest: refined_base_size zip_tuple_size)

declare types_compatible.simps [simp del]

section \<open>Patterns\<close>

definition nth_or_unknown :: "ty list \<Rightarrow> ty" where
  "nth_or_unknown ts = (case ts of [] \<Rightarrow> TyUnknown | t # _ \<Rightarrow> t)"

fun constructor_params :: "type_env \<Rightarrow> string \<Rightarrow> ty list option" where
  "constructor_params env name =
     (case env_lookup env name of Some (TyFn params ret) \<Rightarrow> Some params | _ \<Rightarrow> None)"

definition arity_error :: "string \<Rightarrow> string \<Rightarrow> span \<Rightarrow> type_error" where
  "arity_error message suggestion span =
     (type_error_at ''A03001'' message span)\<lparr>te_suggestion := Some suggestion\<rparr>"

definition constructor_arity_error :: "string \<Rightarrow> nat \<Rightarrow> nat \<Rightarrow> span \<Rightarrow> type_error" where
  "constructor_arity_error name expected found span =
     arity_error (''constructor '' @ quoted name @ '' expects '' @ dec expected @ '' field(s), found '' @ dec found)
       (''Use a pattern with '' @ dec expected @ '' sub-pattern(s), e.g. `'' @ name @ ''('' @
        join '', '' (map (\<lambda>i. ''x'' @ dec i) [0..<expected]) @ '')`.'') span"

fun bind_pattern_vars :: "pattern \<Rightarrow> ty \<Rightarrow> type_env \<Rightarrow> span \<Rightarrow> type_error + type_env"
  and bind_patterns :: "pattern list \<Rightarrow> ty list \<Rightarrow> type_env \<Rightarrow> span \<Rightarrow> type_error + type_env" where
  "bind_pattern_vars (PIdent name) t env span = Inr (env_bind name t env)"
| "bind_pattern_vars (PConstructor name pats) t env span =
     (case constructor_params env name of
        Some params \<Rightarrow>
          if length pats \<noteq> length params
          then Inl (constructor_arity_error name (length params) (length pats) span)
          else bind_patterns pats params env span
      | None \<Rightarrow> bind_patterns pats [] env span)"
| "bind_pattern_vars (PTuple pats) t env span =
     (case tuple_elems t of
        Some ts \<Rightarrow>
          if length pats \<noteq> length ts
          then Inl (arity_error (''tuple pattern expects '' @ dec (length ts) @ '' element(s), found '' @
                                 dec (length pats)) ''Match the tuple arity of the scrutinee type.'' span)
          else bind_patterns pats ts env span
      | None \<Rightarrow> bind_patterns pats [] env span)"
| "bind_pattern_vars PWildcard t env span = Inr env"
| "bind_pattern_vars (PLiteral l) t env span = Inr env"
| "bind_patterns [] ts env span = Inr env"
| "bind_patterns (p # ps) ts env span =
     and_then (bind_pattern_vars p (nth_or_unknown ts) env span)
       (\<lambda>env. bind_patterns ps (tl ts) env span)"

section \<open>Operators\<close>

definition infer_unary :: "unary_op \<Rightarrow> ty \<Rightarrow> span \<Rightarrow> infer_result" where
  "infer_unary op t span =
     (case op of
        Neg \<Rightarrow>
          if is_indeterminate t \<or> is_numeric t then Inr t
          else type_fail ''A03001'' (''unary `-` requires a numeric type, found '' @ quoted (type_display t)) span
      | Not \<Rightarrow>
          if is_indeterminate t \<or> t = TyBool then Inr TyBool
          else type_fail ''A03001'' (''unary `!` requires Bool, found '' @ quoted (type_display t)) span)"

definition indeterminate_binop :: "binop \<Rightarrow> ty \<Rightarrow> ty \<Rightarrow> infer_result" where
  "indeterminate_binop op l r =
     (if is_arithmetic op \<or> op = Concat
      then Inr (if \<not> is_indeterminate l then l else if \<not> is_indeterminate r then r else TyUnknown)
      else if is_comparison op \<or> is_logical op \<or> is_membership op then Inr TyBool
      else Inr (TyList TyInt))"

definition infer_arithmetic :: "binop \<Rightarrow> sp_expr \<Rightarrow> sp_expr \<Rightarrow> ty \<Rightarrow> ty \<Rightarrow> span \<Rightarrow> infer_result" where
  "infer_arithmetic op lhs rhs l r span =
     (if is_division_like op \<and> is_literal_zero rhs
      then type_fail ''A03010'' ((if op = Div then ''division'' else ''modulo'') @ '' by zero'') span
      else if \<not> is_numeric l
      then type_fail ''A03001'' (''arithmetic operator requires numeric types, found '' @ quoted (type_display l))
             (sp_span lhs)
      else if \<not> types_compatible l r
      then type_fail ''A03001''
             (''type mismatch in arithmetic: '' @ quoted (type_display l) @ '' vs '' @ quoted (type_display r))
             (sp_span rhs)
      else Inr l)"

definition infer_comparison :: "sp_expr \<Rightarrow> ty \<Rightarrow> ty \<Rightarrow> infer_result" where
  "infer_comparison rhs l r =
     (if \<not> types_compatible l r
      then type_fail ''A03001''
             (''comparison requires same types, found '' @ quoted (type_display l) @ '' vs '' @
              quoted (type_display r)) (sp_span rhs)
      else Inr TyBool)"

definition infer_logical :: "ty \<Rightarrow> ty \<Rightarrow> span \<Rightarrow> infer_result" where
  "infer_logical l r span =
     (if l \<noteq> TyBool
      then type_fail ''A03001'' (''logical operator requires Bool, found '' @ quoted (type_display l)) span
      else if r \<noteq> TyBool
      then type_fail ''A03001'' (''logical operator requires Bool, found '' @ quoted (type_display r)) span
      else Inr TyBool)"

definition infer_concat :: "ty \<Rightarrow> ty \<Rightarrow> span \<Rightarrow> infer_result" where
  "infer_concat l r span =
     (if types_compatible l r then Inr l
      else type_fail ''A03001''
             (''concat requires compatible types, found '' @ quoted (type_display l) @ '' vs '' @
              quoted (type_display r)) span)"

definition infer_range :: "ty \<Rightarrow> ty \<Rightarrow> span \<Rightarrow> infer_result" where
  "infer_range l r span =
     (if \<not> is_numeric l
      then type_fail ''A03001'' (''range requires numeric operands, found '' @ quoted (type_display l)) span
      else if \<not> is_numeric r
      then type_fail ''A03001'' (''range requires numeric operands, found '' @ quoted (type_display r)) span
      else Inr (TyList TyInt))"

fun is_membership_collection :: "ty \<Rightarrow> bool" where
  "is_membership_collection (TyList t) \<longleftrightarrow> True"
| "is_membership_collection (TySet t) \<longleftrightarrow> True"
| "is_membership_collection (TySequence t) \<longleftrightarrow> True"
| "is_membership_collection (TyMap k v) \<longleftrightarrow> True"
| "is_membership_collection TyString \<longleftrightarrow> True"
| "is_membership_collection (TyNamed n) \<longleftrightarrow> True"
| "is_membership_collection TyUnknown \<longleftrightarrow> True"
| "is_membership_collection TyError \<longleftrightarrow> True"
| "is_membership_collection _ \<longleftrightarrow> False"

definition infer_membership :: "ty \<Rightarrow> span \<Rightarrow> infer_result" where
  "infer_membership r span =
     (if is_membership_collection r then Inr TyBool
      else type_fail ''A03001''
             (''`in` requires a collection on the right side, found '' @ quoted (type_display r)) span)"

definition infer_binop :: "binop \<Rightarrow> sp_expr \<Rightarrow> sp_expr \<Rightarrow> ty \<Rightarrow> ty \<Rightarrow> span \<Rightarrow> infer_result" where
  "infer_binop op lhs rhs l r span =
     (if is_indeterminate l \<or> is_indeterminate r then indeterminate_binop op l r
      else if is_arithmetic op then infer_arithmetic op lhs rhs l r span
      else if is_comparison op then infer_comparison rhs l r
      else if is_logical op then infer_logical l r span
      else if op = Concat then infer_concat l r span
      else if op = Range then infer_range l r span
      else infer_membership r span)"

definition infer_if :: "sp_expr \<Rightarrow> ty \<Rightarrow> ty \<Rightarrow> infer_result" where
  "infer_if then_branch t e =
     (if is_indeterminate t then Inr e
      else if is_indeterminate e \<or> types_compatible t e then Inr t
      else type_fail ''A03001''
             (''if branches have different types: '' @ quoted (type_display t) @ '' vs '' @ quoted (type_display e))
             (sp_span then_branch))"

section \<open>Fields\<close>

fun struct_name :: "ty \<Rightarrow> string option" where
  "struct_name (TyNamed n) = Some n"
| "struct_name (TyRefined (TyNamed n) p x) = Some n"
| "struct_name _ = None"

text \<open>The fields every type of a kind has; \<open>None\<close> falls through to the next rule.\<close>

fun builtin_field :: "ty \<Rightarrow> string \<Rightarrow> ty option" where
  "builtin_field (TyList t) f =
     (if f \<in> {''len'', ''length'', ''size'', ''capacity''} then Some TyNat
      else if f = ''is_empty'' then Some TyBool
      else if f \<in> {''head'', ''first'', ''last''} then Some (TyOption t)
      else if f \<in> {''tail'', ''rest''} then Some (TyList t) else None)"
| "builtin_field (TySequence t) f =
     (if f \<in> {''len'', ''length'', ''size'', ''capacity''} then Some TyNat
      else if f = ''is_empty'' then Some TyBool
      else if f \<in> {''head'', ''first'', ''last''} then Some (TyOption t)
      else if f \<in> {''tail'', ''rest''} then Some (TySequence t) else None)"
| "builtin_field TyBytes f =
     (if f \<in> {''len'', ''length'', ''size'', ''capacity''} then Some TyNat
      else if f = ''is_empty'' then Some TyBool else None)"
| "builtin_field TyString f =
     (if f \<in> {''len'', ''length'', ''size'', ''capacity''} then Some TyNat
      else if f = ''is_empty'' then Some TyBool else None)"
| "builtin_field (TyOption t) f =
     (if f \<in> {''value'', ''unwrap''} then Some t
      else if f \<in> {''is_some'', ''is_none''} then Some TyBool else None)"
| "builtin_field (TyResult t e) f =
     (if f \<in> {''value'', ''ok'', ''unwrap''} then Some t
      else if f \<in> {''error'', ''err''} then Some e
      else if f \<in> {''is_ok'', ''is_err''} then Some TyBool else None)"
| "builtin_field (TyMap k v) f =
     (if f \<in> {''len'', ''size''} then Some TyNat
      else if f = ''is_empty'' then Some TyBool
      else if f = ''keys'' then Some (TyList k)
      else if f = ''values'' then Some (TyList v) else None)"
| "builtin_field (TySet t) f =
     (if f \<in> {''len'', ''size''} then Some TyNat
      else if f = ''is_empty'' then Some TyBool else None)"
| "builtin_field _ f = None"

definition tuple_field :: "ty list \<Rightarrow> string \<Rightarrow> span \<Rightarrow> infer_result" where
  "tuple_field ts f span =
     (case parse_uint 64 f of
        Some i \<Rightarrow>
          if i < length ts then Inr (ts ! i)
          else type_fail ''A03005''
                 (''tuple index '' @ quoted f @ '' out of range for type '' @ quoted (type_display (TyTuple ts)) @
                  '' (arity '' @ dec (length ts) @ '')'') span
      | None \<Rightarrow>
          type_fail ''A03005''
            (''unknown field '' @ quoted f @ '' on tuple type '' @ quoted (type_display (TyTuple ts)) @
             '' (use 0, 1, '' @ [char_of (226 :: nat), char_of (128 :: nat), char_of (166 :: nat)] @ '')'') span)"

fun has_closed_fields :: "ty \<Rightarrow> bool" where
  "has_closed_fields (TyList t) \<longleftrightarrow> True"
| "has_closed_fields (TySequence t) \<longleftrightarrow> True"
| "has_closed_fields TyBytes \<longleftrightarrow> True"
| "has_closed_fields (TySet t) \<longleftrightarrow> True"
| "has_closed_fields (TyOption t) \<longleftrightarrow> True"
| "has_closed_fields (TyResult t e) \<longleftrightarrow> True"
| "has_closed_fields (TyMap k v) \<longleftrightarrow> True"
| "has_closed_fields _ \<longleftrightarrow> False"

definition unknown_field :: "type_env \<Rightarrow> ty \<Rightarrow> string \<Rightarrow> span \<Rightarrow> infer_result" where
  "unknown_field env t f span =
     (if (case struct_name t of Some n \<Rightarrow> hm_contains_key (env_struct_fields env) n | None \<Rightarrow> False)
      then type_fail ''A03005'' (''unknown field '' @ quoted f @ '' in type '' @ quoted (type_display t)) span
      else if has_closed_fields t
      then type_fail ''A03005'' (''unknown field '' @ quoted f @ '' on type '' @ quoted (type_display t)) span
      else if t = TyError then Inr TyError else Inr TyUnknown)"

definition infer_field :: "type_env \<Rightarrow> ty \<Rightarrow> string \<Rightarrow> span \<Rightarrow> infer_result" where
  "infer_field env t f span =
     (case Option.bind (struct_name t) (\<lambda>n. lookup_field env n f) of
        Some field_ty \<Rightarrow> Inr field_ty
      | None \<Rightarrow>
          (case tuple_elems t of
             Some ts \<Rightarrow> tuple_field ts f span
           | None \<Rightarrow>
               (case builtin_field t f of Some r \<Rightarrow> Inr r | None \<Rightarrow> unknown_field env t f span)))"

section \<open>Methods\<close>

text \<open>
  The arguments have been inferred without error when a method's type is looked up: \<open>tys\<close> are
  their types, and inferring the first argument again gives the first of them.
\<close>

definition first_arg :: "ty list \<Rightarrow> ty \<Rightarrow> ty" where
  "first_arg tys otherwise = (case tys of [] \<Rightarrow> otherwise | t # _ \<Rightarrow> t)"

fun fn_return :: "ty \<Rightarrow> ty option" where
  "fn_return (TyFn params ret) = Some ret"
| "fn_return _ = None"

fun ident_fn_return :: "type_env \<Rightarrow> sp_expr \<Rightarrow> ty option" where
  "ident_fn_return env (Spanned (Ident name) s) = Option.bind (env_lookup env name) fn_return"
| "ident_fn_return env _ = None"

definition infer_closure_return_from_args :: "sp_expr list \<Rightarrow> ty list \<Rightarrow> type_env \<Rightarrow> ty" where
  "infer_closure_return_from_args args tys env =
     (case args of
        [] \<Rightarrow> TyUnknown
      | a # _ \<Rightarrow>
          (case ident_fn_return env a of
             Some r \<Rightarrow> r
           | None \<Rightarrow> (case fn_return (hd tys) of Some r \<Rightarrow> r | None \<Rightarrow> TyUnknown)))"

fun list_elem_or_self :: "ty \<Rightarrow> ty" where
  "list_elem_or_self (TyList t) = t"
| "list_elem_or_self (TySequence t) = t"
| "list_elem_or_self t = t"

definition list_method :: "ty \<Rightarrow> ty \<Rightarrow> string \<Rightarrow> ty list \<Rightarrow> ty option" where
  "list_method recv elem m tys =
     (if m \<in> {''len'', ''length'', ''size'', ''count''} then Some TyNat
      else if m \<in> {''get'', ''first'', ''last'', ''index''} then Some (TyOption elem)
      else if m = ''pop'' then Some (TyOption elem)
      else if m \<in> {''set'', ''push'', ''append'', ''remove'', ''clear'', ''insert_at'', ''remove_at''} then Some TyUnit
      else if m \<in> {''contains'', ''is_empty'', ''any'', ''all''} then Some TyBool
      else if m \<in> {''map'', ''filter'', ''take'', ''skip'', ''reverse'', ''sort'', ''slice'', ''dedup'', ''flatten''}
      then Some recv
      else if m \<in> {''fold'', ''reduce''} then Some (first_arg tys elem)
      else if m = ''zip'' then Some (TyList (TyTuple [elem, list_elem_or_self (first_arg tys TyUnknown)]))
      else if m = ''enumerate'' then Some (TyList (TyTuple [TyNat, elem]))
      else if m = ''find'' then Some (TyOption elem)
      else if m \<in> {''position'', ''index_of''} then Some (TyOption TyNat)
      else if m = ''iter'' then Some recv
      else None)"

definition map_method :: "ty \<Rightarrow> ty \<Rightarrow> ty \<Rightarrow> string \<Rightarrow> ty option" where
  "map_method recv key val m =
     (if m \<in> {''get'', ''get_or_default''} then Some (TyOption val)
      else if m \<in> {''contains_key'', ''contains_value'', ''is_empty''} then Some TyBool
      else if m \<in> {''len'', ''size''} then Some TyNat
      else if m = ''keys'' then Some (TySet key)
      else if m = ''values'' then Some (TyList val)
      else if m = ''entries'' then Some (TyList (TyTuple [key, val]))
      else if m \<in> {''insert'', ''remove'', ''clear'', ''update''} then Some TyUnit
      else if m = ''merge'' then Some recv
      else if m = ''map_values'' then Some recv
      else None)"

definition set_method :: "ty \<Rightarrow> ty \<Rightarrow> string \<Rightarrow> ty option" where
  "set_method recv elem m =
     (if m \<in> {''contains'', ''is_empty'', ''is_subset'', ''is_superset'', ''is_disjoint''} then Some TyBool
      else if m \<in> {''len'', ''size''} then Some TyNat
      else if m \<in> {''insert'', ''add'', ''remove'', ''clear''} then Some TyUnit
      else if m \<in> {''union'', ''intersection'', ''difference'', ''symmetric_difference''} then Some recv
      else if m \<in> {''to_list'', ''iter''} then Some (TyList elem)
      else None)"

definition string_method :: "string \<Rightarrow> ty option" where
  "string_method m =
     (if m \<in> {''len'', ''length''} then Some TyNat
      else if m \<in> {''contains'', ''starts_with'', ''ends_with'', ''is_empty''} then Some TyBool
      else if m \<in> {''to_uppercase'', ''to_lowercase'', ''trim'', ''substring'', ''replace'', ''concat'', ''repeat''}
      then Some TyString
      else if m \<in> {''split'', ''chars''} then Some (TyList TyString)
      else if m = ''parse_int'' then Some (TyOption TyInt)
      else None)"

fun option_inner_or_self :: "ty \<Rightarrow> ty" where
  "option_inner_or_self (TyOption t) = t"
| "option_inner_or_self t = t"

fun is_option :: "ty \<Rightarrow> bool" where
  "is_option (TyOption t) \<longleftrightarrow> True"
| "is_option _ \<longleftrightarrow> False"

fun is_result :: "ty \<Rightarrow> bool" where
  "is_result (TyResult t e) \<longleftrightarrow> True"
| "is_result _ \<longleftrightarrow> False"

definition option_method :: "ty \<Rightarrow> ty \<Rightarrow> string \<Rightarrow> ty list \<Rightarrow> ty \<Rightarrow> ty option" where
  "option_method recv inner m tys mapped =
     (if m \<in> {''unwrap'', ''unwrap_or'', ''unwrap_or_default'', ''expect''} then Some inner
      else if m \<in> {''is_some'', ''is_none''} then Some TyBool
      else if m = ''map'' then Some (TyOption mapped)
      else if m = ''and_then'' then Some (if is_option mapped then mapped else TyOption mapped)
      else if m = ''or_else'' then Some recv
      else if m = ''filter'' then Some recv
      else if m = ''flatten'' then Some (if is_option inner then TyOption (option_inner_or_self inner) else recv)
      else if m \<in> {''ok_or'', ''ok_or_else''} then Some (TyResult inner (first_arg tys TyUnknown))
      else if m = ''zip'' then Some (TyOption (TyTuple [inner, option_inner_or_self (first_arg tys TyUnknown)]))
      else None)"

definition bytes_method :: "string \<Rightarrow> ty option" where
  "bytes_method m =
     (if m \<in> {''len'', ''length'', ''size''} then Some TyNat
      else if m = ''is_empty'' then Some TyBool
      else if m = ''slice'' then Some TyBytes
      else None)"

definition result_method :: "ty \<Rightarrow> ty \<Rightarrow> string \<Rightarrow> ty \<Rightarrow> ty option" where
  "result_method ok_ty err_ty m mapped =
     (if m \<in> {''unwrap'', ''unwrap_or'', ''unwrap_or_default'', ''expect''} then Some ok_ty
      else if m \<in> {''unwrap_err'', ''expect_err''} then Some err_ty
      else if m \<in> {''is_ok'', ''is_err''} then Some TyBool
      else if m = ''map'' then Some (TyResult mapped err_ty)
      else if m = ''and_then'' then Some (if is_result mapped then mapped else TyResult mapped err_ty)
      else if m = ''map_err'' then Some (TyResult ok_ty mapped)
      else if m = ''or_else'' then Some (TyResult ok_ty TyUnknown)
      else if m = ''ok'' then Some (TyOption ok_ty)
      else if m = ''err'' then Some (TyOption err_ty)
      else None)"

definition named_method :: "ty \<Rightarrow> string \<Rightarrow> ty option" where
  "named_method recv m =
     (if m \<in> {''len'', ''length'', ''size'', ''count''} then Some TyNat
      else if m \<in> {''is_empty'', ''contains'', ''any'', ''all''} then Some TyBool
      else if m = ''clone'' then Some recv
      else if m = ''to_string'' then Some TyString
      else None)"

definition builtin_method :: "ty \<Rightarrow> string \<Rightarrow> ty list \<Rightarrow> ty \<Rightarrow> ty option" where
  "builtin_method recv m tys mapped =
     (case recv of
        TyList t \<Rightarrow> list_method recv t m tys
      | TySequence t \<Rightarrow> list_method recv t m tys
      | TyMap k v \<Rightarrow> map_method recv k v m
      | TySet t \<Rightarrow> set_method recv t m
      | TyString \<Rightarrow> string_method m
      | TyOption t \<Rightarrow> option_method recv t m tys mapped
      | TyBytes \<Rightarrow> bytes_method m
      | TyResult t e \<Rightarrow> result_method t e m mapped
      | TyNamed n \<Rightarrow> named_method recv m
      | _ \<Rightarrow> None)"

definition has_closed_methods :: "ty \<Rightarrow> bool" where
  "has_closed_methods t \<longleftrightarrow> t = TyString \<or> has_closed_fields t"

definition infer_method ::
  "type_env \<Rightarrow> ty \<Rightarrow> string \<Rightarrow> sp_expr list \<Rightarrow> ty list \<Rightarrow> span \<Rightarrow> infer_result" where
  "infer_method env recv m args tys span =
     (case Option.bind (env_lookup env m) fn_return of
        Some ret \<Rightarrow> Inr ret
      | None \<Rightarrow>
          (case builtin_method recv m tys (infer_closure_return_from_args args tys env) of
             Some r \<Rightarrow> Inr r
           | None \<Rightarrow>
               if has_closed_methods recv
               then type_fail ''A03005''
                      (''unknown method '' @ quoted m @ '' on type '' @ quoted (type_display recv)) span
               else if is_indeterminate recv then Inr recv else Inr TyUnknown))"

section \<open>Calls and indexing\<close>

definition infer_builtin_call_type :: "string \<Rightarrow> ty list \<Rightarrow> ty option" where
  "infer_builtin_call_type name tys =
     (if name \<in> {''len'', ''length'', ''size'', ''count''} then Some TyNat
      else if name \<in> {''is_empty'', ''contains'', ''is_valid'', ''is_some'', ''is_none'', ''is_ok'', ''is_err''}
      then Some TyBool
      else if name = ''abs'' then list_get tys 0
      else if name \<in> {''min'', ''max''} then list_get tys 0
      else if name = ''sqrt'' then Some TyFloat
      else if name \<in> {''floor'', ''ceil'', ''round''} then list_get tys 0
      else if name \<in> {''to_string'', ''to_str''} then Some TyString
      else if name \<in> {''to_int'', ''parse_int''} then Some TyInt
      else if name = ''unwrap''
      then (case list_get tys 0 of
              Some (TyOption t) \<Rightarrow> Some t | Some (TyResult t e) \<Rightarrow> Some t | _ \<Rightarrow> None)
      else None)"

definition not_callable_hint :: string where
  "not_callable_hint =
     ''Ensure you are calling a function, not a type or variable. '' @
     ''If you meant to construct a value, use struct literal syntax.''"

fun ident_name :: "sp_expr \<Rightarrow> string option" where
  "ident_name (Spanned (Ident name) s) = Some name"
| "ident_name _ = None"

definition infer_call :: "sp_expr \<Rightarrow> ty \<Rightarrow> ty list \<Rightarrow> span \<Rightarrow> infer_result" where
  "infer_call func func_ty tys span =
     (case func_ty of
        TyFn params ret \<Rightarrow>
          if params \<noteq> [] \<and> length params \<noteq> length tys
          then type_fail ''A03002''
                 (''function expects '' @ dec (length params) @ '' argument(s), but '' @ dec (length tys) @
                  '' were provided'') span
          else Inr ret
      | TyUnknown \<Rightarrow>
          Inr (case Option.bind (ident_name func) (\<lambda>n. infer_builtin_call_type n tys) of
                 Some t \<Rightarrow> t | None \<Rightarrow> TyUnknown)
      | TyError \<Rightarrow> Inr TyError
      | TyNamed name \<Rightarrow> Inr (TyNamed name)
      | TyTypeParam name \<Rightarrow> Inr (TyTypeParam name)
      | other \<Rightarrow>
          Inl ((type_error_at ''A03001'' (''type '' @ quoted (type_display other) @ '' is not callable'') span)
                 \<lparr>te_suggestion := Some not_callable_hint\<rparr>))"

fun literal_index :: "sp_expr \<Rightarrow> nat option" where
  "literal_index (Spanned (Literal (LInt s)) sp) = parse_uint 64 s"
| "literal_index _ = None"

definition infer_index :: "sp_expr \<Rightarrow> ty \<Rightarrow> span \<Rightarrow> infer_result" where
  "infer_index idx base span =
     (case base of
        TyList t \<Rightarrow> Inr t
      | TyMap k v \<Rightarrow> Inr v
      | TySequence t \<Rightarrow> Inr t
      | TyBytes \<Rightarrow> Inr TyU8
      | TyTuple ts \<Rightarrow>
          Inr (case literal_index idx of
                 Some i \<Rightarrow> if i < length ts then ts ! i else TyUnknown | None \<Rightarrow> TyUnknown)
      | TyError \<Rightarrow> Inr TyError
      | _ \<Rightarrow>
          if base \<in> {TyBool, TyUnit, TyNever, TyFloat, TyF32, TyF64}
          then type_fail ''A03005'' (''type '' @ quoted (type_display base) @ '' cannot be indexed'') span
          else Inr TyUnknown)"

section \<open>Expressions\<close>

definition infer_ident :: "type_env \<Rightarrow> string \<Rightarrow> infer_result" where
  "infer_ident env name =
     (if name = ''true'' \<or> name = ''false'' then Inr TyBool
      else Inr (case env_lookup env name of Some t \<Rightarrow> t | None \<Rightarrow> TyUnknown))"

fun infer_literal :: "literal \<Rightarrow> ty" where
  "infer_literal (LInt s) = TyInt"
| "infer_literal (LFloat s) = TyFloat"
| "infer_literal (LStr s) = TyString"
| "infer_literal (LBool b) = TyBool"

definition check_condition :: "sp_expr \<Rightarrow> ty \<Rightarrow> type_error + unit" where
  "check_condition cond t =
     (if \<not> is_indeterminate t \<and> t \<noteq> TyBool
      then type_fail ''A03001'' (''if condition must be Bool, found '' @ quoted (type_display t)) (sp_span cond)
      else Inr ())"

definition check_item :: "ty \<Rightarrow> ty \<Rightarrow> span \<Rightarrow> type_error + unit" where
  "check_item first t span =
     (if \<not> is_indeterminate t \<and> \<not> is_indeterminate first \<and> t \<noteq> first
      then type_fail ''A03001''
             (''list element type mismatch: expected '' @ quoted (type_display first) @ '', found '' @
              quoted (type_display t)) span
      else Inr ())"

definition join_arm :: "ty \<Rightarrow> ty \<Rightarrow> span \<Rightarrow> infer_result" where
  "join_arm result arm span =
     (if is_indeterminate arm then Inr result
      else if is_indeterminate result then Inr arm
      else if \<not> types_compatible result arm
      then type_fail ''A03001''
             (''match arm type '' @ quoted (type_display arm) @ '' is incompatible with previous arm type '' @
              quoted (type_display result)) span
      else Inr result)"

definition infer_branches :: "sp_expr \<Rightarrow> ty \<Rightarrow> ty option \<Rightarrow> infer_result" where
  "infer_branches then_branch t else_ty =
     (case else_ty of Some e \<Rightarrow> infer_if then_branch t e | None \<Rightarrow> Inr t)"

function (sequential) infer :: "sp_expr \<Rightarrow> type_env \<Rightarrow> span \<Rightarrow> infer_result"
  and infer_list :: "sp_expr list \<Rightarrow> type_env \<Rightarrow> type_error + ty list"
  and infer_elements :: "sp_expr list \<Rightarrow> type_env \<Rightarrow> infer_result"
  and infer_items :: "sp_expr list \<Rightarrow> ty \<Rightarrow> type_env \<Rightarrow> infer_result"
  and infer_block :: "sp_expr list \<Rightarrow> ty \<Rightarrow> type_env \<Rightarrow> infer_result"
  and infer_opt :: "sp_expr option \<Rightarrow> type_env \<Rightarrow> type_error + ty option"
  and infer_arms :: "match_arm list \<Rightarrow> ty \<Rightarrow> ty \<Rightarrow> type_env \<Rightarrow> span \<Rightarrow> infer_result" where
  "infer (Spanned (Literal l) s) env span = Inr (infer_literal l)"
| "infer (Spanned (Ident name) s) env span = infer_ident env name"
| "infer (Spanned (BinOp l op r) s) env span =
     and_then (infer l env (sp_span l)) (\<lambda>lt. and_then (infer r env (sp_span r)) (\<lambda>rt.
       infer_binop op l r lt rt span))"
| "infer (Spanned (UnaryOp op e) s) env span =
     and_then (infer e env (sp_span e)) (\<lambda>t. infer_unary op t (sp_span e))"
| "infer (Spanned (IfE c t e) s) env span =
     and_then (infer c env (sp_span c)) (\<lambda>ct. and_then (check_condition c ct) (\<lambda>_.
       and_then (infer t env (sp_span t)) (\<lambda>tt. and_then (infer_opt e env) (\<lambda>et.
         infer_branches t tt et))))"
| "infer (Spanned (Forall v d b) s) env span =
     and_then (infer d env (sp_span d)) (\<lambda>dt.
       and_then (infer b (env_bind v (element_type_of dt) env) (sp_span b)) (\<lambda>_. Inr TyBool))"
| "infer (Spanned (Exists v d b) s) env span =
     and_then (infer d env (sp_span d)) (\<lambda>dt.
       and_then (infer b (env_bind v (element_type_of dt) env) (sp_span b)) (\<lambda>_. Inr TyBool))"
| "infer (Spanned (Old e) s) env span = infer e env (sp_span e)"
| "infer (Spanned (ListE es) s) env span = infer_elements es env"
| "infer (Spanned (Field r f) s) env span =
     and_then (infer r env (sp_span r)) (\<lambda>t. infer_field env t f span)"
| "infer (Spanned (MethodCall r m args) s) env span =
     and_then (infer r env (sp_span r)) (\<lambda>t. and_then (infer_list args env) (\<lambda>tys.
       infer_method env t m args tys span))"
| "infer (Spanned (Call f args) s) env span =
     and_then (infer f env (sp_span f)) (\<lambda>t. and_then (infer_list args env) (\<lambda>tys.
       infer_call f t tys (sp_span f)))"
| "infer (Spanned (Index b i) s) env span =
     and_then (infer b env (sp_span b)) (\<lambda>t. and_then (infer i env (sp_span i)) (\<lambda>_.
       infer_index i t span))"
| "infer (Spanned (Cast e ty) s) env span =
     and_then (infer e env (sp_span e)) (\<lambda>_. Inr (parse_type_tokens [ty]))"
| "infer (Spanned (ApplyE n args) s) env span = and_then (infer_list args env) (\<lambda>_. Inr TyBool)"
| "infer (Spanned (Ghost e) s) env span = and_then (infer e env (sp_span e)) (\<lambda>_. Inr TyUnit)"
| "infer (Spanned (Match e arms) s) env span =
     and_then (infer e env (sp_span e)) (\<lambda>t. infer_arms arms t TyUnknown env span)"
| "infer (Spanned (LetE n v b) s) env span =
     and_then (infer v env (sp_span v)) (\<lambda>t. infer b (env_bind n t env) (sp_span b))"
| "infer (Spanned (TupleE es) s) env span = and_then (infer_list es env) (\<lambda>ts. Inr (TyTuple ts))"
| "infer (Spanned (BlockE es) s) env span = infer_block es TyUnit env"
| "infer (Spanned (Raw ts) s) env span = Inr TyError"
| "infer_list [] env = Inr []"
| "infer_list (e # es) env =
     and_then (infer e env (sp_span e)) (\<lambda>t. and_then (infer_list es env) (\<lambda>ts. Inr (t # ts)))"
| "infer_elements [] env = Inr (TyList TyUnknown)"
| "infer_elements (e # es) env = and_then (infer e env (sp_span e)) (\<lambda>t. infer_items es t env)"
| "infer_items [] first env = Inr (TyList first)"
| "infer_items (e # es) first env =
     and_then (infer e env (sp_span e)) (\<lambda>t. and_then (check_item first t (sp_span e)) (\<lambda>_.
       infer_items es first env))"
| "infer_block [] t env = Inr t"
| "infer_block (e # es) t env = and_then (infer e env (sp_span e)) (\<lambda>t. infer_block es t env)"
| "infer_opt None env = Inr None"
| "infer_opt (Some e) env = and_then (infer e env (sp_span e)) (\<lambda>t. Inr (Some t))"
| "infer_arms [] scrut result env span = Inr result"
| "infer_arms (MatchArm p b # arms) scrut result env span =
     and_then (bind_pattern_vars p scrut env (sp_span b)) (\<lambda>arm_env.
       and_then (infer b arm_env (sp_span b)) (\<lambda>t. and_then (join_arm result t span) (\<lambda>result.
         infer_arms arms scrut result env span)))"

  by pat_completeness auto
termination
  by (relation "measure
       (case_sum
          (case_sum (\<lambda>(e, _). size e)
             (case_sum (\<lambda>(es, _). size_list size es) (\<lambda>(es, _). size_list size es)))
          (case_sum
             (case_sum (\<lambda>(es, _). size_list size es) (\<lambda>(es, _). size_list size es))
             (case_sum (\<lambda>(e, _). size_option size e) (\<lambda>(arms, _). size_list size arms))))")
     simp_all

lemmas infer_induct = infer_infer_list_infer_elements_infer_items_infer_block_infer_opt_infer_arms.induct

definition infer_expr :: "sp_expr \<Rightarrow> type_env \<Rightarrow> infer_result" where
  "infer_expr e env = infer e env (0, 0)"

section \<open>Errors\<close>

text \<open>The spans of an expression and of everything below it.\<close>

function spans :: "sp_expr \<Rightarrow> span list" where
  "spans (Spanned x s) = s # concat (map spans (walk_children x))"
  by pat_completeness auto
termination
  by (relation "measure size") (auto dest!: walk_children_size)

lemma sp_span_in_spans [simp]: "sp_span e \<in> set (spans e)"
  by (cases e) simp

lemma insert_span_spans [simp]: "insert (sp_span e) (set (spans e)) = set (spans e)"
  by (simp add: insert_absorb)

definition infer_codes :: "string set" where
  "infer_codes = {''A03001'', ''A03002'', ''A03005'', ''A03010''}"

definition located :: "span set \<Rightarrow> type_error + 'a \<Rightarrow> bool" where
  "located S r \<longleftrightarrow>
     (case r of Inl e \<Rightarrow> te_code e \<in> infer_codes \<and> te_span e \<in> S \<and> te_secondary e = None | Inr x \<Rightarrow> True)"

named_theorems located_rules

lemma located_Inr [simp, located_rules]: "located S (Inr x)"
  by (simp add: located_def)

lemma located_fail [located_rules]: "code \<in> infer_codes \<Longrightarrow> s \<in> S \<Longrightarrow> located S (type_fail code m s)"
  by (simp add: located_def type_fail_def type_error_at_def)

lemma located_and_then [located_rules]:
  "located S r \<Longrightarrow> (\<And>x. r = Inr x \<Longrightarrow> located S (f x)) \<Longrightarrow> located S (and_then r f)"
  by (cases r) (simp_all add: located_def)

lemma located_if [located_rules]:
  "(c \<Longrightarrow> located S x) \<Longrightarrow> (\<not> c \<Longrightarrow> located S y) \<Longrightarrow> located S (if c then x else y)"
  by simp

lemma located_mono: "located S r \<Longrightarrow> S \<subseteq> T \<Longrightarrow> located T r"
  by (cases r) (auto simp: located_def)

lemma codes [simp]:
  "''A03001'' \<in> infer_codes" "''A03002'' \<in> infer_codes" "''A03005'' \<in> infer_codes" "''A03010'' \<in> infer_codes"
  by (simp_all add: infer_codes_def)

lemma located_arity [located_rules]: "s \<in> S \<Longrightarrow> located S (Inl (arity_error m g s))"
  by (simp add: located_def arity_error_def type_error_at_def)

lemma located_unary: "s \<in> S \<Longrightarrow> located S (infer_unary op t s)"
  by (cases op) (auto simp: infer_unary_def intro!: located_rules)

lemma located_binop:
  "{s, sp_span l, sp_span r} \<subseteq> S \<Longrightarrow> located S (infer_binop op l r lt rt s)"
  unfolding infer_binop_def indeterminate_binop_def infer_arithmetic_def infer_comparison_def
    infer_logical_def infer_concat_def infer_range_def infer_membership_def
  by (intro located_rules) auto

lemma located_branches: "sp_span t \<in> S \<Longrightarrow> located S (infer_branches t tt et)"
  by (cases et) (auto simp: infer_branches_def infer_if_def intro!: located_rules)

lemma located_field: "s \<in> S \<Longrightarrow> located S (infer_field env t f s)"
  unfolding infer_field_def tuple_field_def unknown_field_def
  by (auto split: option.split intro!: located_rules)

lemma located_method: "s \<in> S \<Longrightarrow> located S (infer_method env t m args tys s)"
  unfolding infer_method_def by (auto split: option.split intro!: located_rules)

lemma located_call: "s \<in> S \<Longrightarrow> located S (infer_call f t tys s)"
  by (cases t) (auto simp: infer_call_def located_def type_fail_def type_error_at_def)

lemma located_index: "s \<in> S \<Longrightarrow> located S (infer_index i t s)"
  by (cases t) (auto simp: infer_index_def intro!: located_rules)

lemma located_checks:
  "sp_span c \<in> S \<Longrightarrow> located S (check_condition c t)"
  "s \<in> S \<Longrightarrow> located S (check_item first t s)"
  "s \<in> S \<Longrightarrow> located S (join_arm result t s)"
  unfolding check_condition_def check_item_def join_arm_def by (auto intro!: located_rules)

lemma located_patterns:
  "s \<in> S \<Longrightarrow> located S (bind_pattern_vars p t env s)"
  "s \<in> S \<Longrightarrow> located S (bind_patterns ps ts env s)"
  by (induction p t env s and ps ts env s rule: bind_pattern_vars_bind_patterns.induct)
    (auto simp: constructor_arity_error_def split: option.split intro!: located_rules)

lemma located_ident: "located S (infer_ident env name)"
  by (simp add: infer_ident_def)

lemmas located_ops = located_ident located_unary located_binop located_branches located_field located_method
  located_call located_index located_checks located_patterns

lemma infer_located:
  "located (insert span (set (spans e))) (infer e env span)"
  "located (\<Union>e \<in> set es. set (spans e)) (infer_list es env)"
  "located (\<Union>e \<in> set es. set (spans e)) (infer_elements es env)"
  "located (\<Union>e \<in> set es. set (spans e)) (infer_items es first env)"
  "located (\<Union>e \<in> set es. set (spans e)) (infer_block es t env)"
  "located (\<Union>e \<in> set_option oe. set (spans e)) (infer_opt oe env)"
  "located (insert span (\<Union>a \<in> set arms. set (spans (arm_body a)))) (infer_arms arms scrut res env span)"
proof (induction e env span and es env and es env and es first env and es t env and oe env
    and arms scrut res env span rule: infer_induct)
  case (5 c t e s env span)
  show ?case
    by (auto intro!: located_rules located_ops located_mono [OF "5.IH"(1)] located_mono [OF "5.IH"(2)]
        located_mono [OF "5.IH"(3)])
next
  case (33 p b arms scrut result env span)
  show ?case
    by (auto intro!: located_rules located_ops located_mono [OF "33.IH"(1)] located_mono [OF "33.IH"(2)])
qed (auto intro!: located_rules located_ops elim!: located_mono)

text \<open>C34: Every error of expression inference has one of the four documented codes and no secondary
  location, and its span is that of the expression, that of one of its sub-expressions, or the empty
  span \<open>0..0\<close> of the errors that are given no location, as in the witness.\<close>

theorem infer_error_is_located:
  assumes "infer_expr e env = Inl err"
  shows "te_code err \<in> {''A03001'', ''A03002'', ''A03005'', ''A03010''} \<and>
    te_span err \<in> insert (0, 0) (set (spans e)) \<and> te_secondary err = None"
  using infer_located(1) [of "(0, 0)" e env] assms
  by (simp add: infer_expr_def located_def infer_codes_def)

section \<open>What the rules let through\<close>

abbreviation lit_int :: "string \<Rightarrow> sp_expr" where
  "lit_int n \<equiv> no_span (Literal (LInt n))"

abbreviation lit_bool :: "bool \<Rightarrow> sp_expr" where
  "lit_bool b \<equiv> no_span (Literal (LBool b))"

lemmas infer_simps = infer_expr_def no_span_def infer_binop_def infer_concat_def infer_arithmetic_def
  infer_comparison_def infer_logical_def infer_range_def indeterminate_binop_def infer_ident_def
  infer_index_def infer_branches_def infer_if_def check_item_def check_condition_def types_compatible.simps
  infer_unary_def is_arithmetic_def is_comparison_def is_logical_def is_membership_def is_division_like_def

declare tenv.look_new [simp]

lemma infer_error_is_located_witness:
  "infer_expr (Spanned (BinOp (Spanned (Literal (LInt ''1'')) (0, 1)) Div (Spanned (Literal (LInt ''0'')) (4, 5))) (0, 5))
     env_new = Inl (type_error_at ''A03010'' ''division by zero'' (0, 0)) \<and>
   (0, 0) \<in> insert (0, 0) (set (spans (Spanned (BinOp (Spanned (Literal (LInt ''1'')) (0, 1)) Div
     (Spanned (Literal (LInt ''0'')) (4, 5))) (0, 5))))"
proof -
  let ?e = "Spanned (BinOp (Spanned (Literal (LInt ''1'')) (0, 1)) Div (Spanned (Literal (LInt ''0'')) (4, 5))) (0, 5)"
  have "infer_expr ?e env_new = Inl (type_error_at ''A03010'' ''division by zero'' (0, 0))"
    by (simp add: infer_simps type_fail_def)
  with infer_error_is_located [OF this] show ?thesis by simp
qed

text \<open>Any two values of compatible types can be concatenated, numbers and Booleans too.\<close>

lemma concat_of_booleans:
  "infer_expr (no_span (BinOp (lit_bool True) Concat (lit_bool False))) env_new = Inr TyBool"
  by (simp add: infer_simps)

text \<open>The empty list has elements of unknown type, and a list of those fits no other list.\<close>

lemma concat_with_empty_list:
  "infer_expr (no_span (BinOp (no_span (ListE [lit_int ''1''])) Concat (no_span (ListE [])))) env_new =
   Inl (type_error_at ''A03001'' ''concat requires compatible types, found `List<Int>` vs `List<Unknown>`'' (0, 0))"
  by (simp add: infer_simps type_fail_def quoted_def)

text \<open>Division by a literal zero is reported only when the types of both operands are known.\<close>

lemma unresolved_division_by_zero:
  "infer_expr (no_span (BinOp (no_span (Ident ''x'')) Div (lit_int ''0''))) env_new = Inr TyInt"
  by (simp add: infer_simps)

text \<open>The index of a list and the body of a quantifier may have any type.\<close>

lemma boolean_index:
  "infer_expr (no_span (Index (no_span (ListE [lit_int ''1''])) (lit_bool True))) env_new = Inr TyInt"
  by (simp add: infer_simps)

lemma integer_quantifier_body:
  "infer_expr (no_span (Forall ''x'' (no_span (ListE [lit_int ''1''])) (lit_int ''2''))) env_new = Inr TyBool"
  by (simp add: infer_simps)

text \<open>Compatibility is not transitive: two types that share no value are each compatible with a name.\<close>

lemma types_compatible_not_transitive:
  "types_compatible TyInt (TyNamed ''T'')" "types_compatible (TyNamed ''T'') TyString"
  "\<not> types_compatible TyInt TyString"
  by (simp_all add: types_compatible.simps)

end
