(* ===== verification/Infer_Safety.thy ===== *)
theory Infer_Safety
  imports Infer
begin

text \<open>
  Soundness of expression inference.  A reference evaluator over integers, Booleans, strings,
  lists and tuples gives a fault where an operation does not apply; on the expressions whose
  sub-expressions all have concrete types, acceptance by \<open>infer\<close> excludes the fault \<open>Stuck\<close> and
  the value belongs to the inferred type.  The four conditions the checker does not impose, on
  concatenation, membership, quantifier bodies and conditionals, are part of \<open>definite\<close>.
\<close>

section \<open>Values\<close>

datatype val = VInt int | VBool bool | VStr string | VUnit | VList "val list" | VTuple "val list"

datatype fault = Div_By_Zero | Out_Of_Range | No_Arm | Stuck

type_synonym eval_result = "fault + val"
type_synonym venv = "string \<Rightarrow> val option"

text \<open>
  The values of a type: integer types are one set (no ranges are checked), a refined type has
  those of its base, and a type without values of its own says nothing.
\<close>

lemma zip_right_size [termination_simp]:
  assumes "(x, y) \<in> set (zip xs ys)"
  shows "size y < Suc (size_list size ys)"
  using size_member [OF set_zip_rightD [OF assms]] by simp

fun has_type :: "val \<Rightarrow> ty \<Rightarrow> bool" where
  "has_type v (TyRefined base p x) \<longleftrightarrow> has_type v base"
| "has_type v TyBool \<longleftrightarrow> (\<exists>b. v = VBool b)"
| "has_type v TyString \<longleftrightarrow> (\<exists>s. v = VStr s)"
| "has_type v TyUnit \<longleftrightarrow> v = VUnit"
| "has_type v (TyList t) \<longleftrightarrow> (\<exists>vs. v = VList vs \<and> (\<forall>x \<in> set vs. has_type x t))"
| "has_type v (TySequence t) \<longleftrightarrow> (\<exists>vs. v = VList vs \<and> (\<forall>x \<in> set vs. has_type x t))"
| "has_type v (TyTuple ts) \<longleftrightarrow>
     (\<exists>vs. v = VTuple vs \<and> length vs = length ts \<and> (\<forall>(x, t) \<in> set (zip vs ts). has_type x t))"
| "has_type v t \<longleftrightarrow>
     (t \<in> {TyInt, TyNat, TyU8, TyU16, TyU32, TyU64, TyI8, TyI16, TyI32, TyI64} \<longrightarrow> (\<exists>i. v = VInt i))"

fun concrete :: "ty \<Rightarrow> bool" where
  "concrete (TyRefined base p x) \<longleftrightarrow> concrete base"
| "concrete TyBool \<longleftrightarrow> True"
| "concrete TyString \<longleftrightarrow> True"
| "concrete TyUnit \<longleftrightarrow> True"
| "concrete (TyList t) \<longleftrightarrow> concrete t"
| "concrete (TySequence t) \<longleftrightarrow> concrete t"
| "concrete (TyTuple ts) \<longleftrightarrow> (\<forall>t \<in> set ts. concrete t)"
| "concrete t \<longleftrightarrow> t \<in> {TyInt, TyNat, TyU8, TyU16, TyU32, TyU64, TyI8, TyI16, TyI32, TyI64}"

text \<open>On concrete types, compatibility is sound: compatible types have the same values.\<close>

lemma concrete_cases: "concrete t \<Longrightarrow> \<not> is_indeterminate t \<and> \<not> is_named t \<and> \<not> is_type_param t"
  by (cases t) simp_all

lemma numeric_values:
  "concrete t \<Longrightarrow> is_numeric t \<Longrightarrow> has_type v t \<longleftrightarrow> (\<exists>i. v = VInt i)"
  by (induction t) auto

lemma zip_all_nth:
  "length xs = length ys \<Longrightarrow>
   (\<forall>(x, y) \<in> set (zip xs ys). P x y) \<longleftrightarrow> (\<forall>i < length ys. P (xs ! i) (ys ! i))"
  by (auto simp: set_zip)

lemma compatible_cases:
  assumes "types_compatible a b" and "concrete a" and "concrete b"
  obtains (same) "a = b"
  | (left_base) x where "refined_base a = Some x" "types_compatible x b" "concrete x"
  | (right_base) x where "refined_base b = Some x" "types_compatible a x" "concrete x"
  | (numbers) "is_numeric a" "is_numeric b"
  | (tuples) as bs where "a = TyTuple as" "b = TyTuple bs" "length as = length bs"
      "\<forall>(x, y) \<in> set (zip as bs). types_compatible x y"
proof -
  have base: "refined_base t = Some x \<Longrightarrow> concrete t \<Longrightarrow> concrete x" for t x
    by (cases t) auto
  have tup: "tuple_elems t = Some ts \<Longrightarrow> t = TyTuple ts" for t ts
    by (cases t) auto
  show thesis
    using assms concrete_cases [OF assms(2)] concrete_cases [OF assms(3)]
    by (subst (asm) types_compatible.simps, cases "tuple_elems a"; cases "tuple_elems b")
      (auto split: option.splits if_splits dest: base tup intro: that)
qed

lemma base_values: "refined_base t = Some x \<Longrightarrow> has_type v t \<longleftrightarrow> has_type v x"
  by (cases t) auto

lemma tuple_values:
  assumes "length as = length bs" and "\<forall>(x, y) \<in> set (zip as bs). \<forall>v. has_type v x \<longleftrightarrow> has_type v y"
  shows "has_type v (TyTuple as) \<longleftrightarrow> has_type v (TyTuple bs)"
proof -
  have eq: "has_type w (as ! i) \<longleftrightarrow> has_type w (bs ! i)" if "i < length bs" for w i
    using assms that by (simp add: zip_all_nth)
  have "(\<forall>(x, t) \<in> set (zip vs as). has_type x t) \<longleftrightarrow> (\<forall>(x, t) \<in> set (zip vs bs). has_type x t)"
    if "length vs = length bs" for vs
    using that assms(1) eq by (simp add: zip_all_nth)
  with assms(1) show ?thesis by auto
qed

lemma compatible_values:
  "types_compatible a b \<Longrightarrow> concrete a \<Longrightarrow> concrete b \<Longrightarrow> has_type v a \<longleftrightarrow> has_type v b"
proof (induction "size a + size b" arbitrary: a b v rule: less_induct)
  case less
  from less.prems show ?case
  proof (cases rule: compatible_cases)
    case (left_base x)
    with less.hyps [of x b v] less.prems show ?thesis
      using refined_base_size [OF left_base(1)] by (simp add: base_values)
  next
    case (right_base x)
    with less.hyps [of a x v] less.prems show ?thesis
      using refined_base_size [OF right_base(1)] by (simp add: base_values)
  next
    case numbers
    with less.prems show ?thesis by (simp add: numeric_values)
  next
    case (tuples as bs)
    have "has_type w x \<longleftrightarrow> has_type w y" if "(x, y) \<in> set (zip as bs)" for x y w
    proof (rule less.hyps)
      show "size x + size y < size a + size b"
        using that tuples by (intro zip_tuple_size [of x y as bs]) simp_all
      show "types_compatible x y" using that tuples(4) by blast
      show "concrete x" "concrete y"
        using that less.prems(2,3) tuples(1,2) by (auto dest: set_zip_leftD set_zip_rightD)
    qed
    then show ?thesis using tuples by (auto intro!: tuple_values simp del: has_type.simps)
  qed simp
qed

section \<open>The evaluator\<close>

fun literal_value :: "literal \<Rightarrow> val option" where
  "literal_value (LInt s) = map_option (\<lambda>n. VInt (int n)) (parse_digits s)"
| "literal_value (LFloat s) = None"
| "literal_value (LStr s) = Some (VStr s)"
| "literal_value (LBool b) = Some (VBool b)"

fun string_cmp :: "string \<Rightarrow> string \<Rightarrow> int" where
  "string_cmp [] [] = 0"
| "string_cmp [] ds = -1"
| "string_cmp cs [] = 1"
| "string_cmp (c # cs) (d # ds) =
     (if c = d then string_cmp cs ds else sgn (int (of_char c) - int (of_char d)))"

text \<open>Three-way comparison, lexicographic on sequences; \<open>None\<close> for values of different kinds.\<close>

fun val_cmp :: "val \<Rightarrow> val \<Rightarrow> int option"
  and val_cmp_list :: "val list \<Rightarrow> val list \<Rightarrow> int option" where
  "val_cmp (VInt a) (VInt b) = Some (sgn (a - b))"
| "val_cmp (VBool a) (VBool b) = Some (of_bool a - of_bool b)"
| "val_cmp (VStr a) (VStr b) = Some (string_cmp a b)"
| "val_cmp VUnit VUnit = Some 0"
| "val_cmp (VList vs) (VList ws) = val_cmp_list vs ws"
| "val_cmp (VTuple vs) (VTuple ws) = val_cmp_list vs ws"
| "val_cmp _ _ = None"
| "val_cmp_list [] [] = Some 0"
| "val_cmp_list [] ws = Some (-1)"
| "val_cmp_list vs [] = Some 1"
| "val_cmp_list (v # vs) (w # ws) =
     (case val_cmp v w of None \<Rightarrow> None | Some c \<Rightarrow> if c = 0 then val_cmp_list vs ws else Some c)"

definition cmp_holds :: "binop \<Rightarrow> int \<Rightarrow> bool" where
  "cmp_holds op c \<longleftrightarrow>
     (op = Eq \<and> c = 0) \<or> (op = Neq \<and> c \<noteq> 0) \<or> (op = Lt \<and> c < 0) \<or> (op = Lte \<and> c \<le> 0) \<or>
     (op = Gt \<and> c > 0) \<or> (op = Gte \<and> c \<ge> 0)"

fun arith_values :: "binop \<Rightarrow> val \<Rightarrow> val \<Rightarrow> eval_result" where
  "arith_values op (VInt a) (VInt b) =
     (case op of
        Add \<Rightarrow> Inr (VInt (a + b)) | Sub \<Rightarrow> Inr (VInt (a - b)) | Mul \<Rightarrow> Inr (VInt (a * b))
      | Div \<Rightarrow> if b = 0 then Inl Div_By_Zero else Inr (VInt (a div b))
      | Mod \<Rightarrow> if b = 0 then Inl Div_By_Zero else Inr (VInt (a mod b))
      | _ \<Rightarrow> Inl Stuck)"
| "arith_values op _ _ = Inl Stuck"

fun logic_values :: "binop \<Rightarrow> val \<Rightarrow> val \<Rightarrow> eval_result" where
  "logic_values op (VBool a) (VBool b) =
     Inr (VBool (if op = And then a \<and> b else if op = Or then a \<or> b else a \<longrightarrow> b))"
| "logic_values op _ _ = Inl Stuck"

fun concat_values :: "val \<Rightarrow> val \<Rightarrow> eval_result" where
  "concat_values (VStr a) (VStr b) = Inr (VStr (a @ b))"
| "concat_values (VList vs) (VList ws) = Inr (VList (vs @ ws))"
| "concat_values _ _ = Inl Stuck"

fun range_values :: "val \<Rightarrow> val \<Rightarrow> eval_result" where
  "range_values (VInt a) (VInt b) = Inr (VList (map VInt [a..b - 1]))"
| "range_values _ _ = Inl Stuck"

fun member_value :: "val \<Rightarrow> val \<Rightarrow> fault + bool" where
  "member_value v (VList ws) =
     (if list_all (\<lambda>w. val_cmp v w \<noteq> None) ws then Inr (list_ex (\<lambda>w. val_cmp v w = Some 0) ws) else Inl Stuck)"
| "member_value (VStr p) (VStr s) = Inr (list_ex (\<lambda>i. take (length p) (drop i s) = p) [0..<length s + 1])"
| "member_value _ _ = Inl Stuck"

definition binop_values :: "binop \<Rightarrow> val \<Rightarrow> val \<Rightarrow> eval_result" where
  "binop_values op v w =
     (if is_arithmetic op then arith_values op v w
      else if is_comparison op
      then (case val_cmp v w of None \<Rightarrow> Inl Stuck | Some c \<Rightarrow> Inr (VBool (cmp_holds op c)))
      else if is_logical op then logic_values op v w
      else if op = Concat then concat_values v w
      else if op = Range then range_values v w
      else and_then (member_value v w) (\<lambda>b. Inr (VBool (if op = In then b else \<not> b))))"

fun unary_value :: "unary_op \<Rightarrow> val \<Rightarrow> eval_result" where
  "unary_value Neg (VInt a) = Inr (VInt (- a))"
| "unary_value Not (VBool b) = Inr (VBool (\<not> b))"
| "unary_value op _ = Inl Stuck"

fun field_value :: "val \<Rightarrow> string \<Rightarrow> eval_result" where
  "field_value (VTuple vs) f =
     (case parse_uint 64 f of Some i \<Rightarrow> if i < length vs then Inr (vs ! i) else Inl Stuck | None \<Rightarrow> Inl Stuck)"
| "field_value (VList vs) f =
     (if f \<in> {''len'', ''length'', ''size''} then Inr (VInt (int (length vs)))
      else if f = ''is_empty'' then Inr (VBool (vs = []))
      else if f \<in> {''tail'', ''rest''} then (if vs = [] then Inl Out_Of_Range else Inr (VList (tl vs)))
      else Inl Stuck)"
| "field_value (VStr s) f =
     (if f \<in> {''len'', ''length'', ''size''} then Inr (VInt (int (length s)))
      else if f = ''is_empty'' then Inr (VBool (s = [])) else Inl Stuck)"
| "field_value _ f = Inl Stuck"

definition nth_value :: "val list \<Rightarrow> int \<Rightarrow> eval_result" where
  "nth_value vs i = (if 0 \<le> i \<and> nat i < length vs then Inr (vs ! nat i) else Inl Out_Of_Range)"

fun index_value :: "val \<Rightarrow> val \<Rightarrow> eval_result" where
  "index_value (VList vs) (VInt i) = nth_value vs i"
| "index_value (VTuple vs) (VInt i) = nth_value vs i"
| "index_value _ _ = Inl Stuck"

fun elements :: "val \<Rightarrow> fault + val list" where
  "elements (VList vs) = Inr vs"
| "elements (VStr s) = Inr (map (\<lambda>c. VStr [c]) s)"
| "elements _ = Inl Stuck"

text \<open>\<open>quantify b\<close> looks for a body value \<open>b\<close>: \<open>False\<close> decides \<open>forall\<close>, \<open>True\<close> decides \<open>exists\<close>.\<close>

fun quantify :: "bool \<Rightarrow> eval_result list \<Rightarrow> eval_result" where
  "quantify b [] = Inr (VBool (\<not> b))"
| "quantify b (Inr (VBool c) # rs) = (if c = b then Inr (VBool b) else quantify b rs)"
| "quantify b (Inl f # rs) = Inl f"
| "quantify b (r # rs) = Inl Stuck"

text \<open>
  A store has the current values and those of the entry of the operation, which \<open>old\<close> reads;
  a local binding is visible in both.
\<close>

datatype store = Store (now: venv) (entry: venv)

definition bind_value :: "string \<Rightarrow> val \<Rightarrow> store \<Rightarrow> store" where
  "bind_value x v st = Store ((now st)(x \<mapsto> v)) ((entry st)(x \<mapsto> v))"

fun match_value :: "pattern \<Rightarrow> val \<Rightarrow> store \<Rightarrow> store option"
  and match_values :: "pattern list \<Rightarrow> val list \<Rightarrow> store \<Rightarrow> store option" where
  "match_value (PIdent x) v st = Some (bind_value x v st)"
| "match_value PWildcard v st = Some st"
| "match_value (PLiteral l) v st = (if literal_value l = Some v then Some st else None)"
| "match_value (PTuple ps) v st = (case v of VTuple vs \<Rightarrow> match_values ps vs st | _ \<Rightarrow> None)"
| "match_value (PConstructor c ps) v st = None"
| "match_values [] [] st = Some st"
| "match_values (p # ps) (v # vs) st = Option.bind (match_value p v st) (match_values ps vs)"
| "match_values _ _ st = None"

definition ident_value :: "string \<Rightarrow> venv \<Rightarrow> eval_result" where
  "ident_value x env =
     (if x = ''true'' \<or> x = ''false'' then Inr (VBool (x = ''true''))
      else case env x of Some v \<Rightarrow> Inr v | None \<Rightarrow> Inl Stuck)"

definition branch :: "val \<Rightarrow> eval_result \<Rightarrow> eval_result \<Rightarrow> eval_result" where
  "branch v t e = (case v of VBool b \<Rightarrow> if b then t else e | _ \<Rightarrow> Inl Stuck)"

definition value_or_stuck :: "val option \<Rightarrow> eval_result" where
  "value_or_stuck v = (case v of Some v \<Rightarrow> Inr v | None \<Rightarrow> Inl Stuck)"

function (sequential) eval :: "sp_expr \<Rightarrow> store \<Rightarrow> eval_result"
  and eval_list :: "sp_expr list \<Rightarrow> store \<Rightarrow> fault + val list"
  and eval_block :: "sp_expr list \<Rightarrow> val \<Rightarrow> store \<Rightarrow> eval_result"
  and eval_opt :: "sp_expr option \<Rightarrow> store \<Rightarrow> eval_result"
  and eval_arms :: "match_arm list \<Rightarrow> val \<Rightarrow> store \<Rightarrow> eval_result" where
  "eval (Spanned (Literal l) s) st = value_or_stuck (literal_value l)"
| "eval (Spanned (Ident x) s) st = ident_value x (now st)"
| "eval (Spanned (BinOp l op r) s) st =
     and_then (eval l st) (\<lambda>v. and_then (eval r st) (\<lambda>w. binop_values op v w))"
| "eval (Spanned (UnaryOp op e) s) st = and_then (eval e st) (unary_value op)"
| "eval (Spanned (IfE c t e) s) st = and_then (eval c st) (\<lambda>v. branch v (eval t st) (eval_opt e st))"
| "eval (Spanned (Forall x d b) s) st =
     and_then (eval d st) (\<lambda>v. and_then (elements v) (\<lambda>vs.
       quantify False (map (\<lambda>w. eval b (bind_value x w st)) vs)))"
| "eval (Spanned (Exists x d b) s) st =
     and_then (eval d st) (\<lambda>v. and_then (elements v) (\<lambda>vs.
       quantify True (map (\<lambda>w. eval b (bind_value x w st)) vs)))"
| "eval (Spanned (Old e) s) st = eval e (Store (entry st) (entry st))"
| "eval (Spanned (ListE es) s) st = and_then (eval_list es st) (\<lambda>vs. Inr (VList vs))"
| "eval (Spanned (TupleE es) s) st = and_then (eval_list es st) (\<lambda>vs. Inr (VTuple vs))"
| "eval (Spanned (Field e f) s) st = and_then (eval e st) (\<lambda>v. field_value v f)"
| "eval (Spanned (Index b i) s) st =
     and_then (eval b st) (\<lambda>v. and_then (eval i st) (\<lambda>w. index_value v w))"
| "eval (Spanned (Ghost e) s) st = Inr VUnit"
| "eval (Spanned (Match e arms) s) st = and_then (eval e st) (\<lambda>v. eval_arms arms v st)"
| "eval (Spanned (LetE x e b) s) st = and_then (eval e st) (\<lambda>v. eval b (bind_value x v st))"
| "eval (Spanned (BlockE es) s) st = eval_block es VUnit st"
| "eval (Spanned _ s) st = Inl Stuck"
| "eval_list [] st = Inr []"
| "eval_list (e # es) st = and_then (eval e st) (\<lambda>v. and_then (eval_list es st) (\<lambda>vs. Inr (v # vs)))"
| "eval_block [] v st = Inr v"
| "eval_block (e # es) v st = and_then (eval e st) (\<lambda>v. eval_block es v st)"
| "eval_opt None st = Inl Stuck"
| "eval_opt (Some e) st = eval e st"
| "eval_arms [] v st = Inl No_Arm"
| "eval_arms (MatchArm p b # arms) v st =
     (case match_value p v st of Some st' \<Rightarrow> eval b st' | None \<Rightarrow> eval_arms arms v st)"
  by pat_completeness auto
termination
  by (relation "measure
       (case_sum (case_sum (\<lambda>(e, _). size e) (\<lambda>(es, _). size_list size es))
          (case_sum (\<lambda>(es, _). size_list size es)
             (case_sum (\<lambda>(e, _). size_option size e) (\<lambda>(arms, _). size_list size arms))))")
     simp_all

section \<open>Definite expressions\<close>

definition type_at :: "sp_expr \<Rightarrow> type_env \<Rightarrow> ty" where
  "type_at e env = (case infer e env (sp_span e) of Inr t \<Rightarrow> t | Inl err \<Rightarrow> TyError)"

definition has_concrete_type :: "sp_expr \<Rightarrow> type_env \<Rightarrow> bool" where
  "has_concrete_type e env \<longleftrightarrow> concrete (type_at e env)"

fun is_sequence :: "ty \<Rightarrow> bool" where
  "is_sequence (TyList t) \<longleftrightarrow> True"
| "is_sequence (TySequence t) \<longleftrightarrow> True"
| "is_sequence TyString \<longleftrightarrow> True"
| "is_sequence (TyRefined base p x) \<longleftrightarrow> is_sequence base"
| "is_sequence _ \<longleftrightarrow> False"

text \<open>The conditions on operands that \<open>infer_binop\<close> leaves out.\<close>

definition operands_fit :: "binop \<Rightarrow> ty \<Rightarrow> ty \<Rightarrow> bool" where
  "operands_fit op l r \<longleftrightarrow>
     (op = Concat \<longrightarrow> is_sequence l) \<and> (is_membership op \<longrightarrow> types_compatible l (element_type_of r))"

fun well_formed_literal :: "literal \<Rightarrow> bool" where
  "well_formed_literal (LInt s) \<longleftrightarrow> parse_digits s \<noteq> None"
| "well_formed_literal (LFloat s) \<longleftrightarrow> False"
| "well_formed_literal _ \<longleftrightarrow> True"

text \<open>A domain that is quantified over has elements.\<close>

definition has_elements :: "ty \<Rightarrow> bool" where
  "has_elements t \<longleftrightarrow> is_sequence t \<and> refined_base t = None"

function (sequential) definite :: "sp_expr \<Rightarrow> type_env \<Rightarrow> bool"
  and definite_parts :: "expr \<Rightarrow> type_env \<Rightarrow> bool"
  and definite_list :: "sp_expr list \<Rightarrow> type_env \<Rightarrow> bool"
  and definite_arms :: "match_arm list \<Rightarrow> ty \<Rightarrow> type_env \<Rightarrow> bool" where
  "definite (Spanned x s) env \<longleftrightarrow> has_concrete_type (Spanned x s) env \<and> definite_parts x env"
| "definite_parts (Literal l) env \<longleftrightarrow> well_formed_literal l"
| "definite_parts (Ident x) env \<longleftrightarrow> True"
| "definite_parts (BinOp l op r) env \<longleftrightarrow>
     definite l env \<and> definite r env \<and> operands_fit op (type_at l env) (type_at r env)"
| "definite_parts (UnaryOp op e) env \<longleftrightarrow> definite e env"
| "definite_parts (IfE c t (Some e)) env \<longleftrightarrow> definite c env \<and> definite t env \<and> definite e env"
| "definite_parts (Forall x d b) env \<longleftrightarrow>
     (let elem_env = env_bind x (element_type_of (type_at d env)) env
      in definite d env \<and> has_elements (type_at d env) \<and> definite b elem_env \<and> type_at b elem_env = TyBool)"
| "definite_parts (Exists x d b) env \<longleftrightarrow>
     (let elem_env = env_bind x (element_type_of (type_at d env)) env
      in definite d env \<and> has_elements (type_at d env) \<and> definite b elem_env \<and> type_at b elem_env = TyBool)"
| "definite_parts (Old e) env \<longleftrightarrow> definite e env"
| "definite_parts (ListE es) env \<longleftrightarrow> definite_list es env"
| "definite_parts (TupleE es) env \<longleftrightarrow> definite_list es env"
| "definite_parts (Field e f) env \<longleftrightarrow> definite e env \<and> f \<noteq> ''capacity''"
| "definite_parts (Index b i) env \<longleftrightarrow> definite b env \<and> definite i env \<and> is_numeric (type_at i env)"
| "definite_parts (Ghost e) env \<longleftrightarrow> True"
| "definite_parts (Match e arms) env \<longleftrightarrow> definite e env \<and> definite_arms arms (type_at e env) env"
| "definite_parts (LetE x e b) env \<longleftrightarrow> definite e env \<and> definite b (env_bind x (type_at e env) env)"
| "definite_parts (BlockE es) env \<longleftrightarrow> definite_list es env"
| "definite_parts _ env \<longleftrightarrow> False"
| "definite_list [] env \<longleftrightarrow> True"
| "definite_list (e # es) env \<longleftrightarrow> definite e env \<and> definite_list es env"
| "definite_arms [] scrut env \<longleftrightarrow> True"
| "definite_arms (MatchArm p b # arms) scrut env \<longleftrightarrow>
     (case bind_pattern_vars p scrut env (sp_span b) of Inr arm_env \<Rightarrow> definite b arm_env | Inl err \<Rightarrow> False) \<and>
     definite_arms arms scrut env"
  by pat_completeness auto
termination
  by (relation "measure
       (case_sum (case_sum (\<lambda>(e, _). size e) (\<lambda>(x, _). size x))
          (case_sum (\<lambda>(es, _). size_list size es) (\<lambda>(arms, _). size_list size arms)))")
     simp_all

section \<open>Each operator is safe\<close>

text \<open>A result is safe for a type: no \<open>Stuck\<close>, and a value of that type.\<close>

definition safe :: "eval_result \<Rightarrow> ty \<Rightarrow> bool" where
  "safe r t \<longleftrightarrow> (case r of Inl f \<Rightarrow> f \<noteq> Stuck | Inr v \<Rightarrow> has_type v t)"

lemma safe_Inr [simp]: "safe (Inr v) t \<longleftrightarrow> has_type v t"
  by (simp add: safe_def)

lemma safe_Inl [simp]: "safe (Inl f) t \<longleftrightarrow> f \<noteq> Stuck"
  by (simp add: safe_def)

lemma safe_refined [simp]: "safe r (TyRefined t p x) \<longleftrightarrow> safe r t"
  by (cases r) simp_all

lemma safe_and_then:
  "safe r t \<Longrightarrow> (\<And>v. r = Inr v \<Longrightarrow> has_type v t \<Longrightarrow> safe (f v) u) \<Longrightarrow> safe (and_then r f) u"
  by (cases r) simp_all

lemma fail_Inr [simp]: "type_fail c m s \<noteq> Inr t"
  by (simp add: type_fail_def)

text \<open>Values of one concrete type can be compared.\<close>

lemma cmp_list_defined:
  "length vs = length ts \<Longrightarrow> length ws = length ts \<Longrightarrow>
   \<forall>t \<in> set ts. \<forall>v w. has_type v t \<longrightarrow> has_type w t \<longrightarrow> val_cmp v w \<noteq> None \<Longrightarrow>
   \<forall>(v, t) \<in> set (zip vs ts). has_type v t \<Longrightarrow> \<forall>(w, t) \<in> set (zip ws ts). has_type w t \<Longrightarrow>
   val_cmp_list vs ws \<noteq> None"
proof (induction vs arbitrary: ts ws)
  case (Cons v vs)
  then obtain t ts' where "ts = t # ts'" by (cases ts) auto
  with Cons show ?case by (cases ws) (auto split: option.splits)
qed simp

lemma cmp_elems_defined:
  "\<forall>v w. P v \<longrightarrow> P w \<longrightarrow> val_cmp v w \<noteq> None \<Longrightarrow> \<forall>v \<in> set vs. P v \<Longrightarrow> \<forall>w \<in> set ws. P w \<Longrightarrow>
   val_cmp_list vs ws \<noteq> None"
proof (induction vs arbitrary: ws)
  case Nil
  then show ?case by (cases ws) simp_all
next
  case (Cons v vs)
  then show ?case by (cases ws) (auto split: option.splits)
qed

lemma cmp_defined: "concrete t \<Longrightarrow> has_type v t \<Longrightarrow> has_type w t \<Longrightarrow> val_cmp v w \<noteq> None"
proof (induction t arbitrary: v w)
  case (TyList t)
  then obtain vs ws where vw: "v = VList vs" "w = VList ws"
    and "\<forall>v \<in> set vs. has_type v t" "\<forall>w \<in> set ws. has_type w t" by auto
  with TyList have "val_cmp_list vs ws \<noteq> None" by (intro cmp_elems_defined [of "\<lambda>v. has_type v t"]) auto
  with vw show ?case by simp
next
  case (TySequence t)
  then obtain vs ws where vw: "v = VList vs" "w = VList ws"
    and "\<forall>v \<in> set vs. has_type v t" "\<forall>w \<in> set ws. has_type w t" by auto
  with TySequence have "val_cmp_list vs ws \<noteq> None" by (intro cmp_elems_defined [of "\<lambda>v. has_type v t"]) auto
  with vw show ?case by simp
next
  case (TyTuple ts)
  then obtain vs ws where vw: "v = VTuple vs" "w = VTuple ws"
    and len: "length vs = length ts" "length ws = length ts"
    and tys: "\<forall>(v, t) \<in> set (zip vs ts). has_type v t" "\<forall>(w, t) \<in> set (zip ws ts). has_type w t" by auto
  have "\<forall>t \<in> set ts. \<forall>v w. has_type v t \<longrightarrow> has_type w t \<longrightarrow> val_cmp v w \<noteq> None"
    using TyTuple.IH TyTuple.prems(1) by auto
  from cmp_list_defined [OF len this tys] vw show ?case by simp
qed auto

lemma arithmetic_safe:
  assumes "is_arithmetic op" and "concrete t" and "is_numeric t" and "has_type v t" and "has_type w t"
  shows "safe (arith_values op v w) t"
proof -
  from assms obtain a b where "v = VInt a" "w = VInt b" by (auto simp: numeric_values)
  with assms(1-3) show ?thesis
    by (auto simp: is_arithmetic_def numeric_values)
qed

lemma concat_safe:
  "is_sequence t \<Longrightarrow> has_type v t \<Longrightarrow> has_type w t \<Longrightarrow> safe (concat_values v w) t"
  by (induction t) auto

lemma member_safe:
  assumes "is_membership_collection t" and "concrete t" and "concrete e"
    and "types_compatible e (element_type_of t)" and "has_type v e" and "has_type w t"
  shows "\<exists>b. member_value v w = Inr b"
proof -
  have elem: "concrete (element_type_of t)" using assms(1,2) by (cases t) simp_all
  with assms have v: "has_type v (element_type_of t)" by (simp add: compatible_values [of e])
  show ?thesis
    using assms(1,2,6) v elem by (cases t) (auto simp: list_all_iff cmp_defined)
qed

lemma binop_safe:
  assumes ty: "infer_binop op l r lt rt span = Inr t" and conc: "concrete lt" "concrete rt"
    and vals: "has_type v lt" "has_type w rt" and fit: "operands_fit op lt rt"
  shows "safe (binop_values op v w) t"
proof -
  from conc have known: "\<not> is_indeterminate lt" "\<not> is_indeterminate rt" by (simp_all add: concrete_cases)
  consider "is_arithmetic op" | "is_comparison op" | "is_logical op" | "op = Concat" | "op = Range"
    | "is_membership op"
    by (cases op) (auto simp: is_arithmetic_def is_comparison_def is_logical_def is_membership_def)
  then show ?thesis
  proof cases
    case 1
    with ty known have "is_numeric lt" "types_compatible lt rt" "t = lt"
      by (auto simp: infer_binop_def infer_arithmetic_def split: if_splits)
    with 1 conc vals compatible_values [of lt rt w] show ?thesis
      by (simp add: binop_values_def arithmetic_safe)
  next
    case 2
    then have "\<not> is_arithmetic op" by (auto simp: is_comparison_def is_arithmetic_def)
    with 2 ty known have "types_compatible lt rt" and t: "t = TyBool"
      by (auto simp: infer_binop_def infer_comparison_def split: if_splits)
    with conc vals compatible_values [of lt rt w] have "val_cmp v w \<noteq> None"
      by (intro cmp_defined [of lt]) simp_all
    with 2 \<open>\<not> is_arithmetic op\<close> t show ?thesis by (auto simp: binop_values_def)
  next
    case 3
    then have not: "\<not> is_arithmetic op" "\<not> is_comparison op"
      by (auto simp: is_logical_def is_comparison_def is_arithmetic_def)
    with 3 ty known have "lt = TyBool" "rt = TyBool" "t = TyBool"
      by (auto simp: infer_binop_def infer_logical_def split: if_splits)
    with 3 not vals show ?thesis by (auto simp: binop_values_def)
  next
    case 4
    with ty known fit have "types_compatible lt rt" "t = lt" "is_sequence lt"
      by (auto simp: infer_binop_def infer_concat_def operands_fit_def is_arithmetic_def is_comparison_def
          is_logical_def split: if_splits)
    with 4 conc vals compatible_values [of lt rt w] show ?thesis
      by (simp add: binop_values_def concat_safe is_arithmetic_def is_comparison_def is_logical_def)
  next
    case 5
    with ty known have "is_numeric lt" "is_numeric rt" "t = TyList TyInt"
      by (auto simp: infer_binop_def infer_range_def is_arithmetic_def is_comparison_def
          is_logical_def split: if_splits)
    with 5 conc vals show ?thesis
      by (auto simp: binop_values_def numeric_values is_arithmetic_def is_comparison_def is_logical_def)
  next
    case 6
    then have not: "\<not> is_arithmetic op" "\<not> is_comparison op" "\<not> is_logical op" "op \<noteq> Concat" "op \<noteq> Range"
      by (auto simp: is_membership_def is_logical_def is_comparison_def is_arithmetic_def)
    with 6 ty known fit have "is_membership_collection rt" "types_compatible lt (element_type_of rt)" "t = TyBool"
      by (auto simp: infer_binop_def infer_membership_def operands_fit_def split: if_splits)
    with conc vals obtain b where "member_value v w = Inr b" using member_safe by blast
    with not \<open>t = TyBool\<close> show ?thesis by (simp add: binop_values_def)
  qed
qed

lemma unary_safe:
  assumes "infer_unary op t span = Inr u" and "concrete t" and "has_type v t"
  shows "safe (unary_value op v) u"
  using assms concrete_cases [OF assms(2)] numeric_values [OF assms(2)]
  by (cases op) (auto simp: infer_unary_def split: if_splits)

lemma tuple_nth_value:
  "has_type (VTuple vs) (TyTuple ts) \<Longrightarrow> i < length ts \<Longrightarrow> has_type (vs ! i) (ts ! i)"
  using zip_all_nth [of vs ts has_type] by auto

lemma concrete_struct_name: "concrete t \<Longrightarrow> struct_name t = None"
  by (cases t rule: struct_name.cases) simp_all

lemma concrete_field:
  assumes "infer_field env t f span = Inr u" and "concrete t" and "concrete u" and "tuple_elems t = None"
  shows "builtin_field t f = Some u"
proof (cases "builtin_field t f")
  case None
  with assms have "u = TyError \<or> u = TyUnknown"
    by (simp add: infer_field_def unknown_field_def concrete_struct_name split: if_splits)
  with assms(3) show ?thesis by auto
next
  case (Some r)
  with assms show ?thesis by (simp add: infer_field_def concrete_struct_name)
qed

lemma in_tl: "x \<in> set (tl xs) \<Longrightarrow> x \<in> set xs"
  by (cases xs) simp_all

lemma length_field:
  "f \<in> {''len'', ''length'', ''size''} \<Longrightarrow>
   builtin_field (TyList t) f = Some TyNat \<and> builtin_field (TySequence t) f = Some TyNat \<and>
   builtin_field TyString f = Some TyNat \<and> field_value (VList vs) f = Inr (VInt (int (length vs))) \<and>
   field_value (VStr s) f = Inr (VInt (int (length s)))"
  by auto

lemma rest_field:
  "f \<in> {''tail'', ''rest''} \<Longrightarrow>
   builtin_field (TyList t) f = Some (TyList t) \<and> builtin_field (TySequence t) f = Some (TySequence t) \<and>
   builtin_field TyString f = None \<and>
   field_value (VList vs) f = (if vs = [] then Inl Out_Of_Range else Inr (VList (tl vs)))"
  by auto

lemma other_field:
  assumes "f \<notin> {''len'', ''length'', ''size'', ''capacity''}" "f \<noteq> ''is_empty''" "f \<notin> {''tail'', ''rest''}"
    and "builtin_field s f = Some u" and "s = TyList t \<or> s = TySequence t \<or> s = TyString"
  shows "u = TyOption t"
  using assms by (elim disjE) (simp_all split: if_splits)

lemma sequence_field_safe:
  assumes t: "s = TyList t \<or> s = TySequence t \<or> s = TyString" and v: "has_type v s"
    and field: "builtin_field s f = Some u" and u: "concrete u" and f: "f \<noteq> ''capacity''"
  shows "safe (field_value v f) u"
proof (cases "f \<in> {''len'', ''length'', ''size''}")
  case True
  note len = length_field [OF True, of t]
  with t field have "u = TyNat" by (elim disjE) (simp_all only: option.inject)
  with t v len show ?thesis by (elim disjE) (auto simp del: field_value.simps)
next
  case not_len: False
  show ?thesis
  proof (cases "f = ''is_empty''")
    case True
    with t field have "u = TyBool" by (elim disjE) simp_all
    with True t v show ?thesis by (elim disjE) auto
  next
    case not_empty: False
    show ?thesis
    proof (cases "f \<in> {''tail'', ''rest''}")
      case True
      have "\<not> s = TyString" using rest_field [OF True] field by auto
      with t v obtain vs where vs: "v = VList vs" by auto
      from rest_field [OF True, of t vs] t field \<open>\<not> s = TyString\<close> have "u = s"
        by (elim disjE) (auto simp del: builtin_field.simps field_value.simps)
      with rest_field [OF True, of t vs] t v vs show ?thesis
        by (elim disjE) (auto simp del: builtin_field.simps field_value.simps dest: in_tl)
    next
      case False
      from not_len f have "f \<notin> {''len'', ''length'', ''size'', ''capacity''}" by simp
      from other_field [OF this not_empty False field t] u show ?thesis by simp
    qed
  qed
qed

lemma field_safe:
  assumes ty: "infer_field env t f span = Inr u" and conc: "concrete t" "concrete u"
    and v: "has_type v t" and f: "f \<noteq> ''capacity''"
  shows "safe (field_value v f) u"
proof (cases "tuple_elems t")
  case (Some ts)
  then have t: "t = TyTuple ts" by (cases t) simp_all
  with v obtain vs where vs: "v = VTuple vs" "length vs = length ts" by auto
  from ty t obtain i where "parse_uint 64 f = Some i" "i < length ts" "u = ts ! i"
    by (auto simp: infer_field_def tuple_field_def split: option.splits if_splits)
  with vs v t show ?thesis by (simp add: tuple_nth_value del: has_type.simps)
next
  case None
  with concrete_field [OF ty conc] have field: "builtin_field t f = Some u" by simp
  then have "\<exists>e. t = TyList e \<or> t = TySequence e \<or> t = TyString"
    using conc(1) by (cases t) simp_all
  then show ?thesis using sequence_field_safe [OF _ v field conc(2) f] by blast
qed

lemma nth_value_safe: "\<forall>v \<in> set vs. has_type v t \<Longrightarrow> safe (nth_value vs i) t"
  by (simp add: nth_value_def)

lemma literal_index_value: "literal_index i = Some n \<Longrightarrow> eval i st = Inr w \<Longrightarrow> w = VInt (int n)"
proof (cases i rule: literal_index.cases)
  case (1 s sp)
  moreover assume "literal_index i = Some n" "eval i st = Inr w"
  ultimately show ?thesis
    by (auto simp: parse_uint_def parse_digits_def value_or_stuck_def is_digit_def
        split: list.splits if_splits option.splits)
qed simp_all

lemma index_safe:
  assumes ty: "infer_index i t span = Inr u" and "concrete t" "concrete u" "has_type v t"
    and w: "w = VInt k" "\<And>n. literal_index i = Some n \<Longrightarrow> k = int n"
  shows "safe (index_value v w) u"
proof (cases t)
  case (TyTuple ts)
  with assms obtain vs where v: "v = VTuple vs" "length vs = length ts" by auto
  from ty TyTuple assms(3) obtain n where "literal_index i = Some n" "n < length ts" "u = ts ! n"
    by (auto simp: infer_index_def split: option.splits if_splits)
  with v w assms(4) TyTuple show ?thesis by (simp add: tuple_nth_value nth_value_def del: has_type.simps)
qed (use assms in \<open>auto simp: infer_index_def nth_value_safe split: if_splits\<close>)

lemma elements_safe:
  assumes "has_elements t" and "concrete t" and "has_type v t"
  shows "\<exists>vs. elements v = Inr vs \<and> (\<forall>x \<in> set vs. has_type x (element_type_of t))"
  using assms by (cases t) (auto simp: has_elements_def)

lemma quantify_safe: "\<forall>r \<in> set rs. safe r TyBool \<Longrightarrow> safe (quantify b rs) TyBool"
  by (induction b rs rule: quantify.induct) auto

lemma branch_safe: "has_type v TyBool \<Longrightarrow> safe r t \<Longrightarrow> safe q t \<Longrightarrow> safe (branch v r q) t"
  by (auto simp: branch_def)

section \<open>Stores\<close>

definition venv_ok :: "type_env \<Rightarrow> venv \<Rightarrow> bool" where
  "venv_ok env vals \<longleftrightarrow>
     (\<forall>x t. env_lookup env x = Some t \<longrightarrow> concrete t \<longrightarrow> (\<exists>v. vals x = Some v \<and> has_type v t))"

definition store_ok :: "type_env \<Rightarrow> store \<Rightarrow> bool" where
  "store_ok env st \<longleftrightarrow> env_wf env \<and> venv_ok env (now st) \<and> venv_ok env (entry st)"

lemma bind_ok: "store_ok env st \<Longrightarrow> has_type v t \<Longrightarrow> store_ok (env_bind x t env) (bind_value x v st)"
  by (auto simp: store_ok_def venv_ok_def bind_value_def tenv.look_bind tenv.wf_bind)

lemma old_ok: "store_ok env st \<Longrightarrow> store_ok env (Store (entry st) (entry st))"
  by (simp add: store_ok_def)

lemma match_ok:
  "bind_pattern_vars p t env span = Inr env' \<Longrightarrow> has_type v t \<Longrightarrow> store_ok env st \<Longrightarrow>
   match_value p v st = Some st' \<Longrightarrow> store_ok env' st'"
  "bind_patterns ps ts env span = Inr env' \<Longrightarrow>
   ts = [] \<or> length vs = length ts \<and> (\<forall>(v, t) \<in> set (zip vs ts). has_type v t) \<Longrightarrow> store_ok env st \<Longrightarrow>
   match_values ps vs st = Some st' \<Longrightarrow> store_ok env' st'"
proof (induction p t env span and ps ts env span arbitrary: env' v st st' and env' vs st st'
    rule: bind_pattern_vars_bind_patterns.induct)
  case (1 name t env span)
  then show ?case by (auto intro: bind_ok)
next
  case (3 pats t env span)
  then obtain vs where v: "v = VTuple vs" "match_values pats vs st = Some st'" by (cases v) auto
  show ?case
  proof (cases "tuple_elems t")
    case None
    with 3 v show ?thesis by auto
  next
    case (Some ts)
    then have t: "t = TyTuple ts" by (cases t) auto
    with "3.prems"(1) have len: "\<not> length pats \<noteq> length ts"
      and bind: "bind_patterns pats ts env span = Inr env'" by (auto split: if_splits)
    from t "3.prems"(2) v have "length vs = length ts \<and> (\<forall>(v, t) \<in> set (zip vs ts). has_type v t)" by simp
    with "3.IH"(2) [OF Some len bind _ "3.prems"(3) v(2)] show ?thesis by blast
  qed
next
  case (7 p ps ts env span)
  from 7(6) obtain w ws st1 where vs: "vs = w # ws" "match_value p w st = Some st1" "match_values ps ws st1 = Some st'"
    by (cases vs) (auto simp: bind_eq_Some_conv)
  from 7(3) obtain env1 where env1: "bind_pattern_vars p (nth_or_unknown ts) env span = Inr env1"
    "bind_patterns ps (tl ts) env1 span = Inr env'" by (auto simp: and_then_Inr)
  have "has_type w (nth_or_unknown ts)" using 7(4) vs(1) by (cases ts) (auto simp: nth_or_unknown_def)
  from 7(1) [OF env1(1) this 7(5) vs(2)] have "store_ok env1 st1" .
  moreover have "tl ts = [] \<or> length ws = length (tl ts) \<and> (\<forall>(v, t) \<in> set (zip ws (tl ts)). has_type v t)"
    using 7(4) vs(1) by (cases ts) auto
  ultimately show ?case using 7(2) [OF env1(1)] env1(2) vs(3) by blast
next
  case (6 ts env span)
  then show ?case by (cases vs) simp_all
qed (simp_all split: if_splits)

section \<open>Soundness\<close>

lemma type_at_Inr [simp]: "infer e env (sp_span e) = Inr t \<Longrightarrow> type_at e env = t"
  by (simp add: type_at_def)

lemma definite_concrete: "definite e env \<Longrightarrow> infer e env (sp_span e) = Inr t \<Longrightarrow> concrete t"
  by (cases e) (simp add: has_concrete_type_def)

lemma definite_known:
  "definite e env \<Longrightarrow> infer e env (sp_span e) = Inr t \<Longrightarrow>
   concrete t \<and> \<not> is_indeterminate t \<and> t \<noteq> TyUnknown \<and> t \<noteq> TyError"
  using definite_concrete [of e env t] by (cases t) auto

abbreviation list_result :: "fault + val list \<Rightarrow> eval_result" where
  "list_result r \<equiv> and_then r (\<lambda>vs. Inr (VList vs))"

abbreviation tuple_result :: "fault + val list \<Rightarrow> eval_result" where
  "tuple_result r \<equiv> and_then r (\<lambda>vs. Inr (VTuple vs))"

lemma tuple_cons_safe:
  "safe r t \<Longrightarrow> (\<And>v. r = Inr v \<Longrightarrow> safe (tuple_result q) (TyTuple ts)) \<Longrightarrow>
   safe (tuple_result (and_then r (\<lambda>v. and_then q (\<lambda>vs. Inr (v # vs))))) (TyTuple (t # ts))"
  by (cases r; cases q) auto

lemma list_cons_safe:
  "safe r t \<Longrightarrow> (\<And>v. r = Inr v \<Longrightarrow> safe (list_result q) (TyList t)) \<Longrightarrow>
   safe (list_result (and_then r (\<lambda>v. and_then q (\<lambda>vs. Inr (v # vs))))) (TyList t)"
  by (cases r; cases q) auto

lemma literal_safe: "well_formed_literal l \<Longrightarrow> safe (value_or_stuck (literal_value l)) (infer_literal l)"
  by (cases l) (auto simp: value_or_stuck_def)

lemma ident_safe:
  assumes "infer_ident env x = Inr t" and "concrete t" and "store_ok env st"
  shows "safe (ident_value x (now st)) t"
proof (cases "x = ''true'' \<or> x = ''false''")
  case True
  with assms show ?thesis by (auto simp: infer_ident_def ident_value_def)
next
  case False
  with assms(1,2) have "env_lookup env x = Some t"
    by (auto simp: infer_ident_def split: option.splits if_splits)
  with assms(2,3) obtain v where "now st x = Some v" "has_type v t"
    unfolding store_ok_def venv_ok_def by blast
  with False show ?thesis by (simp add: ident_value_def)
qed

lemma quantifier_safe:
  assumes "safe d t" and "has_elements t" and "concrete t"
    and "\<And>w. has_type w (element_type_of t) \<Longrightarrow> safe (body w) TyBool"
  shows "safe (and_then d (\<lambda>v. and_then (elements v) (\<lambda>vs. quantify b (map body vs)))) TyBool"
proof (rule safe_and_then [OF assms(1)])
  fix v assume "has_type v t"
  with assms(2,3) elements_safe obtain vs
    where "elements v = Inr vs" "\<forall>x \<in> set vs. has_type x (element_type_of t)" by blast
  with assms(4) show "safe (and_then (elements v) (\<lambda>vs. quantify b (map body vs))) TyBool"
    by (simp add: quantify_safe)
qed

lemma if_safe:
  assumes ty: "infer_branches e tt (Some et) = Inr t" and "concrete tt" "concrete et"
    and cond: "check_condition c ct = Inr u" "concrete ct" "has_type v ct" and "safe r tt" "safe q et"
  shows "safe (branch v r q) t"
proof -
  have "has_type v TyBool"
    using cond concrete_cases [of ct] by (auto simp: check_condition_def split: if_splits)
  moreover
  from assms(1-3) have "t = tt" "types_compatible tt et"
    by (auto simp: infer_branches_def infer_if_def concrete_cases split: if_splits)
  moreover from this assms compatible_values [of tt et] have "safe q t" by (cases q) simp_all
  ultimately show ?thesis using \<open>safe r tt\<close> by (simp add: branch_safe)
qed

lemma index_expr_safe:
  assumes "infer_index i t span = Inr u" "is_numeric ti" and "concrete t" "concrete u" "concrete ti"
    and "safe (eval b st) t" "safe (eval i st) ti"
  shows "safe (and_then (eval b st) (\<lambda>v. and_then (eval i st) (index_value v))) u"
proof (intro safe_and_then [OF assms(6)] safe_and_then [OF assms(7)])
  fix v w assume v: "has_type v t" and eval: "eval i st = Inr w" and w: "has_type w ti"
  from w assms(2,5) obtain k where k: "w = VInt k" by (auto simp: numeric_values)
  show "safe (index_value v w) u"
    using literal_index_value [OF _ eval] by (intro index_safe [OF assms(1,3,4) v k]) (simp add: k)
qed

lemma item_same:
  "check_item first t span = Inr u \<Longrightarrow> concrete first \<Longrightarrow> concrete t \<Longrightarrow> t = first"
  using concrete_cases [of first] concrete_cases [of t] by (auto simp: check_item_def split: if_splits)

lemma join_concrete:
  assumes "join_arm res t span = Inr u" and "concrete t" and "is_indeterminate res \<or> concrete res"
  shows "concrete u \<and> (\<forall>v. has_type v t \<longrightarrow> has_type v u) \<and> (concrete res \<longrightarrow> u = res)"
  using assms compatible_values [of res t] concrete_cases [of t] concrete_cases [of res]
  by (auto simp: join_arm_def split: if_splits)

lemma infer_safe:
  "infer e env span = Inr t \<Longrightarrow> span = sp_span e \<Longrightarrow> definite e env \<Longrightarrow> store_ok env st \<Longrightarrow>
   safe (eval e st) t"
  "infer_list es env = Inr ts \<Longrightarrow> definite_list es env \<Longrightarrow> store_ok env st \<Longrightarrow>
   safe (tuple_result (eval_list es st)) (TyTuple ts)"
  "infer_elements es env = Inr t \<Longrightarrow> concrete t \<Longrightarrow> definite_list es env \<Longrightarrow> store_ok env st \<Longrightarrow>
   safe (list_result (eval_list es st)) t"
  "infer_items es first env = Inr t \<Longrightarrow> concrete first \<Longrightarrow> definite_list es env \<Longrightarrow> store_ok env st \<Longrightarrow>
   t = TyList first \<and> safe (list_result (eval_list es st)) t"
  "infer_block es t0 env = Inr t \<Longrightarrow> has_type v t0 \<Longrightarrow> definite_list es env \<Longrightarrow> store_ok env st \<Longrightarrow>
   safe (eval_block es v st) t"
  "infer_opt oe env = Inr (Some t) \<Longrightarrow> (\<And>e. oe = Some e \<Longrightarrow> definite e env) \<Longrightarrow> store_ok env st \<Longrightarrow>
   safe (eval_opt oe st) t"
  "infer_arms arms scrut res env span = Inr t \<Longrightarrow> is_indeterminate res \<or> concrete res \<Longrightarrow>
   has_type v scrut \<Longrightarrow> definite_arms arms scrut env \<Longrightarrow> store_ok env st \<Longrightarrow>
   safe (eval_arms arms v st) t \<and> (concrete res \<longrightarrow> t = res)"
proof (induction e env span and es env and es env and es first env and es t0 env and oe env
    and arms scrut res env span arbitrary: t st and ts st and t st and t st and t v st and t st
    and t v st rule: infer_induct)
  case (1 l s env span)
  then show ?case by (auto simp: literal_safe)
next
  case (2 x s env span)
  then show ?case using definite_concrete [OF "2.prems"(3)] by (auto simp: ident_safe)
next
  case (3 l op r s env span)
  then show ?case
    by (auto simp: and_then_Inr dest: definite_concrete intro!: safe_and_then binop_safe)
next
  case (4 op e s env span)
  then show ?case
    by (auto simp: and_then_Inr dest: definite_concrete intro!: safe_and_then unary_safe)
next
  case (5 c t e s env span)
  then show ?case
    by (cases e) (auto simp: and_then_Inr dest: definite_concrete intro!: safe_and_then if_safe)
next
  case (6 x d b s env span)
  then show ?case
    by (auto simp: and_then_Inr Let_def dest: definite_concrete intro!: quantifier_safe) (blast intro: bind_ok)
next
  case (7 x d b s env span)
  then show ?case
    by (auto simp: and_then_Inr Let_def dest: definite_concrete intro!: quantifier_safe) (blast intro: bind_ok)
next
  case (8 e s env span)
  then show ?case by (auto intro: old_ok)
next
  case (9 es s env span)
  then show ?case using definite_concrete [OF "9.prems"(3)] by auto
next
  case (10 e f s env span)
  then show ?case
    using definite_concrete [OF "10.prems"(3)]
    by (auto simp: and_then_Inr dest: definite_concrete intro!: safe_and_then field_safe)
next
  case (13 b i s env span)
  then show ?case
    using definite_concrete [OF "13.prems"(3)]
    by (auto simp: and_then_Inr dest: definite_concrete intro!: index_expr_safe)
next
  case (16 e s env span)
  then show ?case by (auto simp: and_then_Inr)
next
  case (17 e arms s env span)
  then show ?case
    by (auto simp: and_then_Inr dest: definite_concrete intro!: safe_and_then)
next
  case (18 x e b s env span)
  then show ?case
    by (auto simp: and_then_Inr intro!: safe_and_then) (blast intro: bind_ok)
next
  case (19 es s env span)
  then show ?case by (auto simp: and_then_Inr)
next
  case (20 es s env span)
  then show ?case by auto
next
  case (23 e es env)
  then show ?case by (auto simp: and_then_Inr intro!: tuple_cons_safe simp del: has_type.simps)
next
  case (25 e es env)
  from "25.prems" obtain t1 where t1: "infer e env (sp_span e) = Inr t1" "infer_items es t1 env = Inr t"
    and def: "definite e env" "definite_list es env" by (auto simp: and_then_Inr)
  note conc = definite_concrete [OF def(1) t1(1)]
  from "25.IH"(2) [OF t1 conc def(2) "25.prems"(4)]
  have "t = TyList t1" "safe (list_result (eval_list es st)) (TyList t1)" by blast+
  with "25.IH"(1) [OF t1(1) refl def(1) "25.prems"(4)] show ?case by (simp add: list_cons_safe)
next
  case (27 e es first env)
  from "27.prems" obtain t1 u where t1: "infer e env (sp_span e) = Inr t1"
      "check_item first t1 (sp_span e) = Inr u" "infer_items es first env = Inr t"
    and def: "definite e env" "definite_list es env" by (auto simp: and_then_Inr)
  from item_same [OF t1(2) "27.prems"(2) definite_concrete [OF def(1) t1(1)]] have same: "t1 = first" .
  from "27.IH"(2) [OF t1 "27.prems"(2) def(2) "27.prems"(4)]
  have "t = TyList first" "safe (list_result (eval_list es st)) (TyList first)" by blast+
  with "27.IH"(1) [OF t1(1) refl def(1) "27.prems"(4)] same show ?case by (simp add: list_cons_safe)
next
  case (29 e es t0 env)
  then show ?case by (auto simp: and_then_Inr intro!: safe_and_then)
next
  case (33 p b arms scrut res env span)
  from "33.prems"(1) obtain arm_env t1 res1 where bind: "bind_pattern_vars p scrut env (sp_span b) = Inr arm_env"
    and t1: "infer b arm_env (sp_span b) = Inr t1" and res1: "join_arm res t1 span = Inr res1"
    and rest: "infer_arms arms scrut res1 env span = Inr t" by (auto simp: and_then_Inr)
  from "33.prems"(4) bind have def: "definite b arm_env" "definite_arms arms scrut env" by simp_all
  from join_concrete [OF res1 definite_concrete [OF def(1) t1] "33.prems"(2)]
  have join: "concrete res1" "\<And>v. has_type v t1 \<Longrightarrow> has_type v res1" "concrete res \<Longrightarrow> res1 = res" by blast+
  from "33.IH"(2) [OF bind t1 res1 rest _ "33.prems"(3) def(2) "33.prems"(5)] join(1)
  have arms: "safe (eval_arms arms v st) t" "t = res1" by blast+
  show ?case
  proof (cases "match_value p v st")
    case None
    with arms join(3) show ?thesis by simp
  next
    case (Some st')
    from match_ok(1) [OF bind "33.prems"(3,5) Some] have "store_ok arm_env st'" .
    from "33.IH"(1) [OF bind t1 refl def(1) this] have "safe (eval b st') t1" .
    with join(2) arms(2) have "safe (eval b st') t" by (cases "eval b st'") simp_all
    with Some arms(2) join(3) show ?thesis by simp
  qed
qed (auto simp: and_then_Inr)

text \<open>The span passed to \<open>infer\<close> only reaches its errors.\<close>

lemma arms_span: "infer_arms arms t res env s = Inr u \<Longrightarrow> infer_arms arms t res env s' = Inr u"
proof (induction arms arbitrary: res)
  case (Cons a arms)
  have join: "join_arm r q s = Inr w \<Longrightarrow> join_arm r q s' = Inr w" for r q w
    by (auto simp: join_arm_def split: if_splits)
  from Cons show ?case by (cases a) (auto simp: and_then_Inr dest!: join)
qed simp

definition ok_type :: "infer_result \<Rightarrow> ty option" where
  "ok_type r = (case r of Inr t \<Rightarrow> Some t | Inl err \<Rightarrow> None)"

definition span_free :: "(span \<Rightarrow> infer_result) \<Rightarrow> bool" where
  "span_free f \<longleftrightarrow> (\<exists>r. \<forall>s. ok_type (f s) = r)"

lemma span_free_const: "span_free (\<lambda>s. r)"
  by (simp add: span_free_def)

lemma span_free_fail: "span_free (\<lambda>s. type_fail c m s)"
  by (simp add: span_free_def type_fail_def ok_type_def)

lemma span_free_if: "span_free f \<Longrightarrow> span_free g \<Longrightarrow> span_free (\<lambda>s. if b then f s else g s)"
  by (cases b) simp_all

lemma span_free_option:
  "span_free f \<Longrightarrow> (\<And>x. span_free (h x)) \<Longrightarrow> span_free (\<lambda>s. case q of None \<Rightarrow> f s | Some x \<Rightarrow> h x s)"
  by (cases q) simp_all

lemmas span_free_rules = span_free_const span_free_fail span_free_if span_free_option

lemma span_freeD: "span_free f \<Longrightarrow> f s = Inr u \<Longrightarrow> f s' = Inr u"
proof -
  assume "span_free f" and "f s = Inr u"
  then have "ok_type (f s') = Some u" by (metis ok_type_def span_free_def sum.simps(6))
  then show ?thesis by (cases "f s'") (simp_all add: ok_type_def)
qed

lemma span_free_ops:
  "span_free (\<lambda>s. infer_binop op l r lt rt s)" "span_free (\<lambda>s. infer_field env t f s)"
  "span_free (\<lambda>s. infer_method env t m args tys s)" "span_free (\<lambda>s. infer_index i t s)"
proof -
  show "span_free (\<lambda>s. infer_binop op l r lt rt s)"
    unfolding infer_binop_def infer_arithmetic_def infer_comparison_def infer_logical_def infer_concat_def
      infer_range_def infer_membership_def
    by (intro span_free_rules)
  show "span_free (\<lambda>s. infer_field env t f s)"
    unfolding infer_field_def tuple_field_def unknown_field_def by (intro span_free_rules)
  show "span_free (\<lambda>s. infer_method env t m args tys s)"
    unfolding infer_method_def by (intro span_free_rules)
  show "span_free (\<lambda>s. infer_index i t s)"
    unfolding infer_index_def by (cases t) (simp_all add: span_free_rules)
qed

lemmas op_span = span_free_ops [THEN span_freeD]

lemma infer_span: "infer e env s = Inr t \<Longrightarrow> infer e env s' = Inr t"
  by (cases "(e, env, s)" rule: infer.cases) (auto simp: and_then_Inr dest: op_span arms_span)


text \<open>
  The witness: over a list and a number, \<open>forall x in xs: old(n) + x > 0\<close> is accepted, definite,
  and evaluates to a Boolean.
\<close>

definition sample_env :: type_env where
  "sample_env = env_bind ''n'' TyNat (env_bind ''xs'' (TyList TyInt) env_new)"

definition sample_store :: store where
  "sample_store = bind_value ''n'' (VInt 2) (bind_value ''xs'' (VList [VInt 1, VInt (- 1)]) (Store Map.empty Map.empty))"

definition sample_expr :: sp_expr where
  "sample_expr =
     no_span (Forall ''x'' (no_span (Ident ''xs''))
       (no_span (BinOp (no_span (BinOp (no_span (Old (no_span (Ident ''n'')))) Add (no_span (Ident ''x''))))
                       Gt (lit_int ''0''))))"

lemma sample_env_wf: "env_wf sample_env"
  by (simp add: sample_env_def tenv.wf_bind tenv.wf_new)

lemma sample_lookup:
  "env_lookup sample_env = [''xs'' \<mapsto> TyList TyInt, ''n'' \<mapsto> TyNat]"
  "env_lookup (env_bind x t sample_env) = [''xs'' \<mapsto> TyList TyInt, ''n'' \<mapsto> TyNat, x \<mapsto> t]"
  by (simp_all add: sample_env_wf tenv.look_bind)
    (simp_all add: sample_env_def tenv.look_bind tenv.wf_bind tenv.wf_new fun_eq_iff)


end
