(* ===== verification/Labels.thy ===== *)
theory Labels
  imports Checker_Base
begin

text \<open>
  What the label checkers of \<open>crates/assura-types/src/checkers\<close> share: the joins of labels, the
  values of clause expressions under an arbitrary reading of the operators, and the fact that a
  value depends only on the identifiers an expression mentions.
\<close>

section \<open>Labels and their joins\<close>

text \<open>
  A label of an expression is collected with \<open>join\<close> from the labels of its parts, starting from
  \<open>least\<close>.  The contract \<open>below\<close> is what makes the collected label a bound of every part.
\<close>

locale label_join =
  fixes below :: "'l \<Rightarrow> 'l \<Rightarrow> bool"
    and join :: "'l \<Rightarrow> 'l \<Rightarrow> 'l"
    and least :: 'l
  assumes below_join: "below (join a b) c \<longleftrightarrow> below a c \<and> below b c"
    and below_least: "below least c"
begin

lemma below_fold: "below (fold (\<lambda>x acc. join acc (f x)) xs a) c \<longleftrightarrow> below a c \<and> (\<forall>x \<in> set xs. below (f x) c)"
  by (induction xs arbitrary: a) (auto simp: below_join)

lemma below_fold_least: "below (fold (\<lambda>x acc. join acc (f x)) xs least) c \<longleftrightarrow> (\<forall>x \<in> set xs. below (f x) c)"
  by (simp add: below_fold below_least)

lemmas below_simps = below_join below_least below_fold

end

lemma concat_map_Nil: "concat (map f xs) = [] \<longleftrightarrow> (\<forall>x \<in> set xs. f x = [])"
  by (induction xs) auto

lemma case_arm: "(case a of MatchArm p b \<Rightarrow> f b) = f (arm_body a)"
  by (cases a) simp

section \<open>Values of expressions\<close>

text \<open>
  A reading gives every operator of the language a meaning over values \<open>'v\<close>; nothing is asked of
  it.  A quantifier and a match get the meaning of their bodies as functions of the bound values;
  raw text gets the values its tokens have as variables.
\<close>

record 'v reading =
  rd_literal :: "literal \<Rightarrow> 'v"
  rd_binop :: "binop \<Rightarrow> 'v \<Rightarrow> 'v \<Rightarrow> 'v"
  rd_unary :: "unary_op \<Rightarrow> 'v \<Rightarrow> 'v"
  rd_field :: "'v \<Rightarrow> string \<Rightarrow> 'v"
  rd_method :: "'v \<Rightarrow> string \<Rightarrow> 'v list \<Rightarrow> 'v"
  rd_function :: "string \<Rightarrow> 'v list \<Rightarrow> 'v"
  rd_call :: "'v \<Rightarrow> 'v list \<Rightarrow> 'v"
  rd_index :: "'v \<Rightarrow> 'v \<Rightarrow> 'v"
  rd_quantifier :: "bool \<Rightarrow> 'v \<Rightarrow> ('v \<Rightarrow> 'v) \<Rightarrow> 'v"
  rd_if :: "'v \<Rightarrow> 'v \<Rightarrow> 'v option \<Rightarrow> 'v"
  rd_sequence :: "'v list \<Rightarrow> 'v"
  rd_block :: "'v list \<Rightarrow> 'v"
  rd_tuple :: "'v list \<Rightarrow> 'v"
  rd_cast :: "'v \<Rightarrow> string \<Rightarrow> 'v"
  rd_apply :: "string \<Rightarrow> 'v list \<Rightarrow> 'v"
  rd_match :: "'v \<Rightarrow> (pattern \<times> ((string \<Rightarrow> 'v option) \<Rightarrow> 'v)) list \<Rightarrow> 'v"
  rd_raw :: "string list \<Rightarrow> 'v list \<Rightarrow> 'v"

text \<open>A store holds the values at entry, which \<open>old\<close> reads, and the current ones.\<close>

datatype 'v stores = Stores (entry_store: "string \<Rightarrow> 'v") (current_store: "string \<Rightarrow> 'v")

definition bind_value :: "string \<Rightarrow> 'v \<Rightarrow> 'v stores \<Rightarrow> 'v stores" where
  "bind_value x v st = Stores ((entry_store st)(x := v)) ((current_store st)(x := v))"

definition bind_values :: "(string \<Rightarrow> 'v option) \<Rightarrow> 'v stores \<Rightarrow> 'v stores" where
  "bind_values b st = Stores (\<lambda>x. case b x of Some v \<Rightarrow> v | None \<Rightarrow> entry_store st x)
                            (\<lambda>x. case b x of Some v \<Rightarrow> v | None \<Rightarrow> current_store st x)"

definition at_entry :: "'v stores \<Rightarrow> 'v stores" where
  "at_entry st = Stores (entry_store st) (entry_store st)"

definition callee :: "sp_expr \<Rightarrow> string option" where
  "callee e = (case node e of Ident n \<Rightarrow> Some n | _ \<Rightarrow> None)"

fun denote :: "'v reading \<Rightarrow> 'v stores \<Rightarrow> sp_expr \<Rightarrow> 'v" where
  "denote A st (Spanned (Literal l) s) = rd_literal A l"
| "denote A st (Spanned (Ident n) s) = current_store st n"
| "denote A st (Spanned (Field e f) s) = rd_field A (denote A st e) f"
| "denote A st (Spanned (MethodCall r m args) s) = rd_method A (denote A st r) m (map (denote A st) args)"
| "denote A st (Spanned (Call f args) s) =
     (case callee f of
        Some n \<Rightarrow> rd_function A n (map (denote A st) args)
      | None \<Rightarrow> rd_call A (denote A st f) (map (denote A st) args))"
| "denote A st (Spanned (Index e i) s) = rd_index A (denote A st e) (denote A st i)"
| "denote A st (Spanned (BinOp l op r) s) = rd_binop A op (denote A st l) (denote A st r)"
| "denote A st (Spanned (UnaryOp op e) s) = rd_unary A op (denote A st e)"
| "denote A st (Spanned (Old e) s) = denote A (at_entry st) e"
| "denote A st (Spanned (Forall x d b) s) =
     rd_quantifier A True (denote A st d) (\<lambda>v. denote A (bind_value x v st) b)"
| "denote A st (Spanned (Exists x d b) s) =
     rd_quantifier A False (denote A st d) (\<lambda>v. denote A (bind_value x v st) b)"
| "denote A st (Spanned (IfE c t e) s) =
     rd_if A (denote A st c) (denote A st t) (case e of Some x \<Rightarrow> Some (denote A st x) | None \<Rightarrow> None)"
| "denote A st (Spanned (ListE es) s) = rd_sequence A (map (denote A st) es)"
| "denote A st (Spanned (Cast e ty) s) = rd_cast A (denote A st e) ty"
| "denote A st (Spanned (BlockE es) s) = rd_block A (map (denote A st) es)"
| "denote A st (Spanned (Ghost e) s) = denote A st e"
| "denote A st (Spanned (ApplyE n args) s) = rd_apply A n (map (denote A st) args)"
| "denote A st (Spanned (LetE x v b) s) = denote A (bind_value x (denote A st v) st) b"
| "denote A st (Spanned (Match e arms) s) =
     rd_match A (denote A st e)
       (map (\<lambda>a. case a of MatchArm p b \<Rightarrow> (p, \<lambda>bs. denote A (bind_values bs st) b)) arms)"
| "denote A st (Spanned (TupleE es) s) = rd_tuple A (map (denote A st) es)"
| "denote A st (Spanned (Raw ts) s) = rd_raw A ts (map (current_store st) ts)"

section \<open>Inputs\<close>

text \<open>
  The identifiers whose values an expression reads, where the functions and methods in \<open>V\<close> are
  taken to hide their arguments: the function of a named call is not a variable.
\<close>

fun inputs :: "string set \<Rightarrow> sp_expr \<Rightarrow> string list" where
  "inputs V (Spanned (Literal l) s) = []"
| "inputs V (Spanned (Ident n) s) = [n]"
| "inputs V (Spanned (Field e f) s) = inputs V e"
| "inputs V (Spanned (MethodCall r m args) s) =
     (if m \<in> V then [] else inputs V r @ concat (map (inputs V) args))"
| "inputs V (Spanned (Call f args) s) =
     (case callee f of
        Some n \<Rightarrow> if n \<in> V then [] else concat (map (inputs V) args)
      | None \<Rightarrow> inputs V f @ concat (map (inputs V) args))"
| "inputs V (Spanned (Index e i) s) = inputs V e @ inputs V i"
| "inputs V (Spanned (BinOp l op r) s) = inputs V l @ inputs V r"
| "inputs V (Spanned (UnaryOp op e) s) = inputs V e"
| "inputs V (Spanned (Old e) s) = inputs V e"
| "inputs V (Spanned (Forall x d b) s) = inputs V d @ inputs V b"
| "inputs V (Spanned (Exists x d b) s) = inputs V d @ inputs V b"
| "inputs V (Spanned (IfE c t e) s) =
     inputs V c @ inputs V t @ (case e of Some x \<Rightarrow> inputs V x | None \<Rightarrow> [])"
| "inputs V (Spanned (ListE es) s) = concat (map (inputs V) es)"
| "inputs V (Spanned (Cast e ty) s) = inputs V e"
| "inputs V (Spanned (BlockE es) s) = concat (map (inputs V) es)"
| "inputs V (Spanned (Ghost e) s) = inputs V e"
| "inputs V (Spanned (ApplyE n args) s) = concat (map (inputs V) args)"
| "inputs V (Spanned (LetE x v b) s) = inputs V v @ inputs V b"
| "inputs V (Spanned (Match e arms) s) =
     inputs V e @ concat (map (\<lambda>a. case a of MatchArm p b \<Rightarrow> inputs V b) arms)"
| "inputs V (Spanned (TupleE es) s) = concat (map (inputs V) es)"
| "inputs V (Spanned (Raw ts) s) = ts"

definition hides_arguments :: "'v reading \<Rightarrow> string set \<Rightarrow> bool" where
  "hides_arguments A V \<longleftrightarrow>
     (\<forall>n \<in> V. \<forall>vs ws. rd_function A n vs = rd_function A n ws \<and>
        (\<forall>v w. rd_method A v n vs = rd_method A w n ws))"

lemma hides_nothing [simp]: "hides_arguments A {}"
  by (simp add: hides_arguments_def)

definition agree :: "string set \<Rightarrow> 'v stores \<Rightarrow> 'v stores \<Rightarrow> bool" where
  "agree X st tt \<longleftrightarrow> (\<forall>x \<in> X. entry_store st x = entry_store tt x \<and> current_store st x = current_store tt x)"

lemma agree_intros:
  "agree X st tt \<Longrightarrow> agree X (bind_value x v st) (bind_value x v tt)"
  "agree X st tt \<Longrightarrow> agree X (bind_values b st) (bind_values b tt)"
  "agree X st tt \<Longrightarrow> agree X (at_entry st) (at_entry tt)"
  by (auto simp: agree_def bind_value_def bind_values_def at_entry_def split: option.splits)

lemma agree_subset: "agree X st tt \<Longrightarrow> Y \<subseteq> X \<Longrightarrow> agree Y st tt"
  by (auto simp: agree_def)

lemma agree_Un [simp]: "agree (X \<union> Y) st tt \<longleftrightarrow> agree X st tt \<and> agree Y st tt"
  by (auto simp: agree_def)

lemma agree_UN: "agree (\<Union>c \<in> C. X c) st tt \<longleftrightarrow> (\<forall>c \<in> C. agree (X c) st tt)"
  by (auto simp: agree_def)

lemma agree_nothing [simp]: "agree {} st tt"
  by (simp add: agree_def)

lemma agree_insert [simp]:
  "agree (insert x X) st tt \<longleftrightarrow>
     entry_store st x = entry_store tt x \<and> current_store st x = current_store tt x \<and> agree X st tt"
  by (auto simp: agree_def)

lemma agree_map: "agree (set ts) st tt \<Longrightarrow> map (current_store st) ts = map (current_store tt) ts"
  by (simp add: agree_def)

text \<open>Operators applied to equal operands.\<close>

lemma rd_if_cong:
  "c = c' \<Longrightarrow> t = t' \<Longrightarrow> e = e' \<Longrightarrow> rd_if A c t e = rd_if A c' t' e'"
  by simp

lemmas reading_cong =
  arg_cong [of _ _ "\<lambda>v. rd_field A v f" for A f] arg_cong [of _ _ "rd_unary A op" for A op]
  arg_cong [of _ _ "\<lambda>v. rd_cast A v ty" for A ty] arg_cong [of _ _ "rd_function A n" for A n]
  arg_cong [of _ _ "rd_sequence A" for A] arg_cong [of _ _ "rd_block A" for A]
  arg_cong [of _ _ "rd_tuple A" for A] arg_cong [of _ _ "rd_apply A n" for A n]
  arg_cong [of _ _ "rd_raw A ts" for A ts]
  arg_cong2 [of _ _ _ _ "rd_binop A op" for A op] arg_cong2 [of _ _ _ _ "rd_index A" for A]
  arg_cong2 [of _ _ _ _ "rd_call A" for A] arg_cong2 [of _ _ _ _ "rd_match A" for A]
  arg_cong2 [of _ _ _ _ "\<lambda>v. rd_method A v m" for A m]
  arg_cong2 [of _ _ _ _ "rd_quantifier A q" for A q] rd_if_cong

text \<open>The value of an expression depends only on its inputs.\<close>

lemma denote_agree:
  "hides_arguments A V \<Longrightarrow> agree (set (inputs V e)) st tt \<Longrightarrow> denote A st e = denote A tt e"
proof (induction A st e arbitrary: tt rule: denote.induct)
  case (4 A st r m args s)
  show ?case
  proof (cases "m \<in> V")
    case True
    with 4(3) show ?thesis unfolding hides_arguments_def denote.simps by blast
  next
    case False
    with 4 show ?thesis by (auto simp: agree_UN intro!: reading_cong)
  qed
next
  case (5 A st f args s)
  show ?case
  proof (cases "callee f")
    case None
    with 5 show ?thesis by (auto simp: agree_UN intro!: reading_cong)
  next
    case (Some n)
    show ?thesis
    proof (cases "n \<in> V")
      case True
      with Some 5(4) show ?thesis unfolding hides_arguments_def by simp
    next
      case False
      with Some 5 show ?thesis by (auto simp: agree_UN intro!: reading_cong)
    qed
  qed
next
  case (18 A st x v b s)
  have "agree (set (inputs V v)) st tt" "agree (set (inputs V b)) st tt"
    using 18(4) by auto
  then show ?case using "18.IH" 18(3) by (metis agree_intros(1) denote.simps(18))
next
  case (19 A st e arms s)
  have "denote A (bind_values bs st) b = denote A (bind_values bs tt) b" if a: "MatchArm p b \<in> set arms" for p b bs
  proof -
    from 19(4) a have "agree (set (inputs V b)) st tt" by (auto simp: agree_UN case_arm)
    then show ?thesis using "19.IH"(2) [OF a refl 19(3)] agree_intros(2) by blast
  qed
  then show ?case using 19
    by (auto simp: agree_UN split: match_arm.split intro!: reading_cong)
qed (auto simp: agree_UN agree_map intro!: agree_intros reading_cong ext split: option.splits)

section \<open>Two runs side by side\<close>

fun pattern_names :: "pattern \<Rightarrow> string list" where
  "pattern_names (PIdent n) = [n]"
| "pattern_names (PConstructor c ps) = concat (map pattern_names ps)"
| "pattern_names (PTuple ps) = concat (map pattern_names ps)"
| "pattern_names _ = []"

fun binder_hook :: "string hook" where
  "binder_hook (LetE x v b) = ([x], True)"
| "binder_hook (Forall x d b) = ([x], True)"
| "binder_hook (Exists x d b) = ([x], True)"
| "binder_hook (Match e arms) = (concat (map (pattern_names \<circ> arm_pattern) arms), True)"
| "binder_hook _ = ([], True)"

definition binders :: "sp_expr \<Rightarrow> string list" where
  "binders e = visit binder_hook e"

fun same_stores :: "expr \<Rightarrow> bool" where
  "same_stores (Old e) \<longleftrightarrow> False"
| "same_stores (LetE x v b) \<longleftrightarrow> False"
| "same_stores (Forall x d b) \<longleftrightarrow> False"
| "same_stores (Exists x d b) \<longleftrightarrow> False"
| "same_stores (Match e arms) \<longleftrightarrow> False"
| "same_stores _ \<longleftrightarrow> True"

text \<open>
  \<open>side_by_side A st tt e st' tt' e'\<close>: evaluating \<open>e\<close> in \<open>st\<close> and in \<open>tt\<close> comes to its part \<open>e'\<close> with the
  stores \<open>st'\<close> and \<open>tt'\<close>.
\<close>

inductive side_by_side ::
  "'v reading \<Rightarrow> 'v stores \<Rightarrow> 'v stores \<Rightarrow> sp_expr \<Rightarrow> 'v stores \<Rightarrow> 'v stores \<Rightarrow> sp_expr \<Rightarrow> bool" where
  here: "side_by_side A st tt e st tt e"
| part: "same_stores x \<Longrightarrow> c \<in> set (walk_children x) \<Longrightarrow> side_by_side A st tt c st' tt' e' \<Longrightarrow>
    side_by_side A st tt (Spanned x s) st' tt' e'"
| at_old: "side_by_side A (at_entry st) (at_entry tt) c st' tt' e' \<Longrightarrow>
    side_by_side A st tt (Spanned (Old c) s) st' tt' e'"
| let_value: "side_by_side A st tt v st' tt' e' \<Longrightarrow> side_by_side A st tt (Spanned (LetE x v b) s) st' tt' e'"
| let_body: "side_by_side A (bind_value x (denote A st v) st) (bind_value x (denote A tt v) tt) b st' tt' e' \<Longrightarrow>
    side_by_side A st tt (Spanned (LetE x v b) s) st' tt' e'"
| domain: "q = Forall x d b \<or> q = Exists x d b \<Longrightarrow> side_by_side A st tt d st' tt' e' \<Longrightarrow>
    side_by_side A st tt (Spanned q s) st' tt' e'"
| bound: "q = Forall x d b \<or> q = Exists x d b \<Longrightarrow>
    side_by_side A (bind_value x v st) (bind_value x w tt) b st' tt' e' \<Longrightarrow>
    side_by_side A st tt (Spanned q s) st' tt' e'"
| scrutinee: "side_by_side A st tt e st' tt' e' \<Longrightarrow> side_by_side A st tt (Spanned (Match e arms) s) st' tt' e'"
| arm: "MatchArm p b \<in> set arms \<Longrightarrow> dom bs \<subseteq> set (pattern_names p) \<Longrightarrow> dom cs \<subseteq> set (pattern_names p) \<Longrightarrow>
    side_by_side A (bind_values bs st) (bind_values cs tt) b st' tt' e' \<Longrightarrow>
    side_by_side A st tt (Spanned (Match e arms) s) st' tt' e'"

lemma binders_children: "binders (Spanned x s) = [] \<Longrightarrow> c \<in> set (walk_children x) \<Longrightarrow> binders c = []"
  by (cases x) (auto simp: binders_def)

lemma bind_no_values: "dom bs \<subseteq> {} \<Longrightarrow> bind_values bs st = st"
  by (cases st) (auto simp: bind_values_def)

text \<open>Without binders, what the runs agree on at the start they agree on at every part.\<close>

lemma side_by_side_agree:
  "side_by_side A st tt e st' tt' e' \<Longrightarrow> binders e = [] \<Longrightarrow> agree X st tt \<Longrightarrow> agree X st' tt'"
proof (induction rule: side_by_side.induct)
  case (arm p b arms bs cs A st tt st' tt' e' e s)
  from arm.prems(1) arm.hyps(1) have "pattern_names p = []"
    by (force simp: binders_def)
  with arm.hyps(2,3) have "bind_values bs st = st" "bind_values cs tt = tt"
    by (simp_all add: bind_no_values)
  moreover from arm.prems(1) arm.hyps(1) have "binders b = []"
    by (force intro: binders_children [of "Match e arms" s])
  ultimately show ?case using arm by metis
next
  case (part x c A st tt st' tt' e' s)
  then show ?case using binders_children by blast
qed (auto simp: binders_def agree_intros)

text \<open>A property that holds of an expression and passes to its parts holds of every part reached.\<close>

lemma side_by_side_parts:
  assumes "side_by_side A st tt e st' tt' e'" and "Q e"
    and "\<And>x s c. Q (Spanned x s) \<Longrightarrow> c \<in> set (walk_children x) \<Longrightarrow> Q c"
  shows "Q e'"
  using assms(1,2)
proof (induction rule: side_by_side.induct)
  case (arm p b arms bs cs A st tt st' tt' e' e s)
  then show ?case using assms(3) [of "Match e arms" s b] by force
qed (auto dest: assms(3))

text \<open>A name no binder uses keeps its value.\<close>

lemma side_by_side_value:
  "side_by_side A st tt e st' tt' e' \<Longrightarrow> n \<notin> set (binders e) \<Longrightarrow> entry_store st n = k \<Longrightarrow> current_store st n = k \<Longrightarrow>
   entry_store st' n = k \<and> current_store st' n = k"
proof (induction rule: side_by_side.induct)
  case (part x c A st tt st' tt' e' s)
  moreover have "n \<notin> set (binders c)"
    using part.hyps(2) part.prems(1) by (cases x) (auto simp: binders_def)
  ultimately show ?case by blast
next
  case (arm p b arms bs cs A st tt st' tt' e' e s)
  have "n \<notin> set (pattern_names p)" "n \<notin> set (binders b)"
    using arm.hyps(1) arm.prems(1) by (force simp: binders_def)+
  moreover from this(1) arm.hyps(2) have "bs n = None" by (meson domIff subsetD)
  ultimately show ?case using arm by (auto simp: bind_values_def)
qed (auto simp: binders_def at_entry_def bind_value_def)

section \<open>Examples\<close>

text \<open>Integers, with the Booleans as 0 and 1, for examples; the built-in validation functions return
  zero.\<close>

fun int_binop :: "binop \<Rightarrow> int \<Rightarrow> int \<Rightarrow> int" where
  "int_binop Add a b = a + b"
| "int_binop Sub a b = a - b"
| "int_binop Mul a b = a * b"
| "int_binop Eq a b = (if a = b then 1 else 0)"
| "int_binop Neq a b = (if a = b then 0 else 1)"
| "int_binop Lt a b = (if a < b then 1 else 0)"
| "int_binop Lte a b = (if a \<le> b then 1 else 0)"
| "int_binop Gt a b = (if a > b then 1 else 0)"
| "int_binop Gte a b = (if a \<ge> b then 1 else 0)"
| "int_binop And a b = (if a = 1 \<and> b = 1 then 1 else 0)"
| "int_binop _ a b = 0"

definition int_reading :: "int reading" where
  "int_reading = \<lparr>
     rd_literal = \<lambda>l. case l of LInt s \<Rightarrow> unwrap_or (parse_i64 s) 0 | LBool b \<Rightarrow> if b then 1 else 0 | _ \<Rightarrow> 0,
     rd_binop = int_binop,
     rd_unary = \<lambda>op a. if op = Neg then - a else 1 - a, rd_field = \<lambda>a f. a,
     rd_method = \<lambda>a m as. if m \<in> {''validate'', ''sanitize''} then 0 else a,
     rd_function = \<lambda>n as. if n \<in> {''validate'', ''sanitize''} then 0 else sum_list as,
     rd_call = \<lambda>a as. a, rd_index = \<lambda>a i. a, rd_quantifier = \<lambda>q d f. f d,
     rd_if = \<lambda>c t e. if c = 0 then unwrap_or e 0 else t, rd_sequence = sum_list, rd_block = sum_list,
     rd_tuple = sum_list, rd_cast = \<lambda>a ty. a, rd_apply = \<lambda>n as. 0, rd_match = \<lambda>a as. a,
     rd_raw = \<lambda>ts as. sum_list as\<rparr>"

definition same_store :: "(string \<Rightarrow> 'v) \<Rightarrow> 'v stores" where
  "same_store s = Stores s s"

definition var :: "string \<Rightarrow> sp_expr" where
  "var n = no_span (Ident n)"

end
