(* ===== verification/Dependent.thy ===== *)
theory Dependent
  imports Labels Type_Convert
begin

text \<open>
  Indices of dependent types, the first half of
  \<open>crates/assura-types/src/checkers/info_flow.rs\<close>: \<open>DependentTypeChecker\<close> and its walk over a source
  file.  Two things are arguments: the debug text of a type, which one message prints, and the
  entry an iterator over the map of index variables meets first.
\<close>

datatype dep_index = IdxNat string | IdxBool string | IdxEnum string string

fun dep_index_display :: "dep_index \<Rightarrow> string" where
  "dep_index_display (IdxNat n) = n @ '': Nat''"
| "dep_index_display (IdxBool n) = n @ '': Bool''"
| "dep_index_display (IdxEnum n ty) = n @ '': '' @ ty"

record dep_type =
  dt_base :: ty
  dt_indices :: "dep_index list"

record dep_checker =
  dc_enums :: "(string, string list) hmap"
  dc_dep_types :: "(string, dep_type) hmap"
  dc_index_vars :: "(string, dep_index) hmap"

definition dep_checker_new :: dep_checker where
  "dep_checker_new = \<lparr>dc_enums = hm_empty, dc_dep_types = hm_empty, dc_index_vars = hm_empty\<rparr>"

definition register_enum :: "string \<Rightarrow> string list \<Rightarrow> dep_checker \<Rightarrow> dep_checker" where
  "register_enum name variants dc = dc\<lparr>dc_enums := hm_insert name variants (dc_enums dc)\<rparr>"

definition register_dep_type :: "string \<Rightarrow> dep_type \<Rightarrow> dep_checker \<Rightarrow> dep_checker" where
  "register_dep_type name t dc = dc\<lparr>dc_dep_types := hm_insert name t (dc_dep_types dc)\<rparr>"

definition bind_index :: "string \<Rightarrow> dep_index \<Rightarrow> dep_checker \<Rightarrow> dep_checker" where
  "bind_index name idx dc = dc\<lparr>dc_index_vars := hm_insert name idx (dc_index_vars dc)\<rparr>"

definition dep_error :: "string \<Rightarrow> string \<Rightarrow> span \<Rightarrow> checker_error" where
  "dep_error code msg sp = \<lparr>ck_code = code, ck_message = msg, ck_span = sp\<rparr>"

section \<open>Checks\<close>

definition validate_index :: "dep_checker \<Rightarrow> string \<Rightarrow> string \<Rightarrow> span \<Rightarrow> checker_error list" where
  "validate_index dc index_name index_type sp =
     (if index_type = ''Nat'' \<or> index_type = ''Bool'' then []
      else if \<not> hm_contains_key (dc_enums dc) index_type
      then [dep_error ''A03006''
        (''dependent type index '' @ quoted index_name @ '' has type '' @ quoted index_type @
         '', which is not Nat, Bool, or a known finite enum'') sp]
      else [])"

fun is_nat_expr :: "dep_checker \<Rightarrow> sp_expr \<Rightarrow> bool" where
  "is_nat_expr dc (Spanned (Literal l) s) \<longleftrightarrow> (case l of LInt i \<Rightarrow> True | _ \<Rightarrow> False)"
| "is_nat_expr dc (Spanned (Ident name) s) \<longleftrightarrow>
     (case hm_get (dc_index_vars dc) name of Some (IdxNat n) \<Rightarrow> True | Some _ \<Rightarrow> False | None \<Rightarrow> True)"
| "is_nat_expr dc (Spanned (BinOp l op r) s) \<longleftrightarrow> is_arithmetic op \<and> is_nat_expr dc l \<and> is_nat_expr dc r"
| "is_nat_expr dc (Spanned (UnaryOp op e) s) \<longleftrightarrow> op = Neg \<and> is_nat_expr dc e"
| "is_nat_expr dc _ \<longleftrightarrow> False"

definition is_bool_expr :: "sp_expr \<Rightarrow> bool" where
  "is_bool_expr e \<longleftrightarrow> (case node e of Literal (LBool b) \<Rightarrow> True | Ident n \<Rightarrow> True | _ \<Rightarrow> False)"

definition is_enum_expr :: "dep_checker \<Rightarrow> sp_expr \<Rightarrow> string \<Rightarrow> bool" where
  "is_enum_expr dc e enum_type \<longleftrightarrow>
     (case node e of
        Ident name \<Rightarrow>
          (case hm_get (dc_enums dc) enum_type of
             Some variants \<Rightarrow> name \<in> set variants \<or> hm_contains_key (dc_index_vars dc) name
           | None \<Rightarrow> hm_contains_key (dc_index_vars dc) name)
      | _ \<Rightarrow> False)"

definition check_index_expr :: "dep_checker \<Rightarrow> sp_expr \<Rightarrow> dep_index \<Rightarrow> span \<Rightarrow> checker_error list" where
  "check_index_expr dc e expected sp =
     (case expected of
        IdxNat n \<Rightarrow>
          if is_nat_expr dc e then []
          else [dep_error ''A03007''
            ''index expression is not a valid Nat expression; only integer arithmetic over index variables is allowed'' sp]
      | IdxBool n \<Rightarrow>
          if is_bool_expr e then []
          else [dep_error ''A03008''
            ''Bool index must be a direct reference or boolean literal, not an arithmetic expression'' sp]
      | IdxEnum n ty \<Rightarrow>
          if is_enum_expr dc e ty then []
          else [dep_error ''A03009''
            (''enum index of type '' @ quoted ty @ '' must be a direct reference or variant name'') sp])"

fun same_kind :: "dep_index \<Rightarrow> dep_index \<Rightarrow> bool" where
  "same_kind (IdxNat a) (IdxNat b) \<longleftrightarrow> True"
| "same_kind (IdxBool a) (IdxBool b) \<longleftrightarrow> True"
| "same_kind (IdxEnum a s) (IdxEnum b t) \<longleftrightarrow> True"
| "same_kind _ _ \<longleftrightarrow> False"

definition check_dep_type_eq :: "(ty \<Rightarrow> string) \<Rightarrow> dep_type \<Rightarrow> dep_type \<Rightarrow> span \<Rightarrow> checker_error list" where
  "check_dep_type_eq show_ty expected actual sp =
     (if dt_base expected \<noteq> dt_base actual
      then [dep_error ''A03010''
        (''dependent type base mismatch: expected '' @ quoted (show_ty (dt_base expected)) @ '', found '' @
         quoted (show_ty (dt_base actual))) sp]
      else if length (dt_indices expected) \<noteq> length (dt_indices actual)
      then [dep_error ''A03010''
        (''dependent type index count mismatch: expected '' @ dec (length (dt_indices expected)) @ '', found '' @
         dec (length (dt_indices actual))) sp]
      else concat (map (\<lambda>(i, x, y).
        if same_kind x y then []
        else [dep_error ''A03011''
          (''dependent type index '' @ dec i @ '' kind mismatch: expected '' @ dep_index_display x @ '', found '' @
           dep_index_display y) sp])
        (zip [0..<length (dt_indices expected)] (zip (dt_indices expected) (dt_indices actual)))))"

fun ident_only_hook :: "string hook" where
  "ident_only_hook (Ident n) = ([n], True)"
| "ident_only_hook _ = ([], True)"

definition collect_idents :: "sp_expr \<Rightarrow> string list" where
  "collect_idents e = visit ident_only_hook e"

definition check_index_erasure :: "dep_checker \<Rightarrow> sp_expr \<Rightarrow> bool \<Rightarrow> span \<Rightarrow> checker_error list" where
  "check_index_erasure dc e ghost_context sp =
     (if ghost_context then []
      else concat (map (\<lambda>name.
        if hm_contains_key (dc_index_vars dc) name
        then [dep_error ''A03012''
          (''index variable '' @ quoted name @ '' used in runtime context; dependent type indices must be erased at runtime'') sp]
        else []) (collect_idents e)))"

section \<open>The walk over a file\<close>

definition dep_index_of :: "string \<Rightarrow> string \<Rightarrow> dep_index" where
  "dep_index_of index_name index_type =
     (if index_type = ''Nat'' then IdxNat index_name
      else if index_type = ''Bool'' then IdxBool index_name
      else IdxEnum index_name index_type)"

type_synonym dep_state = "dep_checker \<times> type_error list"

definition declare_index :: "span \<Rightarrow> string list \<Rightarrow> dep_state \<Rightarrow> dep_state" where
  "declare_index sp tokens = (\<lambda>(dc, es).
     (let index_name = tokens ! 0; index_type = tokens ! 1;
          found = map type_error_of_checker_error (validate_index dc index_name index_type sp);
          idx = dep_index_of index_name index_type;
          dc1 = bind_index index_name idx dc;
          dc2 = (if length tokens \<ge> 3
                 then register_dep_type index_name
                        \<lparr>dt_base = parse_type_tokens [tokens ! 2], dt_indices = [idx]\<rparr> dc1
                 else dc1)
      in (dc2, es @ found)))"

fun raw_tokens :: "sp_expr \<Rightarrow> string list option" where
  "raw_tokens (Spanned (Raw ts) s) = (if length ts \<ge> 2 then Some ts else None)"
| "raw_tokens _ = None"

definition dep_clause ::
  "((string, dep_index) hmap \<Rightarrow> (string \<times> dep_index) option) \<Rightarrow> span \<Rightarrow> clause \<Rightarrow> dep_state \<Rightarrow> dep_state" where
  "dep_clause first_entry sp c st =
     (let st1 = (if other_kind_in [''dep_type'', ''dependent''] (cl_kind c)
                 then (case raw_tokens (cl_body c) of Some ts \<Rightarrow> declare_index sp ts st | None \<Rightarrow> st)
                 else st);
          dc = fst st1;
          index_errors = (if other_kind_in [''index_expr''] (cl_kind c)
                 then (case first_entry (dc_index_vars dc) of
                         Some (n, idx) \<Rightarrow> check_index_expr dc (cl_body c) idx sp | None \<Rightarrow> [])
                 else []);
          erasure_errors = (if cl_kind c = Ensures \<or> cl_kind c = Requires
                 then check_index_erasure dc (cl_body c) False sp else [])
      in (dc, snd st1 @ map type_error_of_checker_error (index_errors @ erasure_errors)))"

definition dep_type_eq_clause :: "(ty \<Rightarrow> string) \<Rightarrow> dep_checker \<Rightarrow> span \<Rightarrow> clause \<Rightarrow> type_error list" where
  "dep_type_eq_clause show_ty dc sp c =
     (if other_kind_in [''dep_type_eq''] (cl_kind c)
      then (case raw_tokens (cl_body c) of
              Some ts \<Rightarrow>
                (case (hm_get (dc_dep_types dc) (ts ! 0), hm_get (dc_dep_types dc) (ts ! 1)) of
                   (Some a, Some b) \<Rightarrow> map type_error_of_checker_error (check_dep_type_eq show_ty a b sp)
                 | _ \<Rightarrow> [])
            | None \<Rightarrow> [])
      else [])"

definition register_enums :: "source_file \<Rightarrow> dep_checker" where
  "register_enums sf = fold (\<lambda>sd dc. case sd_node sd of
       EnumDef e \<Rightarrow> register_enum (ed_name e) (map ev_name (ed_variants e)) dc | _ \<Rightarrow> dc)
     (sf_decls sf) dep_checker_new"

definition dep_decl ::
  "((string, dep_index) hmap \<Rightarrow> (string \<times> dep_index) option) \<Rightarrow> (ty \<Rightarrow> string) \<Rightarrow> spanned_decl \<Rightarrow>
   dep_state \<Rightarrow> dep_state" where
  "dep_decl first_entry show_ty sd st =
     (case clauses_contract_fn (sd_node sd) of
        None \<Rightarrow> st
      | Some cs \<Rightarrow>
          (let (dc, es) = fold (dep_clause first_entry (sd_span sd)) cs st
           in (dc, es @ concat (map (dep_type_eq_clause show_ty dc (sd_span sd)) cs))))"

definition check_dependent_types ::
  "((string, dep_index) hmap \<Rightarrow> (string \<times> dep_index) option) \<Rightarrow> (ty \<Rightarrow> string) \<Rightarrow> source_file \<Rightarrow>
   type_error list" where
  "check_dependent_types first_entry show_ty sf =
     snd (fold (dep_decl first_entry show_ty) (sf_decls sf) (register_enums sf, []))"

section \<open>What the checks decide\<close>

text \<open>A runtime expression without errors mentions no index variable as an identifier.\<close>

lemma erased_iff:
  "check_index_erasure dc e False sp = [] \<longleftrightarrow> (\<forall>x \<in> set (collect_idents e). hm_get (dc_index_vars dc) x = None)"
  by (simp add: check_index_erasure_def hm_contains_key_def concat_map_Nil del: concat_eq_Nil_conv)

lemma numbered_all:
  "(\<forall>t \<in> set (zip [0..<length zs] zs). Q (snd t)) \<longleftrightarrow> (\<forall>z \<in> set zs. Q z)"
proof -
  have "set zs = snd ` set (zip [0..<length zs] zs)"
    by (metis length_upt diff_zero list.set_map map_snd_zip)
  then show ?thesis by auto
qed

lemma dep_type_eq_iff:
  "check_dep_type_eq show_ty a b sp = [] \<longleftrightarrow>
     dt_base a = dt_base b \<and> list_all2 same_kind (dt_indices a) (dt_indices b)"
proof (cases "dt_base a = dt_base b \<and> length (dt_indices a) = length (dt_indices b)")
  case True
  have "(\<forall>t \<in> set (zip [0..<length (dt_indices a)] (zip (dt_indices a) (dt_indices b))).
      same_kind (fst (snd t)) (snd (snd t))) \<longleftrightarrow> (\<forall>z \<in> set (zip (dt_indices a) (dt_indices b)). same_kind (fst z) (snd z))"
    using numbered_all [of "zip (dt_indices a) (dt_indices b)" "\<lambda>z. same_kind (fst z) (snd z)"] True by simp
  then show ?thesis using True
    by (simp add: check_dep_type_eq_def concat_map_Nil split_beta list_all2_iff del: concat_eq_Nil_conv)
qed (auto simp: check_dep_type_eq_def list_all2_iff)

text \<open>Names and values of indices do not matter: \<open>Vec<T, n>\<close> and \<open>Vec<T, m>\<close> count as equal.\<close>

lemma different_indices_equal:
  "check_dep_type_eq show_ty \<lparr>dt_base = t, dt_indices = [IdxNat ''n'']\<rparr> \<lparr>dt_base = t, dt_indices = [IdxNat ''m'']\<rparr> sp = []"
  by (simp add: dep_type_eq_iff)

text \<open>Index variables stay bound for the rest of the file: an ordinary variable of a later contract
  that has the name of an index is reported.\<close>

definition one_clause_contract :: "clause \<Rightarrow> spanned_decl" where
  "one_clause_contract c = \<lparr>sd_node = Contract \<lparr>ct_name = ''C'', ct_type_params = [], ct_clauses = [c], ct_fn_params = []\<rparr>,
     sd_span = (0, 1)\<rparr>"

lemma index_variables_leak:
  "map te_code (check_dependent_types first_entry show_ty
     \<lparr>sf_project = None, sf_module = None, sf_imports = [], sf_decls =
       [one_clause_contract (other_clause ''dependent'' (no_span (Raw [''n'', ''Nat'']))),
        one_clause_contract \<lparr>cl_kind = Requires, cl_body = no_span (Ident ''n''), cl_effect_variables = []\<rparr>]\<rparr>) =
   [''A03012'']"
  by (simp add: check_dependent_types_def register_enums_def dep_decl_def one_clause_contract_def other_clause_def
      dep_clause_def declare_index_def no_span_def validate_index_def dep_index_of_def bind_index_def
      check_index_erasure_def collect_idents_def dep_type_eq_clause_def dep_checker_new_def hm_defs dep_error_def Let_def split_beta
      type_error_of_checker_error_def)

end
