(* ===== verification/Info_Flow.thy ===== *)
theory Info_Flow
  imports Labels Dependent Type_Expr
begin

text \<open>
  Information flow, \<open>crates/assura-types/src/checkers/info_flow.rs\<close>: security labels of variables,
  the label of an expression, and the checks of contracts and functions.  What an accepted clause
  \<open>result == e\<close> says is stated over the values of expressions of theory \<open>Labels\<close>.
\<close>

section \<open>The lattice\<close>

datatype security_label = Public | Internal | Confidential | Restricted

fun label_rank :: "security_label \<Rightarrow> nat" where
  "label_rank Public = 0"
| "label_rank Internal = 1"
| "label_rank Confidential = 2"
| "label_rank Restricted = 3"

instantiation security_label :: linorder
begin

definition less_eq_security_label :: "security_label \<Rightarrow> security_label \<Rightarrow> bool" where
  "less_eq_security_label a b \<longleftrightarrow> label_rank a \<le> label_rank b"

definition less_security_label :: "security_label \<Rightarrow> security_label \<Rightarrow> bool" where
  "less_security_label a b \<longleftrightarrow> label_rank a < label_rank b"

instance
proof
  fix x y z :: security_label
  show "x < y \<longleftrightarrow> x \<le> y \<and> \<not> y \<le> x" "x \<le> x" "x \<le> y \<Longrightarrow> y \<le> z \<Longrightarrow> x \<le> z" "x \<le> y \<or> y \<le> x"
    by (auto simp: less_eq_security_label_def less_security_label_def)
  show "x \<le> y \<Longrightarrow> y \<le> x \<Longrightarrow> x = y"
    by (cases x; cases y; simp add: less_eq_security_label_def)
qed

end

lemma label_ord [simp]:
  "Public \<le> l" "l \<le> Public \<longleftrightarrow> l = Public" "Public < l \<longleftrightarrow> l \<noteq> Public" "\<not> l < Public" "l \<le> Restricted"
  by (cases l; simp add: less_eq_security_label_def less_security_label_def)+

fun label_display :: "security_label \<Rightarrow> string" where
  "label_display Public = ''Public''"
| "label_display Internal = ''Internal''"
| "label_display Confidential = ''Confidential''"
| "label_display Restricted = ''Restricted''"

interpretation secrecy: label_join "(\<le>)" max Public
  by unfold_locales auto

section \<open>The checker\<close>

record info_flow_checker =
  if_labels :: "(string, security_label) hmap"
  if_purposes :: "(string, string) hmap"
  if_declassified :: "string set"
  if_timing :: "string set"

definition info_flow_new :: info_flow_checker where
  "info_flow_new = \<lparr>if_labels = hm_empty, if_purposes = hm_empty, if_declassified = {},
     if_timing = {''sleep'', ''delay'', ''wait'', ''throw'', ''panic'', ''abort''}\<rparr>"

definition declare_label :: "string \<Rightarrow> security_label \<Rightarrow> info_flow_checker \<Rightarrow> info_flow_checker" where
  "declare_label n l chk = chk\<lparr>if_labels := hm_insert n l (if_labels chk)\<rparr>"

definition declare_purpose :: "string \<Rightarrow> string \<Rightarrow> info_flow_checker \<Rightarrow> info_flow_checker" where
  "declare_purpose n p chk = chk\<lparr>if_purposes := hm_insert n p (if_purposes chk)\<rparr>"

definition mark_declassify :: "string \<Rightarrow> info_flow_checker \<Rightarrow> info_flow_checker" where
  "mark_declassify n chk = chk\<lparr>if_declassified := insert n (if_declassified chk)\<rparr>"

definition register_timing_sensitive :: "string \<Rightarrow> info_flow_checker \<Rightarrow> info_flow_checker" where
  "register_timing_sensitive n chk = chk\<lparr>if_timing := insert n (if_timing chk)\<rparr>"

definition get_label :: "info_flow_checker \<Rightarrow> string \<Rightarrow> security_label option" where
  "get_label chk n = hm_get (if_labels chk) n"

definition get_purpose :: "info_flow_checker \<Rightarrow> string \<Rightarrow> string option" where
  "get_purpose chk n = hm_get (if_purposes chk) n"

definition has_labels :: "info_flow_checker \<Rightarrow> bool" where
  "has_labels chk \<longleftrightarrow> hm_len (if_labels chk) \<noteq> 0"

subsection \<open>The checks\<close>

definition flow_error :: "string \<Rightarrow> string \<Rightarrow> span \<Rightarrow> checker_error" where
  "flow_error code msg sp = \<lparr>ck_code = code, ck_message = msg, ck_span = sp\<rparr>"

definition check_assignment ::
  "security_label \<Rightarrow> security_label \<Rightarrow> span \<Rightarrow> checker_error option" where
  "check_assignment target source sp =
     (if source > target
      then Some (flow_error ''A08001''
        (''information flows from '' @ label_display source @ '' to '' @ label_display target @
         '': data at security level '' @ quoted (label_display source) @ '' cannot be assigned to a '' @
         quoted (label_display target) @ '' variable'') sp)
      else None)"

definition check_declassify ::
  "security_label \<Rightarrow> security_label \<Rightarrow> bool \<Rightarrow> span \<Rightarrow> checker_error option" where
  "check_declassify from to annotated sp =
     (if from > to \<and> \<not> annotated
      then Some (flow_error ''A08002''
        (''declassification from '' @ label_display from @ '' to '' @ label_display to @
         '' without explicit `@declassify` annotation'') sp)
      else None)"

definition check_purpose_label ::
  "info_flow_checker \<Rightarrow> string \<Rightarrow> string \<Rightarrow> span \<Rightarrow> checker_error option" where
  "check_purpose_label chk variable required sp =
     (case hm_get (if_purposes chk) variable of
        Some actual \<Rightarrow>
          if actual \<noteq> required
          then Some (flow_error ''A08003''
            (''purpose label mismatch for '' @ quoted variable @ '': data labeled for '' @ quoted actual @
             '' used in '' @ quoted required @ '' context'') sp)
          else None
      | None \<Rightarrow> None)"

definition check_implicit_flow ::
  "security_label \<Rightarrow> security_label \<Rightarrow> span \<Rightarrow> checker_error option" where
  "check_implicit_flow condition target sp =
     (if condition > target
      then Some (flow_error ''A08004''
        (''implicit information flow: condition at '' @ quoted (label_display condition) @
         '' level influences assignment to '' @ quoted (label_display target) @ '' variable'') sp)
      else None)"

definition check_covert_channel ::
  "info_flow_checker \<Rightarrow> security_label \<Rightarrow> string \<Rightarrow> span \<Rightarrow> checker_error option" where
  "check_covert_channel chk condition name sp =
     (if condition > Public \<and> name \<in> if_timing chk
      then Some (flow_error ''A08005''
        (''potential covert channel: '' @ quoted (label_display condition) @
         '' data controls call to timing/exception function '' @ quoted name) sp)
      else None)"

definition opt_list :: "'a option \<Rightarrow> 'a list" where
  "opt_list x = (case x of Some a \<Rightarrow> [a] | None \<Rightarrow> [])"

lemma opt_list_Nil [simp]: "opt_list x = [] \<longleftrightarrow> x = None"
  by (simp add: opt_list_def split: option.splits)

section \<open>The label of an expression\<close>

definition label_of :: "info_flow_checker \<Rightarrow> string \<Rightarrow> security_label" where
  "label_of chk n = unwrap_or (hm_get (if_labels chk) n) Public"

fun infer_label :: "info_flow_checker \<Rightarrow> sp_expr \<Rightarrow> security_label" where
  "infer_label chk (Spanned (Ident n) s) = label_of chk n"
| "infer_label chk (Spanned (Literal l) s) = Public"
| "infer_label chk (Spanned (Field r f) s) = infer_label chk r"
| "infer_label chk (Spanned (BinOp l op r) s) = max (infer_label chk l) (infer_label chk r)"
| "infer_label chk (Spanned (UnaryOp op e) s) = infer_label chk e"
| "infer_label chk (Spanned (Call f args) s) =
     fold (\<lambda>a acc. max acc (infer_label chk a)) args (infer_label chk f)"
| "infer_label chk (Spanned (MethodCall r m args) s) =
     fold (\<lambda>a acc. max acc (infer_label chk a)) args (infer_label chk r)"
| "infer_label chk (Spanned (Index e i) s) = max (infer_label chk e) (infer_label chk i)"
| "infer_label chk (Spanned (Old e) s) = infer_label chk e"
| "infer_label chk (Spanned (Cast e ty) s) = infer_label chk e"
| "infer_label chk (Spanned (IfE c t e) s) =
     (let r = max (infer_label chk c) (infer_label chk t)
      in case e of Some x \<Rightarrow> max r (infer_label chk x) | None \<Rightarrow> r)"
| "infer_label chk (Spanned (ListE es) s) = fold (\<lambda>a acc. max acc (infer_label chk a)) es Public"
| "infer_label chk (Spanned (BlockE es) s) = fold (\<lambda>a acc. max acc (infer_label chk a)) es Public"
| "infer_label chk (Spanned (Forall x d b) s) = infer_label chk b"
| "infer_label chk (Spanned (Exists x d b) s) = infer_label chk b"
| "infer_label chk (Spanned (ApplyE n args) s) = fold (\<lambda>a acc. max acc (infer_label chk a)) args Public"
| "infer_label chk (Spanned (Match e arms) s) =
     fold (\<lambda>a acc. max acc (case a of MatchArm p b \<Rightarrow> infer_label chk b)) arms (infer_label chk e)"
| "infer_label chk (Spanned (LetE x v b) s) = max (infer_label chk v) (infer_label chk b)"
| "infer_label chk (Spanned (TupleE es) s) = fold (\<lambda>a acc. max acc (infer_label chk a)) es Public"
| "infer_label chk (Spanned (Ghost e) s) = Public"
| "infer_label chk (Spanned (Raw ts) s) = Public"

text \<open>The occurrences the inference looks at: not ghost code, raw text and the domains of quantifiers.\<close>

fun labelled_reads :: "sp_expr \<Rightarrow> string list" where
  "labelled_reads (Spanned (Ghost e) s) = []"
| "labelled_reads (Spanned (Raw ts) s) = []"
| "labelled_reads (Spanned (Forall x d b) s) = labelled_reads b"
| "labelled_reads (Spanned (Exists x d b) s) = labelled_reads b"
| "labelled_reads (Spanned (Ident n) s) = [n]"
| "labelled_reads (Spanned (Literal l) s) = []"
| "labelled_reads (Spanned (Field e f) s) = labelled_reads e"
| "labelled_reads (Spanned (MethodCall r m args) s) = labelled_reads r @ concat (map labelled_reads args)"
| "labelled_reads (Spanned (Call f args) s) = labelled_reads f @ concat (map labelled_reads args)"
| "labelled_reads (Spanned (Index e i) s) = labelled_reads e @ labelled_reads i"
| "labelled_reads (Spanned (BinOp l op r) s) = labelled_reads l @ labelled_reads r"
| "labelled_reads (Spanned (UnaryOp op e) s) = labelled_reads e"
| "labelled_reads (Spanned (Old e) s) = labelled_reads e"
| "labelled_reads (Spanned (IfE c t e) s) =
     labelled_reads c @ labelled_reads t @ (case e of Some x \<Rightarrow> labelled_reads x | None \<Rightarrow> [])"
| "labelled_reads (Spanned (ListE es) s) = concat (map labelled_reads es)"
| "labelled_reads (Spanned (Cast e ty) s) = labelled_reads e"
| "labelled_reads (Spanned (BlockE es) s) = concat (map labelled_reads es)"
| "labelled_reads (Spanned (ApplyE n args) s) = concat (map labelled_reads args)"
| "labelled_reads (Spanned (LetE x v b) s) = labelled_reads v @ labelled_reads b"
| "labelled_reads (Spanned (Match e arms) s) =
     labelled_reads e @ concat (map (\<lambda>a. case a of MatchArm p b \<Rightarrow> labelled_reads b) arms)"
| "labelled_reads (Spanned (TupleE es) s) = concat (map labelled_reads es)"

lemma infer_label_le: "infer_label chk e \<le> l \<longleftrightarrow> (\<forall>x \<in> set (labelled_reads e). label_of chk x \<le> l)"
proof (induction chk e rule: infer_label.induct)
  case (17 chk e arms s)
  have "infer_label chk (arm_body a) \<le> l \<longleftrightarrow> (\<forall>x \<in> set (labelled_reads (arm_body a)). label_of chk x \<le> l)"
    if "a \<in> set arms" for a
    using "17.IH"(2) [OF that] by (cases a) auto
  with "17.IH"(1) show ?case by (auto simp: secrecy.below_fold case_arm)
qed (auto simp: secrecy.below_fold Let_def split: option.splits)

section \<open>Walking an expression\<close>

text \<open>\<open>check_expr_inner\<close>, with the label of the enclosing conditions.\<close>

fun walk_flow :: "info_flow_checker \<Rightarrow> span \<Rightarrow> security_label \<Rightarrow> sp_expr \<Rightarrow> checker_error list" where
  "walk_flow chk sp pc (Spanned (IfE c t e) s) =
     (let inner = max pc (infer_label chk c)
      in walk_flow chk sp pc c @ walk_flow chk sp inner t @
         (case e of Some x \<Rightarrow> walk_flow chk sp inner x | None \<Rightarrow> []))"
| "walk_flow chk sp pc (Spanned (Call f args) s) =
     (case callee f of Some n \<Rightarrow> opt_list (check_covert_channel chk pc n sp) | None \<Rightarrow> []) @
     walk_flow chk sp pc f @ concat (map (walk_flow chk sp pc) args)"
| "walk_flow chk sp pc (Spanned (MethodCall r m args) s) =
     opt_list (check_covert_channel chk pc m sp) @
     walk_flow chk sp pc r @ concat (map (walk_flow chk sp pc) args)"
| "walk_flow chk sp pc (Spanned (BinOp l op r) s) = walk_flow chk sp pc l @ walk_flow chk sp pc r"
| "walk_flow chk sp pc (Spanned (UnaryOp op e) s) = walk_flow chk sp pc e"
| "walk_flow chk sp pc (Spanned (Old e) s) = walk_flow chk sp pc e"
| "walk_flow chk sp pc (Spanned (Cast e ty) s) = walk_flow chk sp pc e"
| "walk_flow chk sp pc (Spanned (Ghost e) s) = walk_flow chk sp pc e"
| "walk_flow chk sp pc (Spanned (Field e f) s) = walk_flow chk sp pc e"
| "walk_flow chk sp pc (Spanned (Index e i) s) = walk_flow chk sp pc e @ walk_flow chk sp pc i"
| "walk_flow chk sp pc (Spanned (ListE es) s) = concat (map (walk_flow chk sp pc) es)"
| "walk_flow chk sp pc (Spanned (BlockE es) s) = concat (map (walk_flow chk sp pc) es)"
| "walk_flow chk sp pc (Spanned (Forall x d b) s) = walk_flow chk sp pc d @ walk_flow chk sp pc b"
| "walk_flow chk sp pc (Spanned (Exists x d b) s) = walk_flow chk sp pc d @ walk_flow chk sp pc b"
| "walk_flow chk sp pc (Spanned (ApplyE n args) s) = concat (map (walk_flow chk sp pc) args)"
| "walk_flow chk sp pc (Spanned (Match e arms) s) =
     (let inner = max pc (infer_label chk e)
      in walk_flow chk sp pc e @
         concat (map (\<lambda>a. case a of MatchArm p b \<Rightarrow> walk_flow chk sp inner b) arms))"
| "walk_flow chk sp pc (Spanned (LetE x v b) s) = walk_flow chk sp pc v @ walk_flow chk sp pc b"
| "walk_flow chk sp pc (Spanned (TupleE es) s) = concat (map (walk_flow chk sp pc) es)"
| "walk_flow chk sp pc (Spanned (Ident n) s) = []"
| "walk_flow chk sp pc (Spanned (Literal l) s) = []"
| "walk_flow chk sp pc (Spanned (Raw ts) s) = []"

definition check_flow_expr :: "info_flow_checker \<Rightarrow> sp_expr \<Rightarrow> span \<Rightarrow> checker_error list" where
  "check_flow_expr chk e sp = walk_flow chk sp Public e"

section \<open>Clauses\<close>

definition token_label :: "string \<Rightarrow> security_label option" where
  "token_label t =
     (if t = ''secret'' \<or> t = ''restricted'' then Some Restricted
      else if t = ''confidential'' then Some Confidential
      else if t = ''internal'' then Some Internal
      else if t = ''public'' then Some Public
      else None)"

definition label_token :: "string list \<Rightarrow> nat \<Rightarrow> info_flow_checker \<Rightarrow> info_flow_checker" where
  "label_token tokens i chk =
     (case token_label (tokens ! i) of
        Some l \<Rightarrow>
          if l > Public
          then (case list_get tokens (i + 1) of
                  Some n \<Rightarrow> if n \<noteq> '':'' then declare_label n l chk else chk
                | None \<Rightarrow> chk)
          else chk
      | None \<Rightarrow> chk)"

fun assign_labels_from_clause :: "sp_expr \<Rightarrow> info_flow_checker \<Rightarrow> info_flow_checker" where
  "assign_labels_from_clause (Spanned (Raw tokens) s) chk = fold (label_token tokens) [0..<length tokens] chk"
| "assign_labels_from_clause (Spanned (BlockE items) s) chk = fold assign_labels_from_clause items chk"
| "assign_labels_from_clause (Spanned (Call f args) s) chk = fold assign_labels_from_clause args chk"
| "assign_labels_from_clause _ chk = chk"

definition infer_label_from_type_tokens :: "string list \<Rightarrow> security_label" where
  "infer_label_from_type_tokens tokens =
     (case find (\<lambda>t. t \<in> {''secret'', ''restricted'', ''confidential'', ''internal''}) tokens of
        Some t \<Rightarrow> unwrap_or (token_label t) Public
      | None \<Rightarrow> Public)"

definition is_result_expr :: "sp_expr \<Rightarrow> bool" where
  "is_result_expr e \<longleftrightarrow> node e = Ident ''result''"

fun contains_result_ref :: "sp_expr \<Rightarrow> bool" where
  "contains_result_ref (Spanned (Ident n) s) \<longleftrightarrow> n = ''result''"
| "contains_result_ref (Spanned (BinOp l op r) s) \<longleftrightarrow> contains_result_ref l \<or> contains_result_ref r"
| "contains_result_ref (Spanned (Field e f) s) \<longleftrightarrow> contains_result_ref e"
| "contains_result_ref (Spanned (Old e) s) \<longleftrightarrow> contains_result_ref e"
| "contains_result_ref (Spanned (Call f args) s) \<longleftrightarrow>
     contains_result_ref f \<or> list_ex contains_result_ref args"
| "contains_result_ref (Spanned (MethodCall r m args) s) \<longleftrightarrow>
     contains_result_ref r \<or> list_ex contains_result_ref args"
| "contains_result_ref (Spanned (IfE c t e) s) \<longleftrightarrow>
     contains_result_ref c \<or> contains_result_ref t \<or>
     (case e of Some x \<Rightarrow> contains_result_ref x | None \<Rightarrow> False)"
| "contains_result_ref _ \<longleftrightarrow> False"

definition infer_branch_target_label :: "info_flow_checker \<Rightarrow> sp_expr \<Rightarrow> security_label" where
  "infer_branch_target_label chk e = (if contains_result_ref e then Public else infer_label chk e)"

text \<open>The expression an equation defines the result to be.\<close>

definition result_source :: "sp_expr \<Rightarrow> sp_expr option" where
  "result_source e =
     (case node e of
        BinOp l op r \<Rightarrow>
          if op \<noteq> Eq then None
          else if is_result_expr l then Some r
          else if is_result_expr r then Some l
          else None
      | _ \<Rightarrow> None)"

definition check_expr_info_flow :: "sp_expr \<Rightarrow> info_flow_checker \<Rightarrow> span \<Rightarrow> type_error list" where
  "check_expr_info_flow e chk sp =
     (case result_source e of
        Some source \<Rightarrow>
          (let l = infer_label chk source
           in if l > Public
              then map (type_error_of_checker_error \<circ>
                        checker_error_with_context (''information flow violation in `result`''))
                     (opt_list (check_assignment Public l sp))
              else [])
      | None \<Rightarrow> []) @
     (case node e of
        IfE c t x \<Rightarrow>
          (let l = infer_label chk c
           in if l > Public
              then map type_error_of_checker_error
                     (opt_list (check_implicit_flow l (infer_branch_target_label chk t) sp))
              else [])
      | _ \<Rightarrow> [])"

definition setup_clause :: "clause \<Rightarrow> info_flow_checker \<Rightarrow> info_flow_checker" where
  "setup_clause c chk =
     (let chk1 = (if cl_kind c = Input then assign_labels_from_clause (cl_body c) chk else chk);
          chk2 = (if other_kind_in [''purpose''] (cl_kind c)
                  then (case raw_tokens (cl_body c) of
                          Some ts \<Rightarrow> declare_purpose (ts ! 0) (ts ! 1) chk1 | None \<Rightarrow> chk1)
                  else chk1);
          chk3 = (if other_kind_in [''declassify''] (cl_kind c)
                  then fold mark_declassify (collect_ident_references (cl_body c)) chk2 else chk2)
      in if other_kind_in [''timing_sensitive''] (cl_kind c)
         then fold register_timing_sensitive (collect_ident_references (cl_body c)) chk3 else chk3)"

text \<open>An \<open>ensures\<close> clause, in contracts and functions alike.\<close>

definition ensures_flow_errors :: "info_flow_checker \<Rightarrow> span \<Rightarrow> clause \<Rightarrow> type_error list" where
  "ensures_flow_errors chk sp c =
     (if cl_kind c = Ensures
      then map type_error_of_checker_error (check_flow_expr chk (cl_body c) sp) @
           check_expr_info_flow (cl_body c) chk sp
      else [])"

definition reference_errors :: "info_flow_checker \<Rightarrow> span \<Rightarrow> string \<Rightarrow> type_error list" where
  "reference_errors chk sp n =
     (case get_label chk n of
        Some l \<Rightarrow> map type_error_of_checker_error
          (opt_list (check_covert_channel chk l n sp) @ opt_list (check_declassify l Public False sp))
      | None \<Rightarrow> [])"

definition purpose_errors :: "info_flow_checker \<Rightarrow> span \<Rightarrow> clause \<Rightarrow> type_error list" where
  "purpose_errors chk sp c =
     (if other_kind_in [''purpose_check''] (cl_kind c)
      then (case raw_tokens (cl_body c) of
              None \<Rightarrow> []
            | Some ts \<Rightarrow>
                (let n = ts ! 0; required = ts ! 1
                 in (if get_label chk n \<noteq> None
                     then map type_error_of_checker_error (opt_list (check_purpose_label chk n required sp))
                     else []) @
                    (case get_purpose chk n of
                       Some purpose \<Rightarrow>
                         if purpose \<noteq> required
                         then [type_error_at ''A08003''
                           (''purpose mismatch for '' @ quoted n @ '': registered as '' @ quoted purpose @
                            '', required '' @ quoted required) sp]
                         else []
                     | None \<Rightarrow> [])))
      else [])"

definition contract_flow_checker :: "contract_decl \<Rightarrow> info_flow_checker" where
  "contract_flow_checker ct = fold setup_clause (ct_clauses ct) info_flow_new"

definition check_contract_info_flow :: "contract_decl \<Rightarrow> span \<Rightarrow> type_error list" where
  "check_contract_info_flow ct sp =
     (let chk = contract_flow_checker ct
      in if \<not> has_labels chk then []
         else concat (map (\<lambda>c.
           ensures_flow_errors chk sp c @
           (if cl_kind c = Ensures \<or> cl_kind c = Requires
            then concat (map (reference_errors chk sp) (collect_ident_references (cl_body c))) else []) @
           purpose_errors chk sp c) (ct_clauses ct)))"

definition declare_param_label :: "param \<Rightarrow> info_flow_checker \<Rightarrow> info_flow_checker" where
  "declare_param_label p chk =
     (let l = infer_label_from_type_tokens (case p_ty p of Some t \<Rightarrow> to_tokens t | None \<Rightarrow> [])
      in if l > Public then declare_label (p_name p) l chk else chk)"

definition fn_flow_checker :: "fn_def \<Rightarrow> info_flow_checker" where
  "fn_flow_checker f = fold declare_param_label (fn_params f) (fold setup_clause (fn_clauses f) info_flow_new)"

definition check_fn_info_flow :: "fn_def \<Rightarrow> span \<Rightarrow> type_error list" where
  "check_fn_info_flow f sp =
     (let chk = fn_flow_checker f
      in if \<not> has_labels chk then [] else concat (map (ensures_flow_errors chk sp) (fn_clauses f)))"

definition flow_errors_of_decl :: "spanned_decl \<Rightarrow> type_error list" where
  "flow_errors_of_decl sd =
     (case sd_node sd of
        Contract ct \<Rightarrow> check_contract_info_flow ct (sd_span sd)
      | FnDef f \<Rightarrow> check_fn_info_flow f (sd_span sd)
      | _ \<Rightarrow> [])"

definition check_info_flow ::
  "((string, dep_index) hmap \<Rightarrow> (string \<times> dep_index) option) \<Rightarrow> (ty \<Rightarrow> string) \<Rightarrow> source_file \<Rightarrow>
   type_error list" where
  "check_info_flow first_entry show_ty sf =
     concat (map flow_errors_of_decl (sf_decls sf)) @ check_dependent_types first_entry show_ty sf"

section \<open>What an accepted clause says\<close>

definition decl_flow_checker :: "decl \<Rightarrow> (info_flow_checker \<times> clause list) option" where
  "decl_flow_checker d =
     (case d of
        Contract ct \<Rightarrow> Some (contract_flow_checker ct, ct_clauses ct)
      | FnDef f \<Rightarrow> Some (fn_flow_checker f, fn_clauses f)
      | _ \<Rightarrow> None)"

lemma no_labels_public: "\<not> has_labels chk \<Longrightarrow> label_of chk x = Public"
  by (simp add: has_labels_def label_of_def hm_len_def hm_get_def)

lemma accepted_ensures:
  assumes "flow_errors_of_decl sd = []" and "decl_flow_checker (sd_node sd) = Some (chk, cls)"
    and "c \<in> set cls" and "has_labels chk"
  shows "ensures_flow_errors chk (sd_span sd) c = []"
  using assms
  by (cases "sd_node sd")
    (auto simp: flow_errors_of_decl_def decl_flow_checker_def check_contract_info_flow_def
      check_fn_info_flow_def Let_def)

lemma accepted_source_public:
  assumes "ensures_flow_errors chk sp c = []" and "cl_kind c = Ensures" and "result_source (cl_body c) = Some e"
  shows "infer_label chk e = Public"
proof (rule ccontr)
  assume "infer_label chk e \<noteq> Public"
  with assms show False
    by (auto simp: ensures_flow_errors_def check_expr_info_flow_def check_assignment_def opt_list_def Let_def)
qed

lemma result_source_value:
  assumes "result_source b = Some e" and "\<And>x y. rd_binop A Eq x y = tv \<Longrightarrow> x = y" and "denote A st b = tv"
  shows "current_store st ''result'' = denote A st e"
proof -
  obtain x s where b: "b = Spanned x s" by (cases b)
  from assms(1) obtain l r where x: "x = BinOp l Eq r"
    and lr: "node l = Ident ''result'' \<and> e = r \<or> node r = Ident ''result'' \<and> e = l"
    by (auto simp: b result_source_def is_result_expr_def split: expr.splits if_splits)
  from assms(2) [of "denote A st l" "denote A st r"] assms(3) have eq: "denote A st l = denote A st r"
    by (simp add: b x)
  have "denote A st y = current_store st ''result''" if "node y = Ident ''result''" for y
    using that by (cases y) simp
  with lr eq show ?thesis by auto
qed

text \<open>C10: Where information flow accepts a file, an ensures clause that equates the result of a
  contract or function with an expression makes the result independent of every labelled variable: two
  runs that satisfy the clause and agree on the public variables have the same result, whatever the
  operators mean.  The expression must not mention the result, and everything it reads must occur where
  the inference looks, which is not in ghost code, raw text or the domain of a quantifier
  (\<open>unlabelled_accepted\<close>).\<close>

theorem accepted_result_is_public:
  assumes "check_info_flow first_entry show_ty sf = []" and "sd \<in> set (sf_decls sf)"
    and "decl_flow_checker (sd_node sd) = Some (chk, cls)"
    and "c \<in> set cls" and "cl_kind c = Ensures" and "result_source (cl_body c) = Some e"
    and "set (inputs {} e) \<subseteq> set (labelled_reads e)" and "''result'' \<notin> set (inputs {} e)"
    and "\<And>x y. rd_binop A Eq x y = tv \<Longrightarrow> x = y"
    and "agree {x. x \<noteq> ''result'' \<and> label_of chk x = Public} st tt"
    and "denote A st (cl_body c) = tv" and "denote A tt (cl_body c) = tv"
  shows "current_store st ''result'' = current_store tt ''result''"
proof -
  from assms(1,2) have "flow_errors_of_decl sd = []" by (simp add: check_info_flow_def concat_map_Nil)
  with assms(3-6) have "has_labels chk \<Longrightarrow> infer_label chk e = Public"
    using accepted_ensures accepted_source_public by blast
  then have "has_labels chk \<Longrightarrow> \<forall>x \<in> set (labelled_reads e). label_of chk x = Public"
    using infer_label_le [of chk e Public] by simp
  with assms(7,8) no_labels_public have "set (inputs {} e) \<subseteq> {x. x \<noteq> ''result'' \<and> label_of chk x = Public}"
    by blast
  with assms(10) have "denote A st e = denote A tt e" by (blast intro: denote_agree [OF hides_nothing] agree_subset)
  with result_source_value [OF assms(6,9,11)] result_source_value [OF assms(6,9,12)] show ?thesis by simp
qed

text \<open>A function with a secret and two public inputs, to run the theorem on.\<close>

definition sum_of_public :: clause where
  "sum_of_public = \<lparr>cl_kind = Ensures, cl_body = no_span (BinOp (no_span (Ident ''result'')) Eq
     (no_span (BinOp (no_span (Ident ''a'')) Add (no_span (Ident ''b''))))), cl_effect_variables = []\<rparr>"

definition secret_input :: clause where
  "secret_input = \<lparr>cl_kind = Input, cl_body = no_span (Raw [''secret'', ''k'', '':'', ''Int'']), cl_effect_variables = []\<rparr>"

definition example_fn :: "clause list \<Rightarrow> source_file" where
  "example_fn cs = \<lparr>sf_project = None, sf_module = None, sf_imports = [], sf_decls = [\<lparr>sd_node = FnDef
     \<lparr>fn_name = ''f'', fn_is_ghost = False, fn_is_lemma = False, fn_params = [], fn_return_ty = None, fn_clauses = cs\<rparr>,
     sd_span = (0, 1)\<rparr>]\<rparr>"

lemmas flow_eval =
  example_fn_def sum_of_public_def secret_input_def no_span_def check_info_flow_def flow_errors_of_decl_def
  check_fn_info_flow_def fn_flow_checker_def setup_clause_def label_token_def token_label_def list_get_def
  declare_label_def info_flow_new_def ensures_flow_errors_def check_flow_expr_def check_expr_info_flow_def
  result_source_def is_result_expr_def has_labels_def hm_defs label_of_def Let_def opt_list_def
  check_dependent_types_def register_enums_def dep_decl_def dep_clause_def dep_type_eq_clause_def
  check_index_erasure_def dep_checker_new_def concat_map_Nil

lemma accepted_example: "check_info_flow first_entry show_ty (example_fn [secret_input, sum_of_public]) = []"
  by (simp add: flow_eval)

definition example_store :: "int \<Rightarrow> string \<Rightarrow> int" where
  "example_store k x = (if x = ''a'' then 1 else if x = ''b'' then 2 else if x = ''k'' then k else 3)"

definition sum_fn :: fn_def where
  "sum_fn = \<lparr>fn_name = ''f'', fn_is_ghost = False, fn_is_lemma = False, fn_params = [], fn_return_ty = None,
     fn_clauses = [secret_input, sum_of_public]\<rparr>"

lemma sum_fn_facts:
  "\<lparr>sd_node = FnDef sum_fn, sd_span = (0, 1)\<rparr> \<in> set (sf_decls (example_fn [secret_input, sum_of_public]))"
  "decl_flow_checker (sd_node \<lparr>sd_node = FnDef sum_fn, sd_span = (0, 1)\<rparr>) =
     Some (fn_flow_checker sum_fn, [secret_input, sum_of_public])"
  "agree {x. x \<noteq> ''result'' \<and> label_of (fn_flow_checker sum_fn) x = Public}
     (same_store (example_store 5)) (same_store (example_store 9))"
  by (auto simp: sum_fn_def decl_flow_checker_def agree_def same_store_def example_store_def flow_eval)

lemma sum_clause_facts:
  "cl_kind sum_of_public = Ensures"
  "result_source (cl_body sum_of_public) = Some (no_span (BinOp (no_span (Ident ''a'')) Add (no_span (Ident ''b''))))"
  "denote int_reading (same_store (example_store k)) (cl_body sum_of_public) = 1"
  by (simp_all add: sum_of_public_def no_span_def result_source_def is_result_expr_def int_reading_def
      same_store_def example_store_def)

lemma accepted_result_is_public_witness:
  "check_info_flow (\<lambda>_. None) (\<lambda>_. []) (example_fn [secret_input, sum_of_public]) = [] \<and>
   denote int_reading (same_store (example_store 5)) (cl_body sum_of_public) = 1 \<and>
   current_store (same_store (example_store 5)) ''result'' = current_store (same_store (example_store 9)) ''result''"
proof (intro conjI)
  show "current_store (same_store (example_store 5)) ''result'' = current_store (same_store (example_store 9)) ''result''"
    by (rule accepted_result_is_public [OF accepted_example sum_fn_facts(1,2) _ sum_clause_facts(1,2) _ _ _ sum_fn_facts(3)
      sum_clause_facts(3) sum_clause_facts(3)])
      (simp_all add: no_span_def int_reading_def split: if_splits)
qed (fact accepted_example sum_clause_facts(3))+

section \<open>Where the check says less\<close>

definition ensures :: "expr \<Rightarrow> clause" where
  "ensures x = \<lparr>cl_kind = Ensures, cl_body = no_span x, cl_effect_variables = []\<rparr>"

text \<open>Only an equation that is the whole clause is looked at: below a conjunction or a conditional
  the secret itself may be returned.\<close>

lemma nested_equation_accepted:
  "check_info_flow first_entry show_ty (example_fn [secret_input,
     ensures (BinOp (no_span (BinOp (var ''result'') Eq (var ''k''))) And (no_span (Literal (LBool True))))]) = []"
  "check_info_flow first_entry show_ty (example_fn [secret_input,
     ensures (IfE (var ''a'') (no_span (BinOp (var ''result'') Eq (var ''k''))) None)]) = []"
  by (simp_all add: flow_eval ensures_def var_def)

text \<open>Ghost code, raw text and the domain of a quantifier have no label.\<close>

lemma unlabelled_accepted:
  "check_info_flow first_entry show_ty (example_fn [secret_input,
     ensures (BinOp (var ''result'') Eq (no_span (Ghost (var ''k''))))]) = []"
  "check_info_flow first_entry show_ty (example_fn [secret_input,
     ensures (BinOp (var ''result'') Eq (no_span (Raw [''k''])))]) = []"
  "check_info_flow first_entry show_ty (example_fn [secret_input,
     ensures (BinOp (var ''result'') Eq (no_span (Exists ''x'' (var ''k'') (var ''x''))))]) = []"
  by (simp_all add: flow_eval ensures_def var_def)

text \<open>A name bound to a secret by \<open>let\<close> is public where it is used as a condition.\<close>

lemma let_hides_secret:
  "check_flow_expr (declare_label ''k'' Restricted info_flow_new)
     (no_span (LetE ''x'' (var ''k'') (no_span (IfE (var ''x'') (no_span (Call (var ''sleep'') [])) None)))) sp = []"
  "check_flow_expr (declare_label ''k'' Restricted info_flow_new)
     (no_span (IfE (var ''k'') (no_span (Call (var ''sleep'') [])) None)) sp \<noteq> []"
  by (simp_all add: flow_eval var_def callee_def check_covert_channel_def)

text \<open>The marks \<open>declassify\<close> sets are never read: a contract that mentions a secret is reported,
  marked or not.\<close>

lemma declassify_is_ignored:
  "map te_code (check_contract_info_flow \<lparr>ct_name = ''C'', ct_type_params = [], ct_clauses =
      [secret_input, other_clause ''declassify'' (var ''k''), ensures (BinOp (var ''a'') Eq (var ''k''))],
      ct_fn_params = []\<rparr> sp) = [''A08002'']"
  by (simp add: check_contract_info_flow_def contract_flow_checker_def other_clause_def flow_eval ensures_def var_def
      mark_declassify_def collect_ident_references_def purpose_errors_def reference_errors_def get_label_def
      check_covert_channel_def check_declassify_def type_error_of_checker_error_def flow_error_def)

end
