(* ===== verification/Taint.thy ===== *)
theory Taint
  imports Labels Type_Expr
begin

text \<open>
  Taint tracking, \<open>crates/assura-types/src/checkers/taint.rs\<close>: labels of trust read off parameter
  types, the label of an expression, the sensitive positions (array indices, allocation sizes,
  arguments of trusted sinks) and the check of a file.  What an accepted declaration says is stated
  over two runs side by side (theory \<open>Labels\<close>).
\<close>

section \<open>Labels\<close>

datatype taint_label = Untrusted | Validated | Trusted

fun trust_rank :: "taint_label \<Rightarrow> nat" where
  "trust_rank Untrusted = 0"
| "trust_rank Validated = 1"
| "trust_rank Trusted = 2"

instantiation taint_label :: linorder
begin

definition less_eq_taint_label :: "taint_label \<Rightarrow> taint_label \<Rightarrow> bool" where
  "less_eq_taint_label a b \<longleftrightarrow> trust_rank a \<le> trust_rank b"

definition less_taint_label :: "taint_label \<Rightarrow> taint_label \<Rightarrow> bool" where
  "less_taint_label a b \<longleftrightarrow> trust_rank a < trust_rank b"

instance
proof
  fix x y z :: taint_label
  show "x < y \<longleftrightarrow> x \<le> y \<and> \<not> y \<le> x" "x \<le> x" "x \<le> y \<Longrightarrow> y \<le> z \<Longrightarrow> x \<le> z" "x \<le> y \<or> y \<le> x"
    by (auto simp: less_eq_taint_label_def less_taint_label_def)
  show "x \<le> y \<Longrightarrow> y \<le> x \<Longrightarrow> x = y"
    by (cases x; cases y; simp add: less_eq_taint_label_def)
qed

end

lemma trust_ord [simp]:
  "l \<le> Trusted" "Untrusted \<le> l" "Validated \<le> l \<longleftrightarrow> l \<noteq> Untrusted" "Trusted \<le> l \<longleftrightarrow> l = Trusted"
  "l \<le> Validated \<longleftrightarrow> l \<noteq> Trusted" "l \<le> Untrusted \<longleftrightarrow> l = Untrusted"
  by (cases l; simp add: less_eq_taint_label_def)+

interpretation trust: label_join "(\<ge>)" min Trusted
  by unfold_locales auto

fun taint_display :: "taint_label \<Rightarrow> string" where
  "taint_display Untrusted = ''untrusted''"
| "taint_display Validated = ''validated''"
| "taint_display Trusted = ''trusted''"

definition taint_of_token :: "string \<Rightarrow> taint_label option" where
  "taint_of_token t =
     (if t = ''untrusted'' then Some Untrusted
      else if t = ''validated'' then Some Validated
      else if t = ''trusted'' then Some Trusted
      else None)"

text \<open>The first window of tokens with the given beginning: its label, when it names one.\<close>

fun long_form :: "string list \<Rightarrow> taint_label option option" where
  "long_form (a # b # c # d # rest) =
     (if a = ''@'' \<and> b = ''taint'' \<and> c = '':'' then Some (taint_of_token d)
      else long_form (b # c # d # rest))"
| "long_form _ = None"

fun short_form :: "string list \<Rightarrow> taint_label option option" where
  "short_form (a # b # rest) = (if a = ''@'' then Some (taint_of_token b) else short_form (b # rest))"
| "short_form _ = None"

definition extract_taint_label_from_tokens :: "string list \<Rightarrow> taint_label option" where
  "extract_taint_label_from_tokens tokens =
     (case long_form tokens of
        Some r \<Rightarrow> r
      | None \<Rightarrow> (case short_form tokens of Some r \<Rightarrow> r | None \<Rightarrow> None))"

definition extract_taint_label :: "type_expr option \<Rightarrow> taint_label option" where
  "extract_taint_label te = extract_taint_label_from_tokens (case te of Some t \<Rightarrow> to_tokens t | None \<Rightarrow> [])"

section \<open>The checker\<close>

record taint_checker =
  tc_labels :: "(string, taint_label) hmap"
  tc_validators :: "string set"
  tc_sinks :: "(string, taint_label option list) hmap"

definition taint_new :: taint_checker where
  "taint_new = \<lparr>tc_labels = hm_empty, tc_validators = {''validate'', ''sanitize''}, tc_sinks = hm_empty\<rparr>"

definition declare_taint :: "string \<Rightarrow> taint_label \<Rightarrow> taint_checker \<Rightarrow> taint_checker" where
  "declare_taint n l tc = tc\<lparr>tc_labels := hm_insert n l (tc_labels tc)\<rparr>"

definition register_validator :: "string \<Rightarrow> taint_checker \<Rightarrow> taint_checker" where
  "register_validator n tc = tc\<lparr>tc_validators := insert n (tc_validators tc)\<rparr>"

definition register_trusted_sink :: "string \<Rightarrow> taint_label option list \<Rightarrow> taint_checker \<Rightarrow> taint_checker" where
  "register_trusted_sink n ls tc = tc\<lparr>tc_sinks := hm_insert n ls (tc_sinks tc)\<rparr>"

definition has_taint_info :: "taint_checker \<Rightarrow> bool" where
  "has_taint_info tc \<longleftrightarrow> hm_len (tc_labels tc) \<noteq> 0"

definition taint_of :: "taint_checker \<Rightarrow> string \<Rightarrow> taint_label" where
  "taint_of tc n = unwrap_or (hm_get (tc_labels tc) n) Trusted"

fun infer_taint :: "taint_checker \<Rightarrow> sp_expr \<Rightarrow> taint_label" where
  "infer_taint tc (Spanned (Ident n) s) = taint_of tc n"
| "infer_taint tc (Spanned (Literal l) s) = Trusted"
| "infer_taint tc (Spanned (Field e f) s) = infer_taint tc e"
| "infer_taint tc (Spanned (BinOp l op r) s) = min (infer_taint tc l) (infer_taint tc r)"
| "infer_taint tc (Spanned (UnaryOp op e) s) = infer_taint tc e"
| "infer_taint tc (Spanned (Call f args) s) =
     (if \<exists>n \<in> set_option (callee f). n \<in> tc_validators tc then Validated
      else fold (\<lambda>a acc. min acc (infer_taint tc a)) args Trusted)"
| "infer_taint tc (Spanned (MethodCall r m args) s) =
     (if m \<in> tc_validators tc then Validated
      else fold (\<lambda>a acc. min acc (infer_taint tc a)) args (infer_taint tc r))"
| "infer_taint tc (Spanned (Index e i) s) = min (infer_taint tc e) (infer_taint tc i)"
| "infer_taint tc (Spanned (Old e) s) = infer_taint tc e"
| "infer_taint tc (Spanned (Cast e ty) s) = infer_taint tc e"
| "infer_taint tc (Spanned (IfE c t e) s) =
     (let r = min (infer_taint tc c) (infer_taint tc t)
      in case e of Some x \<Rightarrow> min r (infer_taint tc x) | None \<Rightarrow> r)"
| "infer_taint tc (Spanned (ListE es) s) = fold (\<lambda>a acc. min acc (infer_taint tc a)) es Trusted"
| "infer_taint tc (Spanned (BlockE es) s) = fold (\<lambda>a acc. min acc (infer_taint tc a)) es Trusted"
| "infer_taint tc (Spanned (Forall x d b) s) = infer_taint tc b"
| "infer_taint tc (Spanned (Exists x d b) s) = infer_taint tc b"
| "infer_taint tc (Spanned (ApplyE n args) s) = fold (\<lambda>a acc. min acc (infer_taint tc a)) args Trusted"
| "infer_taint tc (Spanned (Match e arms) s) =
     fold (\<lambda>a acc. min acc (case a of MatchArm p b \<Rightarrow> infer_taint tc b)) arms (infer_taint tc e)"
| "infer_taint tc (Spanned (LetE x v b) s) = min (infer_taint tc v) (infer_taint tc b)"
| "infer_taint tc (Spanned (TupleE es) s) = fold (\<lambda>a acc. min acc (infer_taint tc a)) es Trusted"
| "infer_taint tc (Spanned (Ghost e) s) = Trusted"
| "infer_taint tc (Spanned (Raw ts) s) = Trusted"

text \<open>The identifiers whose labels enter the label of an expression.\<close>

fun tainted_reads :: "string set \<Rightarrow> sp_expr \<Rightarrow> string list" where
  "tainted_reads V (Spanned (Ident n) s) = [n]"
| "tainted_reads V (Spanned (Literal l) s) = []"
| "tainted_reads V (Spanned (Field e f) s) = tainted_reads V e"
| "tainted_reads V (Spanned (BinOp l op r) s) = tainted_reads V l @ tainted_reads V r"
| "tainted_reads V (Spanned (UnaryOp op e) s) = tainted_reads V e"
| "tainted_reads V (Spanned (Call f args) s) =
     (if \<exists>n \<in> set_option (callee f). n \<in> V then [] else concat (map (tainted_reads V) args))"
| "tainted_reads V (Spanned (MethodCall r m args) s) =
     (if m \<in> V then [] else tainted_reads V r @ concat (map (tainted_reads V) args))"
| "tainted_reads V (Spanned (Index e i) s) = tainted_reads V e @ tainted_reads V i"
| "tainted_reads V (Spanned (Old e) s) = tainted_reads V e"
| "tainted_reads V (Spanned (Cast e ty) s) = tainted_reads V e"
| "tainted_reads V (Spanned (IfE c t e) s) =
     tainted_reads V c @ tainted_reads V t @ (case e of Some x \<Rightarrow> tainted_reads V x | None \<Rightarrow> [])"
| "tainted_reads V (Spanned (ListE es) s) = concat (map (tainted_reads V) es)"
| "tainted_reads V (Spanned (BlockE es) s) = concat (map (tainted_reads V) es)"
| "tainted_reads V (Spanned (Forall x d b) s) = tainted_reads V b"
| "tainted_reads V (Spanned (Exists x d b) s) = tainted_reads V b"
| "tainted_reads V (Spanned (ApplyE n args) s) = concat (map (tainted_reads V) args)"
| "tainted_reads V (Spanned (Match e arms) s) =
     tainted_reads V e @ concat (map (\<lambda>a. case a of MatchArm p b \<Rightarrow> tainted_reads V b) arms)"
| "tainted_reads V (Spanned (LetE x v b) s) = tainted_reads V v @ tainted_reads V b"
| "tainted_reads V (Spanned (TupleE es) s) = concat (map (tainted_reads V) es)"
| "tainted_reads V (Spanned (Ghost e) s) = []"
| "tainted_reads V (Spanned (Raw ts) s) = []"

lemma infer_taint_reads:
  "l \<le> infer_taint tc e \<Longrightarrow> x \<in> set (tainted_reads (tc_validators tc) e) \<Longrightarrow> l \<le> taint_of tc x"
proof (induction tc e rule: infer_taint.induct)
  case (17 tc e arms s)
  have "x \<in> set (tainted_reads (tc_validators tc) (arm_body a)) \<Longrightarrow> l \<le> infer_taint tc (arm_body a) \<Longrightarrow> l \<le> taint_of tc x"
    if "a \<in> set arms" for a
    using "17.IH"(2) [OF that] by (cases a) auto
  with 17 show ?case by (auto simp: trust.below_fold case_arm)
qed (auto simp: trust.below_fold Let_def split: option.splits if_splits)

section \<open>Sensitive positions\<close>

definition is_alloc_function :: "string \<Rightarrow> bool" where
  "is_alloc_function n \<longleftrightarrow> n \<in> {''alloc'', ''allocate'', ''malloc'', ''realloc'', ''reserve'', ''resize''}"

definition index_errors :: "taint_checker \<Rightarrow> span \<Rightarrow> sp_expr \<Rightarrow> type_error list" where
  "index_errors tc sp i =
     (if infer_taint tc i = Untrusted
      then [type_error_at ''A09101''
        ''tainted data used as array index without validation: validate the index before using it to access an array'' sp]
      else [])"

definition alloc_errors :: "taint_checker \<Rightarrow> span \<Rightarrow> string \<Rightarrow> sp_expr list \<Rightarrow> type_error list" where
  "alloc_errors tc sp n args =
     (if is_alloc_function n
      then concat (map (\<lambda>a. if infer_taint tc a = Untrusted
        then [type_error_at ''A09102''
          (''tainted data used as allocation size without validation: argument to '' @ quoted n @ '' is untrusted'') sp]
        else []) args)
      else [])"

definition sink_arg_errors ::
  "taint_checker \<Rightarrow> span \<Rightarrow> string \<Rightarrow> taint_label option list \<Rightarrow> nat \<times> sp_expr \<Rightarrow> type_error list" where
  "sink_arg_errors tc sp n param_labels = (\<lambda>(i, a).
     (case list_get param_labels i of
        Some (Some required) \<Rightarrow>
          if infer_taint tc a < required
          then [type_error_at ''A09103''
            (''tainted data flows to trusted sink: argument '' @ dec i @ '' to '' @ quoted n @ '' is '' @
             quoted (taint_display (infer_taint tc a)) @ '' but parameter requires '' @
             quoted (taint_display required)) sp]
          else []
      | _ \<Rightarrow> []))"

definition sink_errors :: "taint_checker \<Rightarrow> span \<Rightarrow> string \<Rightarrow> sp_expr list \<Rightarrow> type_error list" where
  "sink_errors tc sp n args =
     (case hm_get (tc_sinks tc) n of
        Some ls \<Rightarrow> concat (map (sink_arg_errors tc sp n ls) (zip [0..<length args] args))
      | None \<Rightarrow> [])"

fun walk_taint :: "taint_checker \<Rightarrow> span \<Rightarrow> sp_expr \<Rightarrow> type_error list" where
  "walk_taint tc sp (Spanned (Index e i) s) = index_errors tc sp i @ walk_taint tc sp e @ walk_taint tc sp i"
| "walk_taint tc sp (Spanned (Call f args) s) =
     (case callee f of Some n \<Rightarrow> alloc_errors tc sp n args @ sink_errors tc sp n args | None \<Rightarrow> []) @
     walk_taint tc sp f @ concat (map (walk_taint tc sp) args)"
| "walk_taint tc sp (Spanned (BinOp l op r) s) = walk_taint tc sp l @ walk_taint tc sp r"
| "walk_taint tc sp (Spanned (UnaryOp op e) s) = walk_taint tc sp e"
| "walk_taint tc sp (Spanned (Old e) s) = walk_taint tc sp e"
| "walk_taint tc sp (Spanned (Cast e ty) s) = walk_taint tc sp e"
| "walk_taint tc sp (Spanned (Ghost e) s) = walk_taint tc sp e"
| "walk_taint tc sp (Spanned (Field e f) s) = walk_taint tc sp e"
| "walk_taint tc sp (Spanned (MethodCall r m args) s) =
     walk_taint tc sp r @ concat (map (walk_taint tc sp) args)"
| "walk_taint tc sp (Spanned (IfE c t e) s) =
     walk_taint tc sp c @ walk_taint tc sp t @ (case e of Some x \<Rightarrow> walk_taint tc sp x | None \<Rightarrow> [])"
| "walk_taint tc sp (Spanned (ListE es) s) = concat (map (walk_taint tc sp) es)"
| "walk_taint tc sp (Spanned (BlockE es) s) = concat (map (walk_taint tc sp) es)"
| "walk_taint tc sp (Spanned (Forall x d b) s) = walk_taint tc sp d @ walk_taint tc sp b"
| "walk_taint tc sp (Spanned (Exists x d b) s) = walk_taint tc sp d @ walk_taint tc sp b"
| "walk_taint tc sp (Spanned (ApplyE n args) s) = concat (map (walk_taint tc sp) args)"
| "walk_taint tc sp (Spanned (Match e arms) s) =
     walk_taint tc sp e @ concat (map (\<lambda>a. case a of MatchArm p b \<Rightarrow> walk_taint tc sp b) arms)"
| "walk_taint tc sp (Spanned (LetE x v b) s) = walk_taint tc sp v @ walk_taint tc sp b"
| "walk_taint tc sp (Spanned (TupleE es) s) = concat (map (walk_taint tc sp) es)"
| "walk_taint tc sp (Spanned (Ident n) s) = []"
| "walk_taint tc sp (Spanned (Literal l) s) = []"
| "walk_taint tc sp (Spanned (Raw ts) s) = []"

definition check_taint_expr :: "taint_checker \<Rightarrow> sp_expr \<Rightarrow> span \<Rightarrow> type_error list" where
  "check_taint_expr tc e sp = walk_taint tc sp e"

text \<open>The positions of a node that demand a label, as a specification of the walk.\<close>

definition sensitive :: "taint_checker \<Rightarrow> expr \<Rightarrow> (taint_label \<times> sp_expr) set" where
  "sensitive tc x =
     (case x of
        Index e i \<Rightarrow> {(Validated, i)}
      | Call f args \<Rightarrow>
          (case callee f of
             Some n \<Rightarrow>
               (if is_alloc_function n then {(Validated, a) |a. a \<in> set args} else {}) \<union>
               {(required, args ! i) |i required ls. i < length args \<and>
                  hm_get (tc_sinks tc) n = Some ls \<and> list_get ls i = Some (Some required)}
           | None \<Rightarrow> {})
      | _ \<Rightarrow> {})"

lemma walk_taint_parts: "walk_taint tc sp (Spanned x s) = [] \<Longrightarrow> c \<in> set (walk_children x) \<Longrightarrow> walk_taint tc sp c = []"
  by (cases x) (auto simp: concat_map_Nil case_arm split: option.splits)

lemma walk_taint_sensitive:
  assumes "walk_taint tc sp (Spanned x s) = []" and "(required, e) \<in> sensitive tc x"
  shows "required \<le> infer_taint tc e"
proof (cases x)
  case (Index b i)
  with assms show ?thesis by (auto simp: sensitive_def index_errors_def split: if_splits)
next
  case (Call f args)
  with assms(2) obtain n where n: "callee f = Some n"
    by (auto simp: sensitive_def split: option.splits)
  with Call assms(1) have alloc: "alloc_errors tc sp n args = []" and sink: "sink_errors tc sp n args = []"
    by auto
  from assms(2) Call n consider "is_alloc_function n" "required = Validated" "e \<in> set args"
    | i ls where "i < length args" "e = args ! i" "hm_get (tc_sinks tc) n = Some ls" "list_get ls i = Some (Some required)"
    by (auto simp: sensitive_def split: if_splits)
  then show ?thesis
  proof cases
    case 1
    with alloc show ?thesis by (auto simp: alloc_errors_def concat_map_Nil simp del: concat_eq_Nil_conv split: if_splits)
  next
    case 2
    then have "(i, args ! i) \<in> set (zip [0..<length args] args)"
      by (simp add: set_zip) (metis add_0 nth_upt)
    with sink 2(3) have "sink_arg_errors tc sp n ls (i, args ! i) = []"
      by (simp add: sink_errors_def concat_map_Nil del: concat_eq_Nil_conv)
    with 2 show ?thesis by (auto simp: sink_arg_errors_def split: if_splits)
  qed
qed (use assms(2) in \<open>auto simp: sensitive_def\<close>)

section \<open>The check of a file\<close>

definition is_fn_or_extern :: "decl \<Rightarrow> bool" where
  "is_fn_or_extern d \<longleftrightarrow> (case d of FnDef f \<Rightarrow> True | Extern x \<Rightarrow> True | _ \<Rightarrow> False)"

definition param_labels :: "decl \<Rightarrow> taint_label option list" where
  "param_labels d = map (\<lambda>p. extract_taint_label (p_ty p)) (decl_params d)"

text \<open>The first pass: validators and sinks, and whether there is any annotation.\<close>

definition discover_decl :: "decl \<Rightarrow> taint_checker \<times> bool \<Rightarrow> taint_checker \<times> bool" where
  "discover_decl d st =
     (if \<not> is_fn_or_extern d then st
      else
        (let name = unwrap_or (decl_name d) [];
             validates = (case decl_return_ty d of
               Some t \<Rightarrow> extract_taint_label_from_tokens (to_tokens t) = Some Validated | None \<Rightarrow> False);
             ls = param_labels d;
             guarded = list_ex (\<lambda>l. l = Some Validated \<or> l = Some Trusted) ls;
             tc1 = (if validates then register_validator name (fst st) else fst st);
             tc2 = (if guarded then register_trusted_sink name ls tc1 else tc1)
         in (tc2, snd st \<or> validates \<or> guarded \<or> list_ex (\<lambda>l. l \<noteq> None) ls)))"

definition discover :: "source_file \<Rightarrow> taint_checker \<times> bool" where
  "discover sf = fold (discover_decl \<circ> sd_node) (sf_decls sf) (taint_new, False)"

definition declare_param_taint :: "param \<Rightarrow> taint_checker \<Rightarrow> taint_checker" where
  "declare_param_taint p tc =
     (case extract_taint_label (p_ty p) of Some l \<Rightarrow> declare_taint (p_name p) l tc | None \<Rightarrow> tc)"

definition clause_taint_errors :: "taint_checker \<Rightarrow> span \<Rightarrow> clause list \<Rightarrow> type_error list" where
  "clause_taint_errors tc sp cs = concat (map (\<lambda>c. check_taint_expr tc (cl_body c) sp) cs)"

definition taint_errors_of_decl :: "taint_checker \<Rightarrow> spanned_decl \<Rightarrow> type_error list" where
  "taint_errors_of_decl tc sd =
     (let d = sd_node sd; sp = sd_span sd;
          fn_errors = (let fc = fold declare_param_taint (decl_params d) tc
                       in if has_taint_info fc then clause_taint_errors fc sp (decl_clauses d) else [])
      in case d of
           FnDef f \<Rightarrow> fn_errors
         | Extern x \<Rightarrow> fn_errors
         | Bind b \<Rightarrow> fn_errors
         | Contract ct \<Rightarrow> if has_taint_info tc then clause_taint_errors tc sp (ct_clauses ct) else []
         | Service sv \<Rightarrow> concat (map (\<lambda>it. case it of
               SvOperation n cs \<Rightarrow> clause_taint_errors tc sp cs
             | SvQuery n cs \<Rightarrow> clause_taint_errors tc sp cs
             | _ \<Rightarrow> []) (sv_items sv))
         | Block k n v cs \<Rightarrow> clause_taint_errors tc sp cs
         | _ \<Rightarrow> [])"

definition check_taint_file :: "source_file \<Rightarrow> type_error list" where
  "check_taint_file sf =
     (let (tc, annotated) = discover sf
      in if \<not> annotated then [] else concat (map (taint_errors_of_decl tc) (sf_decls sf)))"

definition decl_taint_checker :: "source_file \<Rightarrow> decl \<Rightarrow> taint_checker" where
  "decl_taint_checker sf d = fold declare_param_taint (decl_params d) (fst (discover sf))"

section \<open>What an accepted function says\<close>

lemma discover_labels: "tc_labels (fst (fold (discover_decl \<circ> sd_node) ds st)) = tc_labels (fst st)"
  by (induction ds arbitrary: st)
    (simp_all add: discover_decl_def Let_def register_validator_def register_trusted_sink_def)

lemma discover_annotated:
  "snd st \<Longrightarrow> snd (fold (discover_decl \<circ> sd_node) ds st)"
  "sd \<in> set ds \<Longrightarrow> is_fn_or_extern (sd_node sd) \<Longrightarrow> l \<in> set (param_labels (sd_node sd)) \<Longrightarrow> l \<noteq> None \<Longrightarrow>
   snd (fold (discover_decl \<circ> sd_node) ds st)"
proof (induction ds arbitrary: st)
  case Nil
  { case 1 then show ?case by simp next case 2 then show ?case by simp }
next
  case (Cons d ds)
  { case 1
    then have "snd (discover_decl (sd_node d) st)" by (simp add: discover_decl_def Let_def)
    with Cons.IH(1) show ?case by simp
  next
    case 2
    show ?case
    proof (cases "sd = d")
      case True
      with 2 have "list_ex (\<lambda>l. l \<noteq> None) (param_labels (sd_node d))" by (auto simp: list_ex_iff)
      with 2 True have "snd (discover_decl (sd_node d) st)" by (simp add: discover_decl_def Let_def)
      with Cons.IH(1) show ?thesis by simp
    next
      case False
      with 2 Cons.IH(2) show ?thesis by simp
    qed }
qed

lemma unlabelled_params:
  "(\<And>p. p \<in> set ps \<Longrightarrow> extract_taint_label (p_ty p) = None) \<Longrightarrow> fold declare_param_taint ps tc = tc"
  by (induction ps) (simp_all add: declare_param_taint_def)

lemma no_taint_trusted: "\<not> has_taint_info tc \<Longrightarrow> taint_of tc x = Trusted"
  by (simp add: has_taint_info_def taint_of_def hm_len_def hm_get_def)

text \<open>A declaration of an accepted file is free of errors, or nothing in it is labelled.\<close>

lemma accepted_decl:
  assumes "check_taint_file sf = []" and "sd \<in> set (sf_decls sf)" and "is_fn_or_extern (sd_node sd)"
    and "c \<in> set (decl_clauses (sd_node sd))"
  shows "walk_taint (decl_taint_checker sf (sd_node sd)) (sd_span sd) (cl_body c) = [] \<or>
    (\<forall>x. taint_of (decl_taint_checker sf (sd_node sd)) x = Trusted)"
proof (cases "has_taint_info (decl_taint_checker sf (sd_node sd))")
  case False
  then show ?thesis by (simp add: no_taint_trusted)
next
  case info: True
  have annotated: "snd (discover sf)"
  proof (rule ccontr)
    assume no: "\<not> snd (discover sf)"
    have "extract_taint_label (p_ty p) = None" if "p \<in> set (decl_params (sd_node sd))" for p
    proof (rule ccontr)
      assume "extract_taint_label (p_ty p) \<noteq> None"
      with that discover_annotated(2) [OF assms(2,3)] no show False
        by (force simp: param_labels_def discover_def)
    qed
    with info show False
      by (simp add: decl_taint_checker_def unlabelled_params has_taint_info_def discover_def discover_labels
        taint_new_def hm_len_def hm_empty_def)
  qed
  with assms(1,2) have "taint_errors_of_decl (fst (discover sf)) sd = []"
    by (simp add: check_taint_file_def split_beta concat_map_Nil del: concat_eq_Nil_conv)
  with info assms(3,4) show ?thesis
    by (cases "sd_node sd")
      (auto simp: taint_errors_of_decl_def is_fn_or_extern_def decl_taint_checker_def clause_taint_errors_def
        check_taint_expr_def Let_def)
qed

text \<open>C13: Where taint tracking accepts a file, no array index, allocation size or guarded argument of a
  sink in a clause without binders depends on untrusted data: whatever the operators mean, two runs that
  agree on everything but the untrusted parameters compute the same value there, where validation
  functions are taken to hide their arguments.  This is for expressions that read only what the
  inference looks at, which is no ghost code, no raw text and no called expression but a name
  (\<open>ghost_index_accepted\<close>).\<close>

theorem accepted_positions_untainted:
  assumes "check_taint_file sf = []" and "sd \<in> set (sf_decls sf)" and "is_fn_or_extern (sd_node sd)"
    and "c \<in> set (decl_clauses (sd_node sd))"
    and "binders (cl_body c) = []"
    and "agree {x. taint_of (decl_taint_checker sf (sd_node sd)) x \<noteq> Untrusted} st tt"
    and "side_by_side A st tt (cl_body c) st' tt' (Spanned x s)"
    and "(required, e) \<in> sensitive (decl_taint_checker sf (sd_node sd)) x" and "required \<noteq> Untrusted"
    and "hides_arguments A (tc_validators (decl_taint_checker sf (sd_node sd)))"
    and "set (inputs (tc_validators (decl_taint_checker sf (sd_node sd))) e) \<subseteq>
         set (tainted_reads (tc_validators (decl_taint_checker sf (sd_node sd))) e)"
  shows "denote A st' e = denote A tt' e"
proof -
  let ?tc = "decl_taint_checker sf (sd_node sd)"
  have "\<forall>y \<in> set (inputs (tc_validators ?tc) e). taint_of ?tc y \<noteq> Untrusted"
    using accepted_decl [OF assms(1-4)]
  proof
    assume "walk_taint ?tc (sd_span sd) (cl_body c) = []"
    from side_by_side_parts [OF assms(7), of "\<lambda>e. walk_taint ?tc (sd_span sd) e = []"] this walk_taint_parts
    have "walk_taint ?tc (sd_span sd) (Spanned x s) = []" by blast
    from walk_taint_sensitive [OF this assms(8)] have "Validated \<le> infer_taint ?tc e"
      using assms(9) by (metis order_trans trust_ord(3))
    with infer_taint_reads assms(11) show ?thesis by (metis subsetD trust_ord(3))
  qed simp
  then have "set (inputs (tc_validators ?tc) e) \<subseteq> {y. taint_of ?tc y \<noteq> Untrusted}" by blast
  moreover have "agree {y. taint_of ?tc y \<noteq> Untrusted} st' tt'"
    using side_by_side_agree [OF assms(7,5,6)] .
  ultimately show ?thesis using denote_agree [OF assms(10)] agree_subset by metis
qed

text \<open>A function with a validated and an untrusted parameter.\<close>

definition table_lookup :: sp_expr where
  "table_lookup = no_span (BinOp (var ''i'') Add (no_span (Call (var ''validate'') [var ''u''])))"

definition table_clause :: clause where
  "table_clause = \<lparr>cl_kind = Ensures, cl_body = no_span (Index (var ''t'') table_lookup), cl_effect_variables = []\<rparr>"

definition table_fn :: fn_def where
  "table_fn = \<lparr>fn_name = ''f'', fn_is_ghost = False, fn_is_lemma = False,
     fn_params = [\<lparr>p_name = ''i'', p_ty = Some (TNamed ''Nat @ validated'')\<rparr>,
       \<lparr>p_name = ''u'', p_ty = Some (TNamed ''Nat @ taint : untrusted'')\<rparr>],
     fn_return_ty = None, fn_clauses = [table_clause]\<rparr>"

definition one_decl :: "decl \<Rightarrow> source_file" where
  "one_decl d = \<lparr>sf_project = None, sf_module = None, sf_imports = [], sf_decls = [\<lparr>sd_node = d, sd_span = (0, 1)\<rparr>]\<rparr>"

definition user_store :: "int \<Rightarrow> int stores" where
  "user_store k = same_store (\<lambda>x. if x = ''u'' then k else 1)"

lemma table_params:
  "extract_taint_label (Some (TNamed ''Nat @ validated'')) = Some Validated"
  "extract_taint_label (Some (TNamed ''Nat @ taint : untrusted'')) = Some Untrusted"
  by code_simp+

lemma table_fn_facts:
  "check_taint_file (one_decl (FnDef table_fn)) = []"
  "\<lparr>sd_node = FnDef table_fn, sd_span = (0, 1)\<rparr> \<in> set (sf_decls (one_decl (FnDef table_fn)))"
  "decl_taint_checker (one_decl (FnDef table_fn)) (FnDef table_fn) =
     \<lparr>tc_labels = [(''i'', Validated), (''u'', Untrusted)], tc_validators = {''validate'', ''sanitize''},
      tc_sinks = [(''f'', [Some Validated, Some Untrusted])]\<rparr>"
  by (simp_all add: check_taint_file_def one_decl_def discover_def discover_decl_def is_fn_or_extern_def table_fn_def table_clause_def
    param_labels_def table_params Let_def taint_new_def register_trusted_sink_def hm_defs taint_errors_of_decl_def
    declare_param_taint_def declare_taint_def has_taint_info_def clause_taint_errors_def check_taint_expr_def
    table_lookup_def no_span_def var_def callee_def index_errors_def taint_of_def alloc_errors_def
    is_alloc_function_def sink_errors_def min_def less_eq_taint_label_def decl_taint_checker_def)

lemma table_clause_facts:
  "is_fn_or_extern (FnDef table_fn)" "table_clause \<in> set (decl_clauses (FnDef table_fn))"
  "binders (cl_body table_clause) = []"
  by (simp_all add: is_fn_or_extern_def table_fn_def table_clause_def table_lookup_def binders_def no_span_def var_def)

lemma table_position:
  "side_by_side A st tt (cl_body table_clause) st tt (Spanned (Index (var ''t'') table_lookup) (0, 0))"
  by (simp add: table_clause_def no_span_def side_by_side.here)

lemma accepted_positions_untainted_witness:
  "check_taint_file (one_decl (FnDef table_fn)) = [] \<and>
   denote int_reading (user_store 5) table_lookup = denote int_reading (user_store 9) table_lookup"
proof
  show "denote int_reading (user_store 5) table_lookup = denote int_reading (user_store 9) table_lookup"
    by (rule accepted_positions_untainted [OF table_fn_facts(1,2) _ _ _ _ table_position, where required = Validated])
      (auto simp: table_fn_facts table_clause_facts table_clause_facts(2) [simplified] table_lookup_def no_span_def var_def agree_def user_store_def
        same_store_def taint_of_def hm_defs sensitive_def hides_arguments_def int_reading_def callee_def)
qed (rule table_fn_facts(1))

section \<open>Where the check says less\<close>

text \<open>
  The parser of type tokens drops everything from \<open>@\<close> on, so no type it builds carries the label that
  was written.
\<close>

lemma annotation_is_dropped:
  assumes "''@'' \<notin> set base" and "base \<noteq> []"
  shows "try_parse_type_tokens (base @ ''@'' # label) = try_parse_type_tokens base"
proof -
  have "token_pos ''@'' (base @ ''@'' # label) = Some (length base)"
    using assms(1) unfolding token_pos_def by (induction base) auto
  moreover have "base @ ''@'' # label \<noteq> [''('', '')'']"
    using assms(2) by (cases base; cases "tl base") auto
  ultimately show ?thesis
    using assms(2) by (subst try_parse_type_tokens.simps) (auto simp: neq_Nil_conv)
qed

lemma parsed_parameter_unlabelled:
  "extract_taint_label (try_parse_type_tokens [''Nat'', ''@'', ''taint'', '':'', ''untrusted'']) = None"
  using annotation_is_dropped [of "[''Nat'']" "[''taint'', '':'', ''untrusted'']"]
  by (simp add: try_parse_type_tokens.simps extract_taint_label_def extract_taint_label_from_tokens_def)

text \<open>Labels belong to the parameters of functions, so the clauses of a contract are never checked.\<close>

lemma contracts_not_checked:
  assumes "sd_node sd = Contract ct"
  shows "taint_errors_of_decl (fst (discover sf)) sd = []"
proof -
  have "tc_labels (fst (discover sf)) = []"
    by (simp add: discover_def discover_labels taint_new_def hm_empty_def)
  with assms show ?thesis by (simp add: taint_errors_of_decl_def has_taint_info_def hm_len_def)
qed

text \<open>Ghost code is trusted in every position.\<close>

lemma ghost_index_accepted:
  "check_taint_expr (declare_taint ''u'' Untrusted taint_new)
     (no_span (Index (var ''t'') (no_span (Ghost (var ''u''))))) sp = []"
  by (simp add: check_taint_expr_def declare_taint_def taint_new_def no_span_def var_def index_errors_def
      taint_of_def hm_defs)

text \<open>A name bound by \<open>let\<close> or a quantifier is trusted, whatever it is bound to.\<close>

lemma let_hides_taint:
  "check_taint_expr (declare_taint ''u'' Untrusted taint_new)
     (no_span (LetE ''j'' (var ''u'') (no_span (Index (var ''t'') (var ''j''))))) sp = []"
  "check_taint_expr (declare_taint ''u'' Untrusted taint_new) (no_span (Index (var ''t'') (var ''u''))) sp \<noteq> []"
  by (simp_all add: check_taint_expr_def declare_taint_def taint_new_def no_span_def var_def index_errors_def
      taint_of_def hm_defs)

text \<open>A file whose only labels are on the parameters of bindings is skipped.\<close>

lemma binding_only_file_skipped: "check_taint_file (one_decl (Bind b)) = []"
  by (simp add: check_taint_file_def one_decl_def discover_def discover_decl_def is_fn_or_extern_def)

end
