(* ===== verification/Effects.thy ===== *)
theory Effects
  imports Checker_Base "HOL-Library.List_Lexorder" "HOL-Library.Char_ord" "HOL-Library.Product_Lexorder"
begin

text \<open>
  Effects, \<open>crates/assura-types/src/checkers/effects.rs\<close> and \<open>ghost_effects.rs\<close>: effect sets and their hierarchy, the effects
  read off clauses, those of callees, and the check of a file.  A \<open>HashSet\<close> is a list in its
  iteration order; every error list is sorted.  Effect names are ASCII.
\<close>

section \<open>Effect sets\<close>

type_synonym effect_set = "string list"

definition eff_insert :: "string \<Rightarrow> effect_set \<Rightarrow> effect_set" where
  "eff_insert e es = (if e = ''pure'' then es else List.insert e es)"

definition from_effect_names :: "string list \<Rightarrow> effect_set" where
  "from_effect_names ns = fold eff_insert ns []"

definition is_pure :: "effect_set \<Rightarrow> bool" where
  "is_pure es \<longleftrightarrow> es = []"

definition effect_set_display :: "effect_set \<Rightarrow> string" where
  "effect_set_display es = (if is_pure es then ''pure'' else ''{'' @ join '', '' (sort es) @ ''}'')"

lemma set_eff_insert: "set (eff_insert e es) = set es \<union> ({e} - {''pure''})"
  by (auto simp: eff_insert_def)

lemma set_fold_eff_insert: "set (fold eff_insert ns es) = set es \<union> (set ns - {''pure''})"
  by (induction ns arbitrary: es) (auto simp: set_eff_insert)

section \<open>The hierarchy\<close>

definition known_effects :: "string list" where
  "known_effects =
     [''io'', ''database'', ''logging'', ''console.read'', ''console.write'', ''filesystem.read'',
      ''filesystem.write'', ''network.connect'', ''network.send'', ''network.receive'', ''time.read'',
      ''random'', ''database.read'', ''database.write'', ''log.debug'', ''log.info'', ''log.warn'',
      ''log.error'', ''diverge'', ''mem'', ''net'', ''fs'', ''rng'', ''time'', ''alloc'']"

definition effect_hierarchy :: "(string, string list) hmap" where
  "effect_hierarchy =
     [(''io'', [''console.read'', ''console.write'', ''filesystem.read'', ''filesystem.write'',
         ''network.connect'', ''network.send'', ''network.receive'', ''time.read'', ''random'',
         ''net'', ''fs'', ''rng'', ''time'']),
      (''database'', [''database.read'', ''database.write'']),
      (''logging'', [''log.debug'', ''log.info'', ''log.warn'', ''log.error'']),
      (''net'', [''network.connect'', ''network.send'', ''network.receive'']),
      (''fs'', [''filesystem.read'', ''filesystem.write''])]"

definition sub_effects :: "string \<Rightarrow> string list" where
  "sub_effects e = unwrap_or (hm_get effect_hierarchy e) []"

definition expand :: "effect_set \<Rightarrow> effect_set" where
  "expand declared = fold (\<lambda>e es. fold eff_insert (sub_effects e) es) declared declared"

definition is_allowed :: "string \<Rightarrow> effect_set \<Rightarrow> bool" where
  "is_allowed e expanded \<longleftrightarrow> e \<in> set expanded \<or> list_ex (\<lambda>g. e \<in> set (sub_effects g)) expanded"

definition is_known :: "string \<Rightarrow> bool" where
  "is_known e \<longleftrightarrow> e \<in> set known_effects"

definition is_sub_effect_of_known :: "string \<Rightarrow> bool" where
  "is_sub_effect_of_known e \<longleftrightarrow>
     (CHR ''.'' \<in> set e \<and>
      (let parent = takeWhile (\<lambda>c. c \<noteq> CHR ''.'') e
       in parent \<in> set known_effects \<or> hm_contains_key effect_hierarchy parent))"

definition is_block_kind_keyword :: "string \<Rightarrow> bool" where
  "is_block_kind_keyword n \<longleftrightarrow>
     n \<in> {''incremental'', ''feature'', ''liveness'', ''axiomatic'', ''axiom'', ''lemma'', ''ghost'', ''opaque'',
          ''test'', ''property'', ''complexity'', ''benchmark'', ''migration''}"

definition starts_uppercase :: "string \<Rightarrow> bool" where
  "starts_uppercase s \<longleftrightarrow> (case s of [] \<Rightarrow> False | c # _ \<Rightarrow> 65 \<le> (of_char c :: nat) \<and> (of_char c :: nat) \<le> 90)"

section \<open>Checks\<close>

definition effect_error :: "string \<Rightarrow> string \<Rightarrow> span \<Rightarrow> checker_error" where
  "effect_error code msg sp = \<lparr>ck_code = code, ck_message = msg, ck_span = sp\<rparr>"

definition check_containment :: "effect_set \<Rightarrow> effect_set \<Rightarrow> span \<Rightarrow> checker_error list" where
  "check_containment declared actual sp =
     (let expanded = expand declared
      in sort_key (\<lambda>e. (ck_code e, ck_message e))
        (map (\<lambda>e. if is_pure declared
            then effect_error ''A07002'' (''pure function performs effect '' @ quoted e @
              '': side effects are not allowed in a pure context'') sp
            else effect_error ''A07001'' (''undeclared effect '' @ quoted e @
              '': effect not in function's declared effect set '' @ effect_set_display declared @ '' ('' @
              dec (length declared) @ '' declared)'') sp)
          (filter (\<lambda>e. \<not> is_allowed e expanded) actual)))"

definition check_known :: "effect_set \<Rightarrow> span \<Rightarrow> checker_error list" where
  "check_known es sp =
     sort_key ck_message
       (map (\<lambda>e. effect_error ''A07003'' (''unknown effect name '' @ quoted e) sp)
         (filter (\<lambda>e. \<not> starts_uppercase e \<and> \<not> is_block_kind_keyword e \<and> \<not> is_known e \<and>
            \<not> is_sub_effect_of_known e) es))"

definition check_must_not :: "effect_set \<Rightarrow> effect_set \<Rightarrow> span \<Rightarrow> checker_error list" where
  "check_must_not used forbidden sp =
     map (\<lambda>e. effect_error ''A07003'' (''effect '' @ quoted e @ '' is in the must-not list'') sp)
       (remdups_adj (sort (filter (\<lambda>e. e \<in> set (expand forbidden)) (expand used))))"

definition type_error_from_must_not :: "checker_error \<Rightarrow> type_error" where
  "type_error_from_must_not e = (type_error_of_checker_error e)
     \<lparr>te_suggestion := Some ''Remove the effect from `effects`, or drop it from `must-not`.''\<rparr>"

section \<open>Effects of clauses\<close>

definition name_token :: "string list \<times> string \<Rightarrow> string \<Rightarrow> string list \<times> string" where
  "name_token st tok =
     (let (names, current) = st
      in if tok = ''.'' then (names, current @ ''.'')
         else if suffix ''.'' current then (names, current @ tok)
         else (if current \<noteq> [] then names @ [current] else names, tok))"

definition raw_effect_names :: "string list \<Rightarrow> string list" where
  "raw_effect_names tokens =
     (let (names, current) = foldl name_token ([], [])
            (filter (\<lambda>t. t \<notin> {'','', ''{'', ''}'', ''<'', ''>'', ''|''}) tokens)
      in if current \<noteq> [] then names @ [current] else names)"

fun extract_effect_names_from_expr :: "sp_expr \<Rightarrow> string list" where
  "extract_effect_names_from_expr (Spanned (Ident n) s) = [n]"
| "extract_effect_names_from_expr (Spanned (Raw ts) s) = raw_effect_names ts"
| "extract_effect_names_from_expr (Spanned (BlockE items) s) = concat (map extract_effect_names_from_expr items)"
| "extract_effect_names_from_expr (Spanned (Field base f) s) =
     (let ns = extract_effect_names_from_expr base
      in if ns = [] then [f] else butlast ns @ [last ns @ ''.'' @ f])"
| "extract_effect_names_from_expr _ = []"

definition io_prefixes :: "string list" where
  "io_prefixes = [''console'', ''file'', ''stdin'', ''stdout'', ''stderr'', ''network'', ''socket'', ''http'',
     ''tcp'', ''udp'', ''process'', ''env'', ''time'', ''random'', ''rand'', ''print'', ''read_line'',
     ''write_file'', ''read_file'', ''open'', ''close'', ''flush'', ''seek'']"

definition io_methods :: "string list" where
  "io_methods = [''read'', ''write'', ''flush'', ''close'', ''open'', ''seek'', ''send'', ''recv'', ''connect'',
     ''listen'', ''accept'', ''print'', ''println'', ''read_line'']"

definition name_effects :: "string \<Rightarrow> effect_set \<Rightarrow> effect_set" where
  "name_effects n es =
     (if list_ex (\<lambda>p. prefix p n) io_prefixes then eff_insert ''io'' es
      else
        (let es1 = (if list_ex (\<lambda>p. prefix p n)
               [''alloc'', ''dealloc'', ''malloc'', ''free'', ''realloc'', ''resize'']
             then eff_insert ''mem'' es else es)
         in if n \<in> {''panic'', ''abort'', ''unreachable'', ''exit'', ''todo''} then eff_insert ''panic'' es1 else es1))"

fun infer_effects_from_expr :: "sp_expr \<Rightarrow> effect_set \<Rightarrow> effect_set" where
  "infer_effects_from_expr (Spanned (Ident n) s) es = name_effects n es"
| "infer_effects_from_expr (Spanned (Field base f) s) es =
     infer_effects_from_expr base (if f \<in> set io_methods then eff_insert ''io'' es else es)"
| "infer_effects_from_expr (Spanned (Call f args) s) es =
     fold infer_effects_from_expr args (infer_effects_from_expr f es)"
| "infer_effects_from_expr (Spanned (MethodCall r m args) s) es =
     fold infer_effects_from_expr args
       (infer_effects_from_expr r (if m \<in> set io_methods then eff_insert ''io'' es else es))"
| "infer_effects_from_expr (Spanned (BinOp l op r) s) es = infer_effects_from_expr r (infer_effects_from_expr l es)"
| "infer_effects_from_expr (Spanned (UnaryOp op e) s) es = infer_effects_from_expr e es"
| "infer_effects_from_expr (Spanned (Old e) s) es = infer_effects_from_expr e es"
| "infer_effects_from_expr (Spanned (IfE c t e) s) es =
     (let es1 = infer_effects_from_expr t (infer_effects_from_expr c es)
      in case e of Some x \<Rightarrow> infer_effects_from_expr x es1 | None \<Rightarrow> es1)"
| "infer_effects_from_expr (Spanned (BlockE items) s) es = fold infer_effects_from_expr items es"
| "infer_effects_from_expr (Spanned (ListE items) s) es = fold infer_effects_from_expr items es"
| "infer_effects_from_expr _ es = es"

definition declared_effects :: "clause list \<Rightarrow> effect_set option" where
  "declared_effects cs =
     fold (\<lambda>c d. if cl_kind c = Effects then Some (from_effect_names (extract_effect_names_from_expr (cl_body c))) else d)
       cs None"

definition extract_effects_from_clauses :: "clause list \<Rightarrow> effect_set option \<times> effect_set option" where
  "extract_effects_from_clauses cs =
     (let inferred = fold (\<lambda>c es. if cl_kind c \<in> {Requires, Ensures, Modifies}
            then infer_effects_from_expr (cl_body c) es else es) cs []
      in (declared_effects cs, if is_pure inferred then None else Some inferred))"

definition extract_must_not_from_clauses :: "clause list \<Rightarrow> effect_set option" where
  "extract_must_not_from_clauses cs =
     (let names = concat (map (\<lambda>c. if cl_kind c = MustNot then extract_effect_names_from_expr (cl_body c) else []) cs)
      in if names = [] then None else Some (from_effect_names names))"

section \<open>Effects of callees\<close>

definition extract_call_name :: "sp_expr \<Rightarrow> string option" where
  "extract_call_name f = (case node f of Ident n \<Rightarrow> Some n | Field e n \<Rightarrow> Some n | _ \<Rightarrow> None)"

type_synonym effect_map = "(string, effect_set) hmap"

definition callee_effects :: "effect_map \<Rightarrow> string option \<Rightarrow> effect_set \<Rightarrow> effect_set" where
  "callee_effects m n es =
     (case n of
        Some name \<Rightarrow> (case hm_get m name of Some ce \<Rightarrow> fold eff_insert ce es | None \<Rightarrow> es)
      | None \<Rightarrow> es)"

fun collect_call_effects :: "effect_map \<Rightarrow> sp_expr \<Rightarrow> effect_set \<Rightarrow> effect_set" where
  "collect_call_effects m (Spanned (Call f args) s) es =
     fold (collect_call_effects m) args (callee_effects m (extract_call_name f) es)"
| "collect_call_effects m (Spanned (MethodCall r meth args) s) es =
     fold (collect_call_effects m) args (collect_call_effects m r (callee_effects m (Some meth) es))"
| "collect_call_effects m (Spanned (BinOp l op r) s) es = collect_call_effects m r (collect_call_effects m l es)"
| "collect_call_effects m (Spanned (UnaryOp op e) s) es = collect_call_effects m e es"
| "collect_call_effects m (Spanned (IfE c t e) s) es =
     (let es1 = collect_call_effects m t (collect_call_effects m c es)
      in case e of Some x \<Rightarrow> collect_call_effects m x es1 | None \<Rightarrow> es1)"
| "collect_call_effects m (Spanned (BlockE items) s) es = fold (collect_call_effects m) items es"
| "collect_call_effects m (Spanned (ListE items) s) es = fold (collect_call_effects m) items es"
| "collect_call_effects m (Spanned (TupleE items) s) es = fold (collect_call_effects m) items es"
| "collect_call_effects m (Spanned (Forall x d b) s) es = collect_call_effects m d (collect_call_effects m b es)"
| "collect_call_effects m (Spanned (Exists x d b) s) es = collect_call_effects m d (collect_call_effects m b es)"
| "collect_call_effects m (Spanned (Old e) s) es = collect_call_effects m e es"
| "collect_call_effects m (Spanned (Ghost e) s) es = collect_call_effects m e es"
| "collect_call_effects m (Spanned (Field e f) s) es = collect_call_effects m e es"
| "collect_call_effects m (Spanned (Cast e ty) s) es = collect_call_effects m e es"
| "collect_call_effects m (Spanned (Index e i) s) es = collect_call_effects m i (collect_call_effects m e es)"
| "collect_call_effects m (Spanned (ApplyE n args) s) es = fold (collect_call_effects m) args es"
| "collect_call_effects m (Spanned (LetE x v b) s) es = collect_call_effects m b (collect_call_effects m v es)"
| "collect_call_effects m (Spanned (Match e arms) s) es =
     fold (\<lambda>a. case a of MatchArm p b \<Rightarrow> collect_call_effects m b) arms (collect_call_effects m e es)"
| "collect_call_effects m (Spanned (Ident n) s) es = es"
| "collect_call_effects m (Spanned (Literal l) s) es = es"
| "collect_call_effects m (Spanned (Raw ts) s) es = es"

definition infer_callee_effects :: "clause list \<Rightarrow> effect_map \<Rightarrow> effect_set" where
  "infer_callee_effects cs m =
     fold (\<lambda>c es. if cl_kind c \<in> {Requires, Ensures, Modifies, Invariant, Rule}
       then collect_call_effects m (cl_body c) es else es) cs []"

definition declare_effects :: "string option \<Rightarrow> clause list \<Rightarrow> effect_map \<Rightarrow> effect_map" where
  "declare_effects name cs m =
     (case (fst (extract_effects_from_clauses cs), name) of
        (Some d, Some n) \<Rightarrow> hm_insert n (expand d) m
      | _ \<Rightarrow> m)"

definition map_decl :: "decl \<Rightarrow> effect_map \<Rightarrow> effect_map" where
  "map_decl d m =
     (case clauses_contract_fn_extern d of
        Some cs \<Rightarrow> declare_effects (decl_name d) cs m
      | None \<Rightarrow>
          (case d of
             Service s \<Rightarrow> fold (\<lambda>it m. case it of SvOperation n cs \<Rightarrow> declare_effects (Some n) cs m | _ \<Rightarrow> m) (sv_items s) m
           | _ \<Rightarrow> m))"

definition build_effect_map_from :: "source_file \<Rightarrow> effect_map" where
  "build_effect_map_from sf = fold (map_decl \<circ> sd_node) (sf_decls sf) hm_empty"

section \<open>The check of a file\<close>

definition fn_effect_errors ::
  "effect_map \<Rightarrow> clause list \<Rightarrow> effect_set \<Rightarrow> effect_set option \<Rightarrow> effect_set option \<Rightarrow> span \<Rightarrow> type_error list" where
  "fn_effect_errors m cs declared actual must_not sp =
     (let callees = infer_callee_effects cs m;
          of_actual = (\<lambda>f. case actual of Some a \<Rightarrow> f a | None \<Rightarrow> [])
      in map type_error_of_checker_error
           (of_actual (\<lambda>a. check_containment declared a sp) @ check_containment declared callees sp) @
         (case must_not of
            Some forbidden \<Rightarrow> map type_error_from_must_not
              (check_must_not declared forbidden sp @ of_actual (\<lambda>a. check_must_not a forbidden sp) @
               check_must_not callees forbidden sp)
          | None \<Rightarrow> []))"

definition effect_errors_of_decl :: "effect_map \<Rightarrow> spanned_decl \<Rightarrow> type_error list" where
  "effect_errors_of_decl m sd =
     (case clauses_contract_fn_extern (sd_node sd) of
        None \<Rightarrow> []
      | Some cs \<Rightarrow>
          (let (declared, actual) = extract_effects_from_clauses cs;
               must_not = extract_must_not_from_clauses cs; sp = sd_span sd
           in (case must_not of Some f \<Rightarrow> map type_error_of_checker_error (check_known f sp) | None \<Rightarrow> []) @
              (case declared of
                 None \<Rightarrow> []
               | Some d \<Rightarrow>
                   map type_error_of_checker_error (check_known d sp) @
                   (case sd_node sd of
                      FnDef f \<Rightarrow> fn_effect_errors m cs d actual must_not sp
                    | _ \<Rightarrow> (case must_not of
                              Some f \<Rightarrow> map type_error_from_must_not (check_must_not d f sp)
                            | None \<Rightarrow> [])))))"

definition check_effects :: "source_file \<Rightarrow> type_error list" where
  "check_effects sf = concat (map (effect_errors_of_decl (build_effect_map_from sf)) (sf_decls sf))"

section \<open>The policy of a project\<close>

text \<open>\<open>run_effect_checks_filtered\<close> of \<open>pipeline.rs\<close> adds the effects section of the configuration
  (\<open>crates/assura-config/src/lib.rs\<close>); its errors come in the iteration order of the declared set.\<close>

record effects_policy =
  pol_allowed :: "string list"
  pol_denied :: "string list"
  pol_default_effect :: string

definition policy_is_allowed :: "effects_policy \<Rightarrow> string \<Rightarrow> bool" where
  "policy_is_allowed pol e =
     (if e \<in> set (pol_denied pol) then False
      else if pol_allowed pol = [] then True
      else e \<in> set (pol_allowed pol))"

definition policy_errors_of_decl :: "effects_policy \<Rightarrow> spanned_decl \<Rightarrow> type_error list" where
  "policy_errors_of_decl pol sd =
     (case clauses_contract_fn_extern (sd_node sd) of
        None \<Rightarrow> []
      | Some cs \<Rightarrow>
          (case fst (extract_effects_from_clauses cs) of
             None \<Rightarrow> []
           | Some declared \<Rightarrow>
               map (\<lambda>e. type_error_at ''A07003''
                   (if e \<in> set (pol_denied pol) then ''effect '' @ quoted e @ '' is denied by project [effects] policy''
                    else ''effect '' @ quoted e @ '' is not on the project [effects] allowlist'') (sd_span sd))
                 (filter (\<lambda>e. \<not> starts_uppercase e \<and> \<not> policy_is_allowed pol e) declared)))"

definition run_effect_checks_filtered :: "effects_policy \<Rightarrow> source_file \<Rightarrow> type_error list" where
  "run_effect_checks_filtered pol sf =
     (if pol_allowed pol = [] \<and> pol_denied pol = [] then check_effects sf
      else check_effects sf @ concat (map (policy_errors_of_decl pol) (sf_decls sf)))"

section \<open>Ghost and lemma functions\<close>

text \<open>\<open>ghost_effects.rs\<close> reads the effects of ghost and lemma functions on its own, from their first effects clause.\<close>

fun extract_effect_names :: "sp_expr \<Rightarrow> string list" where
  "extract_effect_names (Spanned (Ident n) s) = [n]"
| "extract_effect_names (Spanned (Raw ts) s) = filter (\<lambda>t. t \<noteq> [] \<and> t \<noteq> '','') (map trim ts)"
| "extract_effect_names (Spanned (BlockE items) s) = concat (map extract_effect_names items)"
| "extract_effect_names _ = []"

definition extract_fn_effects :: "fn_def \<Rightarrow> string list option" where
  "extract_fn_effects f =
     map_option (\<lambda>c. extract_effect_names (cl_body c)) (find (\<lambda>c. cl_kind c = Effects) (fn_clauses f))"

definition impure_error :: "string \<Rightarrow> string \<Rightarrow> fn_def \<Rightarrow> string list \<Rightarrow> span \<Rightarrow> type_error" where
  "impure_error code which f effects sp = type_error_at code
     (which @ '' function '' @ quoted (fn_name f) @ '' has non-pure effects: '' @
      join '', '' (filter (\<lambda>e. e \<noteq> ''pure'') effects) @ ''; '' @ which @ '' functions must be pure (no side effects)'') sp"

definition check_lemma_fn_effects :: "fn_def \<Rightarrow> span \<Rightarrow> type_error list" where
  "check_lemma_fn_effects f sp =
     (case extract_fn_effects f of
        Some effects \<Rightarrow> if list_ex (\<lambda>e. e \<noteq> ''pure'') effects then [impure_error ''A55001'' ''lemma'' f effects sp] else []
      | None \<Rightarrow> [])"

definition check_ghost_fn_effects :: "fn_def \<Rightarrow> span \<Rightarrow> type_error list" where
  "check_ghost_fn_effects f sp =
     (case extract_fn_effects f of
        Some effects \<Rightarrow> if list_ex (\<lambda>e. e \<noteq> ''pure'') effects then [impure_error ''A54001'' ''ghost'' f effects sp] else []
      | None \<Rightarrow> [])"

lemma ghost_fn_pure_iff:
  "check_ghost_fn_effects f sp = [] \<longleftrightarrow> set (unwrap_or (extract_fn_effects f) []) \<subseteq> {''pure''}"
  by (auto simp: check_ghost_fn_effects_def list_ex_iff unwrap_or_def split: option.splits)

section \<open>What the checks decide\<close>

text \<open>The sub-effects of a sub-effect are sub-effects of the group, and none is \<open>pure\<close>.\<close>

lemma hierarchy_closed:
  "list_all (\<lambda>(g, cs). list_all (\<lambda>c. list_all (\<lambda>d. d \<in> set cs) (sub_effects c)) cs) effect_hierarchy"
  "list_all (\<lambda>(g, cs). ''pure'' \<notin> set cs) effect_hierarchy"
  by code_simp+

lemma sub_effects_member: "c \<in> set (sub_effects g) \<Longrightarrow> (g, sub_effects g) \<in> set effect_hierarchy"
  by (auto simp: sub_effects_def hm_get_def unwrap_or_def split: option.splits dest: map_of_SomeD)

lemma sub_effects_trans: "c \<in> set (sub_effects g) \<Longrightarrow> d \<in> set (sub_effects c) \<Longrightarrow> d \<in> set (sub_effects g)"
  using hierarchy_closed(1) sub_effects_member [of c g] by (fastforce simp: list_all_iff)

lemma sub_effects_not_pure: "''pure'' \<notin> set (sub_effects g)"
  using hierarchy_closed(2) sub_effects_member [of "''pure''" g] by (fastforce simp: list_all_iff)

lemma set_fold_expand:
  "set (fold (\<lambda>e es. fold eff_insert (sub_effects e) es) ns es) = set es \<union> (\<Union>e \<in> set ns. set (sub_effects e))"
  using sub_effects_not_pure by (induction ns arbitrary: es) (auto simp: set_fold_eff_insert)

lemma set_expand: "set (expand D) = set D \<union> (\<Union>e \<in> set D. set (sub_effects e))"
  by (simp add: expand_def set_fold_expand)

lemma is_allowed_expand: "is_allowed e (expand D) \<longleftrightarrow> e \<in> set (expand D)"
  using sub_effects_trans by (auto simp: is_allowed_def list_ex_iff set_expand)

lemma expand_closed: "set A \<subseteq> set (expand D) \<Longrightarrow> set (expand A) \<subseteq> set (expand D)"
  using sub_effects_trans by (auto simp: set_expand) blast+

lemma sort_key_Nil [simp]: "sort_key f xs = [] \<longleftrightarrow> xs = []"
  by (metis length_0_conv length_sort)

lemma containment_iff: "check_containment D A sp = [] \<longleftrightarrow> set A \<subseteq> set (expand D)"
  by (auto simp: check_containment_def Let_def is_allowed_expand filter_empty_conv)

lemma must_not_iff: "check_must_not U F sp = [] \<longleftrightarrow> set (expand U) \<inter> set (expand F) = {}"
  by (auto simp: check_must_not_def filter_empty_conv)

text \<open>The names the collection of effects looks up, in its order; what an expression calls is defined below.\<close>

fun collected_names :: "sp_expr \<Rightarrow> string list" where
  "collected_names (Spanned (Call f args) s) =
     (case extract_call_name f of Some n \<Rightarrow> [n] | None \<Rightarrow> []) @ concat (map collected_names args)"
| "collected_names (Spanned (MethodCall r meth args) s) = meth # collected_names r @ concat (map collected_names args)"
| "collected_names (Spanned (BinOp l op r) s) = collected_names l @ collected_names r"
| "collected_names (Spanned (UnaryOp op e) s) = collected_names e"
| "collected_names (Spanned (IfE c t e) s) =
     collected_names c @ collected_names t @ (case e of Some x \<Rightarrow> collected_names x | None \<Rightarrow> [])"
| "collected_names (Spanned (BlockE items) s) = concat (map collected_names items)"
| "collected_names (Spanned (ListE items) s) = concat (map collected_names items)"
| "collected_names (Spanned (TupleE items) s) = concat (map collected_names items)"
| "collected_names (Spanned (Forall x d b) s) = collected_names b @ collected_names d"
| "collected_names (Spanned (Exists x d b) s) = collected_names b @ collected_names d"
| "collected_names (Spanned (Old e) s) = collected_names e"
| "collected_names (Spanned (Ghost e) s) = collected_names e"
| "collected_names (Spanned (Field e f) s) = collected_names e"
| "collected_names (Spanned (Cast e ty) s) = collected_names e"
| "collected_names (Spanned (Index e i) s) = collected_names e @ collected_names i"
| "collected_names (Spanned (ApplyE n args) s) = concat (map collected_names args)"
| "collected_names (Spanned (LetE x v b) s) = collected_names v @ collected_names b"
| "collected_names (Spanned (Match e arms) s) =
     collected_names e @ concat (map (\<lambda>a. case a of MatchArm p b \<Rightarrow> collected_names b) arms)"
| "collected_names _ = []"

definition effects_of_names :: "effect_map \<Rightarrow> string set \<Rightarrow> string set" where
  "effects_of_names m ns = (\<Union>n \<in> ns. set (unwrap_or (hm_get m n) [])) - {''pure''}"

lemma effects_of_names_simps [simp]:
  "effects_of_names m {} = {}"
  "effects_of_names m (A \<union> B) = effects_of_names m A \<union> effects_of_names m B"
  by (auto simp: effects_of_names_def)

lemma effects_of_names_insert:
  "effects_of_names m (insert n A) = effects_of_names m {n} \<union> effects_of_names m A"
  by (auto simp: effects_of_names_def)

lemma set_callee_effects:
  "set (callee_effects m n es) = set es \<union> effects_of_names m (set_option n)"
  by (auto simp: callee_effects_def effects_of_names_def set_fold_eff_insert split: option.splits)

lemma set_fold_collect:
  assumes "\<And>x es. x \<in> set xs \<Longrightarrow> set (g x es) = set es \<union> effects_of_names m (set (h x))"
  shows "set (fold g xs es) = set es \<union> effects_of_names m (set (concat (map h xs)))"
  using assms by (induction xs arbitrary: es) (simp_all add: Un_assoc)

lemma set_collect_call_effects:
  "set (collect_call_effects m e es) = set es \<union> effects_of_names m (set (collected_names e))"
proof (induction m e es rule: collect_call_effects.induct)
  case (1 m f args s es)
  have "set_option (extract_call_name f) = set (case extract_call_name f of Some n \<Rightarrow> [n] | None \<Rightarrow> [])"
    by (cases "extract_call_name f") simp_all
  with set_fold_collect [of args "collect_call_effects m" m collected_names, OF "1.IH"] show ?case
    by (simp add: set_callee_effects Un_assoc)
next
  case (2 m r meth args s es)
  from set_fold_collect [of args "collect_call_effects m" m collected_names, OF "2.IH"(2)] show ?case
    by (simp add: set_callee_effects "2.IH"(1) effects_of_names_insert [of _ _ "set (collected_names r) \<union> _"] Un_assoc)
next
  case (6 m items s es)
  then show ?case by (simp add: set_fold_collect [of _ _ m collected_names])
next
  case (7 m items s es)
  then show ?case by (simp add: set_fold_collect [of _ _ m collected_names])
next
  case (8 m items s es)
  then show ?case by (simp add: set_fold_collect [of _ _ m collected_names])
next
  case (16 m n args s es)
  then show ?case by (simp add: set_fold_collect [of _ _ m collected_names])
next
  case (18 m e arms s es)
  let ?g = "\<lambda>a. case a of MatchArm p b \<Rightarrow> collect_call_effects m b"
  let ?h = "\<lambda>a. case a of MatchArm p b \<Rightarrow> collected_names b"
  have "set (?g a es) = set es \<union> effects_of_names m (set (?h a))" if "a \<in> set arms" for a es
    using "18.IH"(2) [OF that] by (cases a) simp
  then have "set (fold ?g arms es) = set es \<union> effects_of_names m (set (concat (map ?h arms)))" for es
    by (rule set_fold_collect)
  with "18.IH"(1) show ?case
    by (simp add: Un_assoc del: set_concat)
qed (simp_all add: Un_ac Let_def split: option.splits)

lemma set_infer_callee_effects:
  "set (infer_callee_effects cs m) = effects_of_names m (set (concat (map (\<lambda>c. collected_names (cl_body c))
     (filter (\<lambda>c. cl_kind c \<in> {Requires, Ensures, Modifies, Invariant, Rule}) cs))))"
proof -
  have "set (fold (\<lambda>c es. if cl_kind c \<in> {Requires, Ensures, Modifies, Invariant, Rule}
        then collect_call_effects m (cl_body c) es else es) cs es) =
      set es \<union> effects_of_names m (set (concat (map (\<lambda>c. collected_names (cl_body c))
       (filter (\<lambda>c. cl_kind c \<in> {Requires, Ensures, Modifies, Invariant, Rule}) cs))))" for es
    by (induction cs arbitrary: es) (simp_all add: set_collect_call_effects Un_assoc)
  then show ?thesis by (simp add: infer_callee_effects_def)
qed

text \<open>The entries of the effect map, in file order.\<close>

definition clause_entry :: "string option \<Rightarrow> clause list \<Rightarrow> (string \<times> effect_set) list" where
  "clause_entry name cs =
     (case (fst (extract_effects_from_clauses cs), name) of (Some d, Some n) \<Rightarrow> [(n, d)] | _ \<Rightarrow> [])"

definition decl_entries :: "decl \<Rightarrow> (string \<times> effect_set) list" where
  "decl_entries d =
     (case clauses_contract_fn_extern d of
        Some cs \<Rightarrow> clause_entry (decl_name d) cs
      | None \<Rightarrow>
          (case d of
             Service s \<Rightarrow> concat (map (\<lambda>it. case it of SvOperation n cs \<Rightarrow> clause_entry (Some n) cs | _ \<Rightarrow> []) (sv_items s))
           | _ \<Rightarrow> []))"

definition effect_entries :: "source_file \<Rightarrow> (string \<times> effect_set) list" where
  "effect_entries sf = concat (map (decl_entries \<circ> sd_node) (sf_decls sf))"

definition add_entry :: "string \<times> effect_set \<Rightarrow> effect_map \<Rightarrow> effect_map" where
  "add_entry e m = hm_insert (fst e) (expand (snd e)) m"

lemma declare_effects_entries: "declare_effects n cs m = fold add_entry (clause_entry n cs) m"
  by (simp add: declare_effects_def clause_entry_def add_entry_def split: option.splits)

lemma fold_concat_map: "fold f (concat (map g xs)) s = fold (\<lambda>x. fold f (g x)) xs s"
  by (induction xs arbitrary: s) simp_all

lemma service_entries:
  "fold (\<lambda>it m. case it of SvOperation n cs \<Rightarrow> declare_effects (Some n) cs m | _ \<Rightarrow> m) items m =
   fold add_entry (concat (map (\<lambda>it. case it of SvOperation n cs \<Rightarrow> clause_entry (Some n) cs | _ \<Rightarrow> []) items)) m"
  unfolding fold_concat_map
  by (rule fold_cong) (auto simp: fun_eq_iff declare_effects_entries split: service_item.split)

lemma map_decl_entries: "map_decl d m = fold add_entry (decl_entries d) m"
  by (cases d) (simp_all add: map_decl_def decl_entries_def declare_effects_entries service_entries)

lemma effect_map_entries: "build_effect_map_from sf = fold add_entry (effect_entries sf) hm_empty"
  unfolding build_effect_map_from_def effect_entries_def fold_concat_map
  by (rule fold_cong) (simp_all add: fun_eq_iff map_decl_entries)

lemma fold_add_entry_get:
  "distinct (map fst es) \<Longrightarrow>
   hm_get (fold add_entry es m) n =
     (case map_of es n of Some d \<Rightarrow> Some (expand d) | None \<Rightarrow> hm_get m n)"
proof (induction es arbitrary: m)
  case (Cons e es)
  then have "map_of es (fst e) = None" by (simp add: map_of_eq_None_iff)
  with Cons show ?case
    by (cases "n = fst e") (simp_all add: add_entry_def hm.get_insert split: option.split)
qed simp

lemma effect_map_get:
  "distinct (map fst (effect_entries sf)) \<Longrightarrow>
   hm_get (build_effect_map_from sf) n = map_option expand (map_of (effect_entries sf) n)"
  by (simp add: effect_map_entries fold_add_entry_get hm.get_empty split: option.split)

text \<open>No set read off a clause holds \<open>pure\<close>, so the effects of a callee reach its callers unchanged.\<close>

lemma from_effect_names_no_pure: "''pure'' \<notin> set (from_effect_names ns)"
  by (simp add: from_effect_names_def set_fold_eff_insert)

lemma declared_no_pure: "declared_effects cs = Some D \<Longrightarrow> ''pure'' \<notin> set D"
proof -
  have "fold (\<lambda>c d. if cl_kind c = Effects
          then Some (from_effect_names (extract_effect_names_from_expr (cl_body c))) else d) cs d0 = Some D \<Longrightarrow>
        pred_option (\<lambda>D. ''pure'' \<notin> set D) d0 \<Longrightarrow> ''pure'' \<notin> set D" for d0
    by (induction cs arbitrary: d0) (auto simp: from_effect_names_no_pure split: if_splits)
  then show "declared_effects cs = Some D \<Longrightarrow> ''pure'' \<notin> set D"
    by (simp add: declared_effects_def)
qed

lemma expand_no_pure: "''pure'' \<notin> set D \<Longrightarrow> ''pure'' \<notin> set (expand D)"
  using sub_effects_not_pure by (auto simp: set_expand)

section \<open>Effects along the calls of a file\<close>

text \<open>
  What an expression calls, at whatever depth: the visitor of all nodes, callee expressions included,
  names every call of a name or of the last component of a path, and every method call.  The calls
  inside called expressions, as in \<open>h()()\<close>, are the ones the collection leaves out.
\<close>

definition call_hook :: "string hook" where
  "call_hook x =
     (case x of
        Call f args \<Rightarrow> (case extract_call_name f of Some n \<Rightarrow> ([n], True) | None \<Rightarrow> ([], True))
      | MethodCall r meth args \<Rightarrow> ([meth], True)
      | _ \<Rightarrow> ([], True))"

definition call_names :: "sp_expr \<Rightarrow> string list" where
  "call_names = visit call_hook"

definition callee_calls :: "sp_expr \<Rightarrow> string list" where
  "callee_calls = visit (\<lambda>x. case x of Call f args \<Rightarrow> (call_names f, True) | _ \<Rightarrow> ([], True))"

lemmas call_visits = call_names_def callee_calls_def call_hook_def

lemma set_concat_map_within:
  "(\<And>x. x \<in> set xs \<Longrightarrow> set (f x) \<subseteq> set (g x) \<union> set (h x)) \<Longrightarrow>
   set (concat (map f xs)) \<subseteq> set (concat (map g xs)) \<union> set (concat (map h xs))"
  by fastforce

lemma call_names_simps [simp]:
  "call_names (Spanned x s) = fst (call_hook x) @ concat (map call_names (walk_children x))"
  "callee_calls (Spanned x s) = (case x of Call f args \<Rightarrow> call_names f | _ \<Rightarrow> []) @
     concat (map callee_calls (walk_children x))"
  by (simp_all add: call_visits split: expr.split option.split)

lemma call_names_collected: "set (call_names e) \<subseteq> set (collected_names e) \<union> set (callee_calls e)"
proof (induction e rule: collected_names.induct)
  case (1 f args s)
  from set_concat_map_within [of args call_names collected_names callee_calls, OF "1.IH"] show ?case
    by (auto simp: call_hook_def split: option.split)
next
  case (2 r meth args s)
  from "2.IH"(1) set_concat_map_within [of args call_names collected_names callee_calls, OF "2.IH"(2)] show ?case
    by (auto simp: call_hook_def)
next
  case (6 items s)
  from set_concat_map_within [of items call_names collected_names callee_calls, OF "6.IH"] show ?case by (simp add: call_hook_def)
next
  case (7 items s)
  from set_concat_map_within [of items call_names collected_names callee_calls, OF "7.IH"] show ?case by (simp add: call_hook_def)
next
  case (8 items s)
  from set_concat_map_within [of items call_names collected_names callee_calls, OF "8.IH"] show ?case by (simp add: call_hook_def)
next
  case (16 n args s)
  from set_concat_map_within [of args call_names collected_names callee_calls, OF "16.IH"] show ?case by (simp add: call_hook_def)
next
  case (18 e arms s)
  have "set (call_names (arm_body a)) \<subseteq>
      set (case a of MatchArm p b \<Rightarrow> collected_names b) \<union> set (callee_calls (arm_body a))" if "a \<in> set arms" for a
    using "18.IH"(2) [OF that] by (cases a) simp
  from "18.IH"(1) set_concat_map_within [of arms "\<lambda>a. call_names (arm_body a)"
      "\<lambda>a. case a of MatchArm p b \<Rightarrow> collected_names b" "\<lambda>a. callee_calls (arm_body a)", OF this] show ?case
    by (auto simp: call_hook_def)
qed (auto simp: call_hook_def split: option.splits)

text \<open>\<open>effect_call sf f g\<close>: the clauses of \<open>f\<close>, of whatever kind, call \<open>g\<close>.\<close>

definition declared_of :: "fn_def \<Rightarrow> effect_set option" where
  "declared_of f = fst (extract_effects_from_clauses (fn_clauses f))"

definition actual_of :: "fn_def \<Rightarrow> effect_set" where
  "actual_of f = unwrap_or (snd (extract_effects_from_clauses (fn_clauses f))) []"

definition forbidden_of :: "fn_def \<Rightarrow> effect_set" where
  "forbidden_of f = unwrap_or (extract_must_not_from_clauses (fn_clauses f)) []"

definition is_fn_of :: "source_file \<Rightarrow> fn_def \<Rightarrow> bool" where
  "is_fn_of sf f \<longleftrightarrow> FnDef f \<in> sd_node ` set (sf_decls sf)"

definition calls_in_clauses :: "fn_def \<Rightarrow> string \<Rightarrow> bool" where
  "calls_in_clauses f n \<longleftrightarrow> (\<exists>c \<in> set (fn_clauses f). n \<in> set (call_names (cl_body c)))"

definition effect_call :: "source_file \<Rightarrow> fn_def \<Rightarrow> fn_def \<Rightarrow> bool" where
  "effect_call sf f g \<longleftrightarrow> is_fn_of sf f \<and> is_fn_of sf g \<and> calls_in_clauses f (fn_name g)"

text \<open>The functions the check looks at in full: they have an effects clause, and their calls stand in the
  clauses the collection visits and in no called expression.\<close>

definition effects_visible :: "fn_def \<Rightarrow> bool" where
  "effects_visible f \<longleftrightarrow> declared_of f \<noteq> None \<and>
     (\<forall>c \<in> set (fn_clauses f). callee_calls (cl_body c) = [] \<and>
        (cl_kind c \<in> {Requires, Ensures, Modifies, Invariant, Rule} \<or> call_names (cl_body c) = []))"

lemma fn_effect_errors_Nil:
  assumes "fn_effect_errors m cs D actual must_not sp = []"
  shows "\<And>a. actual = Some a \<Longrightarrow> set a \<subseteq> set (expand D)"
    and "set (infer_callee_effects cs m) \<subseteq> set (expand D)"
    and "\<And>F. must_not = Some F \<Longrightarrow> set (expand D) \<inter> set (expand F) = {}"
  using assms by (simp_all add: fn_effect_errors_def Let_def containment_iff must_not_iff)

lemma accepted_fn:
  assumes "check_effects sf = []" and "is_fn_of sf f" and "declared_of f = Some D"
  shows "set (actual_of f) \<subseteq> set (expand D)"
    and "set (infer_callee_effects (fn_clauses f) (build_effect_map_from sf)) \<subseteq> set (expand D)"
    and "set (expand D) \<inter> set (expand (forbidden_of f)) = {}"
proof -
  let ?m = "build_effect_map_from sf"
  let ?must_not = "extract_must_not_from_clauses (fn_clauses f)"
  obtain sd where sd: "sd \<in> set (sf_decls sf)" "sd_node sd = FnDef f"
    using assms(2) by (auto simp: is_fn_of_def)
  with assms(1) have "effect_errors_of_decl ?m sd = []"
    by (simp add: check_effects_def)
  with sd(2) assms(3) have "fn_effect_errors ?m (fn_clauses f) D
      (snd (extract_effects_from_clauses (fn_clauses f))) ?must_not (sd_span sd) = []"
    by (simp add: effect_errors_of_decl_def declared_of_def split_beta Let_def)
  note clean = fn_effect_errors_Nil [OF this]
  show "set (actual_of f) \<subseteq> set (expand D)"
    using clean(1) by (cases "snd (extract_effects_from_clauses (fn_clauses f))")
      (simp_all add: actual_of_def unwrap_or_def)
  show "set (infer_callee_effects (fn_clauses f) ?m) \<subseteq> set (expand D)"
    by (rule clean(2))
  have "set (expand []) = {}" by (simp add: expand_def)
  then show "set (expand D) \<inter> set (expand (forbidden_of f)) = {}"
    using clean(3) by (cases ?must_not) (simp_all add: forbidden_of_def unwrap_or_def)
qed

lemma fn_entry: "is_fn_of sf g \<Longrightarrow> declared_of g = Some E \<Longrightarrow> (fn_name g, E) \<in> set (effect_entries sf)"
proof -
  assume "is_fn_of sf g" and "declared_of g = Some E"
  then obtain sd where sd: "sd \<in> set (sf_decls sf)" "sd_node sd = FnDef g"
    by (auto simp: is_fn_of_def)
  with \<open>declared_of g = Some E\<close> have "(fn_name g, E) \<in> set (decl_entries (sd_node sd))"
    by (simp add: declared_of_def decl_entries_def clause_entry_def)
  with sd(1) show ?thesis by (auto simp: effect_entries_def)
qed

lemma called_effects_inferred:
  assumes "distinct (map fst (effect_entries sf))" and "(n, E) \<in> set (effect_entries sf)"
    and "''pure'' \<notin> set E" and "effects_visible f" and "calls_in_clauses f n"
  shows "set (expand E) \<subseteq> set (infer_callee_effects (fn_clauses f) (build_effect_map_from sf))"
proof -
  let ?ns = "set (concat (map (\<lambda>c. collected_names (cl_body c))
    (filter (\<lambda>c. cl_kind c \<in> {Requires, Ensures, Modifies, Invariant, Rule}) (fn_clauses f))))"
  obtain c where c: "c \<in> set (fn_clauses f)" "n \<in> set (call_names (cl_body c))"
    using assms(5) by (auto simp: calls_in_clauses_def)
  with assms(4) have "cl_kind c \<in> {Requires, Ensures, Modifies, Invariant, Rule}" "callee_calls (cl_body c) = []"
    by (auto simp: effects_visible_def)
  with c call_names_collected [of "cl_body c"] have "n \<in> ?ns" by fastforce
  moreover have "hm_get (build_effect_map_from sf) n = Some (expand E)"
    using assms(1,2) by (simp add: effect_map_get map_of_is_SomeI)
  ultimately have "set (expand E) \<subseteq> effects_of_names (build_effect_map_from sf) ?ns"
    using expand_no_pure [OF assms(3)] by (force simp: effects_of_names_def unwrap_or_def simp del: set_concat)
  then show ?thesis by (simp add: set_infer_callee_effects)
qed

lemma clause_entries_no_pure: "(n, E) \<in> set (clause_entry nm cs) \<Longrightarrow> ''pure'' \<notin> set E"
  by (auto simp: clause_entry_def extract_effects_from_clauses_def Let_def declared_no_pure split: option.splits)

lemma effect_entries_no_pure: "(n, E) \<in> set (effect_entries sf) \<Longrightarrow> ''pure'' \<notin> set E"
  using clause_entries_no_pure
  by (fastforce simp: effect_entries_def decl_entries_def split: option.splits decl.splits service_item.splits)

lemma call_within_declared:
  assumes "check_effects sf = []" and "distinct (map fst (effect_entries sf))"
    and "is_fn_of sf f" and "effects_visible f" and "declared_of f = Some D"
    and "calls_in_clauses f n" and "(n, E) \<in> set (effect_entries sf)"
  shows "set (expand E) \<subseteq> set (expand D)"
  using accepted_fn(2) [OF assms(1,3,5)]
    called_effects_inferred [OF assms(2,7) effect_entries_no_pure [OF assms(7)] assms(4,6)] by blast

lemma chain_within_declared:
  assumes "check_effects sf = []" and "distinct (map fst (effect_entries sf))"
    and "\<And>h. (effect_call sf)\<^sup>*\<^sup>* f h \<Longrightarrow> effects_visible h"
    and "(effect_call sf)\<^sup>*\<^sup>* f g" and "declared_of f = Some D" and "declared_of g = Some E"
  shows "set (expand E) \<subseteq> set (expand D)"
  using assms(4,6)
proof (induction arbitrary: E rule: rtranclp_induct)
  case base
  with assms(5) show ?case by simp
next
  case (step g h)
  have visible: "effects_visible g" using assms(3) [OF step.hyps(1)] .
  then obtain E' where E': "declared_of g = Some E'" by (auto simp: effects_visible_def)
  have call: "is_fn_of sf g" "is_fn_of sf h" "calls_in_clauses g (fn_name h)"
    using step.hyps(2) by (auto simp: effect_call_def)
  from call_within_declared [OF assms(1,2) call(1) visible E' call(3) fn_entry [OF call(2) step.prems]]
    step.IH [OF E'] show ?case by blast
qed

text \<open>C11: take a file the effect check accepts, in which no two declarations of one name declare
  effects, and a function from which the calls only reach functions that have an effects clause and
  whose calls stand in requires, ensures, modifies, invariant and rule clauses and not inside a called
  expression.  Then the effects of every function reached through calls, those it declares with their
  sub-effects and those inferred from its clauses, and the declared effects of every contract, extern
  and service operation called there, are within the expanded effects of the function, and none of
  them is excluded by its must-not clauses.  \<open>undeclared_function_hides_effects\<close> and
  \<open>callee_expression_not_walked\<close> show that the conditions are needed.\<close>

theorem accepted_effects_reach_callers:
  assumes "check_effects sf = []" and "distinct (map fst (effect_entries sf))"
    and "is_fn_of sf f" and "declared_of f = Some D"
    and "\<And>h. (effect_call sf)\<^sup>*\<^sup>* f h \<Longrightarrow> effects_visible h" and "(effect_call sf)\<^sup>*\<^sup>* f g"
  shows "\<exists>E. declared_of g = Some E \<and> set (expand E) \<union> set (actual_of g) \<subseteq> set (expand D) \<and>
    (set (expand E) \<union> set (actual_of g)) \<inter> set (expand (forbidden_of f)) = {} \<and>
    (\<forall>n X. calls_in_clauses g n \<and> (n, X) \<in> set (effect_entries sf) \<longrightarrow>
       set (expand X) \<subseteq> set (expand D) \<and> set (expand X) \<inter> set (expand (forbidden_of f)) = {})"
proof -
  have g: "is_fn_of sf g"
    using assms(6,3) by (cases rule: rtranclp.cases) (auto simp: effect_call_def)
  have visible: "effects_visible g" using assms(5) [OF assms(6)] .
  then obtain E where E: "declared_of g = Some E" by (auto simp: effects_visible_def)
  have E_D: "set (expand E) \<subseteq> set (expand D)"
    by (rule chain_within_declared [OF assms(1,2,5,6,4) E])
  with accepted_fn(1) [OF assms(1) g E] have "set (expand E) \<union> set (actual_of g) \<subseteq> set (expand D)" by blast
  moreover have "set (expand X) \<subseteq> set (expand D)"
    if "calls_in_clauses g n" "(n, X) \<in> set (effect_entries sf)" for n X
    using call_within_declared [OF assms(1,2) g visible E that] E_D by blast
  ultimately show ?thesis using E accepted_fn(3) [OF assms(1,3,4)] by blast
qed

definition effect_fn :: "string \<Rightarrow> clause list \<Rightarrow> fn_def" where
  "effect_fn n cs = \<lparr>fn_name = n, fn_is_ghost = False, fn_is_lemma = False, fn_params = [],
     fn_return_ty = None, fn_clauses = cs\<rparr>"

definition clause_of :: "clause_kind \<Rightarrow> expr \<Rightarrow> clause" where
  "clause_of k e = \<lparr>cl_kind = k, cl_body = no_span e, cl_effect_variables = []\<rparr>"

definition effect_file :: "fn_def list \<Rightarrow> source_file" where
  "effect_file fs = \<lparr>sf_project = None, sf_module = None, sf_imports = [],
     sf_decls = map (\<lambda>f. \<lparr>sd_node = FnDef f, sd_span = (0, 1)\<rparr>) fs\<rparr>"

definition calls_fn :: "string \<Rightarrow> clause" where
  "calls_fn n = clause_of Requires (Call (no_span (Ident n)) [])"

definition scan_fn :: fn_def where
  "scan_fn = effect_fn ''scan'' [clause_of Effects (Raw [''{'', ''fs'', '','', ''mem'', ''}'']),
     clause_of MustNot (Ident ''net''), calls_fn ''table'']"

definition rows_fn :: fn_def where
  "rows_fn = effect_fn ''table'' [clause_of Effects (Ident ''mem''), clause_of Ensures (Ident ''alloc_rows'')]"

lemma scanner_facts:
  "check_effects (effect_file [scan_fn, rows_fn]) = []"
  "distinct (map fst (effect_entries (effect_file [scan_fn, rows_fn])))"
  "declared_of scan_fn = Some [''mem'', ''fs'']" "declared_of rows_fn = Some [''mem'']"
  "actual_of rows_fn = [''mem'']" "fn_name rows_fn = ''table''"
  by code_simp+

lemma scanner_fns: "is_fn_of (effect_file [scan_fn, rows_fn]) scan_fn" "is_fn_of (effect_file [scan_fn, rows_fn]) rows_fn"
  by (simp_all add: is_fn_of_def effect_file_def)

lemma scanner_calls:
  "calls_in_clauses scan_fn n \<longleftrightarrow> n = ''table''" "\<not> calls_in_clauses rows_fn n"
  by (auto simp: calls_in_clauses_def scan_fn_def rows_fn_def effect_fn_def calls_fn_def clause_of_def
      no_span_def call_visits extract_call_name_def)

lemma scanner_call: "(effect_call (effect_file [scan_fn, rows_fn]))\<^sup>*\<^sup>* scan_fn rows_fn"
  by (rule r_into_rtranclp) (simp add: effect_call_def scanner_fns scanner_facts(6) scanner_calls)

lemma scanner_visible:
  assumes "(effect_call (effect_file [scan_fn, rows_fn]))\<^sup>*\<^sup>* scan_fn h"
  shows "effects_visible h"
proof -
  have "h = scan_fn \<or> h = rows_fn"
    using assms by (induction rule: rtranclp_induct) (auto simp: effect_call_def is_fn_of_def effect_file_def)
  moreover have "effects_visible scan_fn" "effects_visible rows_fn"
    by (simp_all add: effects_visible_def scanner_facts)
      (simp_all add: scan_fn_def rows_fn_def effect_fn_def calls_fn_def clause_of_def no_span_def
        call_visits)
  ultimately show ?thesis by blast
qed

lemma accepted_effects_reach_callers_witness:
  "check_effects (effect_file [scan_fn, rows_fn]) = [] \<and>
   set (expand [''mem'']) \<union> set (actual_of rows_fn) \<subseteq> set (expand [''mem'', ''fs'']) \<and>
   (set (expand [''mem'']) \<union> set (actual_of rows_fn)) \<inter> set (expand (forbidden_of scan_fn)) = {}"
  by (intro conjI scanner_facts(1))
    (use accepted_effects_reach_callers [OF scanner_facts(1,2) scanner_fns(1) scanner_facts(3) scanner_visible
        scanner_call] scanner_facts(4) in auto)

section \<open>Where the check accepts or rejects too much\<close>

text \<open>A function without an effects clause hides what it calls: its own check is skipped and it has no
  entry in the map.\<close>

lemma undeclared_function_hides_effects:
  "check_effects (effect_file
     [effect_fn ''f'' [clause_of Effects (Ident ''pure''), calls_fn ''g''], effect_fn ''g'' [calls_fn ''h''],
      effect_fn ''h'' [clause_of Effects (Ident ''io'')]]) = []"
  by code_simp

text \<open>A call inside the called expression of a call is not looked at, nor are calls in a decreases clause.\<close>

lemma callee_expression_not_walked:
  "check_effects (effect_file
     [effect_fn ''f'' [clause_of Effects (Ident ''pure''),
        clause_of Requires (Call (no_span (Call (no_span (Ident ''h'')) [])) [])],
      effect_fn ''h'' [clause_of Effects (Ident ''io'')]]) = []"
  "check_effects (effect_file
     [effect_fn ''f'' [clause_of Effects (Ident ''pure''),
        clause_of Decreases (Call (no_span (Ident ''h'')) [])],
      effect_fn ''h'' [clause_of Effects (Ident ''io'')]]) = []"
  by code_simp+

text \<open>Must-not clauses of a function without an effects clause are never compared with anything.\<close>

lemma must_not_needs_effects:
  "check_effects (effect_file
     [effect_fn ''f'' [clause_of MustNot (Ident ''io''), calls_fn ''h''],
      effect_fn ''h'' [clause_of Effects (Ident ''io'')]]) = []"
  by code_simp

text \<open>The inferred effect \<open>panic\<close> cannot be declared: it is not a known effect name.\<close>

lemma panic_rejected_either_way:
  "map te_code (check_effects (effect_file
     [effect_fn ''f'' [clause_of Effects (Ident ''panic''), clause_of Ensures (Ident ''panic'')]])) = [''A07003'']"
  "map te_code (check_effects (effect_file
     [effect_fn ''f'' [clause_of Effects (Ident ''mem''), clause_of Ensures (Ident ''panic'')]])) = [''A07001'']"
  by code_simp+

text \<open>A parameter whose name begins like an operation counts as input and output.\<close>

lemma timeout_counts_as_io:
  "map te_code (check_effects (effect_file
     [effect_fn ''f'' [clause_of Effects (Ident ''pure''),
        clause_of Requires (BinOp (no_span (Ident ''timeout'')) Gt (no_span (Literal (LInt ''0''))))]])) = [''A07002'']"
  by code_simp

text \<open>The two readings of an effects clause differ: ghost functions take the brackets of an effect row for
  effects, and look at the first clause where the check of the file takes the last.\<close>

lemma ghost_row_rejected:
  "map te_code (check_ghost_fn_effects (effect_fn ''g'' [clause_of Effects (Raw [''<'', ''pure'', ''>''])]) (0, 1)) = [''A54001'']"
  "declared_of (effect_fn ''g'' [clause_of Effects (Raw [''<'', ''pure'', ''>''])]) = Some []"
  by code_simp+

lemma ghost_second_clause_ignored:
  "check_ghost_fn_effects (effect_fn ''g'' [clause_of Effects (Ident ''pure''), clause_of Effects (Ident ''io'')]) (0, 1) = []"
  "declared_of (effect_fn ''g'' [clause_of Effects (Ident ''pure''), clause_of Effects (Ident ''io'')]) = Some [''io'']"
  by code_simp+

text \<open>The policy compares names: an accepted declaration names no denied effect, but denying a group does not
  deny its sub-effects, nor a sub-effect its group.\<close>

lemma policy_respected:
  assumes "run_effect_checks_filtered pol sf = []" and "sd \<in> set (sf_decls sf)"
    and "clauses_contract_fn_extern (sd_node sd) = Some cs" and "fst (extract_effects_from_clauses cs) = Some D"
    and "e \<in> set D" and "\<not> starts_uppercase e"
  shows "policy_is_allowed pol e"
proof (cases "pol_allowed pol = [] \<and> pol_denied pol = []")
  case True
  then show ?thesis by (simp add: policy_is_allowed_def)
next
  case False
  with assms(1,2) have "policy_errors_of_decl pol sd = []"
    by (simp add: run_effect_checks_filtered_def split: if_splits)
  with assms(3-6) show ?thesis by (auto simp: policy_errors_of_decl_def filter_empty_conv)
qed

lemma denied_group_evaded:
  "run_effect_checks_filtered \<lparr>pol_allowed = [], pol_denied = [''io''], pol_default_effect = ''pure''\<rparr>
     (effect_file [effect_fn ''f'' [clause_of Effects (Ident ''fs'')]]) = []"
  "run_effect_checks_filtered \<lparr>pol_allowed = [], pol_denied = [''fs''], pol_default_effect = ''pure''\<rparr>
     (effect_file [effect_fn ''f'' [clause_of Effects (Ident ''io'')]]) = []"
  by code_simp+

end
