(* ===== verification/Totality.thy ===== *)
theory Totality
  imports Labels Type_Expr
begin

text \<open>
  Totality, \<open>crates/assura-types/src/checkers/totality.rs\<close> and its wiring in \<open>checks/frame_totality.rs\<close>:
  \<open>decreases\<close> measures, recursive calls, and mutual recursion.  The argument a call gives for the
  measure is compared syntactically; what cannot be decided is left pending for a solver.
\<close>

section \<open>Measures and calls\<close>

datatype decreases_measure =
  MNatural expr
| MLexicographic "expr list"
| MWellFounded expr

datatype decrease_check_result =
  Proved
| NeedsSmt expr expr
| Failed checker_error

record pending_decrease_check =
  pd_fn_name :: string
  pd_preconditions :: "expr list"
  pd_measure :: expr
  pd_call_arg :: expr
  pd_span :: span

text \<open>The checker's state is the set of functions marked partial.\<close>

type_synonym totality_checker = "string set"

definition mark_partial :: "string \<Rightarrow> totality_checker \<Rightarrow> totality_checker" where
  "mark_partial n tc = insert n tc"

definition is_partial :: "totality_checker \<Rightarrow> fn_def \<Rightarrow> bool" where
  "is_partial tc f \<longleftrightarrow>
     fn_name f \<in> tc \<or> list_ex (\<lambda>c. cl_kind c = OtherClause ''partial'') (fn_clauses f)"

definition decreases_clauses :: "fn_def \<Rightarrow> clause list" where
  "decreases_clauses f =
     filter (\<lambda>c. cl_kind c = Decreases \<or> cl_kind c = OtherClause ''decreases'') (fn_clauses f)"

definition extract_decreases_measure :: "fn_def \<Rightarrow> decreases_measure option" where
  "extract_decreases_measure f =
     (let es = map (node \<circ> cl_body) (decreases_clauses f);
          well_founded = list_ex (\<lambda>c. cl_kind c = OtherClause ''well_founded'') (fn_clauses f)
      in case es of
           [] \<Rightarrow> None
         | [e] \<Rightarrow> Some (if well_founded then MWellFounded e else MNatural e)
         | _ \<Rightarrow> Some (MLexicographic es))"

fun expr_contains_recursive_call :: "sp_expr \<Rightarrow> string \<Rightarrow> bool" where
  "expr_contains_recursive_call (Spanned (Call f args) s) n \<longleftrightarrow>
     callee f = Some n \<or> expr_contains_recursive_call f n \<or> list_ex (\<lambda>a. expr_contains_recursive_call a n) args"
| "expr_contains_recursive_call (Spanned (BinOp l op r) s) n \<longleftrightarrow>
     expr_contains_recursive_call l n \<or> expr_contains_recursive_call r n"
| "expr_contains_recursive_call (Spanned (UnaryOp op e) s) n \<longleftrightarrow> expr_contains_recursive_call e n"
| "expr_contains_recursive_call (Spanned (Old e) s) n \<longleftrightarrow> expr_contains_recursive_call e n"
| "expr_contains_recursive_call (Spanned (Cast e ty) s) n \<longleftrightarrow> expr_contains_recursive_call e n"
| "expr_contains_recursive_call (Spanned (Ghost e) s) n \<longleftrightarrow> expr_contains_recursive_call e n"
| "expr_contains_recursive_call (Spanned (Field e f) s) n \<longleftrightarrow> expr_contains_recursive_call e n"
| "expr_contains_recursive_call (Spanned (MethodCall r m args) s) n \<longleftrightarrow>
     expr_contains_recursive_call r n \<or> list_ex (\<lambda>a. expr_contains_recursive_call a n) args"
| "expr_contains_recursive_call (Spanned (Index e i) s) n \<longleftrightarrow>
     expr_contains_recursive_call e n \<or> expr_contains_recursive_call i n"
| "expr_contains_recursive_call (Spanned (IfE c t e) s) n \<longleftrightarrow>
     expr_contains_recursive_call c n \<or> expr_contains_recursive_call t n \<or>
     (case e of Some x \<Rightarrow> expr_contains_recursive_call x n | None \<Rightarrow> False)"
| "expr_contains_recursive_call (Spanned (Forall x d b) s) n \<longleftrightarrow>
     expr_contains_recursive_call d n \<or> expr_contains_recursive_call b n"
| "expr_contains_recursive_call (Spanned (Exists x d b) s) n \<longleftrightarrow>
     expr_contains_recursive_call d n \<or> expr_contains_recursive_call b n"
| "expr_contains_recursive_call (Spanned (ListE es) s) n \<longleftrightarrow> list_ex (\<lambda>a. expr_contains_recursive_call a n) es"
| "expr_contains_recursive_call (Spanned (BlockE es) s) n \<longleftrightarrow> list_ex (\<lambda>a. expr_contains_recursive_call a n) es"
| "expr_contains_recursive_call (Spanned (ApplyE m args) s) n \<longleftrightarrow>
     list_ex (\<lambda>a. expr_contains_recursive_call a n) args"
| "expr_contains_recursive_call (Spanned (Match e arms) s) n \<longleftrightarrow>
     expr_contains_recursive_call e n \<or>
     list_ex (\<lambda>a. case a of MatchArm p b \<Rightarrow> expr_contains_recursive_call b n) arms"
| "expr_contains_recursive_call (Spanned (LetE x v b) s) n \<longleftrightarrow>
     expr_contains_recursive_call v n \<or> expr_contains_recursive_call b n"
| "expr_contains_recursive_call (Spanned (TupleE es) s) n \<longleftrightarrow> list_ex (\<lambda>a. expr_contains_recursive_call a n) es"
| "expr_contains_recursive_call (Spanned (Ident m) s) n \<longleftrightarrow> False"
| "expr_contains_recursive_call (Spanned (Literal l) s) n \<longleftrightarrow> False"
| "expr_contains_recursive_call (Spanned (Raw ts) s) n \<longleftrightarrow> False"

text \<open>\<open>collect_recursive_call_args\<close> visits the parts of a node in their order and records the arguments
  of every call of the name.\<close>

fun call_hook :: "string \<Rightarrow> sp_expr list hook" where
  "call_hook n (Call f args) = (if callee f = Some n then [args] else [], True)"
| "call_hook n _ = ([], True)"

definition collect_recursive_call_args :: "sp_expr \<Rightarrow> string \<Rightarrow> sp_expr list list" where
  "collect_recursive_call_args e n = visit (call_hook n) e"

lemma contains_iff_collect:
  "expr_contains_recursive_call e n \<longleftrightarrow> collect_recursive_call_args e n \<noteq> []"
  unfolding collect_recursive_call_args_def
proof (induction e n rule: expr_contains_recursive_call.induct)
  case (16 e arms s n)
  have "expr_contains_recursive_call (arm_body a) n \<longleftrightarrow> visit (call_hook n) (arm_body a) \<noteq> []"
    if "a \<in> set arms" for a
    using "16.IH"(2) [OF that] by (cases a) simp
  with "16.IH"(1) show ?case by (auto simp: list_ex_iff case_arm)
qed (auto simp: list_ex_iff split: option.splits)

section \<open>Decrease and well-foundedness\<close>

definition is_strictly_decreasing :: "expr \<Rightarrow> expr \<Rightarrow> bool" where
  "is_strictly_decreasing measured call_arg =
     (case measured of
        Ident x \<Rightarrow>
          (case call_arg of
             BinOp l Sub r \<Rightarrow>
               node l = Ident x \<and>
               (case node r of
                  Literal (LInt s) \<Rightarrow> (case parse_i64 s of Some v \<Rightarrow> v > 0 | None \<Rightarrow> True)
                | _ \<Rightarrow> True)
           | Field receiver f \<Rightarrow>
               node receiver = Ident x \<and> f \<in> {''tail'', ''left'', ''right'', ''children'', ''rest'', ''next''}
           | _ \<Rightarrow> False)
      | _ \<Rightarrow> False)"

definition literal_value :: "sp_expr \<Rightarrow> int option" where
  "literal_value e = (case node e of Literal (LInt s) \<Rightarrow> parse_i64 s | _ \<Rightarrow> None)"

fun expr_constrains_non_negative :: "sp_expr \<Rightarrow> string \<Rightarrow> bool" where
  "expr_constrains_non_negative (Spanned (BinOp l op r) s) n \<longleftrightarrow>
     (if op = Gte \<or> op = Gt
      then node l = Ident n \<and> (case literal_value r of Some v \<Rightarrow> v \<ge> 0 | None \<Rightarrow> False)
      else if op = Lte \<or> op = Lt
      then (case literal_value l of Some v \<Rightarrow> v \<ge> 0 \<and> node r = Ident n | None \<Rightarrow> False)
      else if op = And then expr_constrains_non_negative l n \<or> expr_constrains_non_negative r n
      else False)"
| "expr_constrains_non_negative _ n \<longleftrightarrow> False"

definition type_tokens :: "param \<Rightarrow> string list" where
  "type_tokens p = (case p_ty p of Some t \<Rightarrow> to_tokens t | None \<Rightarrow> [])"

definition numeric_type :: "param \<Rightarrow> bool" where
  "numeric_type p \<longleftrightarrow>
     list_ex (\<lambda>t. t \<in> {''Int'', ''Float'', ''F32'', ''F64'', ''I8'', ''I16'', ''I32'', ''I64''}) (type_tokens p)"

definition is_well_founded :: "expr \<Rightarrow> fn_def \<Rightarrow> bool" where
  "is_well_founded measured f =
     (case measured of
        Ident n \<Rightarrow>
          list_ex (\<lambda>c. cl_kind c = Requires \<and> expr_constrains_non_negative (cl_body c) n) (fn_clauses f) \<or>
          list_ex (\<lambda>p. p_name p = n \<and> (''Nat'' \<in> set (type_tokens p) \<or> \<not> numeric_type p)) (fn_params f)
      | Field e g \<Rightarrow> True
      | _ \<Rightarrow> False)"

text \<open>The arguments a call gives for a measure variable, one for each parameter of that name.\<close>

definition measured_args :: "fn_def \<Rightarrow> expr \<Rightarrow> sp_expr list \<Rightarrow> expr list" where
  "measured_args f measured args =
     (case measured of
        Ident n \<Rightarrow> map (node \<circ> snd) (filter (\<lambda>(p, a). p_name p = n) (zip (fn_params f) args))
      | _ \<Rightarrow> [])"

definition check_recursive_call ::
  "fn_def \<Rightarrow> decreases_measure \<Rightarrow> sp_expr list \<Rightarrow> span \<Rightarrow> decrease_check_result" where
  "check_recursive_call f m args sp =
     (case m of
        MNatural e \<Rightarrow>
          (case measured_args f e args of
             [] \<Rightarrow> Proved
           | a # _ \<Rightarrow> if is_strictly_decreasing e a then Proved else NeedsSmt e a)
      | MLexicographic es \<Rightarrow>
          (let pairs = concat (map (\<lambda>e. map (Pair e) (measured_args f e args)) es)
           in if list_ex (\<lambda>(e, a). is_strictly_decreasing e a) pairs then Proved
              else (case pairs of
                      (e, a) # _ \<Rightarrow> NeedsSmt e a
                    | [] \<Rightarrow> Failed \<lparr>ck_code = ''A09002'', ck_message =
                        ''lexicographic measure does not strictly decrease at recursive call to '' @ quoted (fn_name f),
                        ck_span = sp\<rparr>))
      | MWellFounded e \<Rightarrow> (case args of a # _ \<Rightarrow> NeedsSmt e (node a) | [] \<Rightarrow> Proved))"

section \<open>The check of a function\<close>

definition totality_error :: "string \<Rightarrow> string \<Rightarrow> span \<Rightarrow> checker_error" where
  "totality_error code msg sp = \<lparr>ck_code = code, ck_message = msg, ck_span = sp\<rparr>"

definition well_founded_errors :: "fn_def \<Rightarrow> decreases_measure \<Rightarrow> span \<Rightarrow> checker_error list" where
  "well_founded_errors f m sp =
     (case m of
        MNatural e \<Rightarrow>
          if is_well_founded e f then []
          else [totality_error ''A09003''
            (''cannot prove measure is well-founded for function '' @ quoted (fn_name f) @
             ''; add `requires` clause ensuring the measure is non-negative'') sp]
      | MLexicographic es \<Rightarrow>
          if list_all (\<lambda>e. is_well_founded e f) es then []
          else [totality_error ''A09003''
            (''cannot prove measure component is well-founded for function '' @ quoted (fn_name f)) sp]
      | MWellFounded e \<Rightarrow>
          if is_well_founded e f then []
          else [totality_error ''A09003''
            (''cannot prove well-founded measure is bounded for function '' @ quoted (fn_name f)) sp])"

definition call_sites :: "fn_def \<Rightarrow> sp_expr list list" where
  "call_sites f = concat (map (\<lambda>c. collect_recursive_call_args (cl_body c) (fn_name f)) (fn_clauses f))"

definition requires_of :: "fn_def \<Rightarrow> expr list" where
  "requires_of f = map (node \<circ> cl_body) (filter (\<lambda>c. cl_kind c = Requires) (fn_clauses f))"

definition call_site_result ::
  "fn_def \<Rightarrow> decreases_measure \<Rightarrow> span \<Rightarrow> sp_expr list \<Rightarrow> checker_error list \<times> pending_decrease_check list" where
  "call_site_result f m sp args =
     (case check_recursive_call f m args sp of
        Proved \<Rightarrow> ([], [])
      | NeedsSmt e a \<Rightarrow> ([], [\<lparr>pd_fn_name = fn_name f, pd_preconditions = requires_of f, pd_measure = e,
          pd_call_arg = a, pd_span = sp\<rparr>])
      | Failed err \<Rightarrow> ([err], []))"

definition check_function_totality ::
  "totality_checker \<Rightarrow> fn_def \<Rightarrow> span \<Rightarrow> checker_error list \<times> pending_decrease_check list" where
  "check_function_totality tc f sp =
     (if is_partial tc f then ([], [])
      else if \<not> list_ex (\<lambda>c. expr_contains_recursive_call (cl_body c) (fn_name f)) (fn_clauses f) then ([], [])
      else case extract_decreases_measure f of
             None \<Rightarrow> ([totality_error ''A09001''
               (''recursive function '' @ quoted (fn_name f) @
                '' has no `decreases` clause; add `decreases <expr>` or annotate with `partial`'') sp], [])
           | Some m \<Rightarrow>
               (let rs = map (call_site_result f m sp) (call_sites f)
                in (well_founded_errors f m sp @ concat (map fst rs), concat (map snd rs))))"

section \<open>Mutual recursion and files\<close>

definition fn_calls :: "fn_def \<Rightarrow> string \<Rightarrow> bool" where
  "fn_calls f n \<longleftrightarrow> list_ex (\<lambda>c. expr_contains_recursive_call (cl_body c) n) (fn_clauses f)"

definition check_mutual_recursion :: "totality_checker \<Rightarrow> (fn_def \<times> span) list \<Rightarrow> checker_error list" where
  "check_mutual_recursion tc fs =
     concat (map (\<lambda>(i, f, sp).
       if is_partial tc f then []
       else concat (map (\<lambda>(j, g, sp').
         if i \<noteq> j \<and> fn_calls f (fn_name g) \<and> fn_calls g (fn_name f) \<and>
            extract_decreases_measure f = None \<and> extract_decreases_measure g = None
         then [totality_error ''A09004''
           (''mutually recursive functions '' @ quoted (fn_name f) @ '' and '' @ quoted (fn_name g) @
            '' have no collective termination proof; add `decreases` clauses to at least one'') sp]
         else []) (zip [0..<length fs] fs))) (zip [0..<length fs] fs))"

definition fn_defs_of :: "source_file \<Rightarrow> (fn_def \<times> span) list" where
  "fn_defs_of sf = List.map_filter (\<lambda>sd. case sd_node sd of FnDef f \<Rightarrow> Some (f, sd_span sd) | _ \<Rightarrow> None) (sf_decls sf)"

definition partial_functions :: "source_file \<Rightarrow> totality_checker" where
  "partial_functions sf = fold (\<lambda>(f, sp) tc.
     if list_ex (\<lambda>c. cl_kind c = OtherClause ''partial'') (fn_clauses f) then mark_partial (fn_name f) tc else tc)
     (fn_defs_of sf) {}"

definition run_totality_checks :: "source_file \<Rightarrow> type_error list \<times> pending_decrease_check list" where
  "run_totality_checks sf =
     (let fs = fn_defs_of sf; tc = partial_functions sf;
          rs = map (\<lambda>(f, sp). check_function_totality tc f sp) fs
      in (map type_error_of_checker_error
            (concat (map fst rs) @ (if length fs \<ge> 2 then check_mutual_recursion tc fs else [])),
          concat (map snd rs)))"

section \<open>Chains of calls\<close>

text \<open>
  A reading over integers: \<open>num\<close> is the integer a value stands for, \<open>tv\<close> the value of a condition
  that is true.
\<close>

definition reads_integers :: "'v reading \<Rightarrow> ('v \<Rightarrow> int) \<Rightarrow> 'v \<Rightarrow> bool" where
  "reads_integers A num tv \<longleftrightarrow>
     (\<forall>s v. parse_i64 s = Some v \<longrightarrow> num (rd_literal A (LInt s)) = v) \<and>
     (\<forall>a b. num (rd_binop A Sub a b) = num a - num b) \<and>
     (\<forall>a b. (rd_binop A Gte a b = tv \<longrightarrow> num a \<ge> num b) \<and> (rd_binop A Gt a b = tv \<longrightarrow> num a > num b) \<and>
            (rd_binop A Lte a b = tv \<longrightarrow> num a \<le> num b) \<and> (rd_binop A Lt a b = tv \<longrightarrow> num a < num b) \<and>
            (rd_binop A And a b = tv \<longrightarrow> a = tv \<and> b = tv))"

text \<open>The values at a call satisfy the requires clauses and the parameters of type \<open>Nat\<close>.\<close>

definition admissible :: "'v reading \<Rightarrow> ('v \<Rightarrow> int) \<Rightarrow> 'v \<Rightarrow> fn_def \<Rightarrow> (string \<Rightarrow> 'v) \<Rightarrow> bool" where
  "admissible A num tv f \<sigma> \<longleftrightarrow>
     (\<forall>c \<in> set (fn_clauses f). cl_kind c = Requires \<longrightarrow> denote A (same_store \<sigma>) (cl_body c) = tv) \<and>
     (\<forall>p \<in> set (fn_params f). ''Nat'' \<in> set (type_tokens p) \<longrightarrow> num (\<sigma> (p_name p)) \<ge> 0)"

text \<open>Evaluating a clause with the values \<open>\<sigma>\<close> comes to a call of the function with the values \<open>\<tau>\<close>.\<close>

definition calls_with :: "'v reading \<Rightarrow> fn_def \<Rightarrow> (string \<Rightarrow> 'v) \<Rightarrow> (string \<Rightarrow> 'v) \<Rightarrow> bool" where
  "calls_with A f \<sigma> \<tau> \<longleftrightarrow>
     (\<exists>c \<in> set (fn_clauses f). \<exists>st st' g args s.
        side_by_side A (same_store \<sigma>) (same_store \<sigma>) (cl_body c) st st' (Spanned (Call g args) s) \<and>
        callee g = Some (fn_name f) \<and>
        (\<forall>i < length (fn_params f). i < length args \<longrightarrow> \<tau> (p_name (fn_params f ! i)) = denote A st (args ! i)))"

lemma reached_call_collected:
  assumes "side_by_side A st tt e st' tt' (Spanned (Call g args) s)" and "callee g = Some n"
  shows "args \<in> set (collect_recursive_call_args e n)"
proof -
  have "set (collect_recursive_call_args (Spanned (Call g args) s) n) \<subseteq> set (collect_recursive_call_args e n)"
  proof (rule side_by_side_parts [OF assms(1), of "\<lambda>x. set (collect_recursive_call_args x n) \<subseteq> set (collect_recursive_call_args e n)"])
    fix x :: expr and s c
    assume "set (collect_recursive_call_args (Spanned x s) n) \<subseteq> set (collect_recursive_call_args e n)"
      and "c \<in> set (walk_children x)"
    then show "set (collect_recursive_call_args c n) \<subseteq> set (collect_recursive_call_args e n)"
      by (cases x) (auto simp: collect_recursive_call_args_def)
  qed simp
  with assms(2) show ?thesis by (auto simp: collect_recursive_call_args_def)
qed

lemma reads_integersD:
  assumes "reads_integers A num tv"
  shows "parse_i64 s = Some v \<Longrightarrow> num (rd_literal A (LInt s)) = v"
    and "num (rd_binop A Sub a b) = num a - num b"
    and "op = Gte \<or> op = Gt \<Longrightarrow> rd_binop A op a b = tv \<Longrightarrow> num a \<ge> num b"
    and "op = Lte \<or> op = Lt \<Longrightarrow> rd_binop A op a b = tv \<Longrightarrow> num a \<le> num b"
    and "rd_binop A And a b = tv \<Longrightarrow> a = tv \<and> b = tv"
  using assms unfolding reads_integers_def by (blast dest: less_imp_le)+

lemma literal_denotes:
  "reads_integers A num tv \<Longrightarrow> literal_value e = Some v \<Longrightarrow> num (denote A st e) = v"
  by (cases e) (auto simp: literal_value_def reads_integersD(1) split: expr.splits literal.splits)

lemma ident_denotes: "node e = Ident n \<Longrightarrow> denote A st e = current_store st n"
  by (cases e) auto

lemma constrained_non_negative:
  assumes "reads_integers A num tv"
  shows "expr_constrains_non_negative e n \<Longrightarrow> denote A st e = tv \<Longrightarrow> num (current_store st n) \<ge> 0"
proof (induction e n rule: expr_constrains_non_negative.induct)
  case (1 l op r s n)
  from 1(4) have t: "rd_binop A op (denote A st l) (denote A st r) = tv" by simp
  show ?case
  proof (cases "op = And")
    case True
    with t reads_integersD(5) [OF assms] have "denote A st l = tv" "denote A st r = tv" by blast+
    with 1(1-3) True show ?thesis by auto
  next
    case False
    with 1(3) consider (above) v where "op = Gte \<or> op = Gt" "node l = Ident n" "literal_value r = Some v" "v \<ge> 0"
      | (below) v where "op = Lte \<or> op = Lt" "node r = Ident n" "literal_value l = Some v" "v \<ge> 0"
      by (auto split: if_splits option.splits)
    then show ?thesis
    proof cases
      case above
      from reads_integersD(3) [OF assms above(1) t] show ?thesis
        using above literal_denotes [OF assms above(3)] ident_denotes [OF above(2)] by (metis order_trans)
    next
      case below
      from reads_integersD(4) [OF assms below(1) t] show ?thesis
        using below literal_denotes [OF assms below(3)] ident_denotes [OF below(2)] by (metis order_trans)
    qed
  qed
qed simp_all

text \<open>A call argument the check decides by arithmetic alone: not \<open>n - e\<close> for an \<open>e\<close> that is no literal,
  and not a field of \<open>n\<close>.\<close>

definition arithmetic_arg :: "expr \<Rightarrow> bool" where
  "arithmetic_arg a \<longleftrightarrow>
     (case a of BinOp l op r \<Rightarrow> op = Sub \<longrightarrow> literal_value r \<noteq> None | Field e g \<Rightarrow> False | _ \<Rightarrow> True)"

lemma decreasing_value:
  assumes "reads_integers A num tv" and "is_strictly_decreasing (Ident n) (node a)" and "arithmetic_arg (node a)"
  shows "num (denote A st a) < num (current_store st n)"
proof -
  from assms(2,3) obtain l r v s where a: "a = Spanned (BinOp l Sub r) s" "node l = Ident n" "literal_value r = Some v" "v > 0"
    by (cases a) (auto simp: is_strictly_decreasing_def arithmetic_arg_def literal_value_def
        split: expr.splits binop.splits literal.splits)
  with ident_denotes [OF a(2), of A st] literal_denotes [OF assms(1) a(3), of st] reads_integersD(2) [OF assms(1)]
  show ?thesis by simp
qed

lemma accepted_measure:
  assumes "check_function_totality tc f sp = ([], [])" and "\<not> is_partial tc f"
    and "extract_decreases_measure f = Some (MNatural e)" and "args \<in> set (call_sites f)"
  shows "is_well_founded e f \<and> (\<forall>a as. measured_args f e args = a # as \<longrightarrow> is_strictly_decreasing e a)"
proof -
  from assms(4) have rec: "list_ex (\<lambda>c. expr_contains_recursive_call (cl_body c) (fn_name f)) (fn_clauses f)"
    by (simp add: call_sites_def list_ex_iff contains_iff_collect) (metis empty_iff list.set(1))
  from assms(1-3) rec have "well_founded_errors f (MNatural e) sp = []"
    and none: "\<forall>x \<in> set (call_sites f). snd (call_site_result f (MNatural e) sp x) = []"
    by (auto simp: check_function_totality_def Let_def concat_map_Nil comp_def)
  moreover from none assms(4) have "snd (call_site_result f (MNatural e) sp args) = []" by blast
  ultimately show ?thesis
    by (auto simp: well_founded_errors_def call_site_result_def check_recursive_call_def
        split: if_splits list.splits decrease_check_result.splits)
qed

lemma measured_args_nth:
  assumes "distinct (map p_name ps)" and "i < length ps" and "i < length args" and "p_name (ps ! i) = n"
    and "fn_params f = ps"
  shows "measured_args f (Ident n) args = [node (args ! i)]"
proof -
  have "filter (\<lambda>(p, a). p_name p = n) (zip ps args) = [(ps ! i, args ! i)]"
    using assms(1-4)
  proof (induction ps arbitrary: i args)
    case (Cons p ps)
    then obtain a as where args: "args = a # as" by (cases args) auto
    show ?case
    proof (cases i)
      case 0
      with Cons.prems have "n = p_name p" "p_name p \<notin> p_name ` set ps" by simp_all
      then have "\<forall>q \<in> set ps. p_name q \<noteq> n" by (metis image_eqI)
      then have "filter (\<lambda>(p, a). p_name p = n) (zip ps as) = []"
        by (auto simp: filter_empty_conv dest: set_zip_leftD)
      with 0 Cons.prems args show ?thesis by simp
    next
      case (Suc j)
      with Cons.prems have "p_name p \<noteq> n" by (auto simp: nth_mem)
      with Suc Cons args show ?thesis by simp
    qed
  qed simp
  with assms(5) show ?thesis by (simp add: measured_args_def)
qed

text \<open>C9: A function of a file that passes the totality check and leaves nothing to the solver has no
  endless chain of recursive calls: over integers, the calls of its clauses that respect its requires
  clauses form a well-founded relation.  This is for a measure that is one numeric parameter, which no
  binder of the clauses shadows (\<open>shadowed_measure_accepted\<close>), and for call sites that give its
  argument, one that subtracts, if anything, a literal and is no field (\<open>variable_step_accepted\<close>).\<close>

theorem accepted_function_terminates:
  assumes "run_totality_checks sf = ([], [])" and "(f, sp) \<in> set (fn_defs_of sf)"
    and "\<not> is_partial (partial_functions sf) f"
    and "extract_decreases_measure f = Some (MNatural (Ident n))"
    and "distinct (map p_name (fn_params f))" and "i < length (fn_params f)" and "p_name (fn_params f ! i) = n"
    and "numeric_type (fn_params f ! i) \<or> ''Nat'' \<in> set (type_tokens (fn_params f ! i))"
    and "\<forall>args \<in> set (call_sites f). i < length args \<and> arithmetic_arg (node (args ! i))"
    and "\<forall>c \<in> set (fn_clauses f). n \<notin> set (binders (cl_body c))"
    and "reads_integers A num tv"
  shows "wf {(\<tau>, \<sigma>). admissible A num tv f \<sigma> \<and> admissible A num tv f \<tau> \<and> calls_with A f \<sigma> \<tau>}"
proof (rule wf_subset [OF wf_measure [of "\<lambda>\<sigma>. nat (num (\<sigma> n))"]], clarify)
  fix \<tau> \<sigma>
  from assms(1,2) have fn_ok: "check_function_totality (partial_functions sf) f sp = ([], [])"
    by (force simp: run_totality_checks_def Let_def concat_map_Nil comp_def intro: prod_eqI)
  assume \<tau>: "admissible A num tv f \<tau>" and "calls_with A f \<sigma> \<tau>"
  then obtain c st st' g args s where c: "c \<in> set (fn_clauses f)"
    and run: "side_by_side A (same_store \<sigma>) (same_store \<sigma>) (cl_body c) st st' (Spanned (Call g args) s)"
    and g: "callee g = Some (fn_name f)"
    and vals: "\<forall>i < length (fn_params f). i < length args \<longrightarrow> \<tau> (p_name (fn_params f ! i)) = denote A st (args ! i)"
    by (auto simp: calls_with_def)
  from reached_call_collected [OF run g] c have site: "args \<in> set (call_sites f)"
    by (auto simp: call_sites_def)
  with assms(9) have i: "i < length args" "arithmetic_arg (node (args ! i))" by auto
  from accepted_measure [OF fn_ok assms(3,4) site] have wf: "is_well_founded (Ident n) f"
    and dec: "is_strictly_decreasing (Ident n) (node (args ! i))"
    using measured_args_nth [OF assms(5,6) i(1) assms(7) refl] by auto
  have "current_store st n = \<sigma> n"
    using side_by_side_value [OF run] assms(10) c by (simp add: same_store_def)
  with decreasing_value [OF assms(11) dec i(2)] vals assms(6,7) i(1)
  have "num (\<tau> n) < num (\<sigma> n)" by metis
  moreover have "num (\<tau> n) \<ge> 0"
  proof -
    have "p = fn_params f ! i" if "p \<in> set (fn_params f)" "p_name p = n" for p
      using that assms(5-7) by (metis distinct_map inj_onD nth_mem)
    with wf assms(8) consider
        (req) d where "d \<in> set (fn_clauses f)" "cl_kind d = Requires" "expr_constrains_non_negative (cl_body d) n"
      | (nat) "''Nat'' \<in> set (type_tokens (fn_params f ! i))"
      by (auto simp: is_well_founded_def list_ex_iff)
    then show ?thesis
    proof cases
      case req
      with \<tau> constrained_non_negative [OF assms(11) req(3), of "same_store \<tau>"] show ?thesis
        by (simp add: admissible_def same_store_def)
    next
      case nat
      with \<tau> assms(6,7) show ?thesis by (auto simp: admissible_def)
    qed
  qed
  ultimately show "(\<tau>, \<sigma>) \<in> measure (\<lambda>\<sigma>. nat (num (\<sigma> n)))" by simp
qed

text \<open>A function over naturals that calls itself below a conditional.\<close>

definition countdown :: "sp_expr \<Rightarrow> clause list \<Rightarrow> fn_def" where
  "countdown arg extra = \<lparr>fn_name = ''f'', fn_is_ghost = False, fn_is_lemma = False,
     fn_params = [\<lparr>p_name = ''n'', p_ty = Some (TNamed ''Nat'')\<rparr>], fn_return_ty = None,
     fn_clauses = [\<lparr>cl_kind = Ensures, cl_body = no_span (IfE (var ''n'') (no_span (Call (var ''f'') [arg])) None),
                    cl_effect_variables = []\<rparr>,
                   \<lparr>cl_kind = Decreases, cl_body = var ''n'', cl_effect_variables = []\<rparr>] @ extra\<rparr>"

definition minus_expr :: "string \<Rightarrow> sp_expr \<Rightarrow> sp_expr" where
  "minus_expr x e = no_span (BinOp (var x) Sub e)"

definition one :: sp_expr where
  "one = no_span (Literal (LInt ''1''))"

definition fn_file :: "fn_def list \<Rightarrow> source_file" where
  "fn_file fs = \<lparr>sf_project = None, sf_module = None, sf_imports = [],
     sf_decls = map (\<lambda>f. \<lparr>sd_node = FnDef f, sd_span = (0, 1)\<rparr>) fs\<rparr>"

lemma fn_defs_of_file: "fn_defs_of (fn_file fs) = map (\<lambda>f. (f, (0, 1))) fs"
  by (induction fs) (simp_all add: fn_defs_of_def fn_file_def List.map_filter_simps)

lemma parse_one: "parse_i64 ''1'' = Some 1"
  by code_simp

lemmas totality_eval =
  run_totality_checks_def fn_defs_of_file partial_functions_def countdown_def no_span_def var_def minus_expr_def one_def
  check_function_totality_def is_partial_def extract_decreases_measure_def decreases_clauses_def callee_def
  well_founded_errors_def is_well_founded_def type_tokens_def call_sites_def collect_recursive_call_args_def
  call_site_result_def check_recursive_call_def measured_args_def is_strictly_decreasing_def parse_one Let_def

lemma int_reading_integers: "reads_integers int_reading id 1"
  by (auto simp: reads_integers_def int_reading_def split: if_splits)

lemma countdown_accepted: "run_totality_checks (fn_file [countdown (minus_expr ''n'' one) []]) = ([], [])"
  by (simp add: totality_eval)

lemma countdown_facts:
  "\<not> is_partial (partial_functions (fn_file [countdown a []])) (countdown a [])"
  "extract_decreases_measure (countdown a []) = Some (MNatural (Ident ''n''))"
  "distinct (map p_name (fn_params (countdown a [])))"
  "call_sites (countdown (minus_expr ''n'' one) []) = [[minus_expr ''n'' one]]"
  "arithmetic_arg (node (minus_expr ''n'' one))"
  "\<forall>c \<in> set (fn_clauses (countdown (minus_expr ''n'' one) [])). ''n'' \<notin> set (binders (cl_body c))"
  by (simp_all add: totality_eval arithmetic_arg_def literal_value_def binders_def)

lemma countdown_calls: "calls_with int_reading (countdown (minus_expr ''n'' one) []) (\<lambda>_. 5) (\<lambda>_. 4)"
proof -
  let ?st = "same_store (\<lambda>_. 5 :: int)"
  have "side_by_side int_reading ?st ?st
      (Spanned (IfE (var ''n'') (no_span (Call (var ''f'') [minus_expr ''n'' one])) None) (0, 0))
      ?st ?st (Spanned (Call (var ''f'') [minus_expr ''n'' one]) (0, 0))"
    by (rule side_by_side.part [where c = "Spanned (Call (var ''f'') [minus_expr ''n'' one]) (0, 0)"])
      (simp_all add: no_span_def side_by_side.here)
  moreover have "denote int_reading ?st (minus_expr ''n'' one) = 4"
    by (simp add: minus_expr_def one_def var_def no_span_def int_reading_def same_store_def parse_one)
  ultimately show ?thesis
    unfolding calls_with_def
    by (intro bexI [of _ "hd (fn_clauses (countdown (minus_expr ''n'' one) []))"] exI [of _ ?st]
        exI [of _ "var ''f''"] exI [of _ "[minus_expr ''n'' one]"] exI [of _ "(0, 0)"])
      (simp_all add: countdown_def no_span_def callee_def var_def)
qed

lemma accepted_function_terminates_witness:
  "run_totality_checks (fn_file [countdown (minus_expr ''n'' one) []]) = ([], []) \<and>
   calls_with int_reading (countdown (minus_expr ''n'' one) []) (\<lambda>_. 5) (\<lambda>_. 4) \<and>
   wf {(\<tau>, \<sigma>). admissible int_reading id 1 (countdown (minus_expr ''n'' one) []) \<sigma> \<and>
     admissible int_reading id 1 (countdown (minus_expr ''n'' one) []) \<tau> \<and>
     calls_with int_reading (countdown (minus_expr ''n'' one) []) \<sigma> \<tau>}"
proof (intro conjI)
  show "wf {(\<tau>, \<sigma>). admissible int_reading id 1 (countdown (minus_expr ''n'' one) []) \<sigma> \<and>
     admissible int_reading id 1 (countdown (minus_expr ''n'' one) []) \<tau> \<and>
     calls_with int_reading (countdown (minus_expr ''n'' one) []) \<sigma> \<tau>}"
    by (rule accepted_function_terminates [OF countdown_accepted _ countdown_facts(1-3), where i = 0 and sp = "(0, 1)"])
      (use countdown_facts(4-6) int_reading_integers in
        \<open>simp_all add: fn_defs_of_file, simp_all add: countdown_def type_tokens_def\<close>)
qed (rule countdown_accepted countdown_calls)+

section \<open>Where the check accepts too much\<close>

text \<open>\<open>n - m\<close> counts as smaller than \<open>n\<close> whatever \<open>m\<close> is, and a name bound again hides the parameter.\<close>

lemma variable_step_accepted:
  "run_totality_checks (fn_file [countdown (minus_expr ''n'' (var ''m'')) []]) = ([], [])"
  by (simp_all add: totality_eval)

lemma shadowed_measure_accepted:
  "check_recursive_call (countdown a []) (MNatural (Ident ''n'')) [minus_expr ''n'' one] sp = Proved"
  "collect_recursive_call_args (no_span (LetE ''n'' (no_span (BinOp (var ''n'') Add one))
     (no_span (Call (var ''f'') [minus_expr ''n'' one])))) ''f'' = [[minus_expr ''n'' one]]"
  by (simp_all add: totality_eval)

text \<open>One smaller component is enough for a lexicographic measure, also when an earlier one grows.\<close>

definition pair_fn :: fn_def where
  "pair_fn = \<lparr>fn_name = ''f'', fn_is_ghost = False, fn_is_lemma = False,
     fn_params = [\<lparr>p_name = ''a'', p_ty = Some (TNamed ''Nat'')\<rparr>, \<lparr>p_name = ''b'', p_ty = Some (TNamed ''Nat'')\<rparr>],
     fn_return_ty = None, fn_clauses = []\<rparr>"

lemma growing_component_accepted:
  "check_recursive_call pair_fn (MLexicographic [Ident ''a'', Ident ''b''])
     [no_span (BinOp (var ''a'') Add one), minus_expr ''b'' one] sp = Proved"
  "check_recursive_call pair_fn (MLexicographic [Ident ''a'', Ident ''b''])
     [minus_expr ''a'' one, no_span (BinOp (var ''b'') Add one)] sp = Proved"
  by (simp_all add: pair_fn_def totality_eval)

text \<open>A field is a well-founded measure, and a measure that is no parameter is never compared.\<close>

lemma field_measure_accepted:
  "is_well_founded (Field x g) f"
  "check_recursive_call f (MNatural (Field x g)) args sp = Proved"
  by (simp_all add: is_well_founded_def check_recursive_call_def measured_args_def)

text \<open>Mutual recursion is looked for in pairs: a cycle of three functions without measures passes.\<close>

definition caller :: "string \<Rightarrow> string \<Rightarrow> fn_def" where
  "caller n m = \<lparr>fn_name = n, fn_is_ghost = False, fn_is_lemma = False, fn_params = [], fn_return_ty = None,
     fn_clauses = [\<lparr>cl_kind = Ensures, cl_body = no_span (Call (var m) []), cl_effect_variables = []\<rparr>]\<rparr>"

lemma three_cycle_accepted:
  "run_totality_checks (fn_file [caller ''f'' ''g'', caller ''g'' ''h'', caller ''h'' ''f'']) = ([], [])"
  "run_totality_checks (fn_file [caller ''f'' ''g'', caller ''g'' ''f'']) \<noteq> ([], [])"
  by (simp_all add: totality_eval caller_def check_mutual_recursion_def fn_calls_def numeral_eq_Suc)

end
