(* ===== verification/Exhaustive.thy ===== *)
theory Exhaustive
  imports Checker_Base Type_Expr
begin

text \<open>
  Exhaustiveness of matches, \<open>crates/assura-types/src/domain/meta/match_exhaustiveness.rs\<close>: which
  variants the arms of a match leave out, and the walk over a file.  What an accepted match says is
  stated over the values of the enumeration.
\<close>

section \<open>Coverage\<close>

datatype match_pattern = MpVariant string | MpWildcard | MpLiteral literal

definition non_empty :: "'a list \<Rightarrow> 'a list option" where
  "non_empty xs = (if xs = [] then None else Some xs)"

definition covered :: "match_pattern list \<Rightarrow> string list" where
  "covered ps = List.map_filter (\<lambda>p. case p of MpVariant n \<Rightarrow> Some n | _ \<Rightarrow> None) ps"

definition check_exhaustiveness :: "match_pattern list \<Rightarrow> string list \<Rightarrow> string list option" where
  "check_exhaustiveness ps variants =
     (if MpWildcard \<in> set ps then None
      else non_empty (filter (\<lambda>v. v \<notin> set (covered ps)) variants))"

definition check_bool_exhaustiveness :: "match_pattern list \<Rightarrow> string list option" where
  "check_bool_exhaustiveness ps =
     (if MpWildcard \<in> set ps then None
      else non_empty ((if MpLiteral (LBool True) \<in> set ps then [] else [''true'']) @
                      (if MpLiteral (LBool False) \<in> set ps then [] else [''false''])))"

section \<open>The walk\<close>

definition enum_type_for_scrutinee_ident ::
  "string \<Rightarrow> (string, string list) hmap \<Rightarrow> (string, string) hmap \<Rightarrow> string option" where
  "enum_type_for_scrutinee_ident name enums params =
     (case hm_get params name of
        Some ty \<Rightarrow>
          if hm_contains_key enums ty then Some ty
          else if hm_contains_key enums name then Some name else None
      | None \<Rightarrow> if hm_contains_key enums name then Some name else None)"

fun simple_type_name :: "type_expr \<Rightarrow> string option" where
  "simple_type_name (TNamed n) = Some n"
| "simple_type_name (TGeneric n args) = Some n"
| "simple_type_name (TRefined base p) = simple_type_name base"
| "simple_type_name (TTuple ts) = None"
| "simple_type_name (TFn ps r) = None"
| "simple_type_name TUnit = None"

definition declare_simple_type :: "string \<Rightarrow> type_expr option \<Rightarrow> (string, string) hmap \<Rightarrow> (string, string) hmap" where
  "declare_simple_type n te params =
     (case te of
        Some t \<Rightarrow> (case simple_type_name t of Some tn \<Rightarrow> hm_insert n tn params | None \<Rightarrow> params)
      | None \<Rightarrow> params)"

fun pattern_of :: "pattern \<Rightarrow> match_pattern" where
  "pattern_of (PIdent n) = MpVariant n"
| "pattern_of PWildcard = MpWildcard"
| "pattern_of (PLiteral l) = MpLiteral l"
| "pattern_of (PConstructor n ps) = MpVariant n"
| "pattern_of (PTuple ps) = MpWildcard"

definition ascii_lower :: "string \<Rightarrow> string" where
  "ascii_lower s = map (\<lambda>c. if 65 \<le> (of_char c :: nat) \<and> (of_char c :: nat) \<le> 90
     then char_of ((of_char c :: nat) + 32) else c) s"

definition eq_ignore_ascii_case :: "string \<Rightarrow> string \<Rightarrow> bool" where
  "eq_ignore_ascii_case a b \<longleftrightarrow> ascii_lower a = ascii_lower b"

definition missing_error :: "string \<Rightarrow> string list option \<Rightarrow> span \<Rightarrow> type_error list" where
  "missing_error what missing sp =
     (case missing of
        Some vs \<Rightarrow> [type_error_at ''A10001'' (''non-exhaustive match'' @ what @ join '', '' vs) sp]
      | None \<Rightarrow> [])"

definition match_errors ::
  "span \<Rightarrow> (string, string list) hmap \<Rightarrow> (string, string) hmap \<Rightarrow> sp_expr \<Rightarrow> match_arm list \<Rightarrow> type_error list" where
  "match_errors sp enums params scrutinee arms =
     (let ps = map (pattern_of \<circ> arm_pattern) arms;
          enum_ty = (case node scrutinee of Ident n \<Rightarrow> enum_type_for_scrutinee_ident n enums params | _ \<Rightarrow> None);
          is_bool = (case node scrutinee of
             Ident n \<Rightarrow> (case hm_get params n of Some t \<Rightarrow> eq_ignore_ascii_case t ''Bool'' | None \<Rightarrow> False)
           | _ \<Rightarrow> False);
          variants = (case enum_ty of Some ty \<Rightarrow> hm_get enums ty | None \<Rightarrow> None)
      in (case variants of
            Some vs \<Rightarrow> missing_error '': missing variants '' (check_exhaustiveness ps vs) sp
          | None \<Rightarrow> []) @
         (if is_bool then missing_error '' on Bool: missing '' (check_bool_exhaustiveness ps) sp else []) @
         (if PWildcard \<notin> arm_pattern ` set arms \<and> enum_ty = None \<and> \<not> is_bool \<and> arms \<noteq> []
          then [type_error_at ''A10002''
            ''match expression on unknown type has no wildcard `_` arm; consider adding a catch-all pattern'' sp]
          else []))"

text \<open>The visitor runs the default traversal of a match before it looks at the match itself.\<close>

function check_match_exhaustiveness_expr ::
  "span \<Rightarrow> (string, string list) hmap \<Rightarrow> (string, string) hmap \<Rightarrow> sp_expr \<Rightarrow> type_error list" where
  "check_match_exhaustiveness_expr sp enums params (Spanned x s) =
     concat (map (check_match_exhaustiveness_expr sp enums params) (walk_children x)) @
     (case x of Match scrutinee arms \<Rightarrow> match_errors sp enums params scrutinee arms | _ \<Rightarrow> [])"
  by pat_completeness auto
termination
  by (relation "measure (\<lambda>(sp, enums, params, e). size e)") (auto dest!: walk_children_size)

definition enum_map :: "source_file \<Rightarrow> (string, string list) hmap" where
  "enum_map sf = fold (\<lambda>sd m. case sd_node sd of
     EnumDef e \<Rightarrow> hm_insert (ed_name e) (map ev_name (ed_variants e)) m | _ \<Rightarrow> m) (sf_decls sf) hm_empty"

fun match_params :: "decl \<Rightarrow> param list" where
  "match_params (Contract c) = ct_fn_params c"
| "match_params (FnDef f) = fn_params f"
| "match_params (Extern e) = ex_params e"
| "match_params _ = []"

definition input_clause_types :: "clause \<Rightarrow> (string, string) hmap \<Rightarrow> (string, string) hmap" where
  "input_clause_types c params =
     (if cl_kind c = Input \<or> cl_kind c = OtherClause ''input''
      then fold (\<lambda>p. declare_simple_type (pp_name p) (pp_ty p)) (extract_clause_params (cl_body c)) params
      else params)"

definition param_type_map :: "decl \<Rightarrow> clause list \<Rightarrow> (string, string) hmap" where
  "param_type_map d cs =
     fold input_clause_types cs
       (fold (\<lambda>p. declare_simple_type (p_name p) (p_ty p)) (match_params d) hm_empty)"

definition match_errors_of_decl :: "(string, string list) hmap \<Rightarrow> spanned_decl \<Rightarrow> type_error list" where
  "match_errors_of_decl enums sd =
     (case clauses_contract_fn_extern (sd_node sd) of
        None \<Rightarrow> []
      | Some cs \<Rightarrow> concat (map (\<lambda>c. check_match_exhaustiveness_expr (sd_span sd) enums
          (param_type_map (sd_node sd) cs) (cl_body c)) cs))"

definition run_match_exhaustiveness_source :: "source_file \<Rightarrow> type_error list" where
  "run_match_exhaustiveness_source sf = concat (map (match_errors_of_decl (enum_map sf)) (sf_decls sf))"

section \<open>Values and patterns\<close>

datatype mvalue = MVariant string "mvalue list" | MLiteral literal | MTuple "mvalue list"

text \<open>A name matches the variant it names, and any value when it names none.\<close>

fun pattern_matches :: "string list \<Rightarrow> pattern \<Rightarrow> mvalue \<Rightarrow> bool"
  and patterns_match :: "string list \<Rightarrow> pattern list \<Rightarrow> mvalue list \<Rightarrow> bool" where
  "pattern_matches vs PWildcard v \<longleftrightarrow> True"
| "pattern_matches vs (PIdent n) v \<longleftrightarrow> n \<in> set vs \<longrightarrow> (case v of MVariant m fs \<Rightarrow> m = n | _ \<Rightarrow> False)"
| "pattern_matches vs (PLiteral l) v \<longleftrightarrow> v = MLiteral l"
| "pattern_matches vs (PConstructor n ps) v \<longleftrightarrow>
     (case v of MVariant m fs \<Rightarrow> m = n \<and> patterns_match vs ps fs | _ \<Rightarrow> False)"
| "pattern_matches vs (PTuple ps) v \<longleftrightarrow> (case v of MTuple fs \<Rightarrow> patterns_match vs ps fs | _ \<Rightarrow> False)"
| "patterns_match vs [] [] \<longleftrightarrow> True"
| "patterns_match vs (p # ps) (v # fs) \<longleftrightarrow> pattern_matches vs p v \<and> patterns_match vs ps fs"
| "patterns_match vs _ _ \<longleftrightarrow> False"

definition irrefutable :: "string list \<Rightarrow> pattern \<Rightarrow> bool" where
  "irrefutable vs p \<longleftrightarrow> (case p of PWildcard \<Rightarrow> True | PIdent n \<Rightarrow> n \<notin> set vs | _ \<Rightarrow> False)"

definition variant_names :: "enum_def \<Rightarrow> string list" where
  "variant_names e = map ev_name (ed_variants e)"

definition enum_values :: "enum_def \<Rightarrow> mvalue set" where
  "enum_values e = {MVariant (ev_name v) fs | v fs. v \<in> set (ed_variants e) \<and> length fs = length (ev_fields v)}"

text \<open>An arm is flat when its constructor pattern does not look into the fields and is no tuple.\<close>

definition flat :: "enum_def \<Rightarrow> pattern \<Rightarrow> bool" where
  "flat e p \<longleftrightarrow>
     (case p of
        PConstructor n ps \<Rightarrow>
          list_all (irrefutable (variant_names e)) ps \<and>
          (\<forall>v \<in> set (ed_variants e). ev_name v = n \<longrightarrow> length ps = length (ev_fields v))
      | PTuple ps \<Rightarrow> False
      | _ \<Rightarrow> True)"

lemma irrefutable_matches:
  "list_all (irrefutable vs) ps \<Longrightarrow> length ps = length fs \<Longrightarrow> patterns_match vs ps fs"
  by (induction ps fs rule: list_induct2') (auto simp: irrefutable_def split: pattern.splits)

lemma covered_iff:
  "n \<in> set (covered (map (pattern_of \<circ> arm_pattern) arms)) \<longleftrightarrow>
     (\<exists>a \<in> set arms. arm_pattern a = PIdent n \<or> (\<exists>ps. arm_pattern a = PConstructor n ps))"
proof (induction arms)
  case Nil
  then show ?case by (simp add: covered_def List.map_filter_simps)
next
  case (Cons a arms)
  then show ?case by (cases "arm_pattern a") (auto simp: covered_def List.map_filter_simps)
qed

lemma flat_wildcard: "flat e p \<Longrightarrow> pattern_of p = MpWildcard \<longleftrightarrow> p = PWildcard"
  by (cases p) (auto simp: flat_def)

text \<open>On flat arms the check finds exactly the variants no arm matches.\<close>

lemma check_exhaustiveness_sound:
  assumes "check_exhaustiveness (map (pattern_of \<circ> arm_pattern) arms) (variant_names e) = None"
    and "\<forall>a \<in> set arms. flat e (arm_pattern a)" and "v \<in> enum_values e"
  shows "\<exists>a \<in> set arms. pattern_matches (variant_names e) (arm_pattern a) v"
proof (cases "\<exists>a \<in> set arms. arm_pattern a = PWildcard")
  case True
  then show ?thesis by force
next
  case False
  from assms(3) obtain w fs where v: "v = MVariant (ev_name w) fs" "w \<in> set (ed_variants e)"
    "length fs = length (ev_fields w)" by (auto simp: enum_values_def)
  have "MpWildcard \<notin> set (map (pattern_of \<circ> arm_pattern) arms)"
    using False assms(2) flat_wildcard by fastforce
  with assms(1) v(2) have "ev_name w \<in> set (covered (map (pattern_of \<circ> arm_pattern) arms))"
    by (auto simp: check_exhaustiveness_def non_empty_def variant_names_def filter_empty_conv split: if_splits)
  then obtain a where a: "a \<in> set arms"
    "arm_pattern a = PIdent (ev_name w) \<or> (\<exists>ps. arm_pattern a = PConstructor (ev_name w) ps)"
    by (auto simp only: covered_iff)
  from a(2) show ?thesis
  proof
    assume "\<exists>ps. arm_pattern a = PConstructor (ev_name w) ps"
    then obtain ps where p: "arm_pattern a = PConstructor (ev_name w) ps" by blast
    with assms(2) a(1) v(2,3) have "patterns_match (variant_names e) ps fs"
      by (intro irrefutable_matches) (force simp: flat_def)+
    with a(1) p v(1) show ?thesis by (intro bexI [of _ a]) simp_all
  qed (use a(1) v(1) in \<open>force intro!: bexI [of _ a]\<close>)
qed

lemma check_exhaustiveness_complete:
  assumes "check_exhaustiveness (map (pattern_of \<circ> arm_pattern) arms) (variant_names e) = Some missing"
    and "\<forall>a \<in> set arms. \<forall>n. arm_pattern a = PIdent n \<longrightarrow> n \<in> set (variant_names e)"
    and "w \<in> set (ed_variants e)" and "ev_name w \<in> set missing" and "a \<in> set arms"
  shows "\<not> pattern_matches (variant_names e) (arm_pattern a) (MVariant (ev_name w) fs)"
proof -
  from assms(1,4) have "ev_name w \<notin> set (covered (map (pattern_of \<circ> arm_pattern) arms))"
    and no: "MpWildcard \<notin> pattern_of ` arm_pattern ` set arms"
    by (auto simp: check_exhaustiveness_def non_empty_def image_comp split: if_splits)
  then have "arm_pattern a \<noteq> PIdent (ev_name w)" "\<And>ps. arm_pattern a \<noteq> PConstructor (ev_name w) ps"
    using assms(5) by (auto simp only: covered_iff)
  with assms(2,5) no show ?thesis by (cases "arm_pattern a") force+
qed

section \<open>What an accepted file says\<close>

text \<open>Every part of an expression, as the default traversal visits it.\<close>

definition every_node :: "unit hook" where
  "every_node x = ([], True)"

lemma walk_matches:
  "visits every_node e e' \<Longrightarrow> check_match_exhaustiveness_expr sp enums params e = [] \<Longrightarrow>
   check_match_exhaustiveness_expr sp enums params e' = []"
proof (induction every_node e e' rule: visits.induct)
  case (below e c e')
  then show ?case by (cases e) (auto simp: concat_eq_Nil_conv)
qed

lemma accepted_clause:
  assumes "run_match_exhaustiveness_source sf = []" and "sd \<in> set (sf_decls sf)"
    and "clauses_contract_fn_extern (sd_node sd) = Some cs" and "c \<in> set cs"
    and "visits every_node (cl_body c) (Spanned (Match scrutinee arms) s)"
  shows "match_errors (sd_span sd) (enum_map sf) (param_type_map (sd_node sd) cs) scrutinee arms = []"
proof -
  from assms(1,2) have "match_errors_of_decl (enum_map sf) sd = []"
    by (auto simp: run_match_exhaustiveness_source_def concat_eq_Nil_conv)
  with assms(3,4) have "check_match_exhaustiveness_expr (sd_span sd) (enum_map sf)
      (param_type_map (sd_node sd) cs) (cl_body c) = []"
    by (auto simp: match_errors_of_decl_def concat_eq_Nil_conv)
  from walk_matches [OF assms(5) this] show ?thesis by simp
qed

lemma missing_error_Nil [simp]: "missing_error what missing sp = [] \<longleftrightarrow> missing = None"
  by (simp add: missing_error_def split: option.splits)

text \<open>C12: Where the check of matches accepts a file, a match on a name of an enumeration type has an arm
  for every value of the type, as long as all its arms are flat: a constructor pattern binds all fields
  of its variant without looking into them, and no arm is a tuple pattern.  \<open>nested_pattern_accepted\<close>
  is an accepted match without this.\<close>

theorem accepted_match_covers:
  assumes "run_match_exhaustiveness_source sf = []" and "sd \<in> set (sf_decls sf)"
    and "clauses_contract_fn_extern (sd_node sd) = Some cs" and "c \<in> set cs"
    and "visits every_node (cl_body c) (Spanned (Match (Spanned (Ident x) sx) arms) s)"
    and "enum_type_for_scrutinee_ident x (enum_map sf) (param_type_map (sd_node sd) cs) = Some ty"
    and "hm_get (enum_map sf) ty = Some (variant_names e)"
    and "\<forall>a \<in> set arms. flat e (arm_pattern a)" and "v \<in> enum_values e"
  shows "\<exists>a \<in> set arms. pattern_matches (variant_names e) (arm_pattern a) v"
  using accepted_clause [OF assms(1-5)] assms(6-9)
  by (intro check_exhaustiveness_sound) (simp_all add: match_errors_def Let_def)

text \<open>A match on a Boolean parameter has an arm for both values.\<close>

lemma accepted_bool_match_covers:
  assumes "match_errors sp enums params (Spanned (Ident x) sx) arms = []" and "hm_get params x = Some ''Bool''"
    and "\<forall>a \<in> set arms. \<forall>ps. arm_pattern a \<noteq> PTuple ps"
  shows "\<exists>a \<in> set arms. pattern_matches [] (arm_pattern a) (MLiteral (LBool b))"
proof -
  from assms(1,2) have none: "check_bool_exhaustiveness (map (pattern_of \<circ> arm_pattern) arms) = None"
    by (simp add: match_errors_def eq_ignore_ascii_case_def Let_def)
  have lit: "pattern_of p = MpLiteral l \<longleftrightarrow> p = PLiteral l" for p l by (cases p) auto
  have wild: "pattern_of p = MpWildcard \<longleftrightarrow> p = PWildcard \<or> (\<exists>ps. p = PTuple ps)" for p by (cases p) auto
  from none have "MpWildcard \<in> pattern_of ` arm_pattern ` set arms \<or> MpLiteral (LBool b) \<in> pattern_of ` arm_pattern ` set arms"
    by (cases b) (auto simp: check_bool_exhaustiveness_def non_empty_def image_comp split: if_splits)
  then obtain a where "a \<in> set arms" "pattern_of (arm_pattern a) = MpWildcard \<or> pattern_of (arm_pattern a) = MpLiteral (LBool b)"
    by fastforce
  with assms(3) show ?thesis unfolding lit wild by force
qed

definition colour :: enum_def where
  "colour = \<lparr>ed_name = ''Colour'', ed_type_params = [], ed_variants =
     [\<lparr>ev_name = ''Red'', ev_fields = []\<rparr>, \<lparr>ev_name = ''Rgb'', ev_fields = [''Nat'', ''Nat'']\<rparr>]\<rparr>"

definition colour_match :: "pattern \<Rightarrow> sp_expr" where
  "colour_match p = no_span (Match (no_span (Ident ''c'')) [MatchArm (PIdent ''Red'') (no_span (Ident ''a'')), MatchArm p (no_span (Ident ''b''))])"

definition colour_decl :: "pattern \<Rightarrow> spanned_decl" where
  "colour_decl p = \<lparr>sd_node = FnDef \<lparr>fn_name = ''f'', fn_is_ghost = False, fn_is_lemma = False,
     fn_params = [\<lparr>p_name = ''c'', p_ty = Some (TNamed ''Colour'')\<rparr>], fn_return_ty = None,
     fn_clauses = [\<lparr>cl_kind = Ensures, cl_body = colour_match p, cl_effect_variables = []\<rparr>]\<rparr>, sd_span = (0, 1)\<rparr>"

definition colour_file :: "pattern \<Rightarrow> source_file" where
  "colour_file p = \<lparr>sf_project = None, sf_module = None, sf_imports = [],
     sf_decls = [\<lparr>sd_node = EnumDef colour, sd_span = (0, 1)\<rparr>, colour_decl p]\<rparr>"

lemmas colour_eval =
  run_match_exhaustiveness_source_def colour_file_def colour_decl_def colour_match_def colour_def no_span_def
  match_errors_of_decl_def enum_map_def hm_defs param_type_map_def declare_simple_type_def input_clause_types_def
  match_errors_def enum_type_for_scrutinee_ident_def check_exhaustiveness_def covered_def List.map_filter_simps
  non_empty_def missing_error_def Let_def variant_names_def eq_ignore_ascii_case_def ascii_lower_def

lemma colour_accepted:
  "run_match_exhaustiveness_source (colour_file (PConstructor ''Rgb'' [PWildcard, PIdent ''g''])) = []"
  by (simp add: colour_eval)

lemma accepted_match_covers_witness:
  "run_match_exhaustiveness_source (colour_file (PConstructor ''Rgb'' [PWildcard, PIdent ''g''])) = [] \<and>
   (\<exists>a \<in> set [MatchArm (PIdent ''Red'') (no_span (Ident ''a'')),
              MatchArm (PConstructor ''Rgb'' [PWildcard, PIdent ''g'']) (no_span (Ident ''b''))].
      pattern_matches (variant_names colour) (arm_pattern a) (MVariant ''Rgb'' [MLiteral (LInt ''1''), MLiteral (LInt ''2'')]))"
proof (rule conjI [OF colour_accepted])
  let ?p = "PConstructor ''Rgb'' [PWildcard, PIdent ''g'']"
  show "\<exists>a \<in> set [MatchArm (PIdent ''Red'') (no_span (Ident ''a'')), MatchArm ?p (no_span (Ident ''b''))].
      pattern_matches (variant_names colour) (arm_pattern a) (MVariant ''Rgb'' [MLiteral (LInt ''1''), MLiteral (LInt ''2'')])"
  proof (rule accepted_match_covers [OF colour_accepted])
    show "colour_decl ?p \<in> set (sf_decls (colour_file ?p))" by (simp add: colour_file_def)
    show "clauses_contract_fn_extern (sd_node (colour_decl ?p)) =
        Some [\<lparr>cl_kind = Ensures, cl_body = colour_match ?p, cl_effect_variables = []\<rparr>]"
      by (simp add: colour_decl_def)
    show "visits every_node (cl_body \<lparr>cl_kind = Ensures, cl_body = colour_match ?p, cl_effect_variables = []\<rparr>)
        (Spanned (Match (Spanned (Ident ''c'') (0, 0))
          [MatchArm (PIdent ''Red'') (no_span (Ident ''a'')), MatchArm ?p (no_span (Ident ''b''))]) (0, 0))"
      by (simp add: colour_match_def no_span_def visits.here)
    show "\<forall>a \<in> set [MatchArm (PIdent ''Red'') (no_span (Ident ''a'')), MatchArm ?p (no_span (Ident ''b''))].
        flat colour (arm_pattern a)"
      by (simp add: flat_def irrefutable_def variant_names_def colour_def)
    show "MVariant ''Rgb'' [MLiteral (LInt ''1''), MLiteral (LInt ''2'')] \<in> enum_values colour"
      by (force simp: enum_values_def colour_def)
  qed (simp_all add: colour_eval)
qed

section \<open>Where the check differs\<close>

text \<open>Patterns of the fields are not looked at, and a tuple pattern counts as a wildcard: both matches
  leave values out.\<close>

lemma nested_pattern_accepted:
  "run_match_exhaustiveness_source (colour_file (PConstructor ''Rgb'' [PLiteral (LInt ''0''), PWildcard])) = []"
  "run_match_exhaustiveness_source (colour_file (PTuple [])) = []"
  "\<not> pattern_matches (variant_names colour) (PConstructor ''Rgb'' [PLiteral (LInt ''0''), PWildcard])
     (MVariant ''Rgb'' [MLiteral (LInt ''1''), MLiteral (LInt ''2'')])"
  "\<not> pattern_matches (variant_names colour) (PTuple []) (MVariant ''Rgb'' fs)"
  by (simp_all add: colour_eval)

text \<open>A name that binds the value is taken for a variant: a match that covers everything is reported.\<close>

lemma binder_arm_reported:
  "map te_code (run_match_exhaustiveness_source (colour_file (PIdent ''other''))) = [''A10001'']"
  "pattern_matches (variant_names colour) (PIdent ''other'') v"
  by (simp_all add: colour_eval)

end
