(* ===== verification/Smt_Terms.thy ===== *)
theory Smt_Terms
  imports Prelude "HOL-Library.Signed_Division"
begin

text \<open>
  The integer terms the solver back ends of \<open>crates/assura-smt\<close> build, with their SMT-LIB
  meaning: the shell back end prints them (\<open>policy/encode_raw_ops_policy.rs\<close>,
  \<open>policy/encode_binop_policy.rs\<close>, \<open>policy/encode_method_policy.rs\<close>), the Z3 back end builds
  them through the crate \<open>z3\<close> (\<open>z3_backend/trunc_arith.rs\<close>, \<open>z3_backend/havoc_assume.rs\<close>,
  \<open>z3_backend/encoder/core_impl.rs\<close>), whose operations are documented to be those of SMT-LIB.
\<close>

section \<open>Terms\<close>

datatype smt_fun =
  FAdd | FSub | FMul | FDiv | FMod | FEq | FLt | FLe | FGt | FGe | FNot | FAnd | FOr | FIff | FImplies | FIte | FDistinct
| FUser string

datatype smt_term = SInt int | SBool bool | SSym string | SApp smt_fun "smt_term list"

fun fun_text :: "smt_fun \<Rightarrow> string" where
  "fun_text FAdd = ''+''"
| "fun_text FSub = ''-''"
| "fun_text FMul = ''*''"
| "fun_text FDiv = ''div''"
| "fun_text FMod = ''mod''"
| "fun_text FEq = ''=''"
| "fun_text FLt = ''<''"
| "fun_text FLe = ''<=''"
| "fun_text FGt = ''>''"
| "fun_text FGe = ''>=''"
| "fun_text FNot = ''not''"
| "fun_text FAnd = ''and''"
| "fun_text FOr = ''or''"
| "fun_text FIff = ''=''"
| "fun_text FImplies = ''=>''"
| "fun_text FIte = ''ite''"
| "fun_text FDistinct = ''distinct''"
| "fun_text (FUser f) = f"

text \<open>The text the shell back end writes for a term: \<open>format!("(f {a} {b})")\<close>.\<close>

fun render :: "smt_term \<Rightarrow> string" where
  "render (SInt n) = dec_int n"
| "render (SBool b) = (if b then ''true'' else ''false'')"
| "render (SSym x) = x"
| "render (SApp f ts) = ''('' @ fun_text f @ '' '' @ join '' '' (map render ts) @ '')''"

section \<open>Meaning\<close>

text \<open>
  A model gives the constants and the uninterpreted functions.  Division and remainder are the
  Euclidean ones of the SMT-LIB theory \<open>Ints\<close>: the remainder lies in \<open>0 .. |b| - 1\<close>; by zero
  they are any function, here an uninterpreted one.
\<close>

record smt_model =
  sm_var :: "string \<Rightarrow> int"
  sm_fun :: "string \<Rightarrow> int list \<Rightarrow> int"

definition euclid_div :: "int \<Rightarrow> int \<Rightarrow> int" where
  "euclid_div a b = (if b > 0 then a div b else - (a div (- b)))"

definition euclid_mod :: "int \<Rightarrow> int \<Rightarrow> int" where
  "euclid_mod a b = a mod \<bar>b\<bar>"

definition smt_div :: "smt_model \<Rightarrow> int \<Rightarrow> int \<Rightarrow> int" where
  "smt_div M a b = (if b = 0 then sm_fun M ''div'' [a, b] else euclid_div a b)"

definition smt_mod :: "smt_model \<Rightarrow> int \<Rightarrow> int \<Rightarrow> int" where
  "smt_mod M a b = (if b = 0 then sm_fun M ''mod'' [a, b] else euclid_mod a b)"

text \<open>
  A term has a sort; its value is kept as an integer and a truth value, of which the sort uses
  one.  Arguments a term lacks (no builder leaves one out) count as \<open>(0, False)\<close>.
\<close>

definition arg :: "(int \<times> bool) list \<Rightarrow> nat \<Rightarrow> int" where
  "arg vs i = (if i < length vs then fst (vs ! i) else 0)"

definition barg :: "(int \<times> bool) list \<Rightarrow> nat \<Rightarrow> bool" where
  "barg vs i = (i < length vs \<and> snd (vs ! i))"

fun int_op :: "smt_model \<Rightarrow> smt_fun \<Rightarrow> (int \<times> bool) list \<Rightarrow> int" where
  "int_op M FAdd vs = arg vs 0 + arg vs 1"
| "int_op M FSub vs = (if length vs = 1 then - arg vs 0 else arg vs 0 - arg vs 1)"
| "int_op M FMul vs = arg vs 0 * arg vs 1"
| "int_op M FDiv vs = smt_div M (arg vs 0) (arg vs 1)"
| "int_op M FMod vs = smt_mod M (arg vs 0) (arg vs 1)"
| "int_op M FIte vs = (if barg vs 0 then arg vs 1 else arg vs 2)"
| "int_op M (FUser f) vs = sm_fun M f (map fst vs)"
| "int_op M _ vs = 0"

fun bool_op :: "smt_fun \<Rightarrow> (int \<times> bool) list \<Rightarrow> bool" where
  "bool_op FEq vs \<longleftrightarrow> arg vs 0 = arg vs 1"
| "bool_op FDistinct vs \<longleftrightarrow> arg vs 0 \<noteq> arg vs 1"
| "bool_op FLt vs \<longleftrightarrow> arg vs 0 < arg vs 1"
| "bool_op FLe vs \<longleftrightarrow> arg vs 0 \<le> arg vs 1"
| "bool_op FGt vs \<longleftrightarrow> arg vs 0 > arg vs 1"
| "bool_op FGe vs \<longleftrightarrow> arg vs 0 \<ge> arg vs 1"
| "bool_op FNot vs \<longleftrightarrow> \<not> barg vs 0"
| "bool_op FAnd vs \<longleftrightarrow> list_all snd vs"
| "bool_op FOr vs \<longleftrightarrow> list_ex snd vs"
| "bool_op FImplies vs \<longleftrightarrow> (barg vs 0 \<longrightarrow> barg vs 1)"
| "bool_op FIff vs \<longleftrightarrow> barg vs 0 = barg vs 1"
| "bool_op _ vs \<longleftrightarrow> False"

fun eval_term :: "smt_model \<Rightarrow> smt_term \<Rightarrow> int \<times> bool" where
  "eval_term M (SInt n) = (n, False)"
| "eval_term M (SBool b) = (0, b)"
| "eval_term M (SSym x) = (sm_var M x, False)"
| "eval_term M (SApp f ts) =
     (int_op M f (map (eval_term M) ts), bool_op f (map (eval_term M) ts))"

definition ieval :: "smt_model \<Rightarrow> smt_term \<Rightarrow> int" where
  "ieval M t = fst (eval_term M t)"

definition beval :: "smt_model \<Rightarrow> smt_term \<Rightarrow> bool" where
  "beval M t = snd (eval_term M t)"

lemma arg_simps [simp]: "arg (v # vs) 0 = fst v" "arg (v # vs) (Suc n) = arg vs n" "arg [] n = 0"
  by (simp_all add: arg_def)

lemma barg_simps [simp]: "barg (v # vs) 0 = snd v" "barg (v # vs) (Suc n) = barg vs n" "barg [] n = False"
  by (simp_all add: barg_def)

lemma ieval_simps [simp]:
  "ieval M (SInt n) = n"
  "ieval M (SSym x) = sm_var M x"
  "ieval M (SApp FAdd [a, b]) = ieval M a + ieval M b"
  "ieval M (SApp FSub [a]) = - ieval M a"
  "ieval M (SApp FSub [a, b]) = ieval M a - ieval M b"
  "ieval M (SApp FMul [a, b]) = ieval M a * ieval M b"
  "ieval M (SApp FDiv [a, b]) = smt_div M (ieval M a) (ieval M b)"
  "ieval M (SApp FMod [a, b]) = smt_mod M (ieval M a) (ieval M b)"
  "ieval M (SApp FIte [c, a, b]) = (if beval M c then ieval M a else ieval M b)"
  "ieval M (SApp (FUser f) ts) = sm_fun M f (map (ieval M) ts)"
  by (simp_all add: ieval_def [abs_def] beval_def comp_def numeral_2_eq_2)

lemma beval_simps [simp]:
  "beval M (SBool p) = p"
  "beval M (SApp FEq [a, b]) \<longleftrightarrow> ieval M a = ieval M b"
  "beval M (SApp FDistinct [a, b]) \<longleftrightarrow> ieval M a \<noteq> ieval M b"
  "beval M (SApp FLt [a, b]) \<longleftrightarrow> ieval M a < ieval M b"
  "beval M (SApp FLe [a, b]) \<longleftrightarrow> ieval M a \<le> ieval M b"
  "beval M (SApp FGt [a, b]) \<longleftrightarrow> ieval M a > ieval M b"
  "beval M (SApp FGe [a, b]) \<longleftrightarrow> ieval M a \<ge> ieval M b"
  "beval M (SApp FNot [c]) \<longleftrightarrow> \<not> beval M c"
  "beval M (SApp FAnd cs) \<longleftrightarrow> list_all (beval M) cs"
  "beval M (SApp FOr cs) \<longleftrightarrow> list_ex (beval M) cs"
  "beval M (SApp FImplies [c, d]) \<longleftrightarrow> (beval M c \<longrightarrow> beval M d)"
  "beval M (SApp FIff [c, d]) \<longleftrightarrow> beval M c = beval M d"
  by (simp_all add: ieval_def beval_def [abs_def] list_all_iff list_ex_iff)

section \<open>Division and remainder\<close>

text \<open>
  Rust divides toward zero.  The shell back end corrects the quotient where the signs differ and
  the division is not exact, believing that \<open>div\<close> rounds down; the Z3 back end corrects it up
  for a negative dividend and a positive divisor and down where both are negative.
\<close>

definition rust_trunc_div_smtlib :: "smt_term \<Rightarrow> smt_term \<Rightarrow> smt_term" where
  "rust_trunc_div_smtlib lhs rhs =
     SApp FIte [SApp FOr [SApp FEq [SApp FMod [lhs, rhs], SInt 0],
                          SApp FIff [SApp FLt [lhs, SInt 0], SApp FLt [rhs, SInt 0]]],
       SApp FDiv [lhs, rhs], SApp FAdd [SApp FDiv [lhs, rhs], SInt 1]]"

definition rust_trunc_mod_smtlib :: "smt_term \<Rightarrow> smt_term \<Rightarrow> smt_term" where
  "rust_trunc_mod_smtlib lhs rhs =
     SApp FSub [lhs, SApp FMul [rhs, rust_trunc_div_smtlib lhs rhs]]"

definition z3_trunc_div :: "smt_term \<Rightarrow> smt_term \<Rightarrow> smt_term" where
  "z3_trunc_div lhs rhs =
     (let q = SApp FDiv [lhs, rhs];
          inexact = SApp FNot [SApp FEq [SApp FMod [lhs, rhs], SInt 0]];
          pos_div_floor = SApp FAnd [SApp FLt [lhs, SInt 0], SApp FGt [rhs, SInt 0], inexact];
          neg_div_ceil = SApp FAnd [SApp FLt [lhs, SInt 0], SApp FLt [rhs, SInt 0], inexact]
      in SApp FIte [pos_div_floor, SApp FAdd [q, SInt 1],
           SApp FIte [neg_div_ceil, SApp FSub [q, SInt 1], q]])"

definition z3_trunc_mod :: "smt_term \<Rightarrow> smt_term \<Rightarrow> smt_term" where
  "z3_trunc_mod lhs rhs = SApp FSub [lhs, SApp FMul [rhs, z3_trunc_div lhs rhs]]"

lemma trunc_from_euclid:
  assumes "b \<noteq> 0"
  shows "a sdiv b = (if a < 0 \<and> b > 0 \<and> euclid_mod a b \<noteq> 0 then euclid_div a b + 1
                     else if a < 0 \<and> b < 0 \<and> euclid_mod a b \<noteq> 0 then euclid_div a b - 1
                     else euclid_div a b)"
proof -
  have "b < 0 \<Longrightarrow> a mod b \<noteq> b" by (metis neg_mod_bound less_irrefl)
  with assms show ?thesis
    by (cases "a < 0"; cases "b < 0")
      (auto simp: signed_divide_int_def euclid_div_def euclid_mod_def sgn_if zdiv_zminus1_eq_if
        zdiv_zminus2_eq_if zmod_zminus1_eq_if zmod_zminus2_eq_if)
qed

lemma smod_from_sdiv: "(a::int) smod b = a - b * (a sdiv b)"
  by (rule minus_mult_sdiv_eq_smod [symmetric])

lemma z3_trunc_values:
  assumes "ieval M r \<noteq> 0"
  shows "ieval M (z3_trunc_div l r) = ieval M l sdiv ieval M r"
    and "ieval M (z3_trunc_mod l r) = ieval M l smod ieval M r"
proof -
  show "ieval M (z3_trunc_div l r) = ieval M l sdiv ieval M r"
    using assms by (auto simp: z3_trunc_div_def Let_def smt_div_def smt_mod_def trunc_from_euclid)
  then show "ieval M (z3_trunc_mod l r) = ieval M l smod ieval M r"
    by (simp add: z3_trunc_mod_def smod_from_sdiv)
qed

text \<open>C31: the quotient and the remainder the Z3 back end builds are Rust's, for every dividend and
  every divisor but zero.\<close>

theorem z3_trunc_correct:
  assumes "ieval M r \<noteq> 0"
  shows "ieval M (z3_trunc_div l r) = ieval M l sdiv ieval M r \<and>
         ieval M (z3_trunc_mod l r) = ieval M l smod ieval M r"
  using z3_trunc_values [OF assms] by simp

lemma z3_trunc_correct_witness:
  "ieval \<lparr>sm_var = (\<lambda>x. 0), sm_fun = (\<lambda>f vs. 0)\<rparr> (z3_trunc_div (SInt 5) (SInt (- 2))) = - 2 \<and>
   ieval \<lparr>sm_var = (\<lambda>x. 0), sm_fun = (\<lambda>f vs. 0)\<rparr> (z3_trunc_mod (SInt 5) (SInt (- 2))) = 1"
  using z3_trunc_correct [of "\<lparr>sm_var = (\<lambda>x. 0), sm_fun = (\<lambda>f vs. 0)\<rparr>" "SInt (- 2)" "SInt 5"] by (simp add: signed_divide_int_def signed_modulo_int_def)

text \<open>
  The shell back end is right for a positive divisor, and for an exact division; with a negative
  divisor the SMT-LIB quotient is not rounded down, and the correction is wrong in both cases.
\<close>

lemma smtlib_trunc_positive:
  assumes "ieval M r > 0"
  shows "ieval M (rust_trunc_div_smtlib l r) = ieval M l sdiv ieval M r"
    and "ieval M (rust_trunc_mod_smtlib l r) = ieval M l smod ieval M r"
proof -
  show "ieval M (rust_trunc_div_smtlib l r) = ieval M l sdiv ieval M r"
    using assms
    by (auto simp: rust_trunc_div_smtlib_def smt_div_def smt_mod_def trunc_from_euclid)
  then show "ieval M (rust_trunc_mod_smtlib l r) = ieval M l smod ieval M r"
    by (simp add: rust_trunc_mod_smtlib_def smod_from_sdiv)
qed

lemma smtlib_trunc_negative_divisor:
  "ieval M (rust_trunc_div_smtlib (SInt 5) (SInt (- 2))) = - 1" "(5::int) sdiv (- 2) = - 2"
  "ieval M (rust_trunc_div_smtlib (SInt (- 5)) (SInt (- 2))) = 3" "(- 5::int) sdiv (- 2) = 2"
  by (simp_all add: rust_trunc_div_smtlib_def smt_div_def smt_mod_def euclid_div_def euclid_mod_def
      signed_divide_int_def)

section \<open>Machine integers\<close>

definition wrap_machine_int :: "(nat \<times> bool) option \<Rightarrow> smt_term \<Rightarrow> smt_term" where
  "wrap_machine_int wrap term =
     (case wrap of
        None \<Rightarrow> term
      | Some (width, is_signed) \<Rightarrow>
          if width = 0 \<or> width > 64 then term
          else if \<not> is_signed then SApp FMod [term, SInt (2 ^ width)]
          else SApp FSub [SApp FMod [SApp FAdd [term, SInt (2 ^ (width - 1))], SInt (2 ^ width)],
                          SInt (2 ^ (width - 1))])"

text \<open>The reduction of an integer to a machine type, the reference: two's complement.\<close>

definition machine_value :: "(nat \<times> bool) option \<Rightarrow> int \<Rightarrow> int" where
  "machine_value wrap v =
     (case wrap of
        None \<Rightarrow> v
      | Some (width, is_signed) \<Rightarrow>
          if width = 0 \<or> width > 64 then v
          else if is_signed then signed_take_bit (width - 1) v else take_bit width v)"

lemma wrap_machine_value: "ieval M (wrap_machine_int wrap t) = machine_value wrap (ieval M t)"
  by (auto simp: wrap_machine_int_def machine_value_def smt_mod_def euclid_mod_def take_bit_eq_mod
      signed_take_bit_eq_take_bit_shift split: option.split)

text \<open>C32: the wrapped term has the two's complement value of the machine type: it is the unique
  representative of the value modulo \<open>2 ^ w\<close> in the range of an unsigned or a signed type.\<close>

theorem wrap_machine_correct: "ieval M (wrap_machine_int wrap t) = machine_value wrap (ieval M t)"
  by (rule wrap_machine_value)

end
