(* ===== verification/Fixed_Width.thy ===== *)
theory Fixed_Width
  imports Checker_Base Type_Expr Type_Core Smt_Terms
begin

text \<open>
  Fixed-width integers: \<open>crates/assura-types/src/checkers/fixed_width.rs\<close> (ranges, overflow, casts,
  signs, division by zero) and the walk over a file of \<open>domain/numeric.rs\<close>.  An \<open>i128\<close> is an \<open>int\<close> with its
  saturating operations written out.
\<close>

section \<open>Ranges\<close>

type_synonym fw_bindings = "(string, ty) hmap"

fun range_for_type :: "ty \<Rightarrow> (int \<times> int) option" where
  "range_for_type TyU8 = Some (0, 2 ^ 8 - 1)"
| "range_for_type TyU16 = Some (0, 2 ^ 16 - 1)"
| "range_for_type TyU32 = Some (0, 2 ^ 32 - 1)"
| "range_for_type TyU64 = Some (0, 2 ^ 64 - 1)"
| "range_for_type TyI8 = Some (- (2 ^ 7), 2 ^ 7 - 1)"
| "range_for_type TyI16 = Some (- (2 ^ 15), 2 ^ 15 - 1)"
| "range_for_type TyI32 = Some (- (2 ^ 31), 2 ^ 31 - 1)"
| "range_for_type TyI64 = Some (- (2 ^ 63), 2 ^ 63 - 1)"
| "range_for_type _ = None"

definition is_fixed_width :: "ty \<Rightarrow> bool" where
  "is_fixed_width t \<longleftrightarrow> range_for_type t \<noteq> None"

definition is_unsigned :: "ty \<Rightarrow> bool" where
  "is_unsigned t \<longleftrightarrow> t \<in> {TyU8, TyU16, TyU32, TyU64}"

definition is_signed :: "ty \<Rightarrow> bool" where
  "is_signed t \<longleftrightarrow> t \<in> {TyI8, TyI16, TyI32, TyI64}"

text \<open>The debug form of a type, for the types that have a range.\<close>

definition width_name :: "ty \<Rightarrow> string" where
  "width_name t = unwrap_or (map_of
     [(TyU8, ''U8''), (TyU16, ''U16''), (TyU32, ''U32''), (TyU64, ''U64''),
      (TyI8, ''I8''), (TyI16, ''I16''), (TyI32, ''I32''), (TyI64, ''I64'')] t) []"

definition sat128 :: "int \<Rightarrow> int" where
  "sat128 x = max (- (2 ^ 127)) (min (2 ^ 127 - 1) x)"

fun can_overflow :: "binop \<Rightarrow> int \<times> int \<Rightarrow> int \<times> int \<Rightarrow> int \<times> int \<Rightarrow> bool" where
  "can_overflow Add (a, b) (c, d) (lo, hi) \<longleftrightarrow> sat128 (a + c) < lo \<or> sat128 (b + d) > hi"
| "can_overflow Sub (a, b) (c, d) (lo, hi) \<longleftrightarrow> sat128 (a - d) < lo \<or> sat128 (b - c) > hi"
| "can_overflow Mul (a, b) (c, d) (lo, hi) \<longleftrightarrow>
     (let products = [sat128 (a * c), sat128 (a * d), sat128 (b * c), sat128 (b * d)]
      in fold min (tl products) (hd products) < lo \<or> fold max (tl products) (hd products) > hi)"
| "can_overflow _ _ _ _ \<longleftrightarrow> False"

definition is_safe_cast :: "ty \<Rightarrow> ty \<Rightarrow> bool" where
  "is_safe_cast from to =
     (case (range_for_type from, range_for_type to) of
        (Some (a, b), Some (lo, hi)) \<Rightarrow> a \<ge> lo \<and> b \<le> hi
      | _ \<Rightarrow> True)"

definition wider_range :: "int \<times> int \<Rightarrow> int \<times> int \<Rightarrow> int \<times> int" where
  "wider_range a b = (min (fst a) (fst b), max (snd a) (snd b))"

fun suggest_checked_alternative :: "binop \<Rightarrow> string" where
  "suggest_checked_alternative Add = ''checked_add''"
| "suggest_checked_alternative Sub = ''checked_sub''"
| "suggest_checked_alternative Mul = ''checked_mul''"
| "suggest_checked_alternative Div = ''checked_div''"
| "suggest_checked_alternative Mod = ''checked_rem''"
| "suggest_checked_alternative _ = ''checked operation''"

section \<open>Checks of one operation\<close>

definition width_error :: "string \<Rightarrow> string \<Rightarrow> span \<Rightarrow> checker_error" where
  "width_error code msg sp = \<lparr>ck_code = code, ck_message = msg, ck_span = sp\<rparr>"

definition range_text :: "int \<times> int \<Rightarrow> string" where
  "range_text r = ''['' @ dec_int (fst r) @ '', '' @ dec_int (snd r) @ '']''"

definition check_arithmetic_overflow :: "binop \<Rightarrow> ty \<Rightarrow> ty \<Rightarrow> span \<Rightarrow> checker_error option" where
  "check_arithmetic_overflow op l r sp =
     (if \<not> is_arithmetic op \<or> is_division_like op then None
      else case (range_for_type l, range_for_type r) of
        (Some lr, Some rr) \<Rightarrow>
          (let res = wider_range lr rr
           in if can_overflow op lr rr res
              then Some (width_error ''A10101''
                (''potential integer overflow: '' @ quoted (width_name l @ '' '' @ binop_as_str op @ '' '' @ width_name r) @
                 '' can exceed the target range '' @ range_text res @ ''; consider using '' @
                 quoted (suggest_checked_alternative op)) sp)
              else None)
      | _ \<Rightarrow> None)"

definition check_cast_safety :: "ty \<Rightarrow> ty \<Rightarrow> span \<Rightarrow> checker_error option" where
  "check_cast_safety from to sp =
     (if \<not> is_fixed_width from \<or> \<not> is_fixed_width to then None
      else if is_safe_cast from to then None
      else Some (width_error ''A10102''
        (''unsafe narrowing cast from '' @ quoted (width_name from) @ '' to '' @ quoted (width_name to) @
         '': source range '' @ range_text (unwrap_or (range_for_type from) (0, 0)) @
         '' does not fit in target range '' @ range_text (unwrap_or (range_for_type to) (0, 0)) @
         ''; add a bounds check before casting'') sp))"

definition check_signedness_mismatch :: "binop \<Rightarrow> ty \<Rightarrow> ty \<Rightarrow> span \<Rightarrow> checker_error option" where
  "check_signedness_mismatch op l r sp =
     (if \<not> is_comparison op then None
      else if \<not> is_fixed_width l \<or> \<not> is_fixed_width r then None
      else if is_signed l \<noteq> is_signed r
      then Some (width_error ''A10103''
        (''signed/unsigned mismatch in comparison: '' @ quoted (width_name l) @ '' vs '' @ quoted (width_name r) @
         ''; comparing signed and unsigned integers can produce unexpected results'') sp)
      else None)"

definition is_literal_zero :: "sp_expr \<Rightarrow> bool" where
  "is_literal_zero e = (case node e of Literal (LInt s) \<Rightarrow> s = ''0'' | _ \<Rightarrow> False)"

definition check_division_by_zero :: "binop \<Rightarrow> sp_expr \<Rightarrow> ty \<Rightarrow> span \<Rightarrow> checker_error option" where
  "check_division_by_zero op rhs l sp =
     (if \<not> is_division_like op then None
      else if \<not> is_fixed_width l then None
      else if is_literal_zero rhs
      then Some (width_error ''A10104''
        ((if op = Div then ''division'' else ''modulo'') @
         '' by zero: the divisor is a literal zero; add a guard `requires { divisor != 0 }` or use a checked alternative'') sp)
      else None)"

definition option_list :: "'a option \<Rightarrow> 'a list" where
  "option_list x = (case x of Some a \<Rightarrow> [a] | None \<Rightarrow> [])"

definition check_binop :: "binop \<Rightarrow> ty \<Rightarrow> ty \<Rightarrow> sp_expr \<Rightarrow> span \<Rightarrow> checker_error list" where
  "check_binop op l r rhs sp =
     option_list (check_arithmetic_overflow op l r sp) @ option_list (check_signedness_mismatch op l r sp) @
     option_list (check_division_by_zero op rhs l sp)"

section \<open>The walk over a file\<close>

definition token_to_fixed_width_type :: "string \<Rightarrow> ty option" where
  "token_to_fixed_width_type t = map_of
     [(''U8'', TyU8), (''u8'', TyU8), (''U16'', TyU16), (''u16'', TyU16), (''U32'', TyU32), (''u32'', TyU32),
      (''U64'', TyU64), (''u64'', TyU64), (''I8'', TyI8), (''i8'', TyI8), (''I16'', TyI16), (''i16'', TyI16),
      (''I32'', TyI32), (''i32'', TyI32), (''I64'', TyI64), (''i64'', TyI64)] t"

definition width_of_name :: "type_env \<Rightarrow> fw_bindings \<Rightarrow> string \<Rightarrow> ty option" where
  "width_of_name env b n =
     (case hm_get b n of
        Some t \<Rightarrow> if is_fixed_width t then Some t
          else (case env_lookup env n of Some t \<Rightarrow> if is_fixed_width t then Some t else None | None \<Rightarrow> None)
      | None \<Rightarrow> (case env_lookup env n of Some t \<Rightarrow> if is_fixed_width t then Some t else None | None \<Rightarrow> None))"

definition infer_fixed_width_type_ext :: "type_env \<Rightarrow> fw_bindings \<Rightarrow> sp_expr \<Rightarrow> ty option" where
  "infer_fixed_width_type_ext env b e =
     (case node e of
        Ident n \<Rightarrow> width_of_name env b n
      | Cast e ty \<Rightarrow> token_to_fixed_width_type ty
      | _ \<Rightarrow> None)"

definition binop_width_errors :: "type_env \<Rightarrow> fw_bindings \<Rightarrow> span \<Rightarrow> sp_expr \<Rightarrow> binop \<Rightarrow> sp_expr \<Rightarrow> checker_error list" where
  "binop_width_errors env b sp l op r =
     (case (infer_fixed_width_type_ext env b l, infer_fixed_width_type_ext env b r) of
        (Some lt, Some rt) \<Rightarrow> check_binop op lt rt r sp
      | (Some lt, None) \<Rightarrow> option_list (check_division_by_zero op r lt sp)
      | _ \<Rightarrow> [])"

definition cast_width_errors :: "type_env \<Rightarrow> fw_bindings \<Rightarrow> span \<Rightarrow> sp_expr \<Rightarrow> string \<Rightarrow> checker_error list" where
  "cast_width_errors env b sp inner ty =
     (case (infer_fixed_width_type_ext env b inner, token_to_fixed_width_type ty) of
        (Some from, Some to) \<Rightarrow> option_list (check_cast_safety from to sp)
      | _ \<Rightarrow> [])"

definition node_width_errors :: "type_env \<Rightarrow> fw_bindings \<Rightarrow> span \<Rightarrow> expr \<Rightarrow> checker_error list" where
  "node_width_errors env b sp x =
     (case x of
        BinOp l op r \<Rightarrow> binop_width_errors env b sp l op r
      | Cast inner ty \<Rightarrow> cast_width_errors env b sp inner ty
      | _ \<Rightarrow> [])"

function check_expr_fixed_width_full :: "type_env \<Rightarrow> fw_bindings \<Rightarrow> span \<Rightarrow> sp_expr \<Rightarrow> checker_error list" where
  "check_expr_fixed_width_full env b sp (Spanned x s) =
     concat (map (check_expr_fixed_width_full env b sp) (walk_children x)) @ node_width_errors env b sp x"
  by pat_completeness auto
termination
  by (relation "measure (\<lambda>(env, b, sp, e). size e)") (auto dest!: walk_children_size)

definition declare_width :: "param \<Rightarrow> fw_bindings \<Rightarrow> fw_bindings" where
  "declare_width p b =
     (case token_to_fixed_width_type (case p_ty p of Some t \<Rightarrow> to_display_string t | None \<Rightarrow> []) of
        Some t \<Rightarrow> hm_insert (p_name p) t b
      | None \<Rightarrow> b)"

definition width_bindings :: "param list \<Rightarrow> fw_bindings" where
  "width_bindings ps = fold declare_width ps hm_empty"

definition width_errors_of_decl :: "type_env \<Rightarrow> spanned_decl \<Rightarrow> type_error list" where
  "width_errors_of_decl env sd =
     (case runtime_decl_clauses_params (sd_node sd) of
        Some (cs, ps) \<Rightarrow> map type_error_of_checker_error
          (concat (map (\<lambda>c. check_expr_fixed_width_full env (width_bindings ps) (sd_span sd) (cl_body c)) cs))
      | None \<Rightarrow> [])"

definition check_fixed_width :: "type_env \<Rightarrow> source_file \<Rightarrow> type_error list" where
  "check_fixed_width env sf = concat (map (width_errors_of_decl env) (sf_decls sf))"

section \<open>Interval arithmetic\<close>

fun exact_op :: "binop \<Rightarrow> int \<Rightarrow> int \<Rightarrow> int" where
  "exact_op Sub x y = x - y"
| "exact_op Mul x y = x * y"
| "exact_op _ x y = x + y"

definition leaves_range :: "binop \<Rightarrow> int \<times> int \<Rightarrow> int \<times> int \<Rightarrow> int \<times> int \<Rightarrow> bool" where
  "leaves_range op l r res \<longleftrightarrow>
     (\<exists>x \<in> {fst l..snd l}. \<exists>y \<in> {fst r..snd r}. exact_op op x y < fst res \<or> exact_op op x y > snd res)"

lemma sat128_less: "- (2 ^ 127) < lo \<Longrightarrow> lo < 2 ^ 127 \<Longrightarrow> sat128 x < lo \<longleftrightarrow> x < lo"
  by (auto simp: sat128_def)

lemma sat128_greater: "- (2 ^ 127) \<le> hi \<Longrightarrow> hi < 2 ^ 127 - 1 \<Longrightarrow> hi < sat128 x \<longleftrightarrow> hi < x"
  by (auto simp: sat128_def)

lemma between_mult:
  fixes x :: int
  assumes "a \<le> x" and "x \<le> b"
  shows "min (a * y) (b * y) \<le> x * y" and "x * y \<le> max (a * y) (b * y)"
proof -
  have "min (a * y) (b * y) \<le> x * y \<and> x * y \<le> max (a * y) (b * y)"
  proof (cases "0 \<le> y")
    case True
    then have "a * y \<le> x * y" "x * y \<le> b * y" using assms by (simp_all add: mult_right_mono)
    then show ?thesis by linarith
  next
    case False
    then have "b * y \<le> x * y" "x * y \<le> a * y" using assms by (simp_all add: mult_right_mono_neg)
    then show ?thesis by linarith
  qed
  then show "min (a * y) (b * y) \<le> x * y" and "x * y \<le> max (a * y) (b * y)" by simp_all
qed

lemma product_bounds:
  fixes x :: int
  assumes x: "a \<le> x" "x \<le> b" and y: "c \<le> y" "y \<le> d"
  shows "min (min (a * c) (a * d)) (min (b * c) (b * d)) \<le> x * y"
    and "x * y \<le> max (max (a * c) (a * d)) (max (b * c) (b * d))"
  using between_mult [OF x, of y] between_mult [OF y, of a] between_mult [OF y, of b]
  by (simp_all add: mult.commute min_def max_def split: if_splits)

lemma product_leaves:
  fixes a :: int
  assumes "a \<le> b" and "c \<le> d"
  shows "(a * c < lo \<or> a * d < lo \<or> b * c < lo \<or> b * d < lo) \<or>
      (a * c > hi \<or> a * d > hi \<or> b * c > hi \<or> b * d > hi) \<longleftrightarrow>
    leaves_range Mul (a, b) (c, d) (lo, hi)"
proof
  assume "leaves_range Mul (a, b) (c, d) (lo, hi)"
  then obtain x y where "a \<le> x" "x \<le> b" "c \<le> y" "y \<le> d" "x * y < lo \<or> x * y > hi"
    by (auto simp: leaves_range_def)
  with product_bounds [of a x b c y d] show "(a * c < lo \<or> a * d < lo \<or> b * c < lo \<or> b * d < lo) \<or>
      (a * c > hi \<or> a * d > hi \<or> b * c > hi \<or> b * d > hi)"
    by linarith
next
  assume "(a * c < lo \<or> a * d < lo \<or> b * c < lo \<or> b * d < lo) \<or>
      (a * c > hi \<or> a * d > hi \<or> b * c > hi \<or> b * d > hi)"
  moreover have wit: "leaves_range Mul (a, b) (c, d) (lo, hi)"
    if "x \<in> {a..b}" "y \<in> {c..d}" "x * y < lo \<or> x * y > hi" for x y
    unfolding leaves_range_def using that by (intro bexI [of _ x] bexI [of _ y]) simp_all
  ultimately show "leaves_range Mul (a, b) (c, d) (lo, hi)"
    using assms wit [of a c] wit [of a d] wit [of b c] wit [of b d] by auto
qed

text \<open>C39: the check of ranges is exact: for an addition, subtraction or multiplication of operands
  from two nonempty ranges it reports an overflow exactly when some pair of values of the ranges has an
  exact result outside the target range, though the code computes the corners in saturating 128-bit
  arithmetic.  The target range must not touch the ends of that arithmetic.\<close>

theorem can_overflow_exact:
  assumes "op \<in> {Add, Sub, Mul}" and "a \<le> b" and "c \<le> d"
    and "- (2 ^ 127) < lo" and "lo \<le> hi" and "hi < 2 ^ 127 - 1"
  shows "can_overflow op (a, b) (c, d) (lo, hi) \<longleftrightarrow> leaves_range op (a, b) (c, d) (lo, hi)"
proof -
  have sat: "sat128 x < lo \<longleftrightarrow> x < lo" "hi < sat128 x \<longleftrightarrow> hi < x" for x
    using assms(4-6) by (simp_all add: sat128_less sat128_greater)
  from assms(1) consider "op = Add" | "op = Sub" | "op = Mul" by blast
  then show ?thesis
  proof cases
    case 1
    have "(\<exists>x \<in> {a..b}. \<exists>y \<in> {c..d}. x + y < lo \<or> x + y > hi) \<longleftrightarrow> a + c < lo \<or> b + d > hi"
    proof
      assume "a + c < lo \<or> b + d > hi"
      then show "\<exists>x \<in> {a..b}. \<exists>y \<in> {c..d}. x + y < lo \<or> x + y > hi"
        using assms(2,3) by (metis atLeastAtMost_iff order_refl)
    qed force
    with 1 show ?thesis by (simp add: leaves_range_def sat)
  next
    case 2
    have "(\<exists>x \<in> {a..b}. \<exists>y \<in> {c..d}. x - y < lo \<or> x - y > hi) \<longleftrightarrow> a - d < lo \<or> b - c > hi"
    proof
      assume "a - d < lo \<or> b - c > hi"
      then show "\<exists>x \<in> {a..b}. \<exists>y \<in> {c..d}. x - y < lo \<or> x - y > hi"
        using assms(2,3) by (metis atLeastAtMost_iff order_refl)
    qed force
    with 2 show ?thesis by (simp add: leaves_range_def sat)
  next
    case 3
    with product_leaves [OF assms(2,3), of lo hi] show ?thesis
      by (simp add: sat Let_def min_less_iff_disj less_max_iff_disj) blast
  qed
qed

lemma can_overflow_exact_witness:
  "leaves_range Mul (- 128, 127) (0, 2) (- 256, 253) \<and> \<not> leaves_range Mul (- 128, 127) (0, 2) (- 256, 254)"
  using can_overflow_exact [of Mul "- 128" 127 0 2 "- 256" 253] can_overflow_exact [of Mul "- 128" 127 0 2 "- 256" 254]
  by (simp add: sat128_def)

text \<open>A sum, a difference or a product of two operands with a type always leaves the wider range.\<close>

definition width_types :: "ty list" where
  "width_types = [TyU8, TyU16, TyU32, TyU64, TyI8, TyI16, TyI32, TyI64]"

lemma width_types_iff: "t \<in> set width_types \<longleftrightarrow> is_fixed_width t"
  by (cases t) (simp_all add: width_types_def is_fixed_width_def)

lemma ranges_overflow:
  "list_all (\<lambda>l. list_all (\<lambda>r. list_all (\<lambda>op. can_overflow op (the (range_for_type l)) (the (range_for_type r))
       (wider_range (the (range_for_type l)) (the (range_for_type r)))) [Add, Sub, Mul]) width_types) width_types"
  by code_simp

lemma every_typed_operation_overflows:
  assumes "op \<in> {Add, Sub, Mul}" and "is_fixed_width l" and "is_fixed_width r"
  shows "check_arithmetic_overflow op l r sp \<noteq> None"
proof -
  have "can_overflow op (the (range_for_type l)) (the (range_for_type r))
      (wider_range (the (range_for_type l)) (the (range_for_type r)))"
    using ranges_overflow assms by (simp only: list_all_iff width_types_iff set_simps)
  with assms show ?thesis
    by (auto simp: check_arithmetic_overflow_def is_fixed_width_def is_arithmetic_def is_division_like_def Let_def)
qed

section \<open>Values\<close>

text \<open>\<open>cast_value\<close> is two's complement; \<open>machine_read\<close> reads an operand with the casts of the machine,
  where \<open>\<sigma>\<close> gives the values of names and \<open>A\<close> those of all other operands.\<close>

fun width_bits :: "ty \<Rightarrow> (nat \<times> bool) option" where
  "width_bits TyU8 = Some (8, False)"
| "width_bits TyU16 = Some (16, False)"
| "width_bits TyU32 = Some (32, False)"
| "width_bits TyU64 = Some (64, False)"
| "width_bits TyI8 = Some (8, True)"
| "width_bits TyI16 = Some (16, True)"
| "width_bits TyI32 = Some (32, True)"
| "width_bits TyI64 = Some (64, True)"
| "width_bits _ = None"

definition cast_value :: "ty \<Rightarrow> int \<Rightarrow> int" where
  "cast_value t v = machine_value (width_bits t) v"

definition in_range :: "ty \<Rightarrow> int \<Rightarrow> bool" where
  "in_range t v \<longleftrightarrow> (case range_for_type t of Some (lo, hi) \<Rightarrow> lo \<le> v \<and> v \<le> hi | None \<Rightarrow> True)"

lemma cast_value_same: "is_fixed_width t \<Longrightarrow> in_range t v \<Longrightarrow> cast_value t v = v"
  by (cases t) (simp_all add: is_fixed_width_def cast_value_def machine_value_def in_range_def
      take_bit_int_eq_self signed_take_bit_int_eq_self)

lemma cast_value_in_range: "in_range t (cast_value t v)"
  using signed_take_bit_int_greater_eq_minus_exp [of 7 v] signed_take_bit_int_less_exp [of 7 v]
    signed_take_bit_int_greater_eq_minus_exp [of 15 v] signed_take_bit_int_less_exp [of 15 v]
    signed_take_bit_int_greater_eq_minus_exp [of 31 v] signed_take_bit_int_less_exp [of 31 v]
    signed_take_bit_int_greater_eq_minus_exp [of 63 v] signed_take_bit_int_less_exp [of 63 v]
    take_bit_int_less_exp [of 8 v] take_bit_int_less_exp [of 16 v] take_bit_int_less_exp [of 32 v] take_bit_int_less_exp [of 64 v]
  by (cases t) (simp_all add: cast_value_def machine_value_def in_range_def)

lemma safe_cast_in_range: "is_fixed_width from \<Longrightarrow> is_fixed_width to \<Longrightarrow> is_safe_cast from to \<Longrightarrow> in_range from v \<Longrightarrow> in_range to v"
  by (auto simp: is_safe_cast_def in_range_def is_fixed_width_def)

lemma same_sign_nested:
  "list_all (\<lambda>l. list_all (\<lambda>r. is_signed l = is_signed r \<longrightarrow> is_safe_cast l r \<or> is_safe_cast r l) width_types) width_types"
  by code_simp

fun machine_read :: "(string \<Rightarrow> int) \<Rightarrow> (sp_expr \<Rightarrow> int) \<Rightarrow> sp_expr \<Rightarrow> int" where
  "machine_read \<sigma> A (Spanned (Ident n) s) = \<sigma> n"
| "machine_read \<sigma> A (Spanned (Cast e ty) s) =
     (case token_to_fixed_width_type ty of
        Some t \<Rightarrow> cast_value t (machine_read \<sigma> A e)
      | None \<Rightarrow> A (Spanned (Cast e ty) s))"
| "machine_read \<sigma> A e = A e"

fun plain_read :: "(string \<Rightarrow> int) \<Rightarrow> (sp_expr \<Rightarrow> int) \<Rightarrow> sp_expr \<Rightarrow> int" where
  "plain_read \<sigma> A (Spanned (Ident n) s) = \<sigma> n"
| "plain_read \<sigma> A (Spanned (Cast e ty) s) =
     (case token_to_fixed_width_type ty of
        Some t \<Rightarrow> plain_read \<sigma> A e
      | None \<Rightarrow> A (Spanned (Cast e ty) s))"
| "plain_read \<sigma> A e = A e"

text \<open>A name with a fixed-width type, or casts of one.\<close>

fun typed_operand :: "type_env \<Rightarrow> fw_bindings \<Rightarrow> sp_expr \<Rightarrow> bool" where
  "typed_operand env b (Spanned (Ident n) s) \<longleftrightarrow> width_of_name env b n \<noteq> None"
| "typed_operand env b (Spanned (Cast e ty) s) \<longleftrightarrow> token_to_fixed_width_type ty \<noteq> None \<and> typed_operand env b e"
| "typed_operand env b _ \<longleftrightarrow> False"

definition everywhere :: "unit hook" where
  "everywhere x = ([], True)"

lemma width_of_name_fixed: "width_of_name env b n = Some t \<Longrightarrow> is_fixed_width t"
  by (auto simp: width_of_name_def split: option.splits if_splits)

lemma token_fixed: "token_to_fixed_width_type ty = Some t \<Longrightarrow> is_fixed_width t"
  by (auto simp: token_to_fixed_width_type_def is_fixed_width_def split: if_splits)

lemma clean_below: "visits everywhere e e' \<Longrightarrow> check_expr_fixed_width_full env b sp e = [] \<Longrightarrow>
    check_expr_fixed_width_full env b sp e' = []"
proof (induction everywhere e e' rule: visits.induct)
  case (below e c e')
  then show ?case by (cases e) simp
qed simp

lemma clean_node: "check_expr_fixed_width_full env b sp e = [] \<Longrightarrow> node_width_errors env b sp (node e) = []"
  by (cases e) simp

lemma typed_operand_inferred: "typed_operand env b e \<Longrightarrow> infer_fixed_width_type_ext env b e \<noteq> None"
  by (cases "(env, b, e)" rule: typed_operand.cases) (auto simp: infer_fixed_width_type_ext_def)

lemma clean_operand:
  "\<forall>n t. width_of_name env b n = Some t \<longrightarrow> in_range t (\<sigma> n) \<Longrightarrow>
   check_expr_fixed_width_full env b sp e = [] \<Longrightarrow> typed_operand env b e \<Longrightarrow>
    \<exists>t. infer_fixed_width_type_ext env b e = Some t \<and> is_fixed_width t \<and>
      machine_read \<sigma> A e = plain_read \<sigma> A e \<and> in_range t (machine_read \<sigma> A e)"
proof (induction env b e rule: typed_operand.induct)
  case (1 env b n s)
  then show ?case by (auto simp: infer_fixed_width_type_ext_def width_of_name_fixed)
next
  case (2 env b e ty s)
  then obtain to where to: "token_to_fixed_width_type ty = Some to" and "typed_operand env b e" by auto
  with 2 obtain src where src: "infer_fixed_width_type_ext env b e = Some src" "is_fixed_width src"
    and same: "machine_read \<sigma> A e = plain_read \<sigma> A e" and range: "in_range src (machine_read \<sigma> A e)" by auto
  have "is_safe_cast src to"
    using "2.prems"(2) src to token_fixed [OF to]
    by (auto simp: node_width_errors_def cast_width_errors_def check_cast_safety_def option_list_def split: if_splits)
  with src range token_fixed [OF to] have "in_range to (machine_read \<sigma> A e)"
    by (auto intro: safe_cast_in_range)
  with to token_fixed [OF to] same show ?case
    by (simp add: infer_fixed_width_type_ext_def cast_value_same)
qed simp_all

lemma common_width:
  assumes "is_fixed_width l" and "is_fixed_width r" and "is_signed l = is_signed r"
  shows "is_safe_cast l r \<or> is_safe_cast r l"
  using same_sign_nested assms by (simp add: list_all_iff width_types_iff)

lemma clean_binop:
  assumes "binop_width_errors env b sp l op r = []"
    and "infer_fixed_width_type_ext env b l = Some lt" and "infer_fixed_width_type_ext env b r = Some rt"
    and "is_fixed_width lt" and "is_fixed_width rt"
  shows "op \<notin> {Add, Sub, Mul}" and "is_comparison op \<Longrightarrow> is_signed lt = is_signed rt"
  using assms every_typed_operation_overflows [of op lt rt sp]
  by (auto simp: binop_width_errors_def check_binop_def option_list_def check_signedness_mismatch_def
      split: option.splits if_splits)

text \<open>C14: In a file the fixed-width check accepts, take any operand of a clause that is a name with a fixed-width
  type or a chain of fixed-width casts of one.  If the names have values of their types, every cast in it
  keeps the value.  Two such operands are never added, subtracted or multiplied, and where they are
  compared one machine type holds both values.\<close>

theorem accepted_casts_keep_values:
  assumes "check_fixed_width env sf = []" and "sd \<in> set (sf_decls sf)"
    and "runtime_decl_clauses_params (sd_node sd) = Some (cs, ps)" and "c \<in> set cs"
    and "\<forall>n t. width_of_name env (width_bindings ps) n = Some t \<longrightarrow> in_range t (\<sigma> n)"
    and "visits everywhere (cl_body c) e"
  shows "(typed_operand env (width_bindings ps) e \<longrightarrow> machine_read \<sigma> A e = plain_read \<sigma> A e) \<and>
    (\<forall>l op r. node e = BinOp l op r \<and> typed_operand env (width_bindings ps) l \<and>
        typed_operand env (width_bindings ps) r \<longrightarrow>
      op \<notin> {Add, Sub, Mul} \<and>
      (is_comparison op \<longrightarrow> (\<exists>t. is_fixed_width t \<and> cast_value t (machine_read \<sigma> A l) = plain_read \<sigma> A l \<and>
         cast_value t (machine_read \<sigma> A r) = plain_read \<sigma> A r)))"
proof -
  let ?b = "width_bindings ps" and ?check = "check_expr_fixed_width_full env (width_bindings ps) (sd_span sd)"
  have "?check (cl_body c) = []"
    using assms(1-4) by (auto simp: check_fixed_width_def width_errors_of_decl_def)
  then have clean: "?check e = []" by (rule clean_below [OF assms(6)])
  note operand = clean_operand [OF assms(5), where A = A]
  have "op \<notin> {Add, Sub, Mul} \<and>
      (is_comparison op \<longrightarrow> (\<exists>t. is_fixed_width t \<and> cast_value t (machine_read \<sigma> A l) = plain_read \<sigma> A l \<and>
         cast_value t (machine_read \<sigma> A r) = plain_read \<sigma> A r))"
    if e: "node e = BinOp l op r" and typed: "typed_operand env ?b l" "typed_operand env ?b r" for l op r
  proof -
    have "?check l = []" "?check r = []" using clean e by (cases e; simp)+
    from operand [OF this(1) typed(1)] operand [OF this(2) typed(2)] obtain lt rt
      where l: "infer_fixed_width_type_ext env ?b l = Some lt" "is_fixed_width lt"
        "machine_read \<sigma> A l = plain_read \<sigma> A l" "in_range lt (machine_read \<sigma> A l)"
        and r: "infer_fixed_width_type_ext env ?b r = Some rt" "is_fixed_width rt"
        "machine_read \<sigma> A r = plain_read \<sigma> A r" "in_range rt (machine_read \<sigma> A r)" by blast
    have "binop_width_errors env ?b (sd_span sd) l op r = []"
      using clean_node [OF clean] e by (simp add: node_width_errors_def)
    note op = clean_binop [OF this l(1) r(1) l(2) r(2)]
    have "\<exists>t. is_fixed_width t \<and> in_range t (machine_read \<sigma> A l) \<and> in_range t (machine_read \<sigma> A r)"
      if "is_comparison op"
      using common_width [OF l(2) r(2) op(2) [OF that]] l(2,4) r(2,4) by (metis safe_cast_in_range)
    with op(1) l(3) r(3) show ?thesis by (metis cast_value_same)
  qed
  with operand [OF clean] show ?thesis by blast
qed

definition name_expr :: "string \<Rightarrow> sp_expr" where
  "name_expr n = no_span (Ident n)"

definition xy_params :: "param list" where
  "xy_params = [\<lparr>p_name = ''x'', p_ty = Some (TNamed ''U8'')\<rparr>, \<lparr>p_name = ''y'', p_ty = Some (TNamed ''U16'')\<rparr>]"

definition widths_file :: "sp_expr \<Rightarrow> source_file" where
  "widths_file body = \<lparr>sf_project = None, sf_module = None, sf_imports = [],
     sf_decls = [\<lparr>sd_node = FnDef \<lparr>fn_name = ''f'', fn_is_ghost = False, fn_is_lemma = False,
        fn_params = xy_params, fn_return_ty = None, fn_clauses = [\<lparr>cl_kind = Ensures, cl_body = body, cl_effect_variables = []\<rparr>]\<rparr>,
        sd_span = (0, 1)\<rparr>]\<rparr>"

definition widening_body :: sp_expr where
  "widening_body = no_span (BinOp (no_span (Cast (name_expr ''x'') ''U16'')) Lte (name_expr ''y''))"

definition xy_bindings :: fw_bindings where
  "xy_bindings = [(''x'', TyU8), (''y'', TyU16)]"

lemma widening_facts:
  "check_fixed_width env_new (widths_file widening_body) = []"
  "width_bindings xy_params = xy_bindings"
  "typed_operand env_new xy_bindings (name_expr ''y'')"
  "typed_operand env_new xy_bindings (no_span (Cast (name_expr ''x'') ''U16''))"
  by code_simp+

lemma widening_values:
  "\<forall>n t. width_of_name env_new xy_bindings n = Some t \<longrightarrow> in_range t (if n = ''x'' then 200 else 300)"
  by (auto simp: width_of_name_def xy_bindings_def hm_get_def env_lookup_def env_new_def in_range_def
      is_fixed_width_def hm_empty_def split: if_splits)

lemma accepted_casts_keep_values_witness:
  "check_fixed_width env_new (widths_file widening_body) = [] \<and>
   (\<exists>t. is_fixed_width t \<and>
      cast_value t (machine_read (\<lambda>n. if n = ''x'' then 200 else 300) (\<lambda>_. 0) (no_span (Cast (name_expr ''x'') ''U16''))) = 200 \<and>
      cast_value t (machine_read (\<lambda>n. if n = ''x'' then 200 else 300) (\<lambda>_. 0) (name_expr ''y'')) = 300)"
proof (rule conjI [OF widening_facts(1)])
  let ?sd = "hd (sf_decls (widths_file widening_body))"
  have "?sd \<in> set (sf_decls (widths_file widening_body))"
    and "runtime_decl_clauses_params (sd_node ?sd) =
      Some ([\<lparr>cl_kind = Ensures, cl_body = widening_body, cl_effect_variables = []\<rparr>], xy_params)"
    by (simp_all add: widths_file_def)
  note accepted = accepted_casts_keep_values [OF widening_facts(1) this list.set_intros(1), unfolded widening_facts(2),
    OF widening_values, where A = "\<lambda>_. 0", simplified, OF visits.here]
  have body: "node widening_body = BinOp (no_span (Cast (name_expr ''x'') ''U16'')) Lte (name_expr ''y'')"
    by (simp add: widening_body_def no_span_def)
  have reads: "plain_read (\<lambda>n. if n = ''x'' then 200 else 300) (\<lambda>_. 0) (no_span (Cast (name_expr ''x'') ''U16'')) = 200"
    "plain_read (\<lambda>n. if n = ''x'' then 200 else 300) (\<lambda>_. 0) (name_expr ''y'') = 300"
    by (simp_all add: no_span_def name_expr_def token_to_fixed_width_type_def)
  from accepted [THEN conjunct2, rule_format, OF conjI [OF body conjI [OF widening_facts(4,3)]]] reads
  show "\<exists>t. is_fixed_width t \<and>
      cast_value t (machine_read (\<lambda>n. if n = ''x'' then 200 else 300) (\<lambda>_. 0) (no_span (Cast (name_expr ''x'') ''U16''))) = 200 \<and>
      cast_value t (machine_read (\<lambda>n. if n = ''x'' then 200 else 300) (\<lambda>_. 0) (name_expr ''y'')) = 300"
    by (simp add: is_comparison_def)
qed

section \<open>Where the check accepts or rejects too much\<close>

definition literal_expr :: "string \<Rightarrow> sp_expr" where
  "literal_expr n = no_span (Literal (LInt n))"

text \<open>An operand without a type of its own, such as a literal, ends the check of the operation and of a
  cast of its result.\<close>

lemma literal_operand_unchecked:
  "check_fixed_width env_new (widths_file (no_span (BinOp (name_expr ''x'') Add (literal_expr ''255'')))) = []"
  "check_fixed_width env_new (widths_file (no_span (Cast (no_span (BinOp (name_expr ''y'') Add (literal_expr ''1''))) ''U8''))) = []"
  by code_simp+

text \<open>Bounds on the operands are not used: a sum that cannot overflow is reported.\<close>

lemma bounded_sum_reported:
  "map te_code (check_fixed_width env_new (widths_file (no_span (BinOp
     (no_span (BinOp (name_expr ''x'') Lt (literal_expr ''10''))) Implies
     (no_span (BinOp (no_span (BinOp (name_expr ''x'') Add (name_expr ''x''))) Lt (literal_expr ''20''))))))) = [''A10101'']"
  by code_simp

text \<open>The divisor is compared with the text \<open>0\<close>; any other divisor passes, also an unguarded name.\<close>

lemma division_accepted:
  "check_fixed_width env_new (widths_file (no_span (BinOp (name_expr ''y'') Div (name_expr ''x'')))) = []"
  "check_fixed_width env_new (widths_file (no_span (BinOp (name_expr ''y'') Div (literal_expr ''00'')))) = []"
  by code_simp+

end
