(* ===== verification/Interfaces.thy ===== *)
theory Interfaces
  imports Checker_Base Type_Convert
begin

text \<open>
  Interface contracts: \<open>crates/assura-types/src/checkers/interface.rs\<close> (the checks of one implementation) and the walk
  over a file of \<open>domain/meta/match_exhaustiveness.rs\<close>.  The debug form of a type is the argument \<open>dbg\<close>.
  The slice of the tokens of a method panics when its bounds are the wrong way round: \<open>None\<close>.
\<close>

section \<open>The checker\<close>

record interface_method =
  im_name :: string
  im_param_types :: "ty list"
  im_return_type :: ty
  im_has_requires :: bool
  im_has_ensures :: bool
  im_no_reentrancy :: bool

record interface_contract =
  ic_name :: string
  ic_methods :: "interface_method list"
  ic_extends :: "string list"

record interface_checker =
  ik_interfaces :: "(string, interface_contract) hmap"
  ik_impls :: "(string \<times> string, string list) hmap"

definition interface_checker_new :: interface_checker where
  "interface_checker_new = \<lparr>ik_interfaces = hm_empty, ik_impls = hm_empty\<rparr>"

definition register_interface :: "interface_contract \<Rightarrow> interface_checker \<Rightarrow> interface_checker" where
  "register_interface i ik = ik\<lparr>ik_interfaces := hm_insert (ic_name i) i (ik_interfaces ik)\<rparr>"

definition register_impl :: "string \<Rightarrow> string \<Rightarrow> string list \<Rightarrow> interface_checker \<Rightarrow> interface_checker" where
  "register_impl t i ms ik = ik\<lparr>ik_impls := hm_insert (t, i) ms (ik_impls ik)\<rparr>"

definition interface_error :: "string \<Rightarrow> string \<Rightarrow> span \<Rightarrow> checker_error" where
  "interface_error code msg sp = \<lparr>ck_code = code, ck_message = msg, ck_span = sp\<rparr>"

definition missing_methods :: "string \<Rightarrow> string \<Rightarrow> string \<Rightarrow> interface_method list \<Rightarrow> string list \<Rightarrow> span \<Rightarrow> checker_error list" where
  "missing_methods t which i ms implemented sp =
     map (\<lambda>m. interface_error ''A13001'' (quoted t @ '' does not implement required method '' @ quoted (im_name m) @
         '' from '' @ which @ '' '' @ quoted i) sp)
       (filter (\<lambda>m. im_name m \<notin> set implemented) ms)"

definition check_impl :: "interface_checker \<Rightarrow> string \<Rightarrow> string \<Rightarrow> string list \<Rightarrow> span \<Rightarrow> checker_error list" where
  "check_impl ik t i implemented sp =
     (case hm_get (ik_interfaces ik) i of
        None \<Rightarrow> [interface_error ''A13001'' (''unknown interface '' @ quoted i) sp]
      | Some iface \<Rightarrow>
          missing_methods t ''interface'' i (ic_methods iface) implemented sp @
          concat (map (\<lambda>super. case hm_get (ik_interfaces ik) super of
              Some s \<Rightarrow> missing_methods t ''super-interface'' super (ic_methods s) implemented sp
            | None \<Rightarrow> []) (ic_extends iface)))"

definition method_of :: "interface_checker \<Rightarrow> string \<Rightarrow> string \<Rightarrow> interface_method option" where
  "method_of ik i m = (case hm_get (ik_interfaces ik) i of
      Some iface \<Rightarrow> find (\<lambda>x. im_name x = m) (ic_methods iface) | None \<Rightarrow> None)"

definition param_type_errors :: "(ty \<Rightarrow> string) \<Rightarrow> string \<Rightarrow> ty list \<Rightarrow> ty list \<Rightarrow> span \<Rightarrow> checker_error list" where
  "param_type_errors dbg m impl_params iface_params sp =
     concat (map (\<lambda>(k, a, b). if a \<noteq> b then [interface_error ''A13002'' (''method '' @ quoted m @ '' parameter '' @ dec k @
           '': expected '' @ quoted (dbg b) @ '', found '' @ quoted (dbg a)) sp] else [])
       (zip [0..<length impl_params] (zip impl_params iface_params)))"

definition contract_missing :: "string \<Rightarrow> string \<Rightarrow> string \<Rightarrow> span \<Rightarrow> checker_error" where
  "contract_missing i m kind sp = interface_error ''A13002'' (''interface '' @ quoted i @ '' requires '' @ kind @
     '' clause on method '' @ quoted m @ '' but the implementation has no contract'') sp"

definition check_method_signature ::
  "(ty \<Rightarrow> string) \<Rightarrow> interface_checker \<Rightarrow> string \<Rightarrow> string \<Rightarrow> ty list \<Rightarrow> ty \<Rightarrow> span \<Rightarrow> checker_error list" where
  "check_method_signature dbg ik i m impl_params impl_return sp =
     (case method_of ik i m of
        None \<Rightarrow> []
      | Some im \<Rightarrow>
          (if length impl_params \<noteq> length (im_param_types im)
           then [interface_error ''A13002'' (''method '' @ quoted m @ '' has '' @ dec (length impl_params) @
                '' parameters but interface '' @ quoted i @ '' requires '' @ dec (length (im_param_types im))) sp]
           else param_type_errors dbg m impl_params (im_param_types im) sp) @
          (if impl_return \<noteq> im_return_type im
           then [interface_error ''A13002'' (''method '' @ quoted m @ '' return type mismatch: expected '' @
                quoted (dbg (im_return_type im)) @ '', found '' @ quoted (dbg impl_return)) sp] else []) @
          (if im_has_requires im \<and> impl_params = [] \<and> is_indeterminate impl_return
           then [contract_missing i m ''a `requires`'' sp] else []) @
          (if im_has_ensures im \<and> impl_params = [] \<and> is_indeterminate impl_return
           then [contract_missing i m ''an `ensures`'' sp] else []))"

definition check_reentrancy :: "interface_checker \<Rightarrow> string \<Rightarrow> string \<Rightarrow> bool \<Rightarrow> span \<Rightarrow> checker_error list" where
  "check_reentrancy ik i m reentrant sp =
     (case method_of ik i m of
        Some im \<Rightarrow> if im_no_reentrancy im \<and> reentrant
          then [interface_error ''A13003'' (''method '' @ quoted m @ '' on interface '' @ quoted i @
                '' is marked no_reentrancy but is called re-entrantly'') sp] else []
      | None \<Rightarrow> [])"

section \<open>Methods of a clause\<close>

definition plain_method :: "string \<Rightarrow> ty list \<Rightarrow> ty \<Rightarrow> interface_method" where
  "plain_method n ps r = \<lparr>im_name = n, im_param_types = ps, im_return_type = r, im_has_requires = False,
     im_has_ensures = False, im_no_reentrancy = False\<rparr>"

text \<open>\<open>slice::split\<close> at a token: always one chunk more than separators.\<close>

fun split_at :: "string \<Rightarrow> string list \<Rightarrow> string list list" where
  "split_at sep [] = [[]]"
| "split_at sep (t # ts) =
     (if t = sep then [] # split_at sep ts
      else (case split_at sep ts of c # cs \<Rightarrow> (t # c) # cs | [] \<Rightarrow> [[t]]))"

definition raw_method :: "string list \<Rightarrow> interface_method option option" where
  "raw_method tokens =
     (case tokens of
        [] \<Rightarrow> Some None
      | name # _ \<Rightarrow>
          (case (token_pos ''('' tokens, token_pos '')'' tokens) of
             (Some a, Some b) \<Rightarrow>
               if a + 1 > b then None
               else (let chunks = split_at '','' (drop (a + 1) (take b tokens));
                         ps = map parse_type_tokens (filter (\<lambda>c. c \<noteq> []) chunks);
                         ret = (case token_pos ''->'' (drop b tokens) of
                            Some k \<Rightarrow> if drop (b + k + 1) tokens \<noteq> [] then parse_type_tokens (drop (b + k + 1) tokens) else TyUnknown
                          | None \<Rightarrow> TyUnknown)
                     in Some (Some (plain_method name ps ret)))
           | _ \<Rightarrow> Some (Some (plain_method name [] TyUnknown))))"

definition extract_interface_method :: "sp_expr \<Rightarrow> interface_method option option" where
  "extract_interface_method body =
     (case node body of
        Ident n \<Rightarrow> Some (Some (plain_method n [] TyUnknown))
      | Call f args \<Rightarrow>
          (case node f of
             Ident n \<Rightarrow> Some (Some (plain_method n
               (map (\<lambda>a. case node a of Ident t \<Rightarrow> parse_type_tokens [t] | _ \<Rightarrow> TyUnknown) args) TyUnknown))
           | _ \<Rightarrow> Some None)
      | Raw tokens \<Rightarrow> raw_method tokens
      | _ \<Rightarrow> Some None)"

definition interface_methods :: "clause list \<Rightarrow> interface_method list option" where
  "interface_methods cs =
     map_option (List.map_filter (\<lambda>m. m))
       (those (map (\<lambda>c. extract_interface_method (cl_body c)) (filter (\<lambda>c. other_kind_in [''method''] (cl_kind c)) cs)))"

section \<open>The walk over a file\<close>

definition is_interface :: "contract_decl \<Rightarrow> bool" where
  "is_interface c \<longleftrightarrow> list_ex (\<lambda>cl. other_kind_in [''interface''] (cl_kind cl)) (ct_clauses c)"

definition interface_extends :: "clause list \<Rightarrow> string list" where
  "interface_extends cs =
     List.map_filter (\<lambda>c. case node (cl_body c) of Ident n \<Rightarrow> Some n | _ \<Rightarrow> None)
       (filter (\<lambda>c. other_kind_in [''extends''] (cl_kind c)) cs)"

fun register_decl :: "decl \<Rightarrow> interface_checker \<Rightarrow> interface_checker option" where
  "register_decl (Contract c) ik =
     (if is_interface c
      then map_option (\<lambda>ms. register_interface
             \<lparr>ic_name = ct_name c, ic_methods = ms, ic_extends = interface_extends (ct_clauses c)\<rparr> ik)
           (interface_methods (ct_clauses c))
      else Some ik)"
| "register_decl _ ik = Some ik"

fun register_decls :: "spanned_decl list \<Rightarrow> interface_checker \<Rightarrow> interface_checker option" where
  "register_decls [] ik = Some ik"
| "register_decls (d # ds) ik = (case register_decl (sd_node d) ik of Some ik' \<Rightarrow> register_decls ds ik' | None \<Rightarrow> None)"

definition is_reentrant :: "clause list \<Rightarrow> string \<Rightarrow> bool" where
  "is_reentrant cs m \<longleftrightarrow> list_ex (\<lambda>c. other_kind_in [''reentrant''] (cl_kind c) \<and> node (cl_body c) = Ident m) cs"

definition implementation_errors ::
  "(ty \<Rightarrow> string) \<Rightarrow> interface_checker \<Rightarrow> contract_decl \<Rightarrow> string \<Rightarrow> interface_method list \<Rightarrow> span \<Rightarrow> checker_error list" where
  "implementation_errors dbg ik c i ms sp =
     check_impl ik (ct_name c) i (map im_name ms) sp @
     concat (map (\<lambda>m. check_method_signature dbg ik i (im_name m) (im_param_types m) (im_return_type m) sp @
       check_reentrancy ik i (im_name m) (is_reentrant (ct_clauses c) (im_name m)) sp) ms)"

text \<open>One clause: the name of the interface it implements, if it is an implements clause.\<close>

definition implemented_interface :: "clause \<Rightarrow> string option" where
  "implemented_interface c =
     (if other_kind_in [''implements''] (cl_kind c)
      then (case node (cl_body c) of Ident n \<Rightarrow> Some n | _ \<Rightarrow> None) else None)"

fun check_implements ::
  "(ty \<Rightarrow> string) \<Rightarrow> contract_decl \<Rightarrow> span \<Rightarrow> clause list \<Rightarrow> interface_checker \<Rightarrow> (interface_checker \<times> checker_error list) option" where
  "check_implements dbg c sp [] ik = Some (ik, [])"
| "check_implements dbg c sp (cl # cls) ik =
     (case implemented_interface cl of
        None \<Rightarrow> check_implements dbg c sp cls ik
      | Some i \<Rightarrow>
          (case interface_methods (ct_clauses c) of
             None \<Rightarrow> None
           | Some ms \<Rightarrow>
               (let ik' = register_impl (ct_name c) i (map im_name ms) ik
                in map_option (\<lambda>(k, errs). (k, implementation_errors dbg ik' c i ms sp @ errs))
                     (check_implements dbg c sp cls ik'))))"

fun check_contracts ::
  "(ty \<Rightarrow> string) \<Rightarrow> spanned_decl list \<Rightarrow> interface_checker \<Rightarrow> checker_error list option" where
  "check_contracts dbg [] ik = Some []"
| "check_contracts dbg (d # ds) ik =
     (case sd_node d of
        Contract c \<Rightarrow>
          (case check_implements dbg c (sd_span d) (ct_clauses c) ik of
             Some (ik', errs) \<Rightarrow> map_option (\<lambda>rest. errs @ rest) (check_contracts dbg ds ik')
           | None \<Rightarrow> None)
      | _ \<Rightarrow> check_contracts dbg ds ik)"

definition check_interfaces :: "(ty \<Rightarrow> string) \<Rightarrow> source_file \<Rightarrow> type_error list option" where
  "check_interfaces dbg sf =
     (case register_decls (sf_decls sf) interface_checker_new of
        Some ik \<Rightarrow> map_option (map type_error_of_checker_error) (check_contracts dbg (sf_decls sf) ik)
      | None \<Rightarrow> None)"

section \<open>What an accepted implementation provides\<close>

definition file_interfaces :: "spanned_decl list \<Rightarrow> contract_decl list" where
  "file_interfaces ds = List.map_filter (\<lambda>d. case sd_node d of
     Contract c \<Rightarrow> if is_interface c then Some c else None | _ \<Rightarrow> None) ds"

definition contract_of :: "contract_decl \<Rightarrow> interface_method list \<Rightarrow> interface_contract" where
  "contract_of c ms = \<lparr>ic_name = ct_name c, ic_methods = ms, ic_extends = interface_extends (ct_clauses c)\<rparr>"

lemma file_interfaces_simps [simp]:
  "file_interfaces [] = []"
  "file_interfaces (d # ds) = (case sd_node d of Contract c \<Rightarrow> if is_interface c then [c] else [] | _ \<Rightarrow> []) @ file_interfaces ds"
  by (auto simp: file_interfaces_def List.map_filter_simps split: decl.splits)

lemma register_keeps:
  "register_decls ds ik = Some ik' \<Longrightarrow> n \<notin> ct_name ` set (file_interfaces ds) \<Longrightarrow>
   hm_get (ik_interfaces ik') n = hm_get (ik_interfaces ik) n"
proof (induction ds arbitrary: ik)
  case (Cons d ds)
  then obtain ik1 where ik1: "register_decl (sd_node d) ik = Some ik1" "register_decls ds ik1 = Some ik'"
    by (auto split: option.splits)
  moreover from ik1(1) Cons.prems(2) have "hm_get (ik_interfaces ik1) n = hm_get (ik_interfaces ik) n"
    by (cases "sd_node d") (auto simp: register_interface_def hm.get_insert split: if_splits)
  moreover from Cons.prems(2) have "n \<notin> ct_name ` set (file_interfaces ds)" by (simp add: image_Un)
  ultimately show ?case using Cons.IH by simp
qed simp

lemma register_interface_found:
  "register_decls ds ik = Some ik' \<Longrightarrow> distinct (map ct_name (file_interfaces ds)) \<Longrightarrow> c \<in> set (file_interfaces ds) \<Longrightarrow>
   \<exists>ms. interface_methods (ct_clauses c) = Some ms \<and>
     hm_get (ik_interfaces ik') (ct_name c) = Some (contract_of c ms)"
proof (induction ds arbitrary: ik)
  case (Cons d ds)
  then obtain ik1 where ik1: "register_decl (sd_node d) ik = Some ik1" "register_decls ds ik1 = Some ik'"
    by (auto split: option.splits)
  show ?case
  proof (cases "sd_node d = Contract c \<and> is_interface c")
    case True
    then obtain ms where ms: "interface_methods (ct_clauses c) = Some ms" "ik1 = register_interface (contract_of c ms) ik"
      using ik1(1) by (auto simp: contract_of_def)
    from True Cons.prems(2) have "ct_name c \<notin> ct_name ` set (file_interfaces ds)" by simp
    from register_keeps [OF ik1(2) this] ms show ?thesis
      by (simp add: register_interface_def hm.get_insert contract_of_def)
  next
    case False
    with Cons.prems(3) have "c \<in> set (file_interfaces ds)" by (auto split: decl.splits if_splits)
    with Cons.IH [OF ik1(2)] Cons.prems(2) show ?thesis by simp
  qed
qed simp

lemma check_implements_interfaces:
  "check_implements dbg c sp cls ik = Some (ik', errs) \<Longrightarrow> ik_interfaces ik' = ik_interfaces ik"
proof (induction cls arbitrary: ik errs)
  case (Cons cl cls)
  show ?case
  proof (cases "implemented_interface cl")
    case (Some i)
    with Cons.prems obtain ms where "interface_methods (ct_clauses c) = Some ms"
      by (cases "interface_methods (ct_clauses c)") simp_all
    with Some Cons.prems obtain errs' where
      "check_implements dbg c sp cls (register_impl (ct_name c) i (map im_name ms) ik) = Some (ik', errs')"
      by (auto simp: Let_def)
    from Cons.IH [OF this] show ?thesis by (simp add: register_impl_def)
  qed (use Cons in simp)
qed simp

lemma check_implements_clean:
  "check_implements dbg c sp cls ik = Some (ik', []) \<Longrightarrow> cl \<in> set cls \<Longrightarrow> implemented_interface cl = Some i \<Longrightarrow>
   \<exists>ms ik2. interface_methods (ct_clauses c) = Some ms \<and> ik_interfaces ik2 = ik_interfaces ik \<and>
     implementation_errors dbg ik2 c i ms sp = []"
proof (induction cls arbitrary: ik)
  case (Cons cl' cls)
  show ?case
  proof (cases "implemented_interface cl'")
    case None
    with Cons show ?thesis by auto
  next
    case (Some j)
    with Cons.prems(1) obtain ms where ms: "interface_methods (ct_clauses c) = Some ms"
      and clean: "implementation_errors dbg (register_impl (ct_name c) j (map im_name ms) ik) c j ms sp = []"
      and rest: "check_implements dbg c sp cls (register_impl (ct_name c) j (map im_name ms) ik) = Some (ik', [])"
      by (auto simp: Let_def split: option.splits)
    show ?thesis
    proof (cases "cl = cl'")
      case True
      with Some Cons.prems(3) have "j = i" by simp
      with ms clean show ?thesis
        by (intro exI [of _ ms] exI [of _ "register_impl (ct_name c) j (map im_name ms) ik"]) (simp add: register_impl_def)
    next
      case False
      with Cons.IH [OF rest] Cons.prems(2,3) show ?thesis by (simp add: register_impl_def)
    qed
  qed
qed simp

lemma check_contracts_clean:
  "check_contracts dbg ds ik = Some [] \<Longrightarrow> d \<in> set ds \<Longrightarrow> sd_node d = Contract c \<Longrightarrow> cl \<in> set (ct_clauses c) \<Longrightarrow>
   implemented_interface cl = Some i \<Longrightarrow>
   \<exists>ms ik2. interface_methods (ct_clauses c) = Some ms \<and> ik_interfaces ik2 = ik_interfaces ik \<and>
     implementation_errors dbg ik2 c i ms (sd_span d) = []"
proof (induction ds arbitrary: ik)
  case (Cons d' ds)
  show ?case
  proof (cases "\<exists>c'. sd_node d' = Contract c'")
    case True
    then obtain c' where c': "sd_node d' = Contract c'" by blast
    with Cons.prems(1) obtain ik' where here: "check_implements dbg c' (sd_span d') (ct_clauses c') ik = Some (ik', [])"
      and rest: "check_contracts dbg ds ik' = Some []"
      by (auto split: option.splits)
    from check_implements_interfaces [OF here] have same: "ik_interfaces ik' = ik_interfaces ik" .
    show ?thesis
    proof (cases "d = d'")
      case True
      with c' Cons.prems(3-5) check_implements_clean [OF here] show ?thesis by simp
    next
      case False
      with Cons.IH [OF rest] Cons.prems(2-5) same show ?thesis by simp
    qed
  next
    case False
    then have "check_contracts dbg (d' # ds) ik = check_contracts dbg ds ik" by (auto split: decl.split)
    with False Cons show ?thesis by (metis set_ConsD)
  qed
qed simp

lemma implementation_clean:
  assumes "implementation_errors dbg ik c i cms sp = []" and "hm_get (ik_interfaces ik) i = Some iface"
  shows "im_name ` set (ic_methods iface) \<subseteq> im_name ` set cms"
    and "\<And>super s. super \<in> set (ic_extends iface) \<Longrightarrow> hm_get (ik_interfaces ik) super = Some s \<Longrightarrow>
      im_name ` set (ic_methods s) \<subseteq> im_name ` set cms"
    and "\<And>m' m. m' \<in> set cms \<Longrightarrow> find (\<lambda>x. im_name x = im_name m') (ic_methods iface) = Some m \<Longrightarrow>
      im_param_types m' = im_param_types m \<and> im_return_type m' = im_return_type m"
proof -
  have impl: "check_impl ik (ct_name c) i (map im_name cms) sp = []"
    using assms(1) by (simp add: implementation_errors_def)
  then show "im_name ` set (ic_methods iface) \<subseteq> im_name ` set cms"
    using assms(2) by (auto simp: check_impl_def missing_methods_def filter_empty_conv)
  show "im_name ` set (ic_methods s) \<subseteq> im_name ` set cms"
    if "super \<in> set (ic_extends iface)" "hm_get (ik_interfaces ik) super = Some s" for super s
    using impl assms(2) that by (auto simp: check_impl_def missing_methods_def filter_empty_conv dest!: bspec)
  show "im_param_types m' = im_param_types m \<and> im_return_type m' = im_return_type m"
    if m': "m' \<in> set cms" and m: "find (\<lambda>x. im_name x = im_name m') (ic_methods iface) = Some m" for m' m
  proof -
    have sig: "check_method_signature dbg ik i (im_name m') (im_param_types m') (im_return_type m') sp = []"
      using assms(1) m' by (simp add: implementation_errors_def)
    have "method_of ik i (im_name m') = Some m" using m assms(2) by (simp add: method_of_def)
    with sig have len: "length (im_param_types m') = length (im_param_types m)"
      and params: "param_type_errors dbg (im_name m') (im_param_types m') (im_param_types m) sp = []"
      and ret: "im_return_type m' = im_return_type m"
      by (auto simp: check_method_signature_def split: if_splits)
    have "im_param_types m' ! k = im_param_types m ! k" if "k < length (im_param_types m')" for k
    proof -
      have "(k, im_param_types m' ! k, im_param_types m ! k) \<in>
          set (zip [0..<length (im_param_types m')] (zip (im_param_types m') (im_param_types m)))"
        using that len by (simp add: set_zip) (rule exI [of _ k], simp)
      with params show ?thesis by (fastforce simp: param_type_errors_def split: if_splits)
    qed
    with len have "im_param_types m' = im_param_types m" by (simp add: list_eq_iff_nth_eq)
    with ret show ?thesis by simp
  qed
qed

text \<open>C22: In a file the interface check accepts, where interfaces have different names, a contract that
  implements an interface has a method for every method of the interface and of the interfaces it
  directly extends, and each of its methods has the parameter and return types of the first method of
  that name in the interface itself.  The types of inherited methods are not compared
  (\<open>inherited_methods_accepted\<close>).\<close>

theorem accepted_implementation:
  assumes "check_interfaces dbg sf = Some []" and "distinct (map ct_name (file_interfaces (sf_decls sf)))"
    and "i \<in> set (file_interfaces (sf_decls sf))"
    and "d \<in> set (sf_decls sf)" and "sd_node d = Contract c"
    and "cl \<in> set (ct_clauses c)" and "implemented_interface cl = Some (ct_name i)"
  shows "\<exists>ims cms. interface_methods (ct_clauses i) = Some ims \<and> interface_methods (ct_clauses c) = Some cms \<and>
    im_name ` set ims \<subseteq> im_name ` set cms \<and>
    (\<forall>m' \<in> set cms. \<forall>m. find (\<lambda>x. im_name x = im_name m') ims = Some m \<longrightarrow>
      im_param_types m' = im_param_types m \<and> im_return_type m' = im_return_type m) \<and>
    (\<forall>s \<in> set (file_interfaces (sf_decls sf)). ct_name s \<in> set (interface_extends (ct_clauses i)) \<longrightarrow>
      (\<exists>sms. interface_methods (ct_clauses s) = Some sms \<and> im_name ` set sms \<subseteq> im_name ` set cms))"
proof -
  from assms(1) obtain ik where reg: "register_decls (sf_decls sf) interface_checker_new = Some ik"
    and contracts: "check_contracts dbg (sf_decls sf) ik = Some []"
    by (auto simp: check_interfaces_def split: option.splits)
  note found = register_interface_found [OF reg assms(2)]
  from found [OF assms(3)] obtain ims where ims: "interface_methods (ct_clauses i) = Some ims"
    and i: "hm_get (ik_interfaces ik) (ct_name i) = Some (contract_of i ims)" by blast
  from check_contracts_clean [OF contracts assms(4-7)] obtain cms ik2
    where cms: "interface_methods (ct_clauses c) = Some cms" and same: "ik_interfaces ik2 = ik_interfaces ik"
      and clean: "implementation_errors dbg ik2 c (ct_name i) cms (sd_span d) = []" by blast
  note facts = implementation_clean [OF clean, unfolded same, OF i]
  have "\<exists>sms. interface_methods (ct_clauses s) = Some sms \<and> im_name ` set sms \<subseteq> im_name ` set cms"
    if "s \<in> set (file_interfaces (sf_decls sf))" "ct_name s \<in> set (interface_extends (ct_clauses i))" for s
    using found [OF that(1)] facts(2) [of "ct_name s"] that(2) by (auto simp: contract_of_def)
  with ims cms facts(1,3) show ?thesis by (simp add: contract_of_def)
qed

definition contract_with :: "string \<Rightarrow> clause list \<Rightarrow> contract_decl" where
  "contract_with n cs = \<lparr>ct_name = n, ct_type_params = [], ct_clauses = cs, ct_fn_params = []\<rparr>"

definition contract_file :: "contract_decl list \<Rightarrow> source_file" where
  "contract_file cs = \<lparr>sf_project = None, sf_module = None, sf_imports = [],
     sf_decls = map (\<lambda>c. \<lparr>sd_node = Contract c, sd_span = (0, 1)\<rparr>) cs\<rparr>"

definition word_clause :: "string \<Rightarrow> string \<Rightarrow> clause" where
  "word_clause k n = other_clause k (no_span (Ident n))"

definition area_clause :: "string \<Rightarrow> clause" where
  "area_clause t = other_clause ''method'' (no_span (Raw [''area'', ''('', t, '')'', ''->'', ''U16'']))"

definition named_interface :: contract_decl where
  "named_interface = contract_with ''Named'' [word_clause ''interface'' ''x'', word_clause ''method'' ''label'']"

definition shape_interface :: contract_decl where
  "shape_interface = contract_with ''Shape''
     [word_clause ''interface'' ''x'', word_clause ''extends'' ''Named'', area_clause ''U8'']"

definition square_contract :: contract_decl where
  "square_contract = contract_with ''Square''
     [word_clause ''implements'' ''Shape'', area_clause ''U8'', word_clause ''method'' ''label'']"

definition shapes_file :: source_file where
  "shapes_file = contract_file [named_interface, shape_interface, square_contract]"

lemma shapes_facts:
  "check_interfaces (\<lambda>_. []) shapes_file = Some []"
  "map ct_name (file_interfaces (sf_decls shapes_file)) = [''Named'', ''Shape'']"
  "interface_methods (ct_clauses square_contract) =
     Some [plain_method ''area'' [TyU8] TyU16, plain_method ''label'' [] TyUnknown]"
  "implemented_interface (word_clause ''implements'' ''Shape'') = Some (ct_name shape_interface)"
  by code_simp+

lemma shapes_interfaces: "set (file_interfaces (sf_decls shapes_file)) = {named_interface, shape_interface}"
proof -
  have "is_interface named_interface" "is_interface shape_interface" "\<not> is_interface square_contract"
    by code_simp+
  then show ?thesis by (auto simp: shapes_file_def contract_file_def)
qed

lemma accepted_implementation_witness:
  "check_interfaces (\<lambda>_. []) shapes_file = Some [] \<and>
   (\<exists>ims. interface_methods (ct_clauses shape_interface) = Some ims \<and> im_name ` set ims \<subseteq> {''area'', ''label''})"
proof (rule conjI [OF shapes_facts(1)])
  have "distinct (map ct_name (file_interfaces (sf_decls shapes_file)))"
    and i: "shape_interface \<in> set (file_interfaces (sf_decls shapes_file))"
    and d: "\<lparr>sd_node = Contract square_contract, sd_span = (0, 1)\<rparr> \<in> set (sf_decls shapes_file)"
    and cl: "word_clause ''implements'' ''Shape'' \<in> set (ct_clauses square_contract)"
    by (simp_all add: shapes_facts(2) shapes_interfaces)
      (simp_all add: shapes_file_def contract_file_def square_contract_def contract_with_def)
  from accepted_implementation [OF shapes_facts(1) this(1) i d _ cl shapes_facts(4), simplified shapes_facts(3)]
  show "\<exists>ims. interface_methods (ct_clauses shape_interface) = Some ims \<and> im_name ` set ims \<subseteq> {''area'', ''label''}"
    by (auto simp: plain_method_def)
qed

section \<open>What the check does not see\<close>

text \<open>No method of a file has contracts or a ban on re-entrancy, so A13003 and the two checks for
  missing contracts are never reported.\<close>

lemma method_flags_never_set:
  assumes "extract_interface_method body = Some (Some m)"
  shows "\<not> im_has_requires m \<and> \<not> im_has_ensures m \<and> \<not> im_no_reentrancy m"
  using assms by (auto simp: extract_interface_method_def raw_method_def plain_method_def Let_def
      split: expr.splits list.splits option.splits if_splits)

lemma reentrant_method_accepted:
  "check_interfaces (\<lambda>_. []) (contract_file
     [contract_with ''I'' [word_clause ''interface'' ''x'', word_clause ''method'' ''m'', word_clause ''no_reentrancy'' ''m''],
      contract_with ''C'' [word_clause ''implements'' ''I'', word_clause ''method'' ''m'', word_clause ''reentrant'' ''m'']]) =
   Some []"
  by code_simp

text \<open>Only the interfaces extended directly are looked at, by names of methods only, and an unknown one is
  passed over.\<close>

lemma inherited_methods_accepted:
  "check_interfaces (\<lambda>_. []) (contract_file
     [contract_with ''I'' [word_clause ''interface'' ''x'', word_clause ''extends'' ''J'', word_clause ''extends'' ''Missing''],
      contract_with ''J'' [word_clause ''interface'' ''x'', word_clause ''extends'' ''K'', area_clause ''U8''],
      contract_with ''K'' [word_clause ''interface'' ''x'', word_clause ''method'' ''m''],
      contract_with ''C'' [word_clause ''implements'' ''I'', area_clause ''Bool'']]) = Some []"
  by code_simp

text \<open>The parameters of a method are split at every comma, also inside a generic type, and closing before
  opening parentheses stop the compiler.\<close>

lemma generic_parameter_split:
  "map_option (map_option (\<lambda>m. length (im_param_types m)))
     (raw_method [''m'', ''('', ''Map'', ''<'', ''K'', '','', ''V'', ''>'', '')'']) = Some (Some 2)"
  by code_simp

lemma reversed_parentheses_panic:
  "check_interfaces (\<lambda>_. []) (contract_file [contract_with ''I''
     [word_clause ''interface'' ''x'', other_clause ''method'' (no_span (Raw [''m'', '')'', ''('']))]]) = None"
  by code_simp

end
