(* ===== verification/Structural.thy ===== *)
theory Structural
  imports Checker_Base Type_Expr
begin

text \<open>
  Structural invariants of recursive types: \<open>crates/assura-types/src/checkers/security/structural_invariant.rs\<close> and
  the walk over a file of \<open>domain/meta/match_exhaustiveness.rs\<close>.  The debug form of an expression, the text of
  a custom invariant that is no name, is the argument \<open>dbg\<close>.
\<close>

section \<open>The checker\<close>

datatype invariant_kind =
  TreeBalance nat | SortedOrder bool | Acyclic | BstOrdering | HeapProperty bool | CustomInvariant string

fun invariant_kind_display :: "invariant_kind \<Rightarrow> string" where
  "invariant_kind_display (TreeBalance d) = ''tree_balance(max_diff='' @ dec d @ '')''"
| "invariant_kind_display (SortedOrder descending) = (if descending then ''sorted(desc)'' else ''sorted(asc)'')"
| "invariant_kind_display Acyclic = ''acyclic''"
| "invariant_kind_display BstOrdering = ''bst_ordering''"
| "invariant_kind_display (HeapProperty min_heap) = (if min_heap then ''min_heap'' else ''max_heap'')"
| "invariant_kind_display (CustomInvariant p) = ''custom('' @ p @ '')''"

record structural_invariant =
  si_name :: string
  si_type_name :: string
  si_kind :: invariant_kind

record structural_checker =
  sk_invariants :: "(string, structural_invariant list) hmap"
  sk_recursive_types :: "(string, string list) hmap"

definition structural_new :: structural_checker where
  "structural_new = \<lparr>sk_invariants = hm_empty, sk_recursive_types = hm_empty\<rparr>"

definition register_recursive_type :: "string \<Rightarrow> string list \<Rightarrow> structural_checker \<Rightarrow> structural_checker" where
  "register_recursive_type t fs sk = sk\<lparr>sk_recursive_types := hm_insert t fs (sk_recursive_types sk)\<rparr>"

definition register_invariant :: "structural_invariant \<Rightarrow> structural_checker \<Rightarrow> structural_checker" where
  "register_invariant iv sk = sk\<lparr>sk_invariants :=
     hm_insert (si_type_name iv) (unwrap_or (hm_get (sk_invariants sk) (si_type_name iv)) [] @ [iv]) (sk_invariants sk)\<rparr>"

definition structural_error :: "string \<Rightarrow> string \<Rightarrow> span \<Rightarrow> checker_error" where
  "structural_error code msg sp = \<lparr>ck_code = code, ck_message = msg, ck_span = sp\<rparr>"

definition tree_fields_error :: "string \<Rightarrow> invariant_kind \<Rightarrow> string list \<Rightarrow> span \<Rightarrow> checker_error list" where
  "tree_fields_error t k fs sp =
     (if length fs < 2
      then [structural_error ''A15002'' (''tree invariant '' @ quoted (invariant_kind_display k) @
        '' requires at least 2 recursive fields, but '' @ quoted t @ '' has '' @ dec (length fs)) sp]
      else [])"

fun field_errors :: "string \<Rightarrow> invariant_kind \<Rightarrow> string list \<Rightarrow> span \<Rightarrow> checker_error list" where
  "field_errors t (TreeBalance d) fs sp = tree_fields_error t (TreeBalance d) fs sp"
| "field_errors t BstOrdering fs sp = tree_fields_error t BstOrdering fs sp"
| "field_errors t (HeapProperty m) fs sp = tree_fields_error t (HeapProperty m) fs sp"
| "field_errors t (SortedOrder d) fs sp =
     (if length fs \<noteq> 1
      then [structural_error ''A15003'' (''sort invariant requires exactly 1 recursive field (next pointer), but '' @
        quoted t @ '' has '' @ dec (length fs)) sp]
      else [])"
| "field_errors t Acyclic fs sp = []"
| "field_errors t (CustomInvariant p) fs sp = []"

definition check_invariant_applicability :: "structural_checker \<Rightarrow> string \<Rightarrow> invariant_kind \<Rightarrow> span \<Rightarrow> checker_error list" where
  "check_invariant_applicability sk t k sp =
     (case hm_get (sk_recursive_types sk) t of
        None \<Rightarrow> [structural_error ''A15001'' (''structural invariant '' @ quoted (invariant_kind_display k) @
          '' applied to non-recursive type '' @ quoted t) sp]
      | Some fs \<Rightarrow> field_errors t k fs sp)"

definition check_operation_preserves :: "structural_checker \<Rightarrow> string \<Rightarrow> string \<Rightarrow> bool \<Rightarrow> bool \<Rightarrow> span \<Rightarrow> checker_error list" where
  "check_operation_preserves sk t operation modifies has_proof sp =
     (if \<not> modifies then []
      else concat (map (\<lambda>iv. if \<not> has_proof
          then [structural_error ''A15004'' (''operation '' @ quoted operation @ '' modifies '' @ quoted t @
            '' but has no proof preserving invariant '' @ quoted (si_name iv) @ '' ('' @
            invariant_kind_display (si_kind iv) @ '')'') sp]
          else []) (unwrap_or (hm_get (sk_invariants sk) t) [])))"

section \<open>The walk over a file\<close>

definition recursive_fields :: "type_def \<Rightarrow> string list" where
  "recursive_fields td =
     (case td_body td of
        BodyStruct fs \<Rightarrow> map fd_name (filter (\<lambda>f.
          td_name td \<in> set (case fd_ty f of Some t \<Rightarrow> to_tokens t | None \<Rightarrow> [])) fs)
      | _ \<Rightarrow> [])"

definition kind_of_name :: "string \<Rightarrow> invariant_kind" where
  "kind_of_name n =
     (if n = ''sorted'' then SortedOrder False
      else if n = ''acyclic'' then Acyclic
      else if n = ''bst_ordering'' then BstOrdering
      else CustomInvariant n)"

definition kind_of_call :: "string \<Rightarrow> invariant_kind" where
  "kind_of_call n =
     (if n = ''tree_balance'' then TreeBalance 1
      else if n = ''min_heap'' then HeapProperty True
      else if n = ''max_heap'' then HeapProperty False
      else CustomInvariant n)"

definition invariant_kind_of :: "(sp_expr \<Rightarrow> string) \<Rightarrow> sp_expr \<Rightarrow> invariant_kind" where
  "invariant_kind_of dbg body =
     (case node body of
        Ident n \<Rightarrow> kind_of_name n
      | Call f args \<Rightarrow> (case node f of Ident n \<Rightarrow> kind_of_call n | _ \<Rightarrow> CustomInvariant (dbg body))
      | _ \<Rightarrow> CustomInvariant (dbg body))"

definition preserves_invariant :: "clause list \<Rightarrow> bool" where
  "preserves_invariant cs \<longleftrightarrow> list_ex (\<lambda>c. other_kind_in [''preserves_invariant''] (cl_kind c)) cs"

definition structural_clause ::
  "(sp_expr \<Rightarrow> string) \<Rightarrow> contract_decl \<Rightarrow> span \<Rightarrow> clause \<Rightarrow> structural_checker \<times> checker_error list \<Rightarrow> structural_checker \<times> checker_error list" where
  "structural_clause dbg c sp cl st =
     (let (sk, errs) = st; t = ct_name c
      in if other_kind_in [''structural_invariant''] (cl_kind cl)
         then (let k = invariant_kind_of dbg (cl_body cl);
                   sk' = register_invariant \<lparr>si_name = t @ ''_'' @ invariant_kind_display k, si_type_name = t, si_kind = k\<rparr> sk
               in (sk', errs @ check_invariant_applicability sk' t k sp))
         else if other_kind_in [''modifies_structure''] (cl_kind cl)
         then (sk, errs @ check_operation_preserves sk t
                 (case node (cl_body cl) of Ident n \<Rightarrow> n | _ \<Rightarrow> ''unknown'') True (preserves_invariant (ct_clauses c)) sp)
         else st)"

definition structural_decl ::
  "(sp_expr \<Rightarrow> string) \<Rightarrow> spanned_decl \<Rightarrow> structural_checker \<times> checker_error list \<Rightarrow> structural_checker \<times> checker_error list" where
  "structural_decl dbg d st =
     (case sd_node d of
        TypeDef td \<Rightarrow> if recursive_fields td \<noteq> []
          then (register_recursive_type (td_name td) (recursive_fields td) (fst st), snd st) else st
      | Contract c \<Rightarrow> fold (structural_clause dbg c (sd_span d)) (ct_clauses c) st
      | _ \<Rightarrow> st)"

definition check_structural :: "(sp_expr \<Rightarrow> string) \<Rightarrow> source_file \<Rightarrow> type_error list" where
  "check_structural dbg sf =
     map type_error_of_checker_error (snd (fold (structural_decl dbg) (sf_decls sf) (structural_new, [])))"

section \<open>What an accepted file has\<close>

text \<open>Errors are only appended, so a clean end has clean steps.\<close>

lemma structural_clause_appends: "\<exists>es. snd (structural_clause dbg c sp cl st) = snd st @ es"
  by (auto simp: structural_clause_def Let_def split: prod.split)

lemma fold_appends:
  "(\<And>x st. \<exists>es. snd (f x st) = snd st @ es) \<Longrightarrow> \<exists>es. snd (fold f xs st) = snd st @ es"
proof (induction xs arbitrary: st)
  case (Cons x xs)
  then obtain es es' where "snd (f x st) = snd st @ es" "snd (fold f xs (f x st)) = snd (f x st) @ es'"
    by metis
  then show ?case by simp
qed simp

lemma structural_decl_appends: "\<exists>es. snd (structural_decl dbg d st) = snd st @ es"
  using fold_appends [of "structural_clause dbg _ _", OF structural_clause_appends]
  by (auto simp: structural_decl_def split: decl.split)

lemma clean_split:
  assumes "\<And>x st. \<exists>es. snd (f x st) = snd st @ es" and "snd (fold f (xs @ x # ys) st) = []"
  shows "snd (f x (fold f xs st)) = []" and "snd (fold f xs st) = []"
proof -
  obtain es where "snd (fold f (xs @ x # ys) st) = snd (f x (fold f xs st)) @ es"
    using fold_appends [of f ys "f x (fold f xs st)", OF assms(1)] by auto
  with assms(2) show step: "snd (f x (fold f xs st)) = []" by simp
  from assms(1) [of x "fold f xs st"] step show "snd (fold f xs st) = []" by auto
qed

text \<open>Only a type definition of the name makes it a recursive type, and contracts leave the types alone.\<close>

lemma structural_clause_types [simp]: "sk_recursive_types (fst (structural_clause dbg c sp cl st)) = sk_recursive_types (fst st)"
  by (auto simp: structural_clause_def register_invariant_def Let_def split: prod.split)

lemma fold_clause_types [simp]:
  "sk_recursive_types (fst (fold (structural_clause dbg c sp) cls st)) = sk_recursive_types (fst st)"
  by (induction cls arbitrary: st) simp_all

lemma fold_decl_types:
  "hm_get (sk_recursive_types (fst (fold (structural_decl dbg) ds st))) t = Some fs \<Longrightarrow>
   (\<exists>d \<in> set ds. \<exists>td. sd_node d = TypeDef td \<and> td_name td = t \<and> recursive_fields td = fs \<and> fs \<noteq> []) \<or>
   hm_get (sk_recursive_types (fst st)) t = Some fs"
proof (induction ds arbitrary: st)
  case (Cons d ds)
  have "hm_get (sk_recursive_types (fst (structural_decl dbg d st))) t = Some fs \<Longrightarrow>
    (\<exists>td. sd_node d = TypeDef td \<and> td_name td = t \<and> recursive_fields td = fs \<and> fs \<noteq> []) \<or>
    hm_get (sk_recursive_types (fst st)) t = Some fs"
    by (cases "sd_node d") (auto simp: structural_decl_def register_recursive_type_def hm.get_insert split: if_splits)
  with Cons.IH [of "structural_decl dbg d st"] Cons.prems show ?case by auto
qed simp

text \<open>In an accepted file a contract with a structural invariant has the name of a struct type defined before it,
  with the recursive fields the kind of invariant needs.\<close>

fun enough_fields :: "invariant_kind \<Rightarrow> string list \<Rightarrow> bool" where
  "enough_fields (TreeBalance d) fs \<longleftrightarrow> 2 \<le> length fs"
| "enough_fields BstOrdering fs \<longleftrightarrow> 2 \<le> length fs"
| "enough_fields (HeapProperty m) fs \<longleftrightarrow> 2 \<le> length fs"
| "enough_fields (SortedOrder d) fs \<longleftrightarrow> length fs = 1"
| "enough_fields _ fs \<longleftrightarrow> fs \<noteq> []"

lemma field_errors_iff: "fs \<noteq> [] \<Longrightarrow> field_errors t k fs sp = [] \<longleftrightarrow> enough_fields k fs"
  by (cases k) (auto simp: tree_fields_error_def)

lemma clean_invariant_clause:
  "other_kind_in [''structural_invariant''] (cl_kind cl) \<Longrightarrow> snd (structural_clause dbg c sp cl st) = [] \<Longrightarrow>
   check_invariant_applicability (fst st) (ct_name c) (invariant_kind_of dbg (cl_body cl)) sp = []"
  by (simp add: structural_clause_def Let_def check_invariant_applicability_def register_invariant_def split: prod.splits)

lemma accepted_invariant_has_type:
  assumes "check_structural dbg sf = []" and "sf_decls sf = ds1 @ d # ds2" and "sd_node d = Contract c"
    and "cl \<in> set (ct_clauses c)" and "other_kind_in [''structural_invariant''] (cl_kind cl)"
  shows "\<exists>e \<in> set ds1. \<exists>td. sd_node e = TypeDef td \<and> td_name td = ct_name c \<and>
    enough_fields (invariant_kind_of dbg (cl_body cl)) (recursive_fields td)"
proof -
  let ?st = "fold (structural_decl dbg) ds1 (structural_new, [])"
  from assms(1) have "snd (fold (structural_decl dbg) (ds1 @ d # ds2) (structural_new, [])) = []"
    by (simp add: check_structural_def assms(2))
  from clean_split(1) [OF structural_decl_appends this] assms(3)
  have clean: "snd (fold (structural_clause dbg c (sd_span d)) (ct_clauses c) ?st) = []"
    by (simp add: structural_decl_def)
  from assms(4) obtain cs1 cs2 where cs: "ct_clauses c = cs1 @ cl # cs2" by (auto dest: split_list)
  let ?k = "invariant_kind_of dbg (cl_body cl)" and ?st1 = "fold (structural_clause dbg c (sd_span d)) cs1 ?st"
  from clean_split(1) [OF structural_clause_appends clean [unfolded cs]]
  have "check_invariant_applicability (fst ?st1) (ct_name c) ?k (sd_span d) = []"
    by (rule clean_invariant_clause [OF assms(5)])
  then obtain fs where fs: "hm_get (sk_recursive_types (fst ?st)) (ct_name c) = Some fs"
    and ok: "field_errors (ct_name c) ?k fs (sd_span d) = []"
    by (auto simp: check_invariant_applicability_def split: option.splits)
  from fold_decl_types [OF fs] obtain e td where "e \<in> set ds1" "sd_node e = TypeDef td" "td_name td = ct_name c"
    "recursive_fields td = fs" "fs \<noteq> []"
    by (auto simp: structural_new_def hm.get_empty)
  moreover from ok \<open>fs \<noteq> []\<close> have "enough_fields ?k fs" by (simp add: field_errors_iff)
  ultimately show ?thesis by metis
qed

section \<open>What the check gets wrong\<close>

definition node_type :: spanned_decl where
  "node_type = \<lparr>sd_node = TypeDef \<lparr>td_name = ''Node'', td_type_params = [],
     td_body = BodyStruct [\<lparr>fd_name = ''next'', fd_ty = Some (TNamed ''Node''), fd_is_pub = True\<rparr>]\<rparr>, sd_span = (0, 1)\<rparr>"

definition node_contract :: "clause list \<Rightarrow> spanned_decl" where
  "node_contract cs = \<lparr>sd_node = Contract \<lparr>ct_name = ''Node'', ct_type_params = [], ct_clauses = cs, ct_fn_params = []\<rparr>,
     sd_span = (2, 3)\<rparr>"

definition structural_file :: "spanned_decl list \<Rightarrow> source_file" where
  "structural_file ds = \<lparr>sf_project = None, sf_module = None, sf_imports = [], sf_decls = ds\<rparr>"

definition sorted_clause :: clause where
  "sorted_clause = other_clause ''structural_invariant'' (no_span (Ident ''sorted''))"

definition modifies_clause :: clause where
  "modifies_clause = other_clause ''modifies_structure'' (no_span (Ident ''push''))"

text \<open>The verdict depends on the order of declarations and of clauses.\<close>

lemma order_of_declarations_matters:
  "map te_code (check_structural (\<lambda>_. []) (structural_file [node_contract [sorted_clause], node_type])) = [''A15001'']"
  "check_structural (\<lambda>_. []) (structural_file [node_type, node_contract [sorted_clause]]) = []"
  by code_simp+

lemma order_of_clauses_matters:
  "map te_code (check_structural (\<lambda>_. []) (structural_file [node_type, node_contract [sorted_clause, modifies_clause]])) =
   [''A15004'']"
  "check_structural (\<lambda>_. []) (structural_file [node_type, node_contract [modifies_clause, sorted_clause]]) = []"
  by code_simp+

end
