(* ===== verification/Ffi.thy ===== *)
theory Ffi
  imports Checker_Base
begin

text \<open>
  Contracts at the boundary to foreign code, \<open>crates/assura-types/src/checkers/ffi.rs\<close>: trust levels of extern
  declarations, the checks of declarations, calls and unsafe code, and the walk over a file.
\<close>

section \<open>The checker\<close>

datatype trust_boundary = Trusted | Audited | Untrusted

fun trust_boundary_display :: "trust_boundary \<Rightarrow> string" where
  "trust_boundary_display Trusted = ''trusted''"
| "trust_boundary_display Audited = ''audited''"
| "trust_boundary_display Untrusted = ''untrusted''"

record ffi_checker =
  ffi_externs :: "(string, trust_boundary) hmap"
  ffi_contracted :: "(string, bool) hmap"

definition ffi_new :: ffi_checker where
  "ffi_new = \<lparr>ffi_externs = hm_empty, ffi_contracted = hm_empty\<rparr>"

definition register_extern :: "string \<Rightarrow> trust_boundary \<Rightarrow> ffi_checker \<Rightarrow> ffi_checker" where
  "register_extern n b fc = fc\<lparr>ffi_externs := hm_insert n b (ffi_externs fc)\<rparr>"

definition mark_contracted :: "string \<Rightarrow> ffi_checker \<Rightarrow> ffi_checker" where
  "mark_contracted n fc = fc\<lparr>ffi_contracted := hm_insert n True (ffi_contracted fc)\<rparr>"

definition ffi_error :: "string \<Rightarrow> string \<Rightarrow> span \<Rightarrow> checker_error" where
  "ffi_error code msg sp = \<lparr>ck_code = code, ck_message = msg, ck_span = sp\<rparr>"

definition check_extern_decl :: "ffi_checker \<Rightarrow> string \<Rightarrow> bool \<Rightarrow> bool \<Rightarrow> span \<Rightarrow> checker_error list" where
  "check_extern_decl fc n has_boundary has_contract sp =
     (if \<not> has_boundary then [ffi_error ''A11001'' (''extern '' @ quoted n @ '' has no trust boundary annotation; '' @
        ''add @trust:trusted, @trust:audited, or @trust:untrusted'') sp] else []) @
     (if hm_get (ffi_externs fc) n = Some Untrusted \<and> \<not> has_contract
      then [ffi_error ''A11002'' (''untrusted extern '' @ quoted n @ '' has no contract; '' @
        ''add requires/ensures to validate inputs and outputs'') sp] else [])"

definition check_ffi_call :: "ffi_checker \<Rightarrow> string \<Rightarrow> bool \<Rightarrow> span \<Rightarrow> checker_error list" where
  "check_ffi_call fc callee validated sp =
     (if hm_get (ffi_contracted fc) callee = Some True then []
      else if hm_get (ffi_externs fc) callee = Some Untrusted \<and> \<not> validated
      then [ffi_error ''A11003'' (''result of untrusted FFI call '' @ quoted callee @ '' used without validation; '' @
        ''wrap return value in a validate block'') sp]
      else [])"

definition check_unsafe_confinement :: "string \<Rightarrow> bool \<Rightarrow> bool \<Rightarrow> span \<Rightarrow> checker_error list" where
  "check_unsafe_confinement n is_wrapper has_unsafe sp =
     (if has_unsafe \<and> \<not> is_wrapper
      then [ffi_error ''A11004'' (''function '' @ quoted n @ '' uses unsafe operations but is not an FFI wrapper; '' @
        ''move unsafe code to an extern wrapper'') sp]
      else [])"

section \<open>The walk over a file\<close>

definition has_boundary :: "clause list \<Rightarrow> bool" where
  "has_boundary cs \<longleftrightarrow> list_ex (\<lambda>c. other_kind_in [''trust'', ''boundary''] (cl_kind c)) cs"

definition has_trust :: "string \<Rightarrow> clause list \<Rightarrow> bool" where
  "has_trust level cs \<longleftrightarrow>
     list_ex (\<lambda>c. other_kind_in [''trust''] (cl_kind c) \<and> node (cl_body c) = Ident level) cs"

definition trust_of :: "clause list \<Rightarrow> trust_boundary" where
  "trust_of cs = (if has_trust ''trusted'' cs then Trusted else if has_trust ''audited'' cs then Audited else Untrusted)"

definition has_kind :: "clause_kind \<Rightarrow> clause list \<Rightarrow> bool" where
  "has_kind k cs \<longleftrightarrow> list_ex (\<lambda>c. cl_kind c = k) cs"

definition has_pre_or_post :: "clause list \<Rightarrow> bool" where
  "has_pre_or_post cs \<longleftrightarrow> has_kind Requires cs \<or> has_kind Ensures cs"

definition file_externs :: "source_file \<Rightarrow> (extern_decl \<times> span) list" where
  "file_externs sf = List.map_filter (\<lambda>d. case sd_node d of Extern e \<Rightarrow> Some (e, sd_span d) | _ \<Rightarrow> None) (sf_decls sf)"

definition register_ffi :: "extern_decl \<times> span \<Rightarrow> ffi_checker \<Rightarrow> ffi_checker" where
  "register_ffi es fc =
     (let e = fst es; fc1 = register_extern (ex_name e) (trust_of (ex_clauses e)) fc
      in if has_pre_or_post (ex_clauses e) then mark_contracted (ex_name e) fc1 else fc1)"

definition file_ffi_checker :: "source_file \<Rightarrow> ffi_checker" where
  "file_ffi_checker sf = fold register_ffi (file_externs sf) ffi_new"

definition check_ffi_file :: "ffi_checker \<Rightarrow> (extern_decl \<times> span) list \<Rightarrow> checker_error list" where
  "check_ffi_file fc es = concat (map (\<lambda>(e, sp).
     check_extern_decl fc (ex_name e) (has_boundary (ex_clauses e)) (ex_clauses e \<noteq> []) sp) es)"

definition boundary_errors :: "extern_decl \<times> span \<Rightarrow> type_error list" where
  "boundary_errors es =
     (let e = fst es; sp = snd es; cs = ex_clauses e
      in (if has_boundary cs \<and> \<not> has_kind Requires cs \<and> \<not> has_kind Ensures cs
          then [type_error_at ''A11005'' (''extern '' @ quoted (ex_name e) @
            '' has trust boundary but no requires/ensures contracts; '' @
            ''add preconditions and postconditions to validate the trust boundary'') sp] else []) @
         map type_error_of_checker_error (check_unsafe_confinement (ex_name e) (has_boundary cs)
           (list_ex (\<lambda>c. other_kind_in [''unsafe''] (cl_kind c)) cs) sp))"

definition result_validated :: "clause list \<Rightarrow> string \<Rightarrow> bool" where
  "result_validated cs callee \<longleftrightarrow>
     list_ex (\<lambda>c. cl_kind c = Ensures \<and> expr_references_var (cl_body c) callee) cs"

definition ffi_call_errors :: "ffi_checker \<Rightarrow> spanned_decl \<Rightarrow> checker_error list" where
  "ffi_call_errors fc sd =
     (case clauses_contract_fn (sd_node sd) of
        None \<Rightarrow> []
      | Some cs \<Rightarrow> concat (map (\<lambda>c. if cl_kind c \<in> {Ensures, Requires}
          then concat (map (\<lambda>callee. check_ffi_call fc callee (result_validated cs callee) (sd_span sd))
                 (collect_ident_references (cl_body c)))
          else []) cs))"

definition check_ffi :: "source_file \<Rightarrow> type_error list" where
  "check_ffi sf =
     (if \<not> list_ex (\<lambda>(e, sp). has_boundary (ex_clauses e)) (file_externs sf) then []
      else (let fc = file_ffi_checker sf
            in map type_error_of_checker_error (check_ffi_file fc (file_externs sf)) @
               concat (map boundary_errors (file_externs sf)) @
               map type_error_of_checker_error (concat (map (ffi_call_errors fc) (sf_decls sf)))))"

section \<open>What the checks decide\<close>

lemma has_pre_or_post_clause: "has_pre_or_post cs \<Longrightarrow> cs \<noteq> []"
  by (auto simp: has_pre_or_post_def has_kind_def)

lemma register_ffi_contracted:
  "hm_get (ffi_contracted (fold register_ffi es fc)) n =
     (if \<exists>es' \<in> set es. ex_name (fst es') = n \<and> has_pre_or_post (ex_clauses (fst es')) then Some True
      else hm_get (ffi_contracted fc) n)"
  by (induction es arbitrary: fc)
    (auto simp: register_ffi_def register_extern_def mark_contracted_def Let_def hm.get_insert)

lemma register_ffi_externs:
  "hm_get (ffi_externs (fold register_ffi es fc)) n = None \<longleftrightarrow>
   n \<notin> (\<lambda>es. ex_name (fst es)) ` set es \<and> hm_get (ffi_externs fc) n = None"
proof (induction es arbitrary: fc)
  case (Cons es' es)
  have "hm_get (ffi_externs (register_ffi es' fc)) n = None \<longleftrightarrow> n \<noteq> ex_name (fst es') \<and> hm_get (ffi_externs fc) n = None"
    by (auto simp: register_ffi_def register_extern_def mark_contracted_def Let_def hm.get_insert)
  with Cons.IH [of "register_ffi es' fc"] show ?case by auto
qed simp

lemma extern_decl_clean:
  "check_extern_decl fc n b k sp = [] \<longleftrightarrow> b \<and> (hm_get (ffi_externs fc) n = Some Untrusted \<longrightarrow> k)"
  by (auto simp: check_extern_decl_def)

lemma boundary_clean:
  "boundary_errors es = [] \<longleftrightarrow>
   (if has_boundary (ex_clauses (fst es)) then has_pre_or_post (ex_clauses (fst es))
    else \<not> list_ex (\<lambda>c. other_kind_in [''unsafe''] (cl_kind c)) (ex_clauses (fst es)))"
  by (auto simp: boundary_errors_def check_unsafe_confinement_def has_pre_or_post_def Let_def)

lemma calls_clean:
  assumes "\<forall>es \<in> set (file_externs sf). has_pre_or_post (ex_clauses (fst es))"
  shows "ffi_call_errors (file_ffi_checker sf) sd = []"
proof -
  have "check_ffi_call (file_ffi_checker sf) callee v sp = []" for callee v sp
  proof (cases "hm_get (ffi_externs (file_ffi_checker sf)) callee = None")
    case True
    then show ?thesis by (simp add: check_ffi_call_def)
  next
    case False
    then have "callee \<in> (\<lambda>es. ex_name (fst es)) ` set (file_externs sf)"
      using register_ffi_externs [of "file_externs sf" ffi_new callee]
      unfolding file_ffi_checker_def ffi_new_def by (simp add: hm.get_empty)
    with assms have "hm_get (ffi_contracted (file_ffi_checker sf)) callee = Some True"
      by (auto simp: file_ffi_checker_def register_ffi_contracted)
    then show ?thesis by (simp add: check_ffi_call_def)
  qed
  then show ?thesis by (auto simp: ffi_call_errors_def split: option.split)
qed

text \<open>The check accepts a file exactly when no extern declaration names a boundary or all of them do and have
  a requires or an ensures clause: trust levels, unsafe marks and the uses of results never decide.\<close>

lemma ffi_check_iff:
  "check_ffi sf = [] \<longleftrightarrow>
     (\<forall>es \<in> set (file_externs sf). \<not> has_boundary (ex_clauses (fst es))) \<or>
     (\<forall>es \<in> set (file_externs sf). has_boundary (ex_clauses (fst es)) \<and> has_pre_or_post (ex_clauses (fst es)))"
proof (cases "list_ex (\<lambda>(e, sp). has_boundary (ex_clauses e)) (file_externs sf)")
  case True
  have "check_ffi sf = [] \<longleftrightarrow>
    (\<forall>es \<in> set (file_externs sf). has_boundary (ex_clauses (fst es)) \<and> has_pre_or_post (ex_clauses (fst es)))"
  proof
    assume "check_ffi sf = []"
    with True have decls: "check_ffi_file (file_ffi_checker sf) (file_externs sf) = []"
      and bounds: "\<forall>es \<in> set (file_externs sf). boundary_errors es = []"
      by (simp_all add: check_ffi_def Let_def)
    from decls have "\<forall>es \<in> set (file_externs sf). has_boundary (ex_clauses (fst es))"
      by (force simp: check_ffi_file_def extern_decl_clean)
    with bounds show "\<forall>es \<in> set (file_externs sf). has_boundary (ex_clauses (fst es)) \<and> has_pre_or_post (ex_clauses (fst es))"
      by (simp add: boundary_clean)
  next
    assume all: "\<forall>es \<in> set (file_externs sf). has_boundary (ex_clauses (fst es)) \<and> has_pre_or_post (ex_clauses (fst es))"
    then have "check_ffi_file (file_ffi_checker sf) (file_externs sf) = []"
      by (force simp: check_ffi_file_def extern_decl_clean dest: has_pre_or_post_clause)
    with True all calls_clean [of sf] show "check_ffi sf = []"
      by (simp add: check_ffi_def Let_def boundary_clean)
  qed
  with True show ?thesis by (auto simp: list_ex_iff)
next
  case False
  then show ?thesis by (auto simp: check_ffi_def list_ex_iff)
qed

text \<open>A name in an ensures clause counts as validated by that very clause.\<close>

lemma ident_visited: "visits ident_hook e e' \<Longrightarrow> visits (var_hook v) e e'"
proof (induction ident_hook e e' rule: visits.induct)
  case (below e c e')
  have "snd (var_hook v (node e))" by (cases "node e") simp_all
  with below show ?case by (auto intro: visits.below)
qed (rule visits.here)

lemma ensures_call_validated:
  assumes "c \<in> set cs" and "cl_kind c = Ensures" and "visits ident_hook (cl_body c) e" and "node e = Ident callee"
  shows "check_ffi_call fc callee (result_validated cs callee) sp = []"
proof -
  have "() \<in> set (visit (var_hook callee) (cl_body c))"
    using ident_visited [OF assms(3)] assms(4) unfolding set_visit by (intro exI [of _ e]) simp
  then have "expr_references_var (cl_body c) callee" by (auto simp: expr_references_var_def)
  with assms(1,2) have "result_validated cs callee" by (auto simp: result_validated_def list_ex_iff)
  then show ?thesis by (simp add: check_ffi_call_def)
qed

end
