(* ===== verification/Generics.thy ===== *)
theory Generics
  imports Checker_Base Type_Convert
begin

text \<open>
  Generic types, \<open>crates/assura-types/src/generics.rs\<close>: the number of their arguments, substitution of type
  parameters, and the check of the type expressions of a file.
\<close>

section \<open>Arities\<close>

definition builtin_generic_arity :: "string \<Rightarrow> nat option" where
  "builtin_generic_arity n =
     (if n \<in> {''List'', ''Set'', ''Option'', ''Sequence''} then Some 1
      else if n \<in> {''Map'', ''Result''} then Some 2
      else None)"

fun decl_param_count :: "string \<Rightarrow> decl \<Rightarrow> nat option" where
  "decl_param_count n (TypeDef t) = (if td_name t = n then Some (length (td_type_params t)) else None)"
| "decl_param_count n (EnumDef e) = (if ed_name e = n then Some (length (ed_type_params e)) else None)"
| "decl_param_count n (Contract c) = (if ct_name c = n then Some (length (ct_type_params c)) else None)"
| "decl_param_count n _ = None"

fun param_count_in :: "string \<Rightarrow> spanned_decl list \<Rightarrow> nat option" where
  "param_count_in n [] = None"
| "param_count_in n (d # ds) =
     (case decl_param_count n (sd_node d) of Some k \<Rightarrow> Some k | None \<Rightarrow> param_count_in n ds)"

definition user_defined_type_param_count :: "string \<Rightarrow> source_file \<Rightarrow> nat option" where
  "user_defined_type_param_count n sf = param_count_in n (sf_decls sf)"

definition arity_error :: "string \<Rightarrow> nat \<Rightarrow> nat \<Rightarrow> span \<Rightarrow> type_error" where
  "arity_error n expected actual sp = type_error_at ''A03002''
     (''wrong number of type arguments for '' @ quoted n @ '': expected '' @ dec expected @ '', found '' @ dec actual) sp"

definition check_generic_instantiation :: "string \<Rightarrow> ty list \<Rightarrow> span \<Rightarrow> source_file \<Rightarrow> type_error + unit" where
  "check_generic_instantiation n args sp sf =
     (case builtin_generic_arity n of
        Some expected \<Rightarrow> if length args \<noteq> expected then Inl (arity_error n expected (length args) sp) else Inr ()
      | None \<Rightarrow>
          (case user_defined_type_param_count n sf of
             Some expected \<Rightarrow> if length args \<noteq> expected then Inl (arity_error n expected (length args) sp) else Inr ()
           | None \<Rightarrow> Inr ()))"

section \<open>Substitution and instantiation\<close>

fun substitute :: "ty \<Rightarrow> (string, ty) hmap \<Rightarrow> ty" where
  "substitute (TyTypeParam n) b = (case hm_get b n of Some t \<Rightarrow> t | None \<Rightarrow> TyTypeParam n)"
| "substitute (TyList t) b = TyList (substitute t b)"
| "substitute (TySet t) b = TySet (substitute t b)"
| "substitute (TyOption t) b = TyOption (substitute t b)"
| "substitute (TySequence t) b = TySequence (substitute t b)"
| "substitute (TyMap k v) b = TyMap (substitute k b) (substitute v b)"
| "substitute (TyResult t e) b = TyResult (substitute t b) (substitute e b)"
| "substitute (TyFn ps r) b = TyFn (map (\<lambda>p. substitute p b) ps) (substitute r b)"
| "substitute (TyRefined t p v) b = TyRefined (substitute t b) p v"
| "substitute t b = t"

definition instantiate_builtin_generic :: "string \<Rightarrow> ty list \<Rightarrow> ty option" where
  "instantiate_builtin_generic n args =
     (case args of
        [] \<Rightarrow> None
      | a # rest \<Rightarrow>
          if n = ''List'' then Some (TyList a)
          else if n = ''Set'' then Some (TySet a)
          else if n = ''Option'' then Some (TyOption a)
          else if n = ''Sequence'' then Some (TySequence a)
          else (case rest of
             [] \<Rightarrow> None
           | b # _ \<Rightarrow>
               if n = ''Map'' then Some (TyMap a b) else if n = ''Result'' then Some (TyResult a b) else None))"

section \<open>The check of a file\<close>

fun check_type_expr :: "source_file \<Rightarrow> span \<Rightarrow> type_expr \<Rightarrow> type_error list" where
  "check_type_expr sf sp (TGeneric n args) =
     (case check_generic_instantiation n (map type_from_expr args) sp sf of Inl e \<Rightarrow> [e] | Inr _ \<Rightarrow> []) @
     concat (map (check_type_expr sf sp) args)"
| "check_type_expr sf sp (TFn ps r) = concat (map (check_type_expr sf sp) ps) @ check_type_expr sf sp r"
| "check_type_expr sf sp (TRefined b p) = check_type_expr sf sp b"
| "check_type_expr sf sp (TNamed n) = []"
| "check_type_expr sf sp (TTuple ts) = []"
| "check_type_expr sf sp TUnit = []"

definition check_opt_type :: "source_file \<Rightarrow> span \<Rightarrow> type_expr option \<Rightarrow> type_error list" where
  "check_opt_type sf sp t = (case t of Some te \<Rightarrow> check_type_expr sf sp te | None \<Rightarrow> [])"

definition check_generic_params :: "source_file \<Rightarrow> span \<Rightarrow> param list \<Rightarrow> type_error list" where
  "check_generic_params sf sp ps = concat (map (\<lambda>p. check_opt_type sf sp (p_ty p)) ps)"

definition check_generic_fields :: "source_file \<Rightarrow> span \<Rightarrow> field_def list \<Rightarrow> type_error list" where
  "check_generic_fields sf sp fs = concat (map (\<lambda>f. check_opt_type sf sp (fd_ty f)) fs)"

fun generic_errors_of_decl :: "source_file \<Rightarrow> span \<Rightarrow> decl \<Rightarrow> type_error list" where
  "generic_errors_of_decl sf sp (TypeDef t) =
     (case td_body t of BodyStruct fs \<Rightarrow> check_generic_fields sf sp fs | _ \<Rightarrow> [])"
| "generic_errors_of_decl sf sp (FnDef f) =
     check_generic_params sf sp (fn_params f) @ check_opt_type sf sp (fn_return_ty f)"
| "generic_errors_of_decl sf sp (Extern e) =
     check_generic_params sf sp (ex_params e) @ check_opt_type sf sp (ex_return_ty e)"
| "generic_errors_of_decl sf sp _ = []"

definition run_generic_instantiation_checks :: "source_file \<Rightarrow> type_error list" where
  "run_generic_instantiation_checks sf =
     concat (map (\<lambda>d. generic_errors_of_decl sf (sd_span d) (sd_node d)) (sf_decls sf))"

section \<open>What the check decides\<close>

text \<open>The generic types an expression applies, with the number of their arguments: not those in tuples.\<close>

fun generic_uses :: "type_expr \<Rightarrow> (string \<times> nat) list" where
  "generic_uses (TGeneric n args) = (n, length args) # concat (map generic_uses args)"
| "generic_uses (TFn ps r) = concat (map generic_uses ps) @ generic_uses r"
| "generic_uses (TRefined b p) = generic_uses b"
| "generic_uses _ = []"

definition arity_of :: "source_file \<Rightarrow> string \<Rightarrow> nat option" where
  "arity_of sf n = (case builtin_generic_arity n of Some k \<Rightarrow> Some k | None \<Rightarrow> user_defined_type_param_count n sf)"

definition arity_ok :: "source_file \<Rightarrow> string \<times> nat \<Rightarrow> bool" where
  "arity_ok sf u \<longleftrightarrow> arity_of sf (fst u) \<in> {None, Some (snd u)}"

lemma instantiation_ok: "isl (check_generic_instantiation n args sp sf) \<longleftrightarrow> (\<exists>k. arity_of sf n = Some k \<and> k \<noteq> length args)"
  by (auto simp: check_generic_instantiation_def arity_of_def split: option.splits)

lemma check_type_expr_iff:
  "check_type_expr sf sp te = [] \<longleftrightarrow> list_all (arity_ok sf) (generic_uses te)"
proof (induction sf sp te rule: check_type_expr.induct)
  case (1 sf sp n args)
  have "(case check_generic_instantiation n (map type_from_expr args) sp sf of Inl e \<Rightarrow> [e] | Inr u \<Rightarrow> []) = [] \<longleftrightarrow>
      arity_ok sf (n, length args)"
    using instantiation_ok [of n "map type_from_expr args" sp sf]
    by (cases "check_generic_instantiation n (map type_from_expr args) sp sf"; cases "arity_of sf n")
      (auto simp: arity_ok_def)
  with 1 show ?case by (auto simp: list_all_iff)
qed (auto simp: list_all_iff)

text \<open>Where the number of arguments is right, the conversion of types fills nothing in.\<close>

lemma instantiation_is_conversion:
  assumes "builtin_generic_arity n = Some (length args)"
  shows "instantiate_builtin_generic n (map type_from_expr args) = Some (type_from_expr (TGeneric n args))"
proof -
  consider a where "args = [a]" | a b where "args = [a, b]"
    using assms by (cases args rule: list.exhaust; cases "tl args") (auto simp: builtin_generic_arity_def split: if_splits)
  then show ?thesis
    by cases (use assms in \<open>auto simp: builtin_generic_arity_def instantiate_builtin_generic_def generic_type_def
      or_unknown_type_def split: if_splits\<close>)
qed

lemma substitute_nothing: "substitute t hm_empty = t"
  by (induction t) (simp_all add: hm.get_empty map_idI)

text \<open>Types in tuples, in contracts and in enumerations are not looked at, and \<open>Vec\<close>, which converts like \<open>List\<close>,
  takes any number of arguments.\<close>

definition returns_type :: "type_expr \<Rightarrow> source_file" where
  "returns_type t = \<lparr>sf_project = None, sf_module = None, sf_imports = [],
     sf_decls = [\<lparr>sd_node = FnDef \<lparr>fn_name = ''f'', fn_is_ghost = False, fn_is_lemma = False, fn_params = [],
        fn_return_ty = Some t, fn_clauses = []\<rparr>, sd_span = (0, 1)\<rparr>]\<rparr>"

lemma arity_gaps:
  "map te_code (run_generic_instantiation_checks (returns_type (TGeneric ''List'' [TNamed ''Int'', TNamed ''Bool'']))) = [''A03002'']"
  "run_generic_instantiation_checks (returns_type (TTuple [TGeneric ''List'' [TNamed ''Int'', TNamed ''Bool''], TUnit])) = []"
  "run_generic_instantiation_checks (returns_type (TGeneric ''Vec'' [TNamed ''Int'', TNamed ''Bool''])) = []"
  by code_simp+

end
