(* ===== verification/Frame.thy ===== *)
theory Frame
  imports Checker_Base Type_Core "HOL-Library.Char_ord" "HOL-Library.List_Lexorder"
begin

text \<open>
  Frame conditions: the collectors of \<open>crates/assura-types/src/checkers/frame.rs\<close> and the
  \<open>FrameChecker\<close> of \<open>checkers/error_propagation.rs\<close>, which decides for which variables the
  verifier may assume \<open>x == old(x)\<close>.  A \<open>HashSet<String>\<close> is a list of distinct strings in the
  order an iteration visits them; the results are shown not to depend on it.
\<close>

section \<open>Collectors\<close>

fun extract_modifies_targets :: "sp_expr \<Rightarrow> string list" where
  "extract_modifies_targets (Spanned (Ident name) s) = [name]"
| "extract_modifies_targets (Spanned (Field receiver f) s) = [field_path receiver f]"
| "extract_modifies_targets (Spanned (BlockE es) s) = concat (map extract_modifies_targets es)"
| "extract_modifies_targets (Spanned (ListE es) s) = concat (map extract_modifies_targets es)"
| "extract_modifies_targets (Spanned (Raw tokens) s) =
     filter (\<lambda>t. t \<noteq> [] \<and> t \<noteq> '','') (map trim tokens)"
| "extract_modifies_targets _ = []"

text \<open>The name \<open>visit_old\<close> takes from the expression inside \<open>old\<close>.\<close>

fun old_target :: "sp_expr \<Rightarrow> string list" where
  "old_target (Spanned (Ident name) s) = [name]"
| "old_target (Spanned (Field receiver f) s) = [field_path receiver f]"
| "old_target _ = []"

fun old_hook :: "string hook" where
  "old_hook (Old inner) = (old_target inner, True)"
| "old_hook _ = ([], True)"

definition collect_old_references :: "sp_expr \<Rightarrow> string list" where
  "collect_old_references e = visit old_hook e"

text \<open>The two patterns \<open>x == old(x)\<close> and \<open>old(x) == x\<close>.\<close>

fun extract_old_ident :: "sp_expr \<Rightarrow> string option" where
  "extract_old_ident (Spanned (Old inner) s) = extract_ident inner"
| "extract_old_ident _ = None"

definition same_name :: "string option \<Rightarrow> string option \<Rightarrow> string list" where
  "same_name a b = (case (a, b) of (Some x, Some y) \<Rightarrow> if x = y then [x] else [] | _ \<Rightarrow> [])"

definition frame_equality :: "sp_expr \<Rightarrow> sp_expr \<Rightarrow> string list" where
  "frame_equality lhs rhs =
     same_name (extract_ident lhs) (extract_old_ident rhs) @
     same_name (extract_old_ident lhs) (extract_ident rhs)"

fun frame_eq_hook :: "string hook" where
  "frame_eq_hook (BinOp lhs Eq rhs) = (frame_equality lhs rhs, True)"
| "frame_eq_hook _ = ([], True)"

definition collect_frame_equality_vars :: "sp_expr \<Rightarrow> string list" where
  "collect_frame_equality_vars e = visit frame_eq_hook e"

section \<open>The checker\<close>

record frame_checker =
  fc_modified :: "string list"

definition frame_new :: "sp_expr list \<Rightarrow> frame_checker" where
  "frame_new modifies_clauses =
     \<lparr>fc_modified = remdups (concat (map extract_modifies_targets modifies_clauses))\<rparr>"

definition frame_empty :: frame_checker where
  "frame_empty = \<lparr>fc_modified = []\<rparr>"

definition has_modifies :: "frame_checker \<Rightarrow> bool" where
  "has_modifies fc \<longleftrightarrow> fc_modified fc \<noteq> []"

definition is_modified :: "frame_checker \<Rightarrow> string \<Rightarrow> bool" where
  "is_modified fc name \<longleftrightarrow> name \<in> set (fc_modified fc)"

definition is_modified_or_under_modified :: "frame_checker \<Rightarrow> string \<Rightarrow> bool" where
  "is_modified_or_under_modified fc name \<longleftrightarrow>
     name \<in> set (fc_modified fc) \<or>
     list_ex (\<lambda>m. prefix (m @ ''.'') name \<or> prefix (name @ ''.'') m) (fc_modified fc)"

definition scope_error :: "span \<Rightarrow> string \<Rightarrow> type_error" where
  "scope_error span name = type_error_at ''A14001''
     (''variable '' @ quoted name @ '' in modifies clause does not exist in scope'') span"

text \<open>The symbol table is read only for the names it holds.\<close>

definition check_scope :: "frame_checker \<Rightarrow> type_env \<Rightarrow> string list \<Rightarrow> span \<Rightarrow> type_error list" where
  "check_scope fc env symbol_names span =
     sort_key te_message
       (map (scope_error span)
         (filter (\<lambda>name. let root = takeWhile (\<lambda>c. c \<noteq> CHR ''.'') name in
              \<not> (env_lookup env root \<noteq> None) \<and> root \<notin> set symbol_names)
           (fc_modified fc)))"

definition frame_axiom_vars_with_candidates ::
  "frame_checker \<Rightarrow> sp_expr \<Rightarrow> string list \<Rightarrow> string list" where
  "frame_axiom_vars_with_candidates fc ensures_body candidates =
     (let old_refs = collect_old_references ensures_body;
          all_refs = remdups (old_refs @
            filter (\<lambda>c. c \<noteq> ''result'' \<and> \<not> prefix ''__'' c) candidates)
      in remdups_adj (sort (filter (\<lambda>name. \<not> is_modified_or_under_modified fc name) all_refs)))"

definition frame_axiom_vars :: "frame_checker \<Rightarrow> sp_expr \<Rightarrow> string list" where
  "frame_axiom_vars fc ensures_body = frame_axiom_vars_with_candidates fc ensures_body []"

definition modification_error :: "span \<Rightarrow> string \<Rightarrow> type_error" where
  "modification_error span name = type_error_at ''A14002''
     (quoted name @ '' appears modified in ensures clause (both '' @ quoted name @ '' and '' @
      quoted (''old('' @ name @ '')'') @ '' referenced) but is not in the modifies set'') span"

definition check_ensures_modifications :: "frame_checker \<Rightarrow> sp_expr \<Rightarrow> span \<Rightarrow> type_error list" where
  "check_ensures_modifications fc ensures_body span =
     (if \<not> has_modifies fc then []
      else (let old_refs = collect_old_references ensures_body;
                ident_refs = collect_ident_references ensures_body;
                frame_eq_vars = collect_frame_equality_vars ensures_body
            in map (modification_error span)
                 (filter (\<lambda>name. name \<in> set ident_refs \<and>
                      \<not> is_modified_or_under_modified fc name \<and> name \<notin> set frame_eq_vars)
                   old_refs)))"

section \<open>What the collectors find\<close>

lemma old_hook_open [simp]: "snd (old_hook x)"
  by (cases x) auto

lemma old_hook_target: "n \<in> set (fst (old_hook x)) \<longleftrightarrow> (\<exists>i. x = Old i \<and> n \<in> set (old_target i))"
  by (cases x) auto

lemma in_old_references:
  "n \<in> set (collect_old_references e) \<longleftrightarrow>
   (\<exists>i s. visits old_hook e (Spanned (Old i) s) \<and> n \<in> set (old_target i))"
proof
  assume "n \<in> set (collect_old_references e)"
  then obtain e' where "visits old_hook e e'" and "n \<in> set (fst (old_hook (node e')))"
    by (auto simp: collect_old_references_def set_visit)
  then show "\<exists>i s. visits old_hook e (Spanned (Old i) s) \<and> n \<in> set (old_target i)"
    by (cases e') (auto simp: old_hook_target)
next
  assume "\<exists>i s. visits old_hook e (Spanned (Old i) s) \<and> n \<in> set (old_target i)"
  then show "n \<in> set (collect_old_references e)"
    by (force simp: collect_old_references_def set_visit)
qed

section \<open>Frame axioms\<close>

lemma set_frame_axiom_vars:
  "set (frame_axiom_vars_with_candidates fc e cs) =
   {n \<in> set (collect_old_references e) \<union> {c \<in> set cs. c \<noteq> ''result'' \<and> \<not> prefix ''__'' c}.
      \<not> is_modified_or_under_modified fc n}"
  by (auto simp: frame_axiom_vars_with_candidates_def Let_def)

lemma sorted_remdups_adj_distinct: "sorted xs \<Longrightarrow> distinct (remdups_adj xs)"
proof (induction xs rule: remdups_adj.induct)
  case (3 x y xs)
  then show ?case by (auto simp: order_antisym)
qed auto

lemma frame_axiom_vars_canonical:
  "sorted (frame_axiom_vars_with_candidates fc e cs)"
  "distinct (frame_axiom_vars_with_candidates fc e cs)"
  by (simp_all add: frame_axiom_vars_with_candidates_def Let_def sorted_remdups_adj
      sorted_remdups_adj_distinct)

text \<open>
  The meaning of a modifies set: a state gives a value to every dotted path, and the function
  body changes only paths that are a modified target or lie below one.
\<close>

definition under_path :: "string \<Rightarrow> string \<Rightarrow> bool" where
  "under_path m p \<longleftrightarrow> p = m \<or> prefix (m @ ''.'') p"

definition changes_only :: "string list \<Rightarrow> (string \<Rightarrow> 'v) \<Rightarrow> (string \<Rightarrow> 'v) \<Rightarrow> bool" where
  "changes_only ms pre post \<longleftrightarrow> (\<forall>p. pre p \<noteq> post p \<longrightarrow> list_ex (\<lambda>m. under_path m p) ms)"

lemma under_path_comparable:
  assumes "under_path m p" and "under_path v p"
  shows "under_path m v \<or> under_path v m"
proof -
  have "prefix m p" and "prefix v p" using assms by (auto simp: under_path_def dest: append_prefixD)
  then consider "prefix m v" | "prefix v m" using prefix_same_cases by blast
  then show ?thesis
  proof cases
    case 1
    then obtain r where v: "v = m @ r" by (auto simp: prefix_def)
    then show ?thesis
      using assms by (cases r) (auto simp: under_path_def prefix_def)
  next
    case 2
    then obtain r where m: "m = v @ r" by (auto simp: prefix_def)
    then show ?thesis
      using assms by (cases r) (auto simp: under_path_def prefix_def)
  qed
qed

lemma not_modified_disjoint:
  "\<not> is_modified_or_under_modified fc v \<Longrightarrow> m \<in> set (fc_modified fc) \<Longrightarrow>
   \<not> under_path m v \<and> \<not> under_path v m"
  by (auto simp: is_modified_or_under_modified_def under_path_def list_ex_iff)

text \<open>C15: the frame axioms are sound: when the body changes nothing outside the modifies set,
  every variable that gets an axiom \<open>x == old(x)\<close> keeps its value, at the path itself and at every
  field below it.\<close>

theorem frame_axioms_sound:
  assumes "changes_only (fc_modified fc) pre post"
    and "v \<in> set (frame_axiom_vars_with_candidates fc e cs)"
    and "under_path v p"
  shows "pre p = post p"
proof (rule ccontr)
  assume "pre p \<noteq> post p"
  with assms(1) obtain m where "m \<in> set (fc_modified fc)" and "under_path m p"
    by (auto simp: changes_only_def list_ex_iff)
  with assms(2,3) show False
    using under_path_comparable not_modified_disjoint by (fastforce simp: set_frame_axiom_vars)
qed

text \<open>A contract \<open>modifies { node.keys }\<close> over \<open>ensures { size == old(size) }\<close>.\<close>

definition frame_example :: frame_checker where
  "frame_example = frame_new [no_span (Field (no_span (Ident ''node'')) ''keys'')]"

lemma frame_axioms_sound_witness:
  "((\<lambda>p. 0) :: string \<Rightarrow> nat) ''size.lo'' = ((\<lambda>p. 0)(''node.keys'' := 1)) ''size.lo''"
proof (rule frame_axioms_sound [where v = "''size''" and fc = frame_example and cs = "[]" and
      e = "no_span (BinOp (no_span (Ident ''size'')) Eq (no_span (Old (no_span (Ident ''size'')))))"])
  show "changes_only (fc_modified frame_example) (\<lambda>p. 0 :: nat) ((\<lambda>p. 0)(''node.keys'' := 1))"
    by (simp add: changes_only_def frame_example_def frame_new_def no_span_def field_path_def
        under_path_def)
  show "''size'' \<in> set (frame_axiom_vars_with_candidates frame_example (no_span (BinOp
      (no_span (Ident ''size'')) Eq (no_span (Old (no_span (Ident ''size'')))))) [])"
    by (simp add: set_frame_axiom_vars collect_old_references_def no_span_def frame_example_def
        frame_new_def field_path_def is_modified_or_under_modified_def)
qed (simp add: under_path_def)

section \<open>Independence of the iteration order\<close>

lemma sort_key_mset_cong:
  assumes "mset xs = mset ys" and "inj_on f (set xs)"
  shows "sort_key f xs = sort_key f ys"
proof (rule properties_for_sort_key)
  have set: "set xs = set ys" using assms(1) by (metis set_mset_mset)
  show "mset (sort_key f ys) = mset xs" using assms(1) by simp
  show "sorted (map f (sort_key f ys))" by simp
  show "filter (\<lambda>x. f k = f x) (sort_key f ys) = filter (\<lambda>x. f k = f x) xs"
    if k: "k \<in> set (sort_key f ys)" for k
  proof -
    have only: "z = k" if "z \<in> set ys" "f k = f z" for z
      using assms(2) set k that by (auto dest: inj_onD)
    have rep: "zs = replicate (length zs) k" if "\<forall>z \<in> set zs. z = k" for zs :: "'a list"
      using that by (simp add: list_eq_iff_nth_eq)
    have "filter (\<lambda>x. f k = f x) (sort_key f ys) =
        replicate (length (filter (\<lambda>x. f k = f x) (sort_key f ys))) k"
      by (rule rep) (use only in auto)
    also have "length (filter (\<lambda>x. f k = f x) (sort_key f ys)) = length (filter (\<lambda>x. f k = f x) xs)"
      using assms(1) by (metis mset_filter mset_sort size_mset)
    also have "replicate (length (filter (\<lambda>x. f k = f x) xs)) k = filter (\<lambda>x. f k = f x) xs"
      by (rule rep [symmetric]) (use only set in auto)
    finally show ?thesis .
  qed
qed

lemma scope_error_inj: "inj_on te_message (scope_error sp ` N)"
  by (auto simp: inj_on_def scope_error_def quoted_def)

text \<open>C40: the scope errors do not depend on the order in which the hash set of targets is
  visited, and a target of a modifies clause is reported exactly when neither the environment nor the symbol table
  knows the variable before its first dot.\<close>

theorem check_scope_deterministic:
  "mset (fc_modified fc) = mset (fc_modified fc') \<Longrightarrow>
   check_scope fc env syms sp = check_scope fc' env syms sp \<and>
   set (check_scope fc env syms sp) =
     {scope_error sp n | n. n \<in> set (fc_modified fc) \<and>
        env_lookup env (takeWhile (\<lambda>c. c \<noteq> CHR ''.'') n) = None \<and>
        takeWhile (\<lambda>c. c \<noteq> CHR ''.'') n \<notin> set syms}"
proof (intro conjI)
  assume "mset (fc_modified fc) = mset (fc_modified fc')"
  then show "check_scope fc env syms sp = check_scope fc' env syms sp"
    unfolding check_scope_def
    by (intro sort_key_mset_cong) (auto simp: mset_filter intro: inj_on_subset [OF scope_error_inj])
  show "set (check_scope fc env syms sp) =
     {scope_error sp n | n. n \<in> set (fc_modified fc) \<and>
        env_lookup env (takeWhile (\<lambda>c. c \<noteq> CHR ''.'') n) = None \<and>
        takeWhile (\<lambda>c. c \<noteq> CHR ''.'') n \<notin> set syms}"
    by (auto simp: check_scope_def Let_def)
qed

lemma check_scope_deterministic_witness:
  "check_scope \<lparr>fc_modified = [''b.c'', ''a'']\<rparr> env_new [] (0, 4) =
   check_scope \<lparr>fc_modified = [''a'', ''b.c'']\<rparr> env_new [] (0, 4)"
  using check_scope_deterministic [of "\<lparr>fc_modified = [''b.c'', ''a'']\<rparr>"
      "\<lparr>fc_modified = [''a'', ''b.c'']\<rparr>" env_new "[]" "(0, 4)"]
  by (simp add: add_mset_commute)

section \<open>Modifications implied by a postcondition\<close>

text \<open>
  Rule A14002: a name is reported once for each \<open>old\<close> around it, when it also occurs outside
  \<open>old\<close>, is unrelated to the modifies set and is in no frame equality.
\<close>

lemma modification_error_inj:
  assumes "modification_error sp a = modification_error sp n"
  shows "a = n"
proof -
  have m: "te_message (modification_error sp a) = te_message (modification_error sp n)"
    using assms by simp
  from arg_cong [OF m, of length] have "length a = length n"
    by (simp add: modification_error_def quoted_def)
  then have "length (quoted a) = length (quoted n)" by (simp add: quoted_def)
  moreover from m have "quoted a @ drop (length (quoted a)) (te_message (modification_error sp a)) =
      quoted n @ drop (length (quoted n)) (te_message (modification_error sp n))"
    by (simp add: modification_error_def del: append_eq_append_conv)
  ultimately have "quoted a = quoted n" by (metis append_eq_append_conv)
  then show ?thesis by (simp add: quoted_def)
qed

lemma check_ensures_modifications_iff:
  "modification_error sp n \<in> set (check_ensures_modifications fc e sp) \<longleftrightarrow>
   has_modifies fc \<and> n \<in> set (collect_old_references e) \<and> n \<in> set (collect_ident_references e) \<and>
   \<not> is_modified_or_under_modified fc n \<and> n \<notin> set (collect_frame_equality_vars e)"
proof -
  have "modification_error sp n \<in> modification_error sp ` A \<longleftrightarrow> n \<in> A" for A
    by (blast dest: modification_error_inj)
  then show ?thesis by (simp add: check_ensures_modifications_def conj_ac)
qed

text \<open>
  The exclusion is wider than the comment above it says: one frame equality anywhere in the
  clause silences the rule for that variable, also where the clause compares it otherwise.
\<close>

definition frame_and_change :: sp_expr where
  "frame_and_change =
     (let x = no_span (Ident ''x''); old_x = no_span (Old x)
      in no_span (BinOp (no_span (BinOp x Eq old_x)) Or (no_span (BinOp x Gt old_x))))"

lemma mixed_frame_equality_not_reported:
  "check_ensures_modifications \<lparr>fc_modified = [''y'']\<rparr> frame_and_change sp = []"
  by (simp add: check_ensures_modifications_def has_modifies_def frame_and_change_def no_span_def
      collect_old_references_def collect_ident_references_def collect_frame_equality_vars_def
      frame_equality_def same_name_def Let_def)

end
