(* ===== verification/Linear.thy ===== *)
theory Linear
  imports Checker_Base Type_Expr
begin

text \<open>
  Linear types, \<open>crates/assura-types/src/checkers/linear.rs\<close>: usage grades, the tracker of use
  counts, the context that forks and merges at branches, the walk over an expression, and the
  check of a source file.  A count is a \<open>u32\<close>: additions wrap at \<open>2 ^ 32\<close>, as in a release
  build.  The specification counts the uses of a variable on every execution path of an
  expression; the walk is shown to report an inconsistency exactly when two paths differ.
\<close>

section \<open>Grades and the tracker\<close>

datatype usage_grade = Erased | Linear | Exact nat | Unlimited

type_synonym usage = "usage_grade \<times> nat \<times> span"

record usage_tracker =
  ut_usages :: "(string, usage) hmap"

definition u32_add :: "nat \<Rightarrow> nat \<Rightarrow> nat" where
  "u32_add a b = (a + b) mod 2 ^ 32"

definition tracker_new :: usage_tracker where
  "tracker_new = \<lparr>ut_usages = hm_empty\<rparr>"

definition tracker_declare :: "string \<Rightarrow> usage_grade \<Rightarrow> span \<Rightarrow> usage_tracker \<Rightarrow> usage_tracker" where
  "tracker_declare name grade span t = t\<lparr>ut_usages := hm_insert name (grade, 0, span) (ut_usages t)\<rparr>"

definition tracker_use_var :: "string \<Rightarrow> usage_tracker \<Rightarrow> usage_tracker" where
  "tracker_use_var name t =
     t\<lparr>ut_usages := hm_modify name (\<lambda>(grade, count, span). (grade, u32_add count 1, span)) (ut_usages t)\<rparr>"

definition tracker_get_count :: "usage_tracker \<Rightarrow> string \<Rightarrow> nat option" where
  "tracker_get_count t name = map_option (\<lambda>(grade, count, span). count) (hm_get (ut_usages t) name)"

definition tracker_set_count :: "string \<Rightarrow> nat \<Rightarrow> usage_tracker \<Rightarrow> usage_tracker" where
  "tracker_set_count name n t =
     t\<lparr>ut_usages := hm_modify name (\<lambda>(grade, count, span). (grade, n, span)) (ut_usages t)\<rparr>"

fun usage_errors :: "string \<times> usage \<Rightarrow> type_error list" where
  "usage_errors (name, Erased, used, span) =
     (if used > 0 then [type_error_at ''A05002''
        (''erased variable '' @ quoted name @ '' must not be used at runtime, but was used '' @
         dec used @ '' time(s)'') span] else [])"
| "usage_errors (name, Linear, used, span) =
     (if used = 0 then [type_error_at ''A05002''
        (''linear variable '' @ quoted name @ '' was never used'') span]
      else if used > 1 then [type_error_at ''A05001''
        (''linear variable '' @ quoted name @ '' used '' @ dec used @
         '' times, but must be used exactly once'') span]
      else [])"
| "usage_errors (name, Exact expected, used, span) =
     (if used \<noteq> expected then [type_error_at ''A05003''
        (''variable '' @ quoted name @ '' used '' @ dec used @ '' time(s), but must be used exactly '' @
         dec expected @ '' time(s)'') span] else [])"
| "usage_errors (name, Unlimited, used, span) = []"

definition tracker_check :: "usage_tracker \<Rightarrow> type_error list" where
  "tracker_check t =
     sort_key (\<lambda>e. fst (te_span e)) (concat (map usage_errors (hm_entries (ut_usages t))))"

section \<open>The context\<close>

record linear_context =
  lc_tracker :: usage_tracker

definition ctx_use_var :: "string \<Rightarrow> linear_context \<Rightarrow> linear_context" where
  "ctx_use_var name ctx = ctx\<lparr>lc_tracker := tracker_use_var name (lc_tracker ctx)\<rparr>"

definition ctx_declare :: "string \<Rightarrow> usage_grade \<Rightarrow> span \<Rightarrow> linear_context \<Rightarrow> linear_context" where
  "ctx_declare name grade span ctx =
     ctx\<lparr>lc_tracker := tracker_declare name grade span (lc_tracker ctx)\<rparr>"

definition ctx_fork :: "linear_context \<Rightarrow> linear_context \<times> linear_context" where
  "ctx_fork ctx = (ctx, ctx)"

definition ctx_check :: "linear_context \<Rightarrow> type_error list" where
  "ctx_check ctx = tracker_check (lc_tracker ctx)"

fun strict_grade :: "usage_grade \<Rightarrow> bool" where
  "strict_grade Linear \<longleftrightarrow> True"
| "strict_grade (Exact n) \<longleftrightarrow> True"
| "strict_grade _ \<longleftrightarrow> False"

text \<open>
  \<open>b.get_count(name).unwrap_or(base).saturating_sub(base)\<close>; subtraction of naturals saturates.
\<close>

definition branch_delta :: "linear_context \<Rightarrow> string \<Rightarrow> nat \<Rightarrow> nat" where
  "branch_delta branch name base =
     unwrap_or (tracker_get_count (lc_tracker branch) name) base - base"

definition ctx_set_count :: "string \<Rightarrow> nat \<Rightarrow> linear_context \<Rightarrow> linear_context" where
  "ctx_set_count name n ctx = ctx\<lparr>lc_tracker := tracker_set_count name n (lc_tracker ctx)\<rparr>"

definition merge_step :: "linear_context \<Rightarrow> linear_context \<Rightarrow> string \<times> usage \<Rightarrow>
    linear_context \<times> type_error list \<Rightarrow> linear_context \<times> type_error list" where
  "merge_step branch_a branch_b = (\<lambda>(name, grade, base, span) (ctx, errors).
     let delta_a = branch_delta branch_a name base; delta_b = branch_delta branch_b name base
     in (ctx_set_count name (u32_add base (max delta_a delta_b)) ctx,
         errors @ (if strict_grade grade \<and> delta_a \<noteq> delta_b
           then [type_error_at ''A05004''
             (''linear variable '' @ quoted name @ '' used inconsistently across branches: used '' @
              dec delta_a @ '' time(s) in one branch, '' @ dec delta_b @ '' time(s) in the other'') span]
           else [])))"

definition ctx_merge :: "linear_context \<Rightarrow> linear_context \<Rightarrow> linear_context \<Rightarrow>
    linear_context \<times> type_error list" where
  "ctx_merge ctx branch_a branch_b =
     fold (merge_step branch_a branch_b) (hm_entries (ut_usages (lc_tracker ctx))) (ctx, [])"

text \<open>The first arm whose delta differs from that of arm 1, counted from 1.\<close>

definition arms_error :: "string \<Rightarrow> nat list \<Rightarrow> span \<Rightarrow> type_error list" where
  "arms_error name deltas span =
     (case find_index (\<lambda>d. d \<noteq> hd deltas) deltas of
        None \<Rightarrow> []
      | Some i \<Rightarrow> [type_error_at ''A05004''
          (''linear variable '' @ quoted name @ '' used inconsistently across match arms: used '' @
           dec (hd deltas) @ '' time(s) in arm 1, '' @ dec (deltas ! i) @ '' time(s) in arm '' @
           dec (i + 1)) span])"

definition merge_arms_step :: "linear_context list \<Rightarrow> string \<times> usage \<Rightarrow>
    linear_context \<times> type_error list \<Rightarrow> linear_context \<times> type_error list" where
  "merge_arms_step arms = (\<lambda>(name, grade, base, span) (ctx, errors).
     let deltas = map (\<lambda>arm. branch_delta arm name base) arms
     in (ctx_set_count name (u32_add base (fold max deltas 0)) ctx,
         errors @ (if strict_grade grade then arms_error name deltas span else [])))"

definition ctx_merge_arms :: "linear_context \<Rightarrow> linear_context list \<Rightarrow>
    linear_context \<times> type_error list" where
  "ctx_merge_arms ctx arms =
     (if arms = [] then (ctx, [])
      else fold (merge_arms_step arms) (hm_entries (ut_usages (lc_tracker ctx))) (ctx, []))"

section \<open>The walk\<close>

text \<open>The state is the context and the vector of errors; a list of expressions runs in order.\<close>

type_synonym walk_state = "linear_context \<times> type_error list"

fun walk :: "sp_expr \<Rightarrow> walk_state \<Rightarrow> walk_state"
  and walk_list :: "sp_expr list \<Rightarrow> walk_state \<Rightarrow> walk_state"
  and walk_opt :: "sp_expr option \<Rightarrow> walk_state \<Rightarrow> walk_state"
  and walk_arms :: "match_arm list \<Rightarrow> linear_context \<Rightarrow> type_error list \<Rightarrow>
    linear_context list \<times> type_error list" where
  "walk (Spanned (Ident name) s) st = (ctx_use_var name (fst st), snd st)"
| "walk (Spanned (Literal l) s) st = st"
| "walk (Spanned (Field r f) s) st = walk r st"
| "walk (Spanned (MethodCall r m args) s) st = walk_list args (walk r st)"
| "walk (Spanned (Call f args) s) st = walk_list args (walk f st)"
| "walk (Spanned (Index b i) s) st = walk i (walk b st)"
| "walk (Spanned (BinOp l op r) s) st = walk r (walk l st)"
| "walk (Spanned (UnaryOp op e) s) st = walk e st"
| "walk (Spanned (Old e) s) st = st"
| "walk (Spanned (Forall v d b) s) st = st"
| "walk (Spanned (Exists v d b) s) st = st"
| "walk (Spanned (IfE c t els) s) st =
     (let (ctx, errors) = walk c st;
          (ctx_then, ctx_else) = ctx_fork ctx;
          (ctx_then', errors1) = walk t (ctx_then, errors);
          (ctx_else', errors2) = walk_opt els (ctx_else, errors1);
          (ctx', merge_errors) = ctx_merge ctx ctx_then' ctx_else'
      in (ctx', errors2 @ merge_errors))"
| "walk (Spanned (ListE es) s) st = walk_list es st"
| "walk (Spanned (Cast e ty) s) st = walk e st"
| "walk (Spanned (BlockE es) s) st = walk_list es st"
| "walk (Spanned (Ghost e) s) st = st"
| "walk (Spanned (ApplyE n args) s) st = st"
| "walk (Spanned (Match sc arms) s) st =
     (let (ctx, errors) = walk sc st
      in if arms = [] then (ctx, errors)
         else (let (arm_contexts, errors1) = walk_arms arms ctx errors;
                   (ctx', merge_errors) = ctx_merge_arms ctx arm_contexts
               in (ctx', errors1 @ merge_errors)))"
| "walk (Spanned (LetE n v b) s) st = walk b (walk v st)"
| "walk (Spanned (TupleE es) s) st = walk_list es st"
| "walk (Spanned (Raw ts) s) st = st"
| "walk_list [] st = st"
| "walk_list (e # es) st = walk_list es (walk e st)"
| "walk_opt None st = st"
| "walk_opt (Some e) st = walk e st"
| "walk_arms [] ctx errors = ([], errors)"
| "walk_arms (MatchArm p b # arms) ctx errors =
     (let (arm_ctx, errors1) = walk b (ctx, errors);
          (rest, errors2) = walk_arms arms ctx errors1
      in (arm_ctx # rest, errors2))"

definition check_expr_linearity :: "sp_expr \<Rightarrow> linear_context \<Rightarrow> linear_context \<times> type_error list" where
  "check_expr_linearity e ctx = walk e (ctx, [])"

section \<open>The uses on an execution path\<close>

text \<open>
  The numbers of uses of a variable over all paths: one entry per choice of branches.  Logical
  parts (\<open>old\<close>, quantifiers, \<open>ghost\<close>, \<open>apply\<close>) are erased.
\<close>

definition seq_paths :: "nat list \<Rightarrow> nat list \<Rightarrow> nat list" where
  "seq_paths ps qs = concat (map (\<lambda>p. map (\<lambda>q. p + q) qs) ps)"

fun path_uses :: "string \<Rightarrow> sp_expr \<Rightarrow> nat list"
  and path_uses_list :: "string \<Rightarrow> sp_expr list \<Rightarrow> nat list"
  and path_uses_opt :: "string \<Rightarrow> sp_expr option \<Rightarrow> nat list"
  and path_uses_arms :: "string \<Rightarrow> match_arm list \<Rightarrow> nat list" where
  "path_uses x (Spanned (Ident name) s) = [if name = x then 1 else 0]"
| "path_uses x (Spanned (Literal l) s) = [0]"
| "path_uses x (Spanned (Field r f) s) = path_uses x r"
| "path_uses x (Spanned (MethodCall r m args) s) = seq_paths (path_uses x r) (path_uses_list x args)"
| "path_uses x (Spanned (Call f args) s) = seq_paths (path_uses x f) (path_uses_list x args)"
| "path_uses x (Spanned (Index b i) s) = seq_paths (path_uses x b) (path_uses x i)"
| "path_uses x (Spanned (BinOp l op r) s) = seq_paths (path_uses x l) (path_uses x r)"
| "path_uses x (Spanned (UnaryOp op e) s) = path_uses x e"
| "path_uses x (Spanned (Old e) s) = [0]"
| "path_uses x (Spanned (Forall v d b) s) = [0]"
| "path_uses x (Spanned (Exists v d b) s) = [0]"
| "path_uses x (Spanned (IfE c t els) s) =
     seq_paths (path_uses x c) (path_uses x t @ path_uses_opt x els)"
| "path_uses x (Spanned (ListE es) s) = path_uses_list x es"
| "path_uses x (Spanned (Cast e ty) s) = path_uses x e"
| "path_uses x (Spanned (BlockE es) s) = path_uses_list x es"
| "path_uses x (Spanned (Ghost e) s) = [0]"
| "path_uses x (Spanned (ApplyE n args) s) = [0]"
| "path_uses x (Spanned (Match sc arms) s) =
     seq_paths (path_uses x sc) (if arms = [] then [0] else path_uses_arms x arms)"
| "path_uses x (Spanned (LetE n v b) s) = seq_paths (path_uses x v) (path_uses x b)"
| "path_uses x (Spanned (TupleE es) s) = path_uses_list x es"
| "path_uses x (Spanned (Raw ts) s) = [0]"
| "path_uses_list x [] = [0]"
| "path_uses_list x (e # es) = seq_paths (path_uses x e) (path_uses_list x es)"
| "path_uses_opt x None = [0]"
| "path_uses_opt x (Some e) = path_uses x e"
| "path_uses_arms x [] = []"
| "path_uses_arms x (MatchArm p b # arms) = path_uses x b @ path_uses_arms x arms"

subsection \<open>Sums of path counts\<close>

definition most :: "nat list \<Rightarrow> nat" where
  "most ps = Max (set ps)"

definition same_on_all :: "nat list \<Rightarrow> bool" where
  "same_on_all ps \<longleftrightarrow> (\<forall>p \<in> set ps. p = most ps)"

lemma set_seq_paths: "set (seq_paths ps qs) = {p + q | p q. p \<in> set ps \<and> q \<in> set qs}"
  by (auto simp: seq_paths_def)

lemma most_le: "p \<in> set ps \<Longrightarrow> p \<le> most ps"
  by (simp add: most_def)

lemma most_in: "ps \<noteq> [] \<Longrightarrow> most ps \<in> set ps"
  by (simp add: most_def)

lemma most_eqI: "m \<in> set ps \<Longrightarrow> (\<And>p. p \<in> set ps \<Longrightarrow> p \<le> m) \<Longrightarrow> most ps = m"
  unfolding most_def by (intro Max_eqI) auto

lemma seq_paths_nonempty [simp]: "seq_paths ps qs = [] \<longleftrightarrow> ps = [] \<or> qs = []"
  by (auto simp: seq_paths_def)

lemma most_seq: "ps \<noteq> [] \<Longrightarrow> qs \<noteq> [] \<Longrightarrow> most (seq_paths ps qs) = most ps + most qs"
  by (intro most_eqI) (auto simp: set_seq_paths intro: most_in most_le add_mono)

lemma most_append: "ps \<noteq> [] \<Longrightarrow> qs \<noteq> [] \<Longrightarrow> most (ps @ qs) = max (most ps) (most qs)"
  by (simp add: most_def Max_Un)

lemma same_seq:
  assumes "ps \<noteq> []" and "qs \<noteq> []"
  shows "same_on_all (seq_paths ps qs) \<longleftrightarrow> same_on_all ps \<and> same_on_all qs"
proof
  assume same: "same_on_all (seq_paths ps qs)"
  have "p = most ps" if "p \<in> set ps" for p
  proof -
    have "p + most qs \<in> set (seq_paths ps qs)"
      using that most_in [OF assms(2)] by (auto simp: set_seq_paths)
    then show ?thesis using same assms by (auto simp: same_on_all_def most_seq)
  qed
  moreover have "q = most qs" if "q \<in> set qs" for q
  proof -
    have "most ps + q \<in> set (seq_paths ps qs)"
      using that most_in [OF assms(1)] by (auto simp: set_seq_paths)
    then show ?thesis using same assms by (auto simp: same_on_all_def most_seq)
  qed
  ultimately show "same_on_all ps \<and> same_on_all qs" by (simp add: same_on_all_def)
next
  assume "same_on_all ps \<and> same_on_all qs"
  then show "same_on_all (seq_paths ps qs)"
    using assms by (auto simp: same_on_all_def set_seq_paths most_seq)
qed

lemma same_append:
  assumes "ps \<noteq> []" and "qs \<noteq> []"
  shows "same_on_all (ps @ qs) \<longleftrightarrow> same_on_all ps \<and> same_on_all qs \<and> most ps = most qs"
proof
  assume same: "same_on_all (ps @ qs)"
  then have "most ps = most (ps @ qs)" and "most qs = most (ps @ qs)"
    using most_in [OF assms(1)] most_in [OF assms(2)] by (auto simp: same_on_all_def)
  with same show "same_on_all ps \<and> same_on_all qs \<and> most ps = most qs"
    by (auto simp: same_on_all_def)
next
  assume "same_on_all ps \<and> same_on_all qs \<and> most ps = most qs"
  then show "same_on_all (ps @ qs)" using most_append [OF assms] by (auto simp: same_on_all_def)
qed

lemma same_single [simp]: "same_on_all [n]" "most [n] = n"
  by (simp_all add: same_on_all_def most_def)

lemma path_uses_nonempty [simp]:
  "path_uses x e \<noteq> []" "path_uses_list x es \<noteq> []" "path_uses_opt x o' \<noteq> []"
  "path_uses_arms x arms = [] \<longleftrightarrow> arms = []"
  by (induction x e and x es and x o' and x arms
      rule: path_uses_path_uses_list_path_uses_opt_path_uses_arms.induct) auto

section \<open>What the operations do to the counts\<close>

abbreviation usages :: "linear_context \<Rightarrow> (string, usage) hmap" where
  "usages ctx \<equiv> ut_usages (lc_tracker ctx)"

definition advance :: "linear_context \<Rightarrow> (string \<Rightarrow> nat) \<Rightarrow> linear_context \<Rightarrow> bool" where
  "advance ctx u ctx' \<longleftrightarrow> hm_wf (usages ctx) \<and> hm_wf (usages ctx') \<and>
     (\<forall>x. hm_get (usages ctx') x = map_option (\<lambda>(g, c, s). (g, c + u x, s)) (hm_get (usages ctx) x))"

definition fits :: "linear_context \<Rightarrow> (string \<Rightarrow> nat) \<Rightarrow> bool" where
  "fits ctx u \<longleftrightarrow> (\<forall>x g c s. hm_get (usages ctx) x = Some (g, c, s) \<longrightarrow> c + u x < 2 ^ 32)"

text \<open>The tracked variables whose grade asks for the same count on all paths.\<close>

definition strict_vars :: "linear_context \<Rightarrow> string set" where
  "strict_vars ctx = {x. \<exists>g c s. hm_get (usages ctx) x = Some (g, c, s) \<and> strict_grade g}"

lemma advance_refl: "hm_wf (usages ctx) \<Longrightarrow> advance ctx (\<lambda>x. 0) ctx"
  by (auto simp: advance_def option.map_ident case_prod_unfold)

lemma advance_trans:
  "advance ctx u ctx' \<Longrightarrow> advance ctx' v ctx'' \<Longrightarrow> advance ctx (\<lambda>x. u x + v x) ctx''"
  by (auto simp: advance_def option.map_comp comp_def case_prod_unfold add.assoc)

lemma advance_fits: "advance ctx u ctx' \<Longrightarrow> fits ctx (\<lambda>x. u x + v x) \<Longrightarrow> fits ctx' v"
  by (fastforce simp: advance_def fits_def add.assoc)

lemma advance_strict: "advance ctx u ctx' \<Longrightarrow> strict_vars ctx' = strict_vars ctx"
  by (auto simp: advance_def strict_vars_def)

lemma fits_mono: "fits ctx u \<Longrightarrow> (\<And>x. v x \<le> u x) \<Longrightarrow> fits ctx v"
  unfolding fits_def by (meson add_le_cancel_left le_less_trans)

lemma u32_add_id: "a + b < 2 ^ 32 \<Longrightarrow> u32_add a b = a + b"
  by (simp add: u32_add_def)

lemma usages_use_var:
  "usages (ctx_use_var n ctx) = hm_modify n (\<lambda>(g, c, s). (g, u32_add c 1, s)) (usages ctx)"
  by (simp add: ctx_use_var_def tracker_use_var_def)

lemma advance_use:
  assumes "hm_wf (usages ctx)" and "fits ctx (\<lambda>x. if n = x then 1 else 0)"
  shows "advance ctx (\<lambda>x. if n = x then 1 else 0) (ctx_use_var n ctx)"
  unfolding advance_def usages_use_var
proof (intro conjI allI)
  show "hm_wf (hm_modify n (\<lambda>(g, c, s). (g, u32_add c 1, s)) (usages ctx))"
    using assms(1) by (rule hm.wf_modify)
  fix x
  show "hm_get (hm_modify n (\<lambda>(g, c, s). (g, u32_add c 1, s)) (usages ctx)) x =
      map_option (\<lambda>(g, c, s). (g, c + (if n = x then 1 else 0), s)) (hm_get (usages ctx) x)"
  proof (cases "hm_get (usages ctx) x")
    case (Some w)
    obtain g c s where w: "w = (g, c, s)" by (cases w)
    then have "c + (if n = x then 1 else 0) < 2 ^ 32"
      using assms(2) Some by (simp only: fits_def)
    then have "n = x \<Longrightarrow> u32_add c 1 = c + 1" by (simp add: u32_add_id)
    then show ?thesis using Some w by (cases "n = x") (auto simp: hm.get_modify)
  qed (auto simp: hm.get_modify)
qed (rule assms(1))

text \<open>The loops of the merges: every entry of the snapshot sets its count.\<close>

definition set_counts ::
  "(string \<Rightarrow> usage \<Rightarrow> nat) \<Rightarrow> (string \<Rightarrow> usage \<Rightarrow> type_error list) \<Rightarrow> string \<times> usage \<Rightarrow>
   linear_context \<times> type_error list \<Rightarrow> linear_context \<times> type_error list" where
  "set_counts cf ef = (\<lambda>(name, u) (ctx, errors). (ctx_set_count name (cf name u) ctx, errors @ ef name u))"

lemma usages_set_count:
  "usages (ctx_set_count k n ctx) = hm_modify k (\<lambda>(grade, c, span). (grade, n, span)) (usages ctx)"
  by (simp add: ctx_set_count_def tracker_set_count_def)

lemma fold_set_counts:
  "distinct (map fst es) \<Longrightarrow> hm_wf (usages ctx) \<Longrightarrow>
   fold (set_counts cf ef) es (ctx, errs) = (ctx', errs') \<Longrightarrow>
   hm_wf (usages ctx') \<and> errs' = errs @ concat (map (\<lambda>(k, u). ef k u) es) \<and>
   hm_get (usages ctx') x = (case map_of es x of None \<Rightarrow> hm_get (usages ctx) x
      | Some u \<Rightarrow> map_option (\<lambda>(g, c, s). (g, cf x u, s)) (hm_get (usages ctx) x))"
proof (induction es arbitrary: ctx errs)
  case (Cons p es)
  obtain k u where p: "p = (k, u)" by (cases p)
  have "map_of es k = None" using Cons.prems(1) p by (simp add: map_of_eq_None_iff)
  moreover have "hm_wf (usages (ctx_set_count k (cf k u) ctx))"
    using Cons.prems(2) by (simp add: usages_set_count hm.wf_modify)
  ultimately show ?case
    using Cons.IH [of "ctx_set_count k (cf k u) ctx" "errs @ ef k u"] Cons.prems p
    by (auto simp: set_counts_def usages_set_count hm.get_modify split: option.splits)
qed simp

text \<open>
  One fact about both merges: when the new count is the base plus a delta, the context advances by
  the deltas, and the errors say whether the entries of strict grade satisfy the test.
\<close>

lemma merge_loop:
  assumes loop: "fold (set_counts cf ef) (hm_entries (usages ctx)) (ctx, []) = (ctx', errs)"
    and wf: "hm_wf (usages ctx)" and fits: "fits ctx u"
    and cf: "\<And>k g c s. hm_get (usages ctx) k = Some (g, c, s) \<Longrightarrow> cf k (g, c, s) = u32_add c (u k)"
    and ef: "\<And>k g c s. hm_get (usages ctx) k = Some (g, c, s) \<Longrightarrow>
      ef k (g, c, s) = [] \<longleftrightarrow> (strict_grade g \<longrightarrow> P k)"
  shows "advance ctx u ctx'" and "errs = [] \<longleftrightarrow> (\<forall>x \<in> strict_vars ctx. P x)"
proof -
  let ?es = "hm_entries (usages ctx)"
  have es: "map_of ?es = hm_get (usages ctx)" by (simp add: hm_entries_def hm_get_def fun_eq_iff)
  have "distinct (map fst ?es)" using wf by (rule hm.entries_distinct)
  note result = fold_set_counts [OF this wf loop]
  have "hm_get (usages ctx') x = map_option (\<lambda>(g, c, s). (g, c + u x, s)) (hm_get (usages ctx) x)" for x
  proof (cases "hm_get (usages ctx) x")
    case (Some w)
    obtain g c s where w: "w = (g, c, s)" by (cases w)
    then have "c + u x < 2 ^ 32" using fits Some by (simp only: fits_def)
    then show ?thesis using result [of x] Some w cf [of x g c s] by (simp add: es u32_add_id)
  qed (use result [of x] es in simp)
  then show "advance ctx u ctx'" using result wf by (simp add: advance_def)
  have "errs = [] \<longleftrightarrow> (\<forall>(k, w) \<in> set ?es. ef k w = [])"
    using result by (auto simp: case_prod_unfold)
  also have "\<dots> \<longleftrightarrow> (\<forall>k g c s. hm_get (usages ctx) k = Some (g, c, s) \<longrightarrow> ef k (g, c, s) = [])"
    using hm.entries_get [OF wf] by (simp add: Ball_def split_paired_All)
  also have "\<dots> \<longleftrightarrow> (\<forall>x \<in> strict_vars ctx. P x)"
    using ef by (auto simp: strict_vars_def)
  finally show "errs = [] \<longleftrightarrow> (\<forall>x \<in> strict_vars ctx. P x)" .
qed

lemma branch_delta_advance:
  "advance ctx u branch \<Longrightarrow> hm_get (usages ctx) x = Some (g, c, s) \<Longrightarrow> branch_delta branch x c = u x"
  by (auto simp: advance_def branch_delta_def tracker_get_count_def)

lemma merge_correct:
  assumes a: "advance ctx u a" and b: "advance ctx v b" and fits: "fits ctx (\<lambda>x. max (u x) (v x))"
    and merge: "ctx_merge ctx a b = (ctx', errs)"
  shows "advance ctx (\<lambda>x. max (u x) (v x)) ctx'"
    and "errs = [] \<longleftrightarrow> (\<forall>x \<in> strict_vars ctx. u x = v x)"
proof -
  let ?cf = "\<lambda>n (g, c, s). u32_add c (max (branch_delta a n c) (branch_delta b n c))"
  let ?ef = "\<lambda>n w. snd (merge_step a b (n, w) (ctx, []))"
  have wf: "hm_wf (usages ctx)" using a by (simp add: advance_def)
  have "merge_step a b = set_counts ?cf ?ef"
    by (auto simp: merge_step_def set_counts_def Let_def fun_eq_iff)
  then have loop: "fold (set_counts ?cf ?ef) (hm_entries (usages ctx)) (ctx, []) = (ctx', errs)"
    using merge by (simp add: ctx_merge_def)
  note deltas = branch_delta_advance [OF a] branch_delta_advance [OF b]
  have cf: "?cf k (g, c, s) = u32_add c (max (u k) (v k))"
    and ef: "?ef k (g, c, s) = [] \<longleftrightarrow> (strict_grade g \<longrightarrow> u k = v k)"
    if "hm_get (usages ctx) k = Some (g, c, s)" for k g c s
    using deltas [OF that] by (simp_all add: merge_step_def Let_def)
  show "advance ctx (\<lambda>x. max (u x) (v x)) ctx'"
    by (rule merge_loop(1) [OF loop wf fits cf ef])
  show "errs = [] \<longleftrightarrow> (\<forall>x \<in> strict_vars ctx. u x = v x)"
    by (rule merge_loop(2) [OF loop wf fits cf ef])
qed

lemma fold_max_Max: "ns \<noteq> [] \<Longrightarrow> fold max ns (0 :: nat) = Max (set ns)"
  using Max.set_eq_fold [of "0 :: nat" ns] by simp

lemma arms_error_none: "arms_error name ds sp = [] \<longleftrightarrow> (\<forall>d \<in> set ds. d = hd ds)"
  using find_index_None [of "\<lambda>d. d \<noteq> hd ds" ds]
  by (cases "find_index (\<lambda>d. d \<noteq> hd ds) ds") (simp_all add: arms_error_def)

lemma merge_arms_correct:
  assumes arms: "list_all2 (advance ctx) us arms" and "arms \<noteq> []"
    and fits: "fits ctx (\<lambda>x. Max ((\<lambda>u. u x) ` set us))"
    and merge: "ctx_merge_arms ctx arms = (ctx', errs)"
  shows "advance ctx (\<lambda>x. Max ((\<lambda>u. u x) ` set us)) ctx'"
    and "errs = [] \<longleftrightarrow> (\<forall>x \<in> strict_vars ctx. \<forall>u \<in> set us. u x = hd us x)"
proof -
  let ?cf = "\<lambda>n (g, c, s). u32_add c (fold max (map (\<lambda>arm. branch_delta arm n c) arms) 0)"
  let ?ef = "\<lambda>n w. snd (merge_arms_step arms (n, w) (ctx, []))"
  have us: "us \<noteq> []" using arms assms(2) by auto
  have wf: "hm_wf (usages ctx)"
    using arms assms(2) by (cases us; cases arms) (auto simp: advance_def)
  have "merge_arms_step arms = set_counts ?cf ?ef"
    by (auto simp: merge_arms_step_def set_counts_def Let_def fun_eq_iff)
  then have loop: "fold (set_counts ?cf ?ef) (hm_entries (usages ctx)) (ctx, []) = (ctx', errs)"
    using merge assms(2) by (simp add: ctx_merge_arms_def)
  have deltas: "map (\<lambda>arm. branch_delta arm k c) arms = map (\<lambda>u. u k) us"
    if "hm_get (usages ctx) k = Some (g, c, s)" for k g c s
    using arms branch_delta_advance [OF _ that] by (induction rule: list_all2_induct) auto
  have cf: "?cf k (g, c, s) = u32_add c (Max ((\<lambda>u. u k) ` set us))"
    if "hm_get (usages ctx) k = Some (g, c, s)" for k g c s
    using us deltas [OF that] fold_max_Max [of "map (\<lambda>u. u k) us"] by simp
  have ef: "?ef k (g, c, s) = [] \<longleftrightarrow> (strict_grade g \<longrightarrow> (\<forall>u \<in> set us. u k = hd us k))"
    if "hm_get (usages ctx) k = Some (g, c, s)" for k g c s
    using us by (simp add: merge_arms_step_def Let_def deltas [OF that] arms_error_none hd_map)
  show "advance ctx (\<lambda>x. Max ((\<lambda>u. u x) ` set us)) ctx'"
    by (rule merge_loop(1) [OF loop wf fits cf ef])
  show "errs = [] \<longleftrightarrow> (\<forall>x \<in> strict_vars ctx. \<forall>u \<in> set us. u x = hd us x)"
    by (rule merge_loop(2) [OF loop wf fits cf ef])
qed

section \<open>The walk is exact\<close>

definition uses_of :: "(string \<Rightarrow> nat list) \<Rightarrow> string \<Rightarrow> nat" where
  "uses_of ps x = most (ps x)"

text \<open>
  The contract of one step of the walk over code whose paths are \<open>ps\<close>: the counts advance by the
  largest number of uses on a path, and the step adds an error exactly if some tracked variable
  of strict grade is used differently on two paths.
\<close>

definition exact_step :: "(string \<Rightarrow> nat list) \<Rightarrow> (walk_state \<Rightarrow> walk_state) \<Rightarrow> bool" where
  "exact_step ps f \<longleftrightarrow> (\<forall>x. ps x \<noteq> []) \<and>
     (\<forall>ctx errs. hm_wf (usages ctx) \<longrightarrow> fits ctx (uses_of ps) \<longrightarrow>
       (\<exists>ctx' es. f (ctx, errs) = (ctx', errs @ es) \<and> advance ctx (uses_of ps) ctx' \<and>
          (es = [] \<longleftrightarrow> (\<forall>x \<in> strict_vars ctx. same_on_all (ps x)))))"

lemma exact_stepE:
  assumes "exact_step ps f" and "hm_wf (usages ctx)" and "fits ctx (uses_of ps)"
  obtains ctx' es where "f (ctx, errs) = (ctx', errs @ es)" and "advance ctx (uses_of ps) ctx'"
    and "es = [] \<longleftrightarrow> (\<forall>x \<in> strict_vars ctx. same_on_all (ps x))"
  using assms unfolding exact_step_def by blast

lemma exact_skip: "exact_step (\<lambda>x. [0]) (\<lambda>st. st)"
proof -
  have "uses_of (\<lambda>x. [0]) = (\<lambda>x. 0)" by (simp add: uses_of_def fun_eq_iff)
  then show ?thesis by (simp add: exact_step_def advance_refl)
qed

lemma advance_wf: "advance ctx u ctx' \<Longrightarrow> hm_wf (usages ctx')"
  by (simp add: advance_def)

lemma uses_of_seq:
  "exact_step ps f \<Longrightarrow> exact_step qs g \<Longrightarrow>
   uses_of (\<lambda>x. seq_paths (ps x) (qs x)) = (\<lambda>x. uses_of ps x + uses_of qs x)"
  by (simp add: exact_step_def uses_of_def most_seq fun_eq_iff)

lemma exact_seq:
  assumes f: "exact_step ps f" and g: "exact_step qs g"
  shows "exact_step (\<lambda>x. seq_paths (ps x) (qs x)) (g \<circ> f)"
  unfolding exact_step_def
proof (intro conjI allI impI)
  show "seq_paths (ps x) (qs x) \<noteq> []" for x using f g by (simp add: exact_step_def)
  fix ctx errs
  assume wf: "hm_wf (usages ctx)" and fits: "fits ctx (uses_of (\<lambda>x. seq_paths (ps x) (qs x)))"
  note sum = uses_of_seq [OF f g]
  have "fits ctx (uses_of ps)" using fits by (rule fits_mono) (simp add: sum)
  then obtain ctx1 es1 where 1: "f (ctx, errs) = (ctx1, errs @ es1)" "advance ctx (uses_of ps) ctx1"
    "es1 = [] \<longleftrightarrow> (\<forall>x \<in> strict_vars ctx. same_on_all (ps x))"
    using exact_stepE [OF f wf] by blast
  have "fits ctx1 (uses_of qs)" using advance_fits [OF 1(2)] fits by (simp add: sum)
  then obtain ctx2 es2 where 2: "g (ctx1, errs @ es1) = (ctx2, (errs @ es1) @ es2)"
    "advance ctx1 (uses_of qs) ctx2" "es2 = [] \<longleftrightarrow> (\<forall>x \<in> strict_vars ctx1. same_on_all (qs x))"
    using exact_stepE [OF g advance_wf [OF 1(2)]] by blast
  have "advance ctx (uses_of (\<lambda>x. seq_paths (ps x) (qs x))) ctx2"
    unfolding sum using advance_trans [OF 1(2) 2(2)] .
  moreover have "es1 @ es2 = [] \<longleftrightarrow> (\<forall>x \<in> strict_vars ctx. same_on_all (seq_paths (ps x) (qs x)))"
    using 1(3) 2(3) advance_strict [OF 1(2)] f g by (auto simp: exact_step_def same_seq)
  ultimately show "\<exists>ctx' es. (g \<circ> f) (ctx, errs) = (ctx', errs @ es) \<and>
      advance ctx (uses_of (\<lambda>x. seq_paths (ps x) (qs x))) ctx' \<and>
      (es = [] \<longleftrightarrow> (\<forall>x \<in> strict_vars ctx. same_on_all (seq_paths (ps x) (qs x))))"
    using 1(1) 2(1) by simp
qed

definition branch_step :: "(walk_state \<Rightarrow> walk_state) \<Rightarrow> (walk_state \<Rightarrow> walk_state) \<Rightarrow> walk_state \<Rightarrow> walk_state"
  where
  "branch_step f g = (\<lambda>(ctx, errs).
     let (ctx_a, errs1) = f (ctx, errs); (ctx_b, errs2) = g (ctx, errs1);
         (ctx', merge_errs) = ctx_merge ctx ctx_a ctx_b
     in (ctx', errs2 @ merge_errs))"

lemma exact_branch:
  assumes f: "exact_step ps f" and g: "exact_step qs g"
  shows "exact_step (\<lambda>x. ps x @ qs x) (branch_step f g)"
  unfolding exact_step_def
proof (intro conjI allI impI)
  have ne: "ps x \<noteq> []" "qs x \<noteq> []" for x using f g by (simp_all add: exact_step_def)
  then show "ps x @ qs x \<noteq> []" for x by simp
  fix ctx errs
  have u: "uses_of (\<lambda>x. ps x @ qs x) = (\<lambda>x. max (uses_of ps x) (uses_of qs x))"
    using ne by (simp add: uses_of_def most_append fun_eq_iff)
  assume wf: "hm_wf (usages ctx)" and fits: "fits ctx (uses_of (\<lambda>x. ps x @ qs x))"
  then have fp: "fits ctx (uses_of ps)" and fq: "fits ctx (uses_of qs)"
    by (auto simp: u elim: fits_mono)
  obtain ca ea where a: "f (ctx, errs) = (ca, errs @ ea)" "advance ctx (uses_of ps) ca"
    "ea = [] \<longleftrightarrow> (\<forall>x \<in> strict_vars ctx. same_on_all (ps x))"
    using exact_stepE [OF f wf fp] by blast
  obtain cb eb where b: "g (ctx, errs @ ea) = (cb, (errs @ ea) @ eb)" "advance ctx (uses_of qs) cb"
    "eb = [] \<longleftrightarrow> (\<forall>x \<in> strict_vars ctx. same_on_all (qs x))"
    using exact_stepE [OF g wf fq] by blast
  obtain ctx' em where m: "ctx_merge ctx ca cb = (ctx', em)" by (cases "ctx_merge ctx ca cb")
  note merged = merge_correct [OF a(2) b(2) fits [unfolded u] m]
  have "ea @ eb @ em = [] \<longleftrightarrow> (\<forall>x \<in> strict_vars ctx. same_on_all (ps x @ qs x))"
    using a(3) b(3) merged(2) ne by (auto simp: same_append uses_of_def)
  then show "\<exists>ctx' es. branch_step f g (ctx, errs) = (ctx', errs @ es) \<and>
      advance ctx (uses_of (\<lambda>x. ps x @ qs x)) ctx' \<and>
      (es = [] \<longleftrightarrow> (\<forall>x \<in> strict_vars ctx. same_on_all (ps x @ qs x)))"
    using merged(1) by (simp add: branch_step_def a(1) b(1) m u)
qed

subsection \<open>Match arms\<close>

definition arm_uses :: "match_arm \<Rightarrow> string \<Rightarrow> nat" where
  "arm_uses a = uses_of (\<lambda>x. path_uses x (arm_body a))"

definition exact_arms :: "match_arm list \<Rightarrow> bool" where
  "exact_arms arms \<longleftrightarrow> (\<forall>ctx errs. hm_wf (usages ctx) \<longrightarrow> (\<forall>a \<in> set arms. fits ctx (arm_uses a)) \<longrightarrow>
     (\<exists>ctxs es. walk_arms arms ctx errs = (ctxs, errs @ es) \<and>
        list_all2 (advance ctx) (map arm_uses arms) ctxs \<and>
        (es = [] \<longleftrightarrow> (\<forall>x \<in> strict_vars ctx. \<forall>a \<in> set arms. same_on_all (path_uses x (arm_body a))))))"

lemma exact_arms_Nil: "exact_arms []"
  by (simp add: exact_arms_def)

lemma exact_arms_Cons:
  assumes b: "exact_step (\<lambda>x. path_uses x b) (walk b)" and arms: "exact_arms arms"
  shows "exact_arms (MatchArm p b # arms)"
  unfolding exact_arms_def
proof (intro allI impI)
  fix ctx errs
  assume wf: "hm_wf (usages ctx)" and fits: "\<forall>a \<in> set (MatchArm p b # arms). fits ctx (arm_uses a)"
  then have "fits ctx (uses_of (\<lambda>x. path_uses x b))" by (simp add: arm_uses_def)
  then obtain c1 e1 where 1: "walk b (ctx, errs) = (c1, errs @ e1)"
    "advance ctx (uses_of (\<lambda>x. path_uses x b)) c1"
    "e1 = [] \<longleftrightarrow> (\<forall>x \<in> strict_vars ctx. same_on_all (path_uses x b))"
    using exact_stepE [OF b wf] by blast
  obtain cs es where 2: "walk_arms arms ctx (errs @ e1) = (cs, (errs @ e1) @ es)"
    "list_all2 (advance ctx) (map arm_uses arms) cs"
    "es = [] \<longleftrightarrow> (\<forall>x \<in> strict_vars ctx. \<forall>a \<in> set arms. same_on_all (path_uses x (arm_body a)))"
    using arms wf fits unfolding exact_arms_def by (metis list.set_intros(2))
  have "advance ctx (arm_uses (MatchArm p b)) c1" using 1(2) by (simp add: arm_uses_def)
  moreover have "e1 @ es = [] \<longleftrightarrow> (\<forall>x \<in> strict_vars ctx. \<forall>a \<in> set (MatchArm p b # arms).
      same_on_all (path_uses x (arm_body a)))"
    using 1(3) 2(3) by auto
  ultimately show "\<exists>ctxs es. walk_arms (MatchArm p b # arms) ctx errs = (ctxs, errs @ es) \<and>
      list_all2 (advance ctx) (map arm_uses (MatchArm p b # arms)) ctxs \<and>
      (es = [] \<longleftrightarrow> (\<forall>x \<in> strict_vars ctx. \<forall>a \<in> set (MatchArm p b # arms).
         same_on_all (path_uses x (arm_body a))))"
    using 1(1) 2(1,2) by simp
qed

lemma path_uses_arms_concat:
  "path_uses_arms x arms = concat (map (\<lambda>a. path_uses x (arm_body a)) arms)"
  by (induction x arms rule: path_uses_path_uses_list_path_uses_opt_path_uses_arms.induct(4)
      [of "\<lambda>_ _. True" "\<lambda>_ _. True" "\<lambda>_ _. True"]) simp_all

lemma most_arms:
  assumes "arms \<noteq> []"
  shows "most (path_uses_arms x arms) = Max ((\<lambda>u. u x) ` set (map arm_uses arms))"
proof (rule most_eqI)
  let ?S = "(\<lambda>u. u x) ` set (map arm_uses arms)"
  have "Max ?S \<in> ?S" using assms by (intro Max_in) auto
  then obtain a where "a \<in> set arms" and "Max ?S = arm_uses a x" by auto
  then show "Max ?S \<in> set (path_uses_arms x arms)"
    using most_in [of "path_uses x (arm_body a)"]
    by (auto simp: path_uses_arms_concat arm_uses_def uses_of_def)
  fix p assume "p \<in> set (path_uses_arms x arms)"
  then obtain a where a: "a \<in> set arms" and "p \<in> set (path_uses x (arm_body a))"
    by (auto simp: path_uses_arms_concat)
  then have "p \<le> arm_uses a x" by (simp add: arm_uses_def uses_of_def most_le)
  also have "arm_uses a x \<le> Max ?S" using a by (intro Max_ge) auto
  finally show "p \<le> Max ?S" .
qed

lemma same_arms:
  assumes "arms \<noteq> []"
  shows "same_on_all (path_uses_arms x arms) \<longleftrightarrow>
    (\<forall>a \<in> set arms. same_on_all (path_uses x (arm_body a))) \<and>
    (\<forall>u \<in> set (map arm_uses arms). u x = hd (map arm_uses arms) x)"
proof
  let ?M = "most (path_uses_arms x arms)"
  assume "same_on_all (path_uses_arms x arms)"
  then have all: "p = ?M" if "a \<in> set arms" "p \<in> set (path_uses x (arm_body a))" for a p
    using that unfolding same_on_all_def path_uses_arms_concat by (simp only: set_concat set_map) blast
  have arm: "arm_uses a x = ?M" if "a \<in> set arms" for a
    using all [OF that most_in [OF path_uses_nonempty(1)]] by (simp only: arm_uses_def uses_of_def)
  have same: "\<forall>a \<in> set arms. same_on_all (path_uses x (arm_body a))"
    unfolding same_on_all_def
  proof (intro ballI)
    fix a p assume a: "a \<in> set arms" and "p \<in> set (path_uses x (arm_body a))"
    from all [OF this] arm [OF a] show "p = most (path_uses x (arm_body a))"
      by (simp only: arm_uses_def uses_of_def)
  qed
  have "\<forall>a \<in> set arms. arm_uses a x = hd (map arm_uses arms) x"
  proof
    fix a assume "a \<in> set arms"
    from arm [OF this] arm [OF hd_in_set [OF assms]] assms
    show "arm_uses a x = hd (map arm_uses arms) x" by (simp add: hd_map)
  qed
  with same show "(\<forall>a \<in> set arms. same_on_all (path_uses x (arm_body a))) \<and>
    (\<forall>u \<in> set (map arm_uses arms). u x = hd (map arm_uses arms) x)"
    by (simp only: set_map ball_simps)
next
  assume r: "(\<forall>a \<in> set arms. same_on_all (path_uses x (arm_body a))) \<and>
    (\<forall>u \<in> set (map arm_uses arms). u x = hd (map arm_uses arms) x)"
  have all: "p = arm_uses (hd arms) x" if in_arms: "p \<in> set (path_uses_arms x arms)" for p
  proof -
    obtain a where a: "a \<in> set arms" and p: "p \<in> set (path_uses x (arm_body a))"
      using in_arms by (auto simp: path_uses_arms_concat)
    then have "p = arm_uses a x"
      using r unfolding same_on_all_def arm_uses_def uses_of_def by blast
    moreover have "arm_uses a x = hd (map arm_uses arms) x" using r a by (simp only: set_map) blast
    ultimately show ?thesis by (simp only: hd_map [OF assms])
  qed
  have "path_uses_arms x arms \<noteq> []" using assms by simp
  note most = all [OF most_in [OF this]]
  show "same_on_all (path_uses_arms x arms)"
    unfolding same_on_all_def by (intro ballI) (rule trans [OF all most [symmetric]])
qed

lemma list_all2_nonempty: "list_all2 P xs ys \<Longrightarrow> xs \<noteq> [] \<Longrightarrow> ys \<noteq> []"
  by auto

definition match_step :: "match_arm list \<Rightarrow> walk_state \<Rightarrow> walk_state" where
  "match_step arms = (\<lambda>(ctx, errs).
     if arms = [] then (ctx, errs)
     else (let (arm_contexts, errs1) = walk_arms arms ctx errs;
               (ctx', merge_errs) = ctx_merge_arms ctx arm_contexts
           in (ctx', errs1 @ merge_errs)))"

lemma exact_match:
  assumes "arms \<noteq> []" and arms: "exact_arms arms"
  shows "exact_step (\<lambda>x. path_uses_arms x arms) (match_step arms)"
  unfolding exact_step_def
proof (intro conjI allI impI)
  show "path_uses_arms x arms \<noteq> []" for x using assms(1) by simp
  fix ctx errs
  let ?us = "map arm_uses arms"
  have u: "uses_of (\<lambda>x. path_uses_arms x arms) = (\<lambda>x. Max ((\<lambda>u. u x) ` set ?us))"
    using most_arms [OF assms(1)] by (simp add: uses_of_def fun_eq_iff)
  assume wf: "hm_wf (usages ctx)" and fits: "fits ctx (uses_of (\<lambda>x. path_uses_arms x arms))"
  have each: "\<forall>a \<in> set arms. fits ctx (arm_uses a)"
  proof
    fix a assume a: "a \<in> set arms"
    show "fits ctx (arm_uses a)"
    proof (rule fits_mono [OF fits])
      show "arm_uses a x \<le> uses_of (\<lambda>x. path_uses_arms x arms) x" for x
        unfolding u using a by (intro Max_ge) simp_all
    qed
  qed
  from arms [unfolded exact_arms_def, THEN spec [of _ ctx], THEN spec [of _ errs], THEN mp, OF wf,
      THEN mp, OF each]
  obtain ctxs es where 1: "walk_arms arms ctx errs = (ctxs, errs @ es)"
    "list_all2 (advance ctx) ?us ctxs"
    "es = [] \<longleftrightarrow> (\<forall>x \<in> strict_vars ctx. \<forall>a \<in> set arms. same_on_all (path_uses x (arm_body a)))"
    by blast
  have ne: "ctxs \<noteq> []" using list_all2_nonempty [OF 1(2)] assms(1) by simp
  obtain ctx' em where m: "ctx_merge_arms ctx ctxs = (ctx', em)" by (cases "ctx_merge_arms ctx ctxs")
  note merged = merge_arms_correct [OF 1(2) ne fits [unfolded u] m]
  have "es @ em = [] \<longleftrightarrow> (\<forall>x \<in> strict_vars ctx. same_on_all (path_uses_arms x arms))"
    using 1(3) merged(2) by (simp only: same_arms [OF assms(1)] append_is_Nil_conv ball_conj_distrib)
  then show "\<exists>ctx' es. match_step arms (ctx, errs) = (ctx', errs @ es) \<and>
      advance ctx (uses_of (\<lambda>x. path_uses_arms x arms)) ctx' \<and>
      (es = [] \<longleftrightarrow> (\<forall>x \<in> strict_vars ctx. same_on_all (path_uses_arms x arms)))"
    using merged(1) assms(1) by (simp add: match_step_def 1(1) m u)
qed

subsection \<open>The whole walk\<close>

lemma walk_if: "walk (Spanned (IfE c t els) s) = branch_step (walk t) (walk_opt els) \<circ> walk c"
  by (simp add: branch_step_def ctx_fork_def fun_eq_iff split: prod.split)

lemma walk_match: "walk (Spanned (Match sc arms) s) = match_step arms \<circ> walk sc"
  by (simp add: match_step_def fun_eq_iff split: prod.split)

lemma match_step_Nil: "match_step [] = (\<lambda>st. st)"
  by (simp add: match_step_def fun_eq_iff)

lemma exact_use: "exact_step (\<lambda>x. [if n = x then 1 else 0]) (\<lambda>st. (ctx_use_var n (fst st), snd st))"
proof -
  have "uses_of (\<lambda>x. [if n = x then 1 else 0]) = (\<lambda>x. if n = x then 1 else 0)"
    by (simp add: uses_of_def fun_eq_iff)
  then show ?thesis by (simp add: exact_step_def advance_use)
qed

lemma walk_funs:
  "walk (Spanned (Ident name) s) = (\<lambda>st. (ctx_use_var name (fst st), snd st))"
  "walk (Spanned (Literal lit) s) = (\<lambda>st. st)"
  "walk (Spanned (Field r f) s) = walk r"
  "walk (Spanned (MethodCall r m args) s) = walk_list args \<circ> walk r"
  "walk (Spanned (Call g args) s) = walk_list args \<circ> walk g"
  "walk (Spanned (Index b i) s) = walk i \<circ> walk b"
  "walk (Spanned (BinOp l op r) s) = walk r \<circ> walk l"
  "walk (Spanned (UnaryOp uop e) s) = walk e"
  "walk (Spanned (Old e) s) = (\<lambda>st. st)"
  "walk (Spanned (Forall v e b) s) = (\<lambda>st. st)"
  "walk (Spanned (Exists v e b) s) = (\<lambda>st. st)"
  "walk (Spanned (ListE es) s) = walk_list es"
  "walk (Spanned (Cast e ty) s) = walk e"
  "walk (Spanned (BlockE es) s) = walk_list es"
  "walk (Spanned (Ghost e) s) = (\<lambda>st. st)"
  "walk (Spanned (ApplyE n args) s) = (\<lambda>st. st)"
  "walk (Spanned (LetE n e b) s) = walk b \<circ> walk e"
  "walk (Spanned (TupleE es) s) = walk_list es"
  "walk (Spanned (Raw ts) s) = (\<lambda>st. st)"
  "walk_list [] = (\<lambda>st. st)"
  "walk_list (e # es) = walk_list es \<circ> walk e"
  "walk_opt None = (\<lambda>st. st)"
  "walk_opt (Some e) = walk e"
  by (simp_all add: fun_eq_iff)

lemma walk_exact:
  "exact_step (\<lambda>x. path_uses x e) (walk e)"
  "exact_step (\<lambda>x. path_uses_list x es) (walk_list es)"
  "exact_step (\<lambda>x. path_uses_opt x o') (walk_opt o')"
  "exact_arms arms"
proof (induction e and es and o' and arms
    rule: path_uses_path_uses_list_path_uses_opt_path_uses_arms.induct)
  case (12 x c t els s)
  then show ?case unfolding walk_if path_uses.simps by (intro exact_seq exact_branch)
next
  case (18 x sc arms s)
  show ?case
  proof (cases "arms = []")
    case True
    with 18 have "exact_step (\<lambda>y. seq_paths (path_uses y sc) [0]) ((\<lambda>st. st) \<circ> walk sc)"
      by (intro exact_seq exact_skip)
    with True show ?thesis by (simp add: walk_match match_step_Nil comp_def del: walk.simps)
  next
    case False
    with 18 have "exact_step (\<lambda>y. seq_paths (path_uses y sc) (path_uses_arms y arms))
        (match_step arms \<circ> walk sc)"
      by (intro exact_seq exact_match) simp_all
    with False show ?thesis by (simp add: walk_match comp_def del: walk.simps)
  qed
qed (simp only: walk_funs path_uses.simps path_uses_list.simps path_uses_opt.simps |
    intro exact_seq exact_skip exact_use exact_arms_Nil exact_arms_Cons; assumption?)+

section \<open>Checking a source file\<close>

definition infer_exact :: "string list \<Rightarrow> usage_grade" where
  "infer_exact rest = (case rest of [] \<Rightarrow> Linear
     | n_str # rest' \<Rightarrow> (case parse_uint 32 n_str of Some n \<Rightarrow> Exact n | None \<Rightarrow> Linear))"

fun infer_usage_grade :: "string list \<Rightarrow> usage_grade" where
  "infer_usage_grade [] = Unlimited"
| "infer_usage_grade (t # ts) =
     (if t = ''linear'' then Linear
      else if t = ''ghost'' \<or> t = ''erased'' then Erased
      else if t = ''exact'' then infer_exact ts
      else infer_usage_grade ts)"

function declare_linear_params_from_raw :: "string list \<Rightarrow> span \<Rightarrow> usage_tracker \<Rightarrow> usage_tracker" where
  "declare_linear_params_from_raw [] span tracker = tracker"
| "declare_linear_params_from_raw (t # ts) span tracker =
     (if length ts \<ge> 2 \<and> (hd ts = '':'' \<or> hd ts = ''as'') \<and>
         ''linear'' \<in> set (takeWhile (\<lambda>u. u \<noteq> '','') (tl ts))
      then declare_linear_params_from_raw (tl (dropWhile (\<lambda>u. u \<noteq> '','') (t # ts))) span
             (tracker_declare t Linear span tracker)
      else declare_linear_params_from_raw ts span tracker)"
  by pat_completeness auto
termination
proof (relation "measure (length \<circ> fst)", goal_cases)
  case (2 t ts span tracker)
  then show ?case
    using length_dropWhile_le [of "\<lambda>u. u \<noteq> '',''" "t # ts"]
    by (cases "dropWhile (\<lambda>u. u \<noteq> '','') (t # ts)") auto
qed auto

fun declare_linear_single_param :: "sp_expr \<Rightarrow> span \<Rightarrow> usage_tracker \<Rightarrow> usage_tracker" where
  "declare_linear_single_param (Spanned (Cast inner ty) s) span tracker =
     (case extract_ident inner of
        Some name \<Rightarrow> if str_contains ty ''linear'' then tracker_declare name Linear span tracker else tracker
      | None \<Rightarrow> tracker)"
| "declare_linear_single_param (Spanned (Raw tokens) s) span tracker =
     declare_linear_params_from_raw tokens span tracker"
| "declare_linear_single_param _ span tracker = tracker"

fun declare_linear_params_from_expr :: "sp_expr \<Rightarrow> span \<Rightarrow> usage_tracker \<Rightarrow> usage_tracker" where
  "declare_linear_params_from_expr (Spanned (Raw tokens) s) span tracker =
     declare_linear_params_from_raw tokens span tracker"
| "declare_linear_params_from_expr (Spanned (Call f args) s) span tracker =
     fold (\<lambda>a. declare_linear_single_param a span) args tracker"
| "declare_linear_params_from_expr (Spanned (Cast inner ty) s) span tracker =
     (case extract_ident inner of
        Some name \<Rightarrow> if str_contains ty ''linear'' then tracker_declare name Linear span tracker else tracker
      | None \<Rightarrow> tracker)"
| "declare_linear_params_from_expr (Spanned (TupleE items) s) span tracker =
     fold (\<lambda>a. declare_linear_single_param a span) items tracker"
| "declare_linear_params_from_expr (Spanned (BlockE items) s) span tracker =
     fold (\<lambda>a. declare_linear_single_param a span) items tracker"
| "declare_linear_params_from_expr _ span tracker = tracker"

text \<open>The clauses of one declaration in one context, then the final check.\<close>

fun check_bodies :: "sp_expr list \<Rightarrow> linear_context \<Rightarrow> linear_context \<times> type_error list" where
  "check_bodies [] ctx = (ctx, [])"
| "check_bodies (b # bs) ctx =
     (let (ctx1, errs) = check_expr_linearity b ctx; (ctx2, errs') = check_bodies bs ctx1
      in (ctx2, errs @ errs'))"

definition check_bodies_and_usage :: "sp_expr list \<Rightarrow> linear_context \<Rightarrow> type_error list" where
  "check_bodies_and_usage bs ctx = (let (ctx', errs) = check_bodies bs ctx in errs @ ctx_check ctx')"

definition param_grade :: "param \<Rightarrow> usage_grade" where
  "param_grade p = infer_usage_grade (case p_ty p of None \<Rightarrow> [] | Some t \<Rightarrow> to_tokens t)"

definition declare_params :: "param list \<Rightarrow> span \<Rightarrow> linear_context \<Rightarrow> linear_context" where
  "declare_params ps span ctx = fold (\<lambda>p ctx. let grade = param_grade p
     in if grade \<noteq> Unlimited then ctx_declare (p_name p) grade span ctx else ctx) ps ctx"

definition new_context :: linear_context where
  "new_context = \<lparr>lc_tracker = tracker_new\<rparr>"

fun service_item_errors :: "service_item \<Rightarrow> type_error list" where
  "service_item_errors (SvOperation n cs) = check_bodies_and_usage (map cl_body cs) new_context"
| "service_item_errors (SvQuery n cs) = check_bodies_and_usage (map cl_body cs) new_context"
| "service_item_errors _ = []"

fun linearity_errors :: "decl \<Rightarrow> span \<Rightarrow> type_error list" where
  "linearity_errors (Contract c) span =
     (let tracker = fold (\<lambda>cl. declare_linear_params_from_expr (cl_body cl) span)
            (filter (\<lambda>cl. cl_kind cl = Input) (ct_clauses c)) tracker_new
      in check_bodies_and_usage
           (map cl_body (filter (\<lambda>cl. cl_kind cl \<in> {Requires, Ensures, Invariant}) (ct_clauses c)))
           \<lparr>lc_tracker = tracker\<rparr>)"
| "linearity_errors (FnDef f) span =
     check_bodies_and_usage (map cl_body (fn_clauses f)) (declare_params (fn_params f) span new_context)"
| "linearity_errors (Extern e) span =
     check_bodies_and_usage (map cl_body (ex_clauses e)) (declare_params (ex_params e) span new_context)"
| "linearity_errors (Service sv) span = concat (map service_item_errors (sv_items sv))"
| "linearity_errors _ span = []"

definition run_linearity_checks_source :: "source_file \<Rightarrow> type_error list" where
  "run_linearity_checks_source src =
     concat (map (\<lambda>d. linearity_errors (sd_node d) (sd_span d)) (sf_decls src))"

section \<open>Soundness and completeness of the check\<close>

text \<open>The counts a grade allows.\<close>

fun grade_allows :: "usage_grade \<Rightarrow> nat \<Rightarrow> bool" where
  "grade_allows Erased k \<longleftrightarrow> k = 0"
| "grade_allows Linear k \<longleftrightarrow> k = 1"
| "grade_allows (Exact n) k \<longleftrightarrow> k = n"
| "grade_allows Unlimited k \<longleftrightarrow> True"

lemma usage_errors_none: "usage_errors (x, g, c, s) = [] \<longleftrightarrow> grade_allows g c"
  by (cases g) auto

lemma sort_key_none: "sort_key f xs = [] \<longleftrightarrow> xs = []"
  by (metis length_0_conv length_sort)

lemma tracker_check_none:
  assumes "hm_wf (ut_usages t)"
  shows "tracker_check t = [] \<longleftrightarrow>
    (\<forall>x g c s. hm_get (ut_usages t) x = Some (g, c, s) \<longrightarrow> grade_allows g c)"
proof -
  have "tracker_check t = [] \<longleftrightarrow> (\<forall>w \<in> set (hm_entries (ut_usages t)). usage_errors w = [])"
    by (auto simp: tracker_check_def sort_key_none)
  also have "\<dots> \<longleftrightarrow> (\<forall>x g c s. hm_get (ut_usages t) x = Some (g, c, s) \<longrightarrow> grade_allows g c)"
    by (simp add: Ball_def split_paired_All hm.entries_get [OF assms] usage_errors_none)
  finally show ?thesis .
qed

lemma check_bodies_exact:
  assumes "hm_wf (usages ctx)" and "fits ctx (\<lambda>x. most (path_uses_list x bs))"
  shows "\<exists>ctx' es. check_bodies bs ctx = (ctx', es) \<and>
     advance ctx (\<lambda>x. most (path_uses_list x bs)) ctx' \<and>
     (es = [] \<longleftrightarrow> (\<forall>x \<in> strict_vars ctx. same_on_all (path_uses_list x bs)))"
  using assms
proof (induction bs arbitrary: ctx)
  case (Cons b bs)
  have sum: "most (path_uses_list x (b # bs)) = uses_of (\<lambda>x. path_uses x b) x + most (path_uses_list x bs)"
    for x by (simp add: most_seq uses_of_def)
  have "fits ctx (uses_of (\<lambda>x. path_uses x b))"
    using Cons.prems(2) by (rule fits_mono) (simp only: sum le_add1)
  from exact_stepE [OF walk_exact(1) Cons.prems(1) this, of "[]"] obtain ctx1 e1 where
    1: "walk b (ctx, []) = (ctx1, e1)" "advance ctx (uses_of (\<lambda>x. path_uses x b)) ctx1"
    "e1 = [] \<longleftrightarrow> (\<forall>x \<in> strict_vars ctx. same_on_all (path_uses x b))" by auto
  have "fits ctx1 (\<lambda>x. most (path_uses_list x bs))"
    using advance_fits [OF 1(2)] Cons.prems(2) by (simp only: sum)
  from Cons.IH [OF advance_wf [OF 1(2)] this] obtain ctx2 e2 where
    2: "check_bodies bs ctx1 = (ctx2, e2)" "advance ctx1 (\<lambda>x. most (path_uses_list x bs)) ctx2"
    "e2 = [] \<longleftrightarrow> (\<forall>x \<in> strict_vars ctx1. same_on_all (path_uses_list x bs))" by blast
  have "advance ctx (\<lambda>x. most (path_uses_list x (b # bs))) ctx2"
    unfolding sum using advance_trans [OF 1(2) 2(2)] .
  moreover have "e1 @ e2 = [] \<longleftrightarrow> (\<forall>x \<in> strict_vars ctx. same_on_all (path_uses_list x (b # bs)))"
    using 1(3) 2(3) advance_strict [OF 1(2)] by (auto simp: same_seq)
  ultimately show ?case using 1(1) 2(1) by (simp add: check_expr_linearity_def)
qed (simp add: advance_refl)

text \<open>What a grade demands of all paths is what the two checks test together.\<close>

lemma grade_allows_all:
  assumes "ps \<noteq> []"
  shows "(\<forall>k \<in> set ps. grade_allows g k) \<longleftrightarrow>
    (strict_grade g \<longrightarrow> same_on_all ps) \<and> grade_allows g (most ps)"
proof -
  have "(\<forall>k \<in> set ps. k = n) \<longleftrightarrow> same_on_all ps \<and> most ps = n" for n
    using most_in [OF assms] unfolding same_on_all_def by metis
  moreover have "(\<forall>k \<in> set ps. k = 0) \<longleftrightarrow> most ps = 0"
    using most_in [OF assms] most_le [of _ ps] by fastforce
  ultimately show ?thesis by (cases g) simp_all
qed

lemma check_bodies_and_usage_none:
  assumes "hm_wf (usages ctx)"
    and zero: "\<And>x g c s. hm_get (usages ctx) x = Some (g, c, s) \<Longrightarrow> c = 0"
    and bound: "\<And>x. hm_get (usages ctx) x \<noteq> None \<Longrightarrow> most (path_uses_list x bs) < 2 ^ 32"
  shows "check_bodies_and_usage bs ctx = [] \<longleftrightarrow>
    (\<forall>x g c s. hm_get (usages ctx) x = Some (g, c, s) \<longrightarrow>
       (\<forall>k \<in> set (path_uses_list x bs). grade_allows g k))"
proof -
  have "fits ctx (\<lambda>x. most (path_uses_list x bs))"
    unfolding fits_def using zero bound by fastforce
  from check_bodies_exact [OF assms(1) this] obtain ctx' es where r: "check_bodies bs ctx = (ctx', es)"
    "advance ctx (\<lambda>x. most (path_uses_list x bs)) ctx'"
    "es = [] \<longleftrightarrow> (\<forall>x \<in> strict_vars ctx. same_on_all (path_uses_list x bs))"
    by blast
  have "ctx_check ctx' = [] \<longleftrightarrow> (\<forall>x g c s. hm_get (usages ctx) x = Some (g, c, s) \<longrightarrow>
      grade_allows g (most (path_uses_list x bs)))"
  proof -
    have "hm_get (usages ctx') x = Some (g, c, s) \<longleftrightarrow>
        hm_get (usages ctx) x = Some (g, 0, s) \<and> c = most (path_uses_list x bs)" for x g c s
      using r(2) zero [of x] by (cases "hm_get (usages ctx) x") (auto simp: advance_def)
    note counts = this
    show ?thesis
      unfolding ctx_check_def tracker_check_none [OF advance_wf [OF r(2)]]
    proof (intro iffI allI impI)
      fix x g c s
      assume all: "\<forall>x g c s. hm_get (usages ctx') x = Some (g, c, s) \<longrightarrow> grade_allows g c"
        and get: "hm_get (usages ctx) x = Some (g, c, s)"
      from get zero [OF get] have "hm_get (usages ctx') x = Some (g, most (path_uses_list x bs), s)"
        by (simp add: counts)
      with all show "grade_allows g (most (path_uses_list x bs))" by blast
    next
      fix x g c s
      assume all: "\<forall>x g c s. hm_get (usages ctx) x = Some (g, c, s) \<longrightarrow>
          grade_allows g (most (path_uses_list x bs))"
        and "hm_get (usages ctx') x = Some (g, c, s)"
      then have "hm_get (usages ctx) x = Some (g, 0, s)" and c: "c = most (path_uses_list x bs)"
        by (simp_all add: counts)
      with all show "grade_allows g c" by blast
    qed
  qed
  then show ?thesis
    using r(1,3) by (simp add: check_bodies_and_usage_def grade_allows_all strict_vars_def) blast
qed

lemma declare_params_get:
  assumes "distinct (map p_name ps)"
  shows "hm_wf (usages (declare_params ps sp new_context)) \<and>
    (hm_get (usages (declare_params ps sp new_context)) x = Some w \<longleftrightarrow>
     (\<exists>p \<in> set ps. p_name p = x \<and> param_grade p \<noteq> Unlimited \<and> w = (param_grade p, 0, sp)))"
  using assms
proof (induction ps rule: rev_induct)
  case Nil
  then show ?case
    by (simp add: declare_params_def new_context_def tracker_new_def hm.wf_empty hm.get_empty)
next
  case (snoc p ps)
  then show ?case
    by (auto simp: declare_params_def ctx_declare_def tracker_declare_def Let_def hm.wf_insert
        hm.get_insert image_iff)
qed

text \<open>C1: the linearity check of a function reports nothing exactly when every parameter is used as
  its grade demands on every execution path through the function's clauses: a linear parameter
  once, an exact one its number of times, an erased one never.\<close>

theorem fn_linearity_exact:
  assumes "distinct (map p_name (fn_params f))"
    and "\<forall>p \<in> set (fn_params f). most (path_uses_list (p_name p) (map cl_body (fn_clauses f))) < 2 ^ 32"
  shows "linearity_errors (FnDef f) sp = [] \<longleftrightarrow>
    (\<forall>p \<in> set (fn_params f). \<forall>k \<in> set (path_uses_list (p_name p) (map cl_body (fn_clauses f))).
       grade_allows (param_grade p) k)"
proof -
  let ?ctx = "declare_params (fn_params f) sp new_context"
  note get = declare_params_get [OF assms(1), of sp]
  have wf: "hm_wf (usages ?ctx)" using get by blast
  have zero: "c = 0" if "hm_get (usages ?ctx) x = Some (g, c, s)" for x g c s
    using that get by (metis prod.inject)
  have bound: "most (path_uses_list x (map cl_body (fn_clauses f))) < 2 ^ 32"
    if tracked: "hm_get (usages ?ctx) x \<noteq> None" for x
  proof -
    obtain w where "hm_get (usages ?ctx) x = Some w" using tracked by blast
    then show ?thesis using get assms(2) by metis
  qed
  have "linearity_errors (FnDef f) sp = [] \<longleftrightarrow>
    (\<forall>x g c s. hm_get (usages ?ctx) x = Some (g, c, s) \<longrightarrow>
       (\<forall>k \<in> set (path_uses_list x (map cl_body (fn_clauses f))). grade_allows g k))"
    using check_bodies_and_usage_none [OF wf zero bound] by simp
  also have "\<dots> \<longleftrightarrow> (\<forall>p \<in> set (fn_params f). \<forall>k \<in> set (path_uses_list (p_name p)
      (map cl_body (fn_clauses f))). grade_allows (param_grade p) k)"
    (is "?tracked \<longleftrightarrow> ?params")
  proof
    assume t: ?tracked
    show ?params
    proof (intro ballI)
      fix p k
      assume p: "p \<in> set (fn_params f)" and k: "k \<in> set (path_uses_list (p_name p) (map cl_body (fn_clauses f)))"
      show "grade_allows (param_grade p) k"
      proof (cases "param_grade p = Unlimited")
        case False
        with p get have "hm_get (usages ?ctx) (p_name p) = Some (param_grade p, 0, sp)" by blast
        with t k show ?thesis by blast
      qed simp
    qed
  next
    assume p: ?params
    show ?tracked
    proof (intro allI impI ballI)
      fix x g c s k
      assume "hm_get (usages ?ctx) x = Some (g, c, s)"
        and k: "k \<in> set (path_uses_list x (map cl_body (fn_clauses f)))"
      with get obtain q where "q \<in> set (fn_params f)" and "p_name q = x" and "g = param_grade q" by blast
      with p k show "grade_allows g k" by blast
    qed
  qed
  finally show ?thesis .
qed

text \<open>\<open>fn close(f: linear File) requires { if true then f else g(f) }\<close>.\<close>

definition linear_example :: fn_def where
  "linear_example = \<lparr>fn_name = ''close'', fn_is_ghost = False, fn_is_lemma = False,
     fn_params = [\<lparr>p_name = ''f'', p_ty = Some (TNamed ''linear File'')\<rparr>], fn_return_ty = None,
     fn_clauses = [\<lparr>cl_kind = Requires, cl_body = no_span (IfE (no_span (Literal (LBool True)))
       (no_span (Ident ''f''))
       (Some (no_span (Call (no_span (Ident ''g'')) [no_span (Ident ''f'')])))),
       cl_effect_variables = []\<rparr>]\<rparr>"

lemma linear_example_paths:
  "path_uses_list ''f'' (map cl_body (fn_clauses linear_example)) = [1, 1]"
  by (simp add: linear_example_def no_span_def seq_paths_def)

lemma linear_example_grade: "map param_grade (fn_params linear_example) = [Linear]"
  by (simp add: linear_example_def param_grade_def split_whitespace_def is_ws_def)

lemma fn_linearity_exact_witness: "linearity_errors (FnDef linear_example) (0, 9) = []"
proof -
  have "fn_params linear_example = [\<lparr>p_name = ''f'', p_ty = Some (TNamed ''linear File'')\<rparr>]"
    by (simp add: linear_example_def)
  then show ?thesis
    using fn_linearity_exact [of linear_example "(0, 9)"] linear_example_paths linear_example_grade
    by (simp add: most_def)
qed

text \<open>C19: the walk of any expression adds to the count of every tracked variable its largest number
  of uses on a path, so that no merge of branches loses or invents a use and no \<open>u32\<close> wraps, and it
  reports an inconsistency exactly when some linear or exact variable is used a different number of
  times on two paths.\<close>

theorem walk_counts_paths:
  assumes "hm_wf (usages ctx)"
    and "\<forall>x g c s. hm_get (usages ctx) x = Some (g, c, s) \<longrightarrow> c + most (path_uses x e) < 2 ^ 32"
    and "check_expr_linearity e ctx = (ctx', errs)"
  shows "hm_get (usages ctx') x =
      map_option (\<lambda>(g, c, s). (g, c + most (path_uses x e), s)) (hm_get (usages ctx) x) \<and>
    (errs = [] \<longleftrightarrow> (\<forall>y \<in> strict_vars ctx.
       \<forall>j \<in> set (path_uses y e). \<forall>k \<in> set (path_uses y e). j = k))"
proof -
  have "fits ctx (uses_of (\<lambda>x. path_uses x e))" using assms(2) by (simp only: fits_def uses_of_def)
  from exact_stepE [OF walk_exact(1) assms(1) this, of "[]"]
  have adv: "advance ctx (uses_of (\<lambda>x. path_uses x e)) ctx'"
    and errs: "errs = [] \<longleftrightarrow> (\<forall>x \<in> strict_vars ctx. same_on_all (path_uses x e))"
    using assms(3) by (auto simp: check_expr_linearity_def)
  have "same_on_all (path_uses x e) \<longleftrightarrow> (\<forall>j \<in> set (path_uses x e). \<forall>k \<in> set (path_uses x e). j = k)" for x
    using most_in [OF path_uses_nonempty(1)] unfolding same_on_all_def by metis
  with errs have "errs = [] \<longleftrightarrow> (\<forall>y \<in> strict_vars ctx.
      \<forall>j \<in> set (path_uses y e). \<forall>k \<in> set (path_uses y e). j = k)" by simp
  then show ?thesis using adv by (simp add: advance_def uses_of_def)
qed

definition one_linear :: linear_context where
  "one_linear = \<lparr>lc_tracker = \<lparr>ut_usages = [(''x'', Linear, 0, (0, 1))]\<rparr>\<rparr>"

definition used_in_one_branch :: sp_expr where
  "used_in_one_branch = no_span (IfE (no_span (Literal (LBool True))) (no_span (Ident ''x'')) None)"

lemma walk_counts_paths_witness:
  "snd (check_expr_linearity used_in_one_branch one_linear) \<noteq> []"
proof -
  have paths: "path_uses ''x'' used_in_one_branch = [1, 0]"
    by (simp add: used_in_one_branch_def no_span_def seq_paths_def)
  have get: "hm_get (usages one_linear) x = (if x = ''x'' then Some (Linear, 0, (0, 1)) else None)" for x
    by (simp add: one_linear_def hm_get_def)
  have "hm_wf (usages one_linear)" by (simp add: one_linear_def hm_wf_def)
  moreover have "\<forall>x g c s. hm_get (usages one_linear) x = Some (g, c, s) \<longrightarrow>
      c + most (path_uses x used_in_one_branch) < 2 ^ 32"
    by (auto simp: get paths most_def)
  moreover obtain ctx' errs where r: "check_expr_linearity used_in_one_branch one_linear = (ctx', errs)"
    by (cases "check_expr_linearity used_in_one_branch one_linear")
  ultimately have "errs = [] \<longleftrightarrow> (\<forall>y \<in> strict_vars one_linear. \<forall>j \<in> set (path_uses y used_in_one_branch).
        \<forall>k \<in> set (path_uses y used_in_one_branch). j = k)"
    using walk_counts_paths [of one_linear used_in_one_branch ctx' errs] by blast
  moreover have "''x'' \<in> strict_vars one_linear" by (simp add: strict_vars_def get)
  ultimately show ?thesis using r paths by fastforce
qed

text \<open>
  The final sort of \<open>check\<close> does not make its output deterministic, which its comment promises:
  all parameters of a declaration carry the same span, the sort is stable, and so the errors stay
  in the order the hash map is visited in.
\<close>

lemma check_order_depends_on_iteration:
  "hm_get [(''x'', Linear, 0, (0, 9)), (''y'', Linear, 0, (0, 9))] =
   hm_get [(''y'', Linear, 0, (0, 9)), (''x'', Linear, 0, (0, 9))]"
  "tracker_check \<lparr>ut_usages = [(''x'', Linear, 0, (0, 9)), (''y'', Linear, 0, (0, 9))]\<rparr> \<noteq>
   tracker_check \<lparr>ut_usages = [(''y'', Linear, 0, (0, 9)), (''x'', Linear, 0, (0, 9))]\<rparr>"
  by (simp_all add: hm_get_def fun_eq_iff tracker_check_def hm_entries_def type_error_at_def quoted_def)

end
