(* ===== verification/Typestate.thy ===== *)
theory Typestate
  imports Linear
begin

text \<open>
  Typestates, \<open>crates/assura-types/src/checkers/typestate.rs\<close>: the automaton of states and
  transitions that a service declares, the operations of \<open>TypestateChecker\<close>, the usage walker
  \<open>expr_usages\<close> and the check of a source file.  The abstract automaton is the inductive relation
  \<open>dfa_step\<close> with its runs; the checker refines it.
\<close>

section \<open>The checker\<close>

record transition =
  tr_operation :: string
  tr_from_state :: string
  tr_to_state :: string

record typestate_checker =
  ts_states :: "string list"
  ts_transitions :: "transition list"
  ts_current :: string
  ts_decl_span :: span

definition typestate_new ::
  "string list \<Rightarrow> (string \<times> string \<times> string) list \<Rightarrow> string \<Rightarrow> span \<Rightarrow> typestate_checker" where
  "typestate_new states transitions initial_state decl_span =
     \<lparr>ts_states = states,
      ts_transitions = map (\<lambda>(op, from, to).
        \<lparr>tr_operation = op, tr_from_state = from, tr_to_state = to\<rparr>) transitions,
      ts_current = initial_state, ts_decl_span = decl_span\<rparr>"

definition wrong_state_message :: "typestate_checker \<Rightarrow> string \<Rightarrow> string" where
  "wrong_state_message tc operation =
     (let required_states = map tr_from_state
            (filter (\<lambda>t. tr_operation t = operation) (ts_transitions tc))
      in if required_states = []
         then ''operation '' @ quoted operation @ '' is not defined for any state of this typestate variable (current state: '' @
              quoted (ts_current tc) @ '')''
         else ''operation '' @ quoted operation @ '' requires state '' @
              quoted (join ''` or `'' required_states) @ '', but object is in state '' @
              quoted (ts_current tc))"

text \<open>\<open>Err\<close> is \<open>Inl\<close> and leaves the state as it was; \<open>Ok(())\<close> is \<open>Inr\<close> of the moved checker.\<close>

definition transition_op ::
  "string \<Rightarrow> span \<Rightarrow> typestate_checker \<Rightarrow> checker_error + typestate_checker" where
  "transition_op operation span tc =
     (case find (\<lambda>t. tr_operation t = operation \<and> tr_from_state t = ts_current tc) (ts_transitions tc) of
        Some t \<Rightarrow> Inr (tc\<lparr>ts_current := tr_to_state t\<rparr>)
      | None \<Rightarrow> Inl \<lparr>ck_code = ''A06001'', ck_message = wrong_state_message tc operation, ck_span = span\<rparr>)"

definition validate_linear :: "typestate_checker \<Rightarrow> bool \<Rightarrow> checker_error option" where
  "validate_linear tc is_linear =
     (if is_linear then None
      else Some \<lparr>ck_code = ''A06002'', ck_message = ''typestate variable must be declared as linear'',
                 ck_span = ts_decl_span tc\<rparr>)"

definition undeclared_state :: "typestate_checker \<Rightarrow> transition \<Rightarrow> string \<Rightarrow> string \<Rightarrow> checker_error list" where
  "undeclared_state tc t which st =
     (if st \<in> set (ts_states tc) then []
      else [\<lparr>ck_code = ''A06003'',
             ck_message = ''transition '' @ quoted (tr_operation t) @ '' references undeclared '' @ which @
               '' state '' @ quoted st @ ''; declared states: ['' @ join '', '' (ts_states tc) @ '']'',
             ck_span = ts_decl_span tc\<rparr>])"

definition validate_transitions :: "typestate_checker \<Rightarrow> checker_error list" where
  "validate_transitions tc = concat (map (\<lambda>t.
     undeclared_state tc t ''source'' (tr_from_state t) @
     undeclared_state tc t ''target'' (tr_to_state t)) (ts_transitions tc))"

definition check_branch_consistency ::
  "typestate_checker \<Rightarrow> typestate_checker \<Rightarrow> span \<Rightarrow> checker_error option" where
  "check_branch_consistency branch_a branch_b span =
     (if ts_current branch_a = ts_current branch_b then None
      else Some \<lparr>ck_code = ''A06004'',
        ck_message = ''ambiguous state after diverging branches: one branch leaves object in state '' @
          quoted (ts_current branch_a) @ '', the other in state '' @ quoted (ts_current branch_b),
        ck_span = span\<rparr>)"

text \<open>The usage walker: ghost blocks and \<open>apply\<close> are erased.\<close>

fun usage_hook :: "string hook" where
  "usage_hook (Ident name) = ([name], True)"
| "usage_hook (Ghost e) = ([], False)"
| "usage_hook (ApplyE n args) = ([], False)"
| "usage_hook _ = ([], True)"

definition expr_usages :: "sp_expr \<Rightarrow> usage_tracker \<Rightarrow> usage_tracker" where
  "expr_usages e tracker = fold tracker_use_var (visit usage_hook e) tracker"

section \<open>The automaton\<close>

inductive dfa_step :: "typestate_checker \<Rightarrow> string \<Rightarrow> string \<Rightarrow> string \<Rightarrow> bool"
  for tc :: typestate_checker where
  "t \<in> set (ts_transitions tc) \<Longrightarrow> dfa_step tc (tr_from_state t) (tr_operation t) (tr_to_state t)"

inductive dfa_run :: "typestate_checker \<Rightarrow> string \<Rightarrow> string list \<Rightarrow> string \<Rightarrow> bool"
  for tc :: typestate_checker where
  stop: "dfa_run tc s [] s"
| step: "dfa_step tc s op s' \<Longrightarrow> dfa_run tc s' ops s'' \<Longrightarrow> dfa_run tc s (op # ops) s''"

inductive_simps dfa_run_Nil [simp]: "dfa_run tc s [] s'"
inductive_simps dfa_run_Cons: "dfa_run tc s (op # ops) s'"
inductive_cases dfa_stepE: "dfa_step tc s op s'"

definition deterministic :: "typestate_checker \<Rightarrow> bool" where
  "deterministic tc \<longleftrightarrow> (\<forall>s op s1 s2. dfa_step tc s op s1 \<longrightarrow> dfa_step tc s op s2 \<longrightarrow> s1 = s2)"

lemma dfa_step_iff:
  "dfa_step tc s op s' \<longleftrightarrow>
   (\<exists>t \<in> set (ts_transitions tc). tr_from_state t = s \<and> tr_operation t = op \<and> tr_to_state t = s')"
  by (auto elim!: dfa_stepE intro: dfa_step.intros)

lemma transition_op_Inr:
  "transition_op op sp tc = Inr tc' \<Longrightarrow>
   dfa_step tc (ts_current tc) op (ts_current tc') \<and> tc' = tc\<lparr>ts_current := ts_current tc'\<rparr>"
  by (auto simp: transition_op_def dfa_step_iff find_Some_iff split: option.splits)

lemma transition_op_Inl:
  "transition_op op sp tc = Inl e \<Longrightarrow>
   ck_code e = ''A06001'' \<and> ck_span e = sp \<and> (\<nexists>s'. dfa_step tc (ts_current tc) op s')"
  by (auto simp: transition_op_def dfa_step_iff find_None_iff split: option.splits)

lemma dfa_step_update [simp]: "dfa_step (tc\<lparr>ts_current := s\<rparr>) = dfa_step tc"
  by (simp add: fun_eq_iff dfa_step_iff)

lemma dfa_run_update [simp]: "dfa_run (tc\<lparr>ts_current := s\<rparr>) = dfa_run tc"
proof -
  have "dfa_run (tc\<lparr>ts_current := s\<rparr>) a ops b \<longleftrightarrow> dfa_run tc a ops b" for a ops b
    by (induction ops arbitrary: a) (simp_all add: dfa_run_Cons)
  then show ?thesis by (simp add: fun_eq_iff)
qed

section \<open>States stay declared\<close>

lemma validate_transitions_none:
  "validate_transitions tc = [] \<longleftrightarrow>
   (\<forall>t \<in> set (ts_transitions tc). tr_from_state t \<in> set (ts_states tc) \<and> tr_to_state t \<in> set (ts_states tc))"
  by (auto simp: validate_transitions_def undeclared_state_def)

lemma dfa_run_declared:
  assumes "validate_transitions tc = []"
  shows "dfa_run tc s ops s' \<Longrightarrow> s \<in> set (ts_states tc) \<Longrightarrow> s' \<in> set (ts_states tc)"
proof (induction rule: dfa_run.induct)
  case (step s op s' ops s'')
  then show ?case using assms by (auto simp: validate_transitions_none dfa_step_iff)
qed

text \<open>If the validation of the table reports nothing, every state the checker can reach from a
  declared state by any sequence of operations, accepted or refused, is a declared state.\<close>

theorem reachable_states_declared:
  assumes "validate_transitions tc = []" and "ts_current tc \<in> set (ts_states tc)"
  shows "ts_current (fold (\<lambda>op tc. case transition_op op sp tc of Inl e \<Rightarrow> tc | Inr tc' \<Rightarrow> tc') ops tc)
    \<in> set (ts_states tc)"
proof -
  have "ts_current (fold (\<lambda>op tc. case transition_op op sp tc of Inl e \<Rightarrow> tc | Inr tc' \<Rightarrow> tc') ops tc')
      \<in> set (ts_states tc)" if "tc' = tc\<lparr>ts_current := s\<rparr>" "s \<in> set (ts_states tc)" for s tc'
    using that
  proof (induction ops arbitrary: tc' s)
    case (Cons op ops)
    show ?case
    proof (cases "transition_op op sp tc'")
      case (Inr tc2)
      from transition_op_Inr [OF Inr] have "dfa_step tc s op (ts_current tc2)"
        and "tc2 = tc\<lparr>ts_current := ts_current tc2\<rparr>" using Cons.prems by simp_all
      moreover from this have "ts_current tc2 \<in> set (ts_states tc)"
        using assms(1) by (auto simp: validate_transitions_none dfa_step_iff)
      ultimately have "ts_current (fold (\<lambda>op tc. case transition_op op sp tc of Inl e \<Rightarrow> tc | Inr tc' \<Rightarrow> tc')
          ops tc2) \<in> set (ts_states tc)" by (rule_tac Cons.IH)
      then show ?thesis by (simp add: Inr)
    qed (use Cons in simp)
  qed simp
  from this [of tc "ts_current tc"] show ?thesis using assms(2) by simp
qed

definition door :: typestate_checker where
  "door = typestate_new [''Closed'', ''Open'']
     [(''open'', ''Closed'', ''Open''), (''close'', ''Open'', ''Closed'')] ''Closed'' (0, 9)"

lemma door_deterministic: "deterministic door"
  by (auto simp: deterministic_def dfa_step_iff door_def typestate_new_def)

lemma reachable_states_declared_witness:
  "ts_current (fold (\<lambda>op tc. case transition_op op (0, 1) tc of Inl e \<Rightarrow> tc | Inr tc' \<Rightarrow> tc')
     [''close'', ''open''] door) \<in> set (ts_states door)"
  by (rule reachable_states_declared)
    (simp_all add: door_def typestate_new_def validate_transitions_def undeclared_state_def)

section \<open>Checking a source file\<close>

definition service_states :: "service_item list \<Rightarrow> string list" where
  "service_states items = concat (map (\<lambda>i. case i of SvStates s \<Rightarrow> s | _ \<Rightarrow> []) items)"

fun clause_transition :: "string \<Rightarrow> clause \<Rightarrow> (string \<times> string \<times> string) list" where
  "clause_transition name c =
     (case (cl_kind c, node (cl_body c)) of
        (OtherClause k, Raw tokens) \<Rightarrow>
          if (k = ''transition'' \<or> k = ''from_state'' \<or> k = ''to_state'') \<and> length tokens \<ge> 3
          then [(name, tokens ! 0, tokens ! 2)] else []
      | _ \<Rightarrow> [])"

fun item_transitions :: "service_item \<Rightarrow> (string \<times> string \<times> string) list" where
  "item_transitions (SvOperation name clauses) = concat (map (clause_transition name) clauses)"
| "item_transitions _ = []"

fun item_linear :: "service_item \<Rightarrow> bool" where
  "item_linear (SvOperation name clauses) \<longleftrightarrow> list_ex (\<lambda>c. cl_kind c = OtherClause ''linear'') clauses"
| "item_linear _ \<longleftrightarrow> False"

text \<open>
  The loop over the operations: the checker, the errors, and the checkers recorded after each
  operation (the usage tracker it fills is never read).
\<close>

type_synonym service_loop = "typestate_checker \<times> type_error list \<times> typestate_checker list"

fun service_item_step :: "span \<Rightarrow> service_item \<Rightarrow> service_loop \<Rightarrow> service_loop" where
  "service_item_step span (SvOperation name clauses) (checker, errors, branch_checkers) =
     (let pre_state = ts_current checker;
          (checker', errors') =
            (case transition_op name span checker of
               Inl e \<Rightarrow> (checker, errors @ [type_error_of_checker_error e])
             | Inr c \<Rightarrow> (c, errors))
      in (checker', errors',
          if pre_state \<noteq> []
          then branch_checkers @ [typestate_new (ts_states checker') [] (ts_current checker') span]
          else branch_checkers))"
| "service_item_step span _ st = st"

fun window_errors :: "span \<Rightarrow> typestate_checker list \<Rightarrow> type_error list" where
  "window_errors span (a # b # cs) =
     (case check_branch_consistency a b span of
        Some e \<Rightarrow> [type_error_of_checker_error e] | None \<Rightarrow> []) @ window_errors span (b # cs)"
| "window_errors span _ = []"

definition option_errors :: "checker_error option \<Rightarrow> type_error list" where
  "option_errors e = (case e of Some x \<Rightarrow> [type_error_of_checker_error x] | None \<Rightarrow> [])"

fun typestate_errors :: "decl \<Rightarrow> span \<Rightarrow> type_error list" where
  "typestate_errors (Service s) span =
     (let states = service_states (sv_items s);
          transitions = concat (map item_transitions (sv_items s))
      in if states = [] \<or> transitions = [] then []
         else (let checker = typestate_new states transitions (hd states) span;
                   errors1 = map type_error_of_checker_error (validate_transitions checker);
                   errors2 = option_errors (validate_linear checker (list_ex item_linear (sv_items s)));
                   (checker', errors3, branch_checkers) =
                     fold (service_item_step span) (sv_items s) (checker, [], [])
               in errors1 @ errors2 @ errors3 @ window_errors span branch_checkers))"
| "typestate_errors _ span = []"

definition run_typestate_checks_source :: "source_file \<Rightarrow> type_error list" where
  "run_typestate_checks_source src =
     concat (map (\<lambda>d. typestate_errors (sd_node d) (sd_span d)) (sf_decls src))"

text \<open>
  The consistency test is meant for the branches of an \<open>if\<close> or a \<open>match\<close>, but the source check
  applies it to consecutive operations of a service.  The protocol of a door, open it and close
  it, with every declaration in order, is refused.
\<close>

definition door_service :: decl where
  "door_service =
     (let trans = (\<lambda>a b. \<lparr>cl_kind = OtherClause ''transition'', cl_body = no_span (Raw [a, ''->'', b]),
            cl_effect_variables = []\<rparr>);
          lin = \<lparr>cl_kind = OtherClause ''linear'', cl_body = no_span (Raw []), cl_effect_variables = []\<rparr>
      in Service \<lparr>sv_name = ''Door'', sv_items =
           [SvStates [''Closed'', ''Open''],
            SvOperation ''open'' [trans ''Closed'' ''Open'', lin],
            SvOperation ''close'' [trans ''Open'' ''Closed'']]\<rparr>)"

lemma door_service_refused: "map te_code (typestate_errors door_service (0, 9)) = [''A06004'']"
  by (simp add: door_service_def Let_def no_span_def service_states_def typestate_new_def
      validate_transitions_def undeclared_state_def validate_linear_def option_errors_def
      transition_op_def check_branch_consistency_def type_error_of_checker_error_def)

lemma window_errors_none:
  "window_errors sp cs = [] \<longleftrightarrow> (\<forall>i. Suc i < length cs \<longrightarrow> ts_current (cs ! i) = ts_current (cs ! Suc i))"
proof (induction sp cs rule: window_errors.induct)
  case (1 sp a b cs)
  then show ?case
    by (auto simp: check_branch_consistency_def nth_Cons split: nat.splits option.splits if_splits)
qed auto

fun item_operation :: "service_item \<Rightarrow> string list" where
  "item_operation (SvOperation name clauses) = [name]"
| "item_operation _ = []"

definition service_operations :: "service_item list \<Rightarrow> string list" where
  "service_operations items = concat (map item_operation items)"

lemma service_item_step_other:
  "\<nexists>name clauses. i = SvOperation name clauses \<Longrightarrow> item_operation i = [] \<and> service_item_step sp i st = st"
  by (cases i; cases st) auto

subsection \<open>The loop is the automaton\<close>

text \<open>
  The loop goes on after a refused operation, in the state it was in; if it has added no error, it has
  followed the automaton.
\<close>

lemma service_loop_sound:
  "fold (service_item_step sp) items (c, es, bs) = (c', es', bs') \<Longrightarrow>
   \<exists>x. es' = es @ x \<and> (x = [] \<longrightarrow>
     dfa_run c (ts_current c) (service_operations items) (ts_current c') \<and> c' = c\<lparr>ts_current := ts_current c'\<rparr>)"
proof (induction items arbitrary: c es bs)
  case (Cons i items)
  show ?case
  proof (cases "\<exists>name clauses. i = SvOperation name clauses")
    case True
    then obtain name clauses where op: "i = SvOperation name clauses" by blast
    show ?thesis
    proof (cases "transition_op name sp c")
      case (Inl e)
      with op Cons.prems obtain bs1 where
        "fold (service_item_step sp) items (c, es @ [type_error_of_checker_error e], bs1) = (c', es', bs')"
        by (auto simp: Let_def)
      from Cons.IH [OF this] show ?thesis by auto
    next
      case (Inr c1)
      with op Cons.prems obtain bs1 where
        "fold (service_item_step sp) items (c1, es, bs1) = (c', es', bs')"
        by (auto simp: Let_def)
      from Cons.IH [OF this] obtain x where es': "es' = es @ x" and
        run: "x = [] \<Longrightarrow> dfa_run c1 (ts_current c1) (service_operations items) (ts_current c')"
          "x = [] \<Longrightarrow> c' = c1\<lparr>ts_current := ts_current c'\<rparr>" by blast
      obtain s1 where c1: "c1 = c\<lparr>ts_current := s1\<rparr>" and s1: "dfa_step c (ts_current c) name s1"
        using transition_op_Inr [OF Inr] by metis
      have "dfa_run c (ts_current c) (name # service_operations items) (ts_current c')" if "x = []"
        using dfa_run.step [OF s1] run(1) [OF that] by (simp add: c1)
      moreover have "c' = c\<lparr>ts_current := ts_current c'\<rparr>" if "x = []"
        using run(2) [OF that] unfolding c1 by simp
      ultimately show ?thesis using es' op by (simp add: service_operations_def)
    qed
  next
    case False
    then show ?thesis
      using Cons service_item_step_other [OF False] by (simp add: service_operations_def)
  qed
qed (simp add: service_operations_def)

lemma service_loop_complete:
  assumes "deterministic c" and "dfa_run c (ts_current c) (service_operations items) s'"
  shows "\<exists>bs'. fold (service_item_step sp) items (c, es, bs) = (c\<lparr>ts_current := s'\<rparr>, es, bs')"
  using assms
proof (induction items arbitrary: c bs)
  case (Cons i items)
  show ?case
  proof (cases "\<exists>name clauses. i = SvOperation name clauses")
    case True
    then obtain name clauses where op: "i = SvOperation name clauses" by blast
    with Cons.prems(2) obtain s1 where s1: "dfa_step c (ts_current c) name s1"
      and run: "dfa_run c s1 (service_operations items) s'"
      by (auto simp: service_operations_def dfa_run_Cons)
    then obtain c1 where t: "transition_op name sp c = Inr c1"
      using transition_op_Inl by (cases "transition_op name sp c") blast+
    from transition_op_Inr [OF t] Cons.prems(1) s1 have "ts_current c1 = s1"
      unfolding deterministic_def by blast
    with transition_op_Inr [OF t] have c1: "c1 = c\<lparr>ts_current := s1\<rparr>" by simp
    have "deterministic c1" using Cons.prems(1) by (simp add: c1 deterministic_def)
    from Cons.IH [OF this] run show ?thesis by (simp add: op t c1 Let_def)
  next
    case False
    then show ?thesis
      using Cons service_item_step_other [OF False] by (simp add: service_operations_def)
  qed
qed (simp add: service_operations_def)

text \<open>C24: on a table with at most one transition for an operation in a state, the loop over the
  operations of a service adds no error exactly when the declared automaton has a run over them from
  the current state, and then the checker stands in the state the run ends in.
  \<open>first_transition_taken\<close> shows that the condition on the table is needed.\<close>

theorem typestate_refines_automaton:
  "deterministic tc \<Longrightarrow>
   (\<exists>bs'. fold (service_item_step sp) items (tc, [], bs) = (tc', [], bs')) \<longleftrightarrow>
   dfa_run tc (ts_current tc) (service_operations items) (ts_current tc') \<and> tc' = tc\<lparr>ts_current := ts_current tc'\<rparr>"
  using service_loop_sound [of sp items tc "[]" bs tc' "[]"]
    service_loop_complete [of tc items "ts_current tc'" sp "[]" bs] by auto

lemma typestate_refines_automaton_witness:
  "dfa_run door ''Closed'' [''open'', ''close'', ''open''] ''Open'' \<and>
   (\<nexists>tc' bs'. fold (service_item_step (0, 9)) [SvOperation ''close'' []] (door, [], []) = (tc', [], bs'))"
proof
  have "\<exists>bs'. fold (service_item_step (0, 9)) [SvOperation ''open'' [], SvOperation ''close'' [],
      SvQuery ''state'' [], SvOperation ''open'' []] (door, [], []) = (door\<lparr>ts_current := ''Open''\<rparr>, [], bs')"
    by (simp add: door_def typestate_new_def transition_op_def Let_def)
  then have "dfa_run door (ts_current door) [''open'', ''close'', ''open'']
      (ts_current (door\<lparr>ts_current := ''Open''\<rparr>))"
    unfolding typestate_refines_automaton [OF door_deterministic] by (simp add: service_operations_def)
  then show "dfa_run door ''Closed'' [''open'', ''close'', ''open''] ''Open''"
    by (simp add: door_def typestate_new_def)
  show "\<nexists>tc' bs'. fold (service_item_step (0, 9)) [SvOperation ''close'' []] (door, [], []) = (tc', [], bs')"
    using typestate_refines_automaton [OF door_deterministic, of "(0, 9)" "[SvOperation ''close'' []]" "[]"]
    by (auto simp: service_operations_def dfa_run_Cons dfa_step_iff door_def typestate_new_def)
qed

text \<open>
  With two transitions for one operation the checker takes the first one and may refuse operations
  over which the automaton has a run.
\<close>

definition fork :: typestate_checker where
  "fork = typestate_new [''A'', ''B'', ''C'']
     [(''go'', ''A'', ''B''), (''go'', ''A'', ''C''), (''end'', ''C'', ''A'')] ''A'' (0, 9)"

lemma first_transition_taken:
  "map te_code (fst (snd (fold (service_item_step (0, 9)) [SvOperation ''go'' [], SvOperation ''end'' []]
     (fork, [], [])))) = [''A06001'']"
  "dfa_run fork ''A'' [''go'', ''end''] ''A''"
  by (simp_all add: fork_def typestate_new_def transition_op_def Let_def type_error_of_checker_error_def
      dfa_run_Cons dfa_step_iff)

definition service_automaton :: "service_item list \<Rightarrow> span \<Rightarrow> typestate_checker" where
  "service_automaton items span = typestate_new (service_states items)
     (concat (map item_transitions items)) (hd (service_states items)) span"

text \<open>C16: a service that declares states and at least one transition, for which the check reports
  nothing, declares all the states it uses, carries a linear annotation, and its operations form a
  run of the declared automaton, in the order of their declaration, from the first state. A service
  without transition clauses is not checked (\<open>no_transitions_skipped\<close>).\<close>

theorem accepted_service:
  assumes "typestate_errors (Service s) sp = []"
    and "service_states (sv_items s) \<noteq> []" and "concat (map item_transitions (sv_items s)) \<noteq> []"
  shows "list_ex item_linear (sv_items s) \<and>
    (\<exists>final. dfa_run (service_automaton (sv_items s) sp) (hd (service_states (sv_items s)))
       (service_operations (sv_items s)) final) \<and>
    (\<forall>ops s'. dfa_run (service_automaton (sv_items s) sp) (hd (service_states (sv_items s))) ops s' \<longrightarrow>
       s' \<in> set (service_states (sv_items s)))"
proof -
  let ?tc = "service_automaton (sv_items s) sp"
  have current: "ts_current ?tc = hd (service_states (sv_items s))"
    and states: "ts_states ?tc = service_states (sv_items s)"
    by (simp_all add: service_automaton_def typestate_new_def)
  obtain c' es' bs' where loop: "fold (service_item_step sp) (sv_items s) (?tc, [], []) = (c', es', bs')"
    by (metis prod_cases3)
  with assms have "es' = []" and valid: "validate_transitions ?tc = []"
    and linear: "option_errors (validate_linear ?tc (list_ex item_linear (sv_items s))) = []"
    by (auto simp: Let_def service_automaton_def split: if_splits)
  then have "dfa_run ?tc (hd (service_states (sv_items s))) (service_operations (sv_items s)) (ts_current c')"
    using service_loop_sound [OF loop] by (simp add: current)
  moreover have "list_ex item_linear (sv_items s)"
    using linear by (auto simp: option_errors_def validate_linear_def split: if_splits)
  moreover have "hd (service_states (sv_items s)) \<in> set (ts_states ?tc)"
    using assms(2) by (simp add: states)
  ultimately show ?thesis using dfa_run_declared [OF valid] by (auto simp: states)
qed

lemma no_transitions_skipped:
  "concat (map item_transitions (sv_items s)) = [] \<Longrightarrow> typestate_errors (Service s) sp = []"
  by (simp add: Let_def)

definition gate_service :: service_decl where
  "gate_service =
     (let cl = (\<lambda>k ts. \<lparr>cl_kind = OtherClause k, cl_body = no_span (Raw ts), cl_effect_variables = []\<rparr>)
      in \<lparr>sv_name = ''Gate'', sv_items =
           [SvStates [''Closed'', ''Open''],
            SvOperation ''open'' [cl ''transition'' [''Closed'', ''->'', ''Open''], cl ''linear'' []],
            SvQuery ''state'' []]\<rparr>)"

lemma gate_states: "service_states (sv_items gate_service) = [''Closed'', ''Open'']"
  by (simp add: gate_service_def service_states_def)

lemma gate_transitions:
  "concat (map item_transitions (sv_items gate_service)) = [(''open'', ''Closed'', ''Open'')]"
  by (simp add: gate_service_def no_span_def Let_def)

lemma gate_operations: "service_operations (sv_items gate_service) = [''open'']"
  by (simp add: gate_service_def service_operations_def)

lemma gate_accepted: "typestate_errors (Service gate_service) (0, 9) = []"
proof -
  have "list_ex item_linear (sv_items gate_service)" by (simp add: gate_service_def Let_def)
  moreover have "fold (service_item_step (0, 9)) (sv_items gate_service) (typestate_new [''Closed'', ''Open'']
      [(''open'', ''Closed'', ''Open'')] ''Closed'' (0, 9), [], []) =
    (typestate_new [''Closed'', ''Open''] [(''open'', ''Closed'', ''Open'')] ''Open'' (0, 9), [],
     [typestate_new [''Closed'', ''Open''] [] ''Open'' (0, 9)])"
    by (simp add: gate_service_def Let_def typestate_new_def transition_op_def)
  ultimately show ?thesis
    by (simp add: gate_states gate_transitions option_errors_def validate_linear_def)
      (simp add: typestate_new_def validate_transitions_def undeclared_state_def)
qed

lemma accepted_service_witness:
  "\<exists>final. dfa_run (service_automaton (sv_items gate_service) (0, 9)) ''Closed'' [''open''] final"
  using accepted_service [OF gate_accepted] gate_states gate_transitions gate_operations by simp

end
