(* ===== verification/Page_Cache.thy ===== *)
theory Page_Cache
  imports Checker_Base
begin

text \<open>
  The page cache checker, \<open>crates/assura-types/src/domain/storage/page_cache.rs\<close>: pages with a
  dirty flag and a pin count, the operations on them, the scan of a source file.  Page numbers are
  \<open>u64\<close> and pin counts \<open>u32\<close>, with the increment wrapping as in a release build.  The abstract
  cache maps a page to its dirty flag and an unbounded number of pins; the checker implements it as
  long as no count overflows and no page in use is loaded again.
\<close>

section \<open>The checker\<close>

record page_info =
  pg_dirty :: bool
  pg_pinned :: bool
  pg_pin_count :: u32

record page_cache =
  pc_pages :: "(u64, page_info) hmap"
  pc_capacity :: nat

definition page_cache_new :: "nat \<Rightarrow> page_cache" where
  "page_cache_new capacity = \<lparr>pc_pages = hm_empty, pc_capacity = capacity\<rparr>"

definition load_page :: "u64 \<Rightarrow> page_cache \<Rightarrow> page_cache" where
  "load_page page_id pc = pc\<lparr>pc_pages :=
     hm_insert page_id \<lparr>pg_dirty = False, pg_pinned = False, pg_pin_count = 0\<rparr> (pc_pages pc)\<rparr>"

definition pin_page :: "u64 \<Rightarrow> page_cache \<Rightarrow> page_cache" where
  "pin_page page_id pc = pc\<lparr>pc_pages := hm_modify page_id
     (\<lambda>p. p\<lparr>pg_pinned := True, pg_pin_count := pg_pin_count p + 1\<rparr>) (pc_pages pc)\<rparr>"

definition unpin_info :: "page_info \<Rightarrow> page_info" where
  "unpin_info p =
     (let p1 = (if pg_pin_count p > 0 then p\<lparr>pg_pin_count := pg_pin_count p - 1\<rparr> else p)
      in if pg_pin_count p1 = 0 then p1\<lparr>pg_pinned := False\<rparr> else p1)"

definition unpin_page :: "u64 \<Rightarrow> page_cache \<Rightarrow> page_cache" where
  "unpin_page page_id pc = pc\<lparr>pc_pages := hm_modify page_id unpin_info (pc_pages pc)\<rparr>"

definition mark_dirty :: "u64 \<Rightarrow> page_cache \<Rightarrow> page_cache" where
  "mark_dirty page_id pc = pc\<lparr>pc_pages := hm_modify page_id (\<lambda>p. p\<lparr>pg_dirty := True\<rparr>) (pc_pages pc)\<rparr>"

definition flush_page :: "u64 \<Rightarrow> page_cache \<Rightarrow> page_cache" where
  "flush_page page_id pc = pc\<lparr>pc_pages := hm_modify page_id (\<lambda>p. p\<lparr>pg_dirty := False\<rparr>) (pc_pages pc)\<rparr>"

definition evict_page :: "u64 \<Rightarrow> page_cache \<Rightarrow> page_cache \<times> type_error option" where
  "evict_page page_id pc =
     (case hm_get (pc_pages pc) page_id of
        Some p \<Rightarrow>
          if pg_pinned p then
            (pc, Some (type_error_at ''A34001'' (''cannot evict pinned page '' @ dec (unat page_id)) (0, 1)))
          else if pg_dirty p then
            (pc, Some (type_error_at ''A34002''
               (''evicting dirty page '' @ dec (unat page_id) @ '' without flush'') (0, 1)))
          else (pc\<lparr>pc_pages := hm_remove page_id (pc_pages pc)\<rparr>, None)
      | None \<Rightarrow> (pc\<lparr>pc_pages := hm_remove page_id (pc_pages pc)\<rparr>, None))"

definition check_capacity :: "page_cache \<Rightarrow> type_error list" where
  "check_capacity pc =
     (if hm_len (pc_pages pc) > pc_capacity pc
      then [type_error_at ''A34003'' (''page cache size '' @ dec (hm_len (pc_pages pc)) @
              '' exceeds capacity '' @ dec (pc_capacity pc)) (0, 1)]
      else [])"

section \<open>The scan\<close>

definition page_cache_scan_expr :: "sp_expr \<Rightarrow> page_cache \<Rightarrow> page_cache" where
  "page_cache_scan_expr e pc =
     (case extract_call e of None \<Rightarrow> pc
      | Some (name, args) \<Rightarrow>
          let page_id = as_u64 (first_int_arg args default_param_zero) in
          if name \<in> {''load_page'', ''load'', ''fetch_page''} then load_page page_id pc
          else if name \<in> {''pin'', ''pin_page''} then pin_page page_id pc
          else if name \<in> {''unpin'', ''unpin_page''} then unpin_page page_id pc
          else if name \<in> {''mark_dirty'', ''dirty''} then mark_dirty page_id pc
          else if name \<in> {''flush'', ''flush_page''} then flush_page page_id pc
          else if name \<in> {''evict'', ''evict_page''} then fst (evict_page page_id pc)
          else pc)"

definition cache_capacity :: "sp_expr \<Rightarrow> nat" where
  "cache_capacity body =
     (case node body of
        Call f args \<Rightarrow> as_usize (first_int_arg args default_page_size)
      | Literal (LInt s) \<Rightarrow> unwrap_or (parse_uint 64 s) (as_usize default_page_size)
      | _ \<Rightarrow> as_usize (unwrap_or
               (kv_find (\<lambda>k. k = ''capacity'' \<or> k = ''size'' \<or> k = ''max_pages'') extract_int_literal
                  (extract_kv_pairs body)) default_page_size))"

fun scanned_kind :: "clause_kind \<Rightarrow> bool" where
  "scanned_kind Requires \<longleftrightarrow> True"
| "scanned_kind Ensures \<longleftrightarrow> True"
| "scanned_kind (OtherClause k) \<longleftrightarrow> True"
| "scanned_kind _ \<longleftrightarrow> False"

definition page_cache_step :: "span \<Rightarrow> clause \<Rightarrow> page_cache option \<Rightarrow> page_cache option" where
  "page_cache_step span c checker =
     (let checker = (if other_kind_in [''page_cache'', ''buffer_pool'', ''cache_policy''] (cl_kind c) \<and> checker = None
                     then Some (page_cache_new (cache_capacity (cl_body c))) else checker)
      in case checker of
           Some ch \<Rightarrow> if scanned_kind (cl_kind c) then Some (page_cache_scan_expr (cl_body c) ch) else Some ch
         | None \<Rightarrow> None)"

definition page_cache_check_source :: "source_file \<Rightarrow> type_error list" where
  "page_cache_check_source src =
     (case scan_decls clauses_contract_fn_block page_cache_step (sf_decls src) None of
        Some ch \<Rightarrow> check_capacity ch | None \<Rightarrow> [])"

section \<open>The invariant\<close>

text \<open>A page with pins is marked as pinned.\<close>

definition page_cache_inv :: "page_cache \<Rightarrow> bool" where
  "page_cache_inv pc \<longleftrightarrow> hm_wf (pc_pages pc) \<and>
     (\<forall>k p. hm_get (pc_pages pc) k = Some p \<longrightarrow> pg_pin_count p > 0 \<longrightarrow> pg_pinned p)"

lemmas page_ops = load_page_def pin_page_def unpin_page_def mark_dirty_def flush_page_def

lemma unpin_info_inv: "(pg_pin_count p > 0 \<longrightarrow> pg_pinned p) \<Longrightarrow>
   pg_pin_count (unpin_info p) > 0 \<longrightarrow> pg_pinned (unpin_info p)"
  by (auto simp: unpin_info_def Let_def)

lemma page_ops_inv:
  assumes "page_cache_inv pc"
  shows "page_cache_inv (load_page k pc)" "page_cache_inv (pin_page k pc)"
    "page_cache_inv (unpin_page k pc)" "page_cache_inv (mark_dirty k pc)"
    "page_cache_inv (flush_page k pc)" "page_cache_inv (fst (evict_page k pc))"
proof -
  have wf: "hm_wf (pc_pages pc)" and pinned: "\<And>k p. hm_get (pc_pages pc) k = Some p \<Longrightarrow>
      pg_pin_count p > 0 \<longrightarrow> pg_pinned p"
    using assms by (auto simp: page_cache_inv_def)
  show "page_cache_inv (load_page k pc)" "page_cache_inv (pin_page k pc)"
    "page_cache_inv (mark_dirty k pc)" "page_cache_inv (flush_page k pc)"
    using wf pinned by (auto simp: page_cache_inv_def page_ops hm.get_simps hm.wf_insert hm.wf_modify)
  show "page_cache_inv (unpin_page k pc)"
    using wf pinned unpin_info_inv
    by (auto simp: page_cache_inv_def page_ops hm.get_simps hm.wf_modify split: if_splits)
  show "page_cache_inv (fst (evict_page k pc))"
    using wf pinned
    by (auto simp: page_cache_inv_def evict_page_def hm.get_simps hm.wf_remove split: option.splits)
qed

definition page_cache_opt_inv :: "page_cache option \<Rightarrow> bool" where
  "page_cache_opt_inv s \<longleftrightarrow> (case s of None \<Rightarrow> True | Some pc \<Rightarrow> page_cache_inv pc)"

lemma page_cache_new_inv: "page_cache_inv (page_cache_new n)"
  by (simp add: page_cache_inv_def page_cache_new_def hm.wf_empty hm.get_empty)

lemma page_cache_scan_inv: "page_cache_inv pc \<Longrightarrow> page_cache_inv (page_cache_scan_expr e pc)"
  by (auto simp: page_cache_scan_expr_def Let_def page_ops_inv split: option.splits)

interpretation page_cache: clause_scanner clauses_contract_fn_block page_cache_step page_cache_opt_inv
proof
  show "page_cache_opt_inv (page_cache_step sp c s)" if "page_cache_opt_inv s" for sp c s
    using that
    by (auto simp: page_cache_step_def page_cache_opt_inv_def Let_def page_cache_scan_inv
        page_cache_new_inv split: option.splits)
qed

text \<open>Whatever operations a source file lists, in whatever order, every page of the checker's
  cache that holds a pin is marked as pinned when the scan ends, and no page is listed twice.\<close>

lemma page_cache_scan_keeps_pins:
  "page_cache_opt_inv (scan_decls clauses_contract_fn_block page_cache_step ds None)"
  by (rule page_cache.scan_inv) (simp add: page_cache_opt_inv_def)

lemma page_cache_check_codes:
  "e \<in> set (page_cache_check_source src) \<Longrightarrow> te_code e = ''A34003''"
  by (auto simp: page_cache_check_source_def check_capacity_def split: option.splits if_splits)

text \<open>
  The last lemma is a gap of the source check: the errors \<open>A34001\<close> and \<open>A34002\<close> that \<open>evict\<close>
  returns are dropped by the scan, so no source file is ever reported for evicting a pinned or a
  dirty page.
\<close>

section \<open>Refinement of an abstract cache\<close>

text \<open>
  The reference cache is the one the catalog of errors describes: a page is dirty from a write to the
  next flush, it is pinned while it has outstanding pins, and loading a page that is already in the
  cache changes nothing.
\<close>

type_synonym abs_cache = "u64 \<Rightarrow> (bool \<times> nat) option"

datatype page_op =
  OpLoad u64 | OpPin u64 | OpUnpin u64 | OpDirty u64 | OpFlush u64 | OpEvict u64

fun abs_page_step :: "page_op \<Rightarrow> abs_cache \<Rightarrow> abs_cache \<times> string option" where
  "abs_page_step (OpLoad k) c = (case c k of None \<Rightarrow> (c(k \<mapsto> (False, 0)), None) | Some a \<Rightarrow> (c, None))"
| "abs_page_step (OpPin k) c = (c(k := map_option (\<lambda>(d, n). (d, n + 1)) (c k)), None)"
| "abs_page_step (OpUnpin k) c = (c(k := map_option (\<lambda>(d, n). (d, n - 1)) (c k)), None)"
| "abs_page_step (OpDirty k) c = (c(k := map_option (\<lambda>(d, n). (True, n)) (c k)), None)"
| "abs_page_step (OpFlush k) c = (c(k := map_option (\<lambda>(d, n). (False, n)) (c k)), None)"
| "abs_page_step (OpEvict k) c =
     (case c k of None \<Rightarrow> (c, None)
      | Some (d, n) \<Rightarrow> if n > 0 then (c, Some ''A34001'')
                      else if d then (c, Some ''A34002'') else (c(k := None), None))"

text \<open>A load is of a page that is not in use: not cached, or cached, clean and without pins.\<close>

fun load_of_unused :: "page_op \<Rightarrow> abs_cache \<Rightarrow> bool" where
  "load_of_unused (OpLoad k) c \<longleftrightarrow> c k = None \<or> c k = Some (False, 0)"
| "load_of_unused _ c \<longleftrightarrow> True"

fun loads_of_unused :: "page_op list \<Rightarrow> abs_cache \<Rightarrow> bool" where
  "loads_of_unused [] c \<longleftrightarrow> True"
| "loads_of_unused (op # ops) c \<longleftrightarrow> load_of_unused op c \<and> loads_of_unused ops (fst (abs_page_step op c))"

fun page_step :: "page_op \<Rightarrow> page_cache \<Rightarrow> page_cache \<times> string option" where
  "page_step (OpLoad k) pc = (load_page k pc, None)"
| "page_step (OpPin k) pc = (pin_page k pc, None)"
| "page_step (OpUnpin k) pc = (unpin_page k pc, None)"
| "page_step (OpDirty k) pc = (mark_dirty k pc, None)"
| "page_step (OpFlush k) pc = (flush_page k pc, None)"
| "page_step (OpEvict k) pc = (case evict_page k pc of (pc', e) \<Rightarrow> (pc', map_option te_code e))"

fun run_steps :: "('o \<Rightarrow> 's \<Rightarrow> 's \<times> 'r) \<Rightarrow> 'o list \<Rightarrow> 's \<Rightarrow> 'r list" where
  "run_steps step [] s = []"
| "run_steps step (x # xs) s = (case step x s of (s', r) \<Rightarrow> r # run_steps step xs s')"

definition page_rel :: "page_info \<Rightarrow> bool \<times> nat \<Rightarrow> bool" where
  "page_rel p a \<longleftrightarrow> pg_dirty p = fst a \<and> unat (pg_pin_count p) = snd a \<and> (pg_pinned p \<longleftrightarrow> snd a > 0)"

definition cache_rel :: "page_cache \<Rightarrow> abs_cache \<Rightarrow> bool" where
  "cache_rel pc c \<longleftrightarrow> (\<forall>k. rel_option page_rel (hm_get (pc_pages pc) k) (c k))"

definition pins_below :: "nat \<Rightarrow> abs_cache \<Rightarrow> bool" where
  "pins_below b c \<longleftrightarrow> (\<forall>k d n. c k = Some (d, n) \<longrightarrow> n < b)"

lemma unat_inc: "unat (w :: u32) + 1 < 2 ^ 32 \<Longrightarrow> unat (w + 1) = unat w + 1"
  by (simp add: unat_plus_simple [THEN iffD1] no_olen_add_nat)

lemma unat_dec: "(w :: u32) > 0 \<Longrightarrow> unat (w - 1) = unat w - 1"
  by (simp add: unat_minus_one word_neq_0_conv)

lemma page_rel_pin:
  "page_rel p (d, n) \<Longrightarrow> n + 1 < 2 ^ 32 \<Longrightarrow>
   page_rel (p\<lparr>pg_pinned := True, pg_pin_count := pg_pin_count p + 1\<rparr>) (d, n + 1)"
  using unat_inc [of "pg_pin_count p"] by (simp add: page_rel_def)

lemma page_rel_unpin: "page_rel p (d, n) \<Longrightarrow> page_rel (unpin_info p) (d, n - 1)"
  using unat_dec [of "pg_pin_count p"] word_unat_eq_iff [of "pg_pin_count p" 1]
  by (auto simp: page_rel_def unpin_info_def Let_def word_less_nat_alt unat_eq_zero)

lemma cache_rel_modify:
  assumes "cache_rel pc c" and "\<And>p a. hm_get (pc_pages pc) k = Some p \<Longrightarrow> c k = Some a \<Longrightarrow>
      page_rel p a \<Longrightarrow> page_rel (f p) (g a)"
  shows "cache_rel (pc\<lparr>pc_pages := hm_modify k f (pc_pages pc)\<rparr>) (c(k := map_option g (c k)))"
  unfolding cache_rel_def
proof
  fix k'
  have "rel_option page_rel (hm_get (pc_pages pc) k') (c k')" using assms(1) by (simp add: cache_rel_def)
  then show "rel_option page_rel
      (hm_get (pc_pages (pc\<lparr>pc_pages := hm_modify k f (pc_pages pc)\<rparr>)) k')
      ((c(k := map_option g (c k))) k')"
    using assms(2) by (cases "k' = k") (auto simp: hm.get_modify elim!: option.rel_cases)
qed

lemma page_step_refines:
  assumes rel: "cache_rel pc c" and bound: "pins_below (2 ^ 32 - 1) c" and unused: "load_of_unused op c"
  shows "cache_rel (fst (page_step op pc)) (fst (abs_page_step op c)) \<and>
    snd (page_step op pc) = snd (abs_page_step op c)"
proof (cases op)
  case (OpLoad k)
  then show ?thesis using rel unused
    by (auto simp: cache_rel_def load_page_def hm.get_insert page_rel_def)
next
  case (OpPin k)
  have "cache_rel (pin_page k pc) (c(k := map_option (\<lambda>(d, n). (d, n + 1)) (c k)))"
    unfolding pin_page_def
  proof (rule cache_rel_modify [OF rel])
    fix p a assume "c k = Some a" and "page_rel p a"
    moreover from this bound have "snd a + 1 < 2 ^ 32" by (cases a) (fastforce simp: pins_below_def)
    ultimately show "page_rel (p\<lparr>pg_pinned := True, pg_pin_count := pg_pin_count p + 1\<rparr>)
        (case a of (d, n) \<Rightarrow> (d, n + 1))"
      using page_rel_pin [of p "fst a" "snd a"] by (cases a) simp
  qed
  with OpPin show ?thesis by simp
next
  case (OpUnpin k)
  then show ?thesis
    by (auto simp: unpin_page_def intro!: cache_rel_modify [OF rel] page_rel_unpin [simplified])
next
  case (OpDirty k)
  then show ?thesis
    by (auto simp: mark_dirty_def page_rel_def intro!: cache_rel_modify [OF rel])
next
  case (OpFlush k)
  then show ?thesis
    by (auto simp: flush_page_def page_rel_def intro!: cache_rel_modify [OF rel])
next
  case (OpEvict k)
  have "rel_option page_rel (hm_get (pc_pages pc) k) (c k)" using rel by (simp add: cache_rel_def)
  then show ?thesis using rel OpEvict
    by (cases "hm_get (pc_pages pc) k"; cases "c k")
      (auto simp: evict_page_def page_rel_def cache_rel_def hm.get_remove)
qed

lemma abs_pins_step: "pins_below b c \<Longrightarrow> b > 0 \<Longrightarrow> pins_below (Suc b) (fst (abs_page_step op c))"
  by (cases op) (auto simp: pins_below_def less_Suc_eq split: option.splits if_splits; fastforce)+

lemma run_pages_refine:
  "cache_rel pc c \<Longrightarrow> pins_below b c \<Longrightarrow> b > 0 \<Longrightarrow> b + length ops \<le> 2 ^ 32 \<Longrightarrow>
   loads_of_unused ops c \<Longrightarrow> run_steps page_step ops pc = run_steps abs_page_step ops c"
proof (induction ops arbitrary: pc c b)
  case (Cons op ops)
  have "pins_below (2 ^ 32 - 1) c" using Cons.prems(2,4) by (fastforce simp: pins_below_def)
  note r = page_step_refines [OF Cons.prems(1) this, of op]
  have unused: "load_of_unused op c" "loads_of_unused ops (fst (abs_page_step op c))"
    using Cons.prems(5) by simp_all
  note r = r [OF unused(1)]
  have "run_steps page_step ops (fst (page_step op pc)) = run_steps abs_page_step ops (fst (abs_page_step op c))"
    using r abs_pins_step [OF Cons.prems(2,3)] Cons.prems(4) unused(2) by (intro Cons.IH [of _ _ "Suc b"]) auto
  with r show ?case by (simp add: case_prod_unfold)
qed simp

text \<open>C18: on every sequence of fewer than \<open>2 ^ 32\<close> operations in which no load is of a page that is
  pinned or dirty, the checker gives the answers of the reference cache, which counts pins without
  bound and never forgets one: an eviction is refused as pinned while a page has outstanding pins,
  refused as dirty when it has unflushed writes, and accepted otherwise. The condition on the loads
  is evaluated along the run of the reference; \<open>reload_forgets_pins\<close> shows what happens without it.\<close>

theorem page_cache_refines:
  "length ops < 2 ^ 32 \<Longrightarrow> loads_of_unused ops Map.empty \<Longrightarrow>
   run_steps page_step ops (page_cache_new capacity) = run_steps abs_page_step ops Map.empty"
  by (rule run_pages_refine [where b = 1])
    (simp_all add: cache_rel_def page_cache_new_def hm.get_empty pins_below_def)

lemma page_cache_refines_witness:
  "run_steps page_step [OpLoad 7, OpPin 7, OpDirty 7, OpEvict 7, OpUnpin 7, OpEvict 7, OpFlush 7,
     OpLoad 7, OpEvict 7] (page_cache_new 4) =
   [None, None, None, Some ''A34001'', None, Some ''A34002'', None, None, None]"
  by (subst page_cache_refines) simp_all

text \<open>
  Loading a page that is already in the cache forgets its pins: the checker lets the page be evicted
  although it was pinned and never unpinned, where the reference refuses.
\<close>

lemma reload_forgets_pins:
  "run_steps page_step [OpLoad 7, OpPin 7, OpLoad 7, OpEvict 7] (page_cache_new 4) = [None, None, None, None]"
  "run_steps abs_page_step [OpLoad 7, OpPin 7, OpLoad 7, OpEvict 7] Map.empty =
     [None, None, None, Some ''A34001'']"
  by (simp_all add: load_page_def pin_page_def evict_page_def page_cache_new_def hm_defs)

end
