(* ===== verification/Transactions.thy ===== *)
theory Transactions
  imports Checker_Base
begin

text \<open>
  Two storage checkers of \<open>crates/assura-types/src/domain/storage\<close>: snapshot isolation
  (\<open>mvcc.rs\<close>), with the versions of each key and the active snapshots, and transactional rollback
  (\<open>rollback.rs\<close>), with the stack of savepoints and the resources held.  Transaction numbers are
  \<open>u64\<close>.
\<close>

section \<open>Snapshot isolation\<close>

record mvcc_version =
  mv_txn_id :: u64
  mv_committed :: bool

record mvcc_checker =
  mc_versions :: "(string, mvcc_version list) hmap"
  mc_active_snapshots :: "u64 list"
  mc_next_txn_id :: u64

definition mvcc_new :: mvcc_checker where
  "mvcc_new = \<lparr>mc_versions = hm_empty, mc_active_snapshots = [], mc_next_txn_id = 1\<rparr>"

definition begin_txn :: "mvcc_checker \<Rightarrow> u64 \<times> mvcc_checker" where
  "begin_txn mc =
     (let id = mc_next_txn_id mc
      in (id, mc\<lparr>mc_next_txn_id := id + 1, mc_active_snapshots := mc_active_snapshots mc @ [id]\<rparr>))"

definition write_version :: "string \<Rightarrow> u64 \<Rightarrow> mvcc_checker \<Rightarrow> mvcc_checker" where
  "write_version key txn_id mc = mc\<lparr>mc_versions :=
     hm_insert key (unwrap_or (hm_get (mc_versions mc) key) [] @
       [\<lparr>mv_txn_id = txn_id, mv_committed = False\<rparr>]) (mc_versions mc)\<rparr>"

definition commit_version :: "u64 \<Rightarrow> mvcc_version \<Rightarrow> mvcc_version" where
  "commit_version txn_id v = (if mv_txn_id v = txn_id then v\<lparr>mv_committed := True\<rparr> else v)"

definition commit_txn :: "u64 \<Rightarrow> mvcc_checker \<Rightarrow> mvcc_checker" where
  "commit_txn txn_id mc = mc\<lparr>
     mc_active_snapshots := filter (\<lambda>id. id \<noteq> txn_id) (mc_active_snapshots mc),
     mc_versions := hm_map_values (map (commit_version txn_id)) (mc_versions mc)\<rparr>"

definition write_conflict :: "string \<times> mvcc_version list \<Rightarrow> type_error list" where
  "write_conflict = (\<lambda>(key, versions).
     let uncommitted = filter (\<lambda>v. \<not> mv_committed v) versions in
     if length uncommitted > 1
     then [type_error_at ''A35001'' (''write-write conflict on key '' @ quoted key @ '': '' @
             dec (length uncommitted) @ '' uncommitted versions'') (0, 1)]
     else [])"

definition check_write_conflicts :: "mvcc_checker \<Rightarrow> type_error list" where
  "check_write_conflicts mc = concat (map write_conflict (hm_entries (mc_versions mc)))"

definition dirty_version :: "mvcc_checker \<Rightarrow> u64 \<Rightarrow> mvcc_version \<Rightarrow> bool" where
  "dirty_version mc reader v \<longleftrightarrow>
     mv_txn_id v \<noteq> reader \<and> \<not> mv_committed v \<and> mv_txn_id v \<in> set (mc_active_snapshots mc)"

definition check_snapshot_read :: "mvcc_checker \<Rightarrow> string \<Rightarrow> u64 \<Rightarrow> type_error option" where
  "check_snapshot_read mc key reader =
     (case hm_get (mc_versions mc) key of None \<Rightarrow> None
      | Some versions \<Rightarrow>
          map_option (\<lambda>v. type_error_at ''A35002'' (''snapshot isolation violation: txn '' @
              dec (unat reader) @ '' reads uncommitted from txn '' @ dec (unat (mv_txn_id v)) @
              '' on '' @ quoted key) (0, 1))
            (find (dirty_version mc reader) versions))"

definition phantom_errors :: "u64 \<Rightarrow> string \<times> mvcc_version list \<Rightarrow> type_error list" where
  "phantom_errors txn_id = (\<lambda>(key, versions).
     map (\<lambda>v. type_error_at ''A35003'' (''phantom read: txn '' @ dec (unat txn_id) @
          '' sees committed version from later txn '' @ dec (unat (mv_txn_id v)) @ '' on '' @ quoted key) (0, 1))
       (filter (\<lambda>v. mv_txn_id v > txn_id \<and> mv_committed v) versions))"

definition check_phantom :: "mvcc_checker \<Rightarrow> u64 \<Rightarrow> type_error list" where
  "check_phantom mc txn_id = concat (map (phantom_errors txn_id) (hm_entries (mc_versions mc)))"

definition mvcc_call :: "sp_expr \<Rightarrow> mvcc_checker \<Rightarrow> mvcc_checker" where
  "mvcc_call e mc =
     (case extract_call e of None \<Rightarrow> mc
      | Some (name, args) \<Rightarrow>
          if name \<in> {''begin_txn'', ''begin'', ''start_transaction''} then snd (begin_txn mc)
          else if name \<in> {''write'', ''write_version'', ''put''} then
            write_version (first_ident_arg args ''default'') (as_u64 (int_arg args 1 default_param_one)) mc
          else if name \<in> {''commit'', ''commit_txn''} then
            commit_txn (as_u64 (int_arg args 0 default_param_one)) mc
          else mc)"

fun mvcc_scan_expr :: "sp_expr \<Rightarrow> mvcc_checker \<Rightarrow> mvcc_checker" where
  "mvcc_scan_expr (Spanned (BlockE es) s) mc =
     fold mvcc_scan_expr es (mvcc_call (Spanned (BlockE es) s) mc)"
| "mvcc_scan_expr (Spanned (ListE es) s) mc =
     fold mvcc_scan_expr es (mvcc_call (Spanned (ListE es) s) mc)"
| "mvcc_scan_expr (Spanned (BinOp l op r) s) mc =
     mvcc_scan_expr r (mvcc_scan_expr l (mvcc_call (Spanned (BinOp l op r) s) mc))"
| "mvcc_scan_expr e mc = mvcc_call e mc"

definition mvcc_step :: "span \<Rightarrow> clause \<Rightarrow> mvcc_checker \<times> bool \<Rightarrow> mvcc_checker \<times> bool" where
  "mvcc_step span c st =
     (let st1 = (if other_kind_in [''mvcc'', ''snapshot_isolation'', ''serializable''] (cl_kind c)
                 then (mvcc_scan_expr (cl_body c) (fst st), True) else st)
      in if snd st1 \<and> cl_kind c \<in> {Requires, Ensures}
         then (mvcc_scan_expr (cl_body c) (fst st1), snd st1) else st1)"

definition snapshot_read_errors :: "mvcc_checker \<Rightarrow> spanned_decl \<Rightarrow> type_error list" where
  "snapshot_read_errors mc d =
     (case clauses_contract_fn (sd_node d) of None \<Rightarrow> []
      | Some cs \<Rightarrow> concat (map (\<lambda>c. List.map_filter (\<lambda>name. check_snapshot_read mc name 1)
            (collect_ident_references (cl_body c))) (filter (\<lambda>c. cl_kind c = Ensures) cs)))"

definition mvcc_check_source :: "source_file \<Rightarrow> type_error list" where
  "mvcc_check_source src =
     (let (mc, found) = scan_decls clauses_contract_fn_block mvcc_step (sf_decls src) (mvcc_new, False)
      in if \<not> found then []
         else check_write_conflicts mc @ concat (map (snapshot_read_errors mc) (sf_decls src)) @
              check_phantom mc 1)"

subsection \<open>What commits and reads mean\<close>

lemma check_snapshot_read_none:
  "check_snapshot_read mc key reader = None \<longleftrightarrow>
   (\<forall>versions. hm_get (mc_versions mc) key = Some versions \<longrightarrow>
      (\<forall>v \<in> set versions. \<not> dirty_version mc reader v))"
  by (auto simp: check_snapshot_read_def find_None_iff split: option.splits)

lemma dirty_after_commit:
  "dirty_version (commit_txn t mc) reader (commit_version t v) \<longleftrightarrow>
   dirty_version mc reader v \<and> mv_txn_id v \<noteq> t"
  by (auto simp: dirty_version_def commit_txn_def commit_version_def)

subsection \<open>A history and what the checks answer on it\<close>

text \<open>
  What a history of operations means is read off the list of operations alone: the transaction of the
  \<open>n\<close>-th begin has number \<open>n\<close> and stays open until it commits, and a write is committed when a
  commit of its transaction follows it, and pending otherwise.
\<close>

datatype mvcc_op = MBegin | MWrite string u64 | MCommit u64

fun open_txns :: "nat \<Rightarrow> mvcc_op list \<Rightarrow> u64 list" where
  "open_txns n [] = []"
| "open_txns n (MBegin # ops) =
     (if MCommit (word_of_nat n) \<in> set ops then [] else [word_of_nat n]) @ open_txns (n + 1) ops"
| "open_txns n (_ # ops) = open_txns n ops"

fun written :: "string \<Rightarrow> mvcc_op list \<Rightarrow> (u64 \<times> bool) list" where
  "written key [] = []"
| "written key (MWrite k t # ops) =
     (if k = key then [(t, MCommit t \<in> set ops)] else []) @ written key ops"
| "written key (_ # ops) = written key ops"

definition pending :: "string \<Rightarrow> mvcc_op list \<Rightarrow> u64 list" where
  "pending key ops = map fst (filter (\<lambda>w. \<not> snd w) (written key ops))"

fun mvcc_exec :: "mvcc_op \<Rightarrow> mvcc_checker \<Rightarrow> mvcc_checker" where
  "mvcc_exec MBegin mc = snd (begin_txn mc)"
| "mvcc_exec (MWrite key t) mc = write_version key t mc"
| "mvcc_exec (MCommit t) mc = commit_txn t mc"

definition mvcc_run :: "mvcc_op list \<Rightarrow> mvcc_checker" where
  "mvcc_run ops = fold mvcc_exec ops mvcc_new"

definition begins :: "mvcc_op list \<Rightarrow> nat" where
  "begins ops = length (filter (\<lambda>op. op = MBegin) ops)"

lemma open_txns_snoc:
  "open_txns n (ops @ [MBegin]) = open_txns n ops @ [word_of_nat (n + begins ops)]"
  "open_txns n (ops @ [MWrite k t]) = open_txns n ops"
  "open_txns n (ops @ [MCommit t]) = filter (\<lambda>i. i \<noteq> t) (open_txns n ops)"
  by (induction n ops rule: open_txns.induct) (auto simp: begins_def add.assoc)

lemma written_snoc:
  "written key (ops @ [MBegin]) = written key ops"
  "written key (ops @ [MWrite k t]) = written key ops @ (if k = key then [(t, False)] else [])"
  "written key (ops @ [MCommit t]) = map (\<lambda>(u, c). (u, c \<or> u = t)) (written key ops)"
  by (induction key ops rule: written.induct) auto

definition version_pair :: "mvcc_version \<Rightarrow> u64 \<times> bool" where
  "version_pair v = (mv_txn_id v, mv_committed v)"

definition versions_of :: "mvcc_checker \<Rightarrow> string \<Rightarrow> mvcc_version list" where
  "versions_of mc key = unwrap_or (hm_get (mc_versions mc) key) []"

lemma versions_of_simps:
  "versions_of mvcc_new key = []"
  "versions_of (snd (begin_txn mc)) key = versions_of mc key"
  "versions_of (write_version k t mc) key =
     versions_of mc key @ (if k = key then [\<lparr>mv_txn_id = t, mv_committed = False\<rparr>] else [])"
  "versions_of (commit_txn t mc) key = map (commit_version t) (versions_of mc key)"
  by (cases "hm_get (mc_versions mc) key";
    auto simp: versions_of_def mvcc_new_def begin_txn_def write_version_def commit_txn_def Let_def
      hm.get_simps)+

lemma version_pair_commit: "version_pair (commit_version t v) = (case version_pair v of (u, c) \<Rightarrow> (u, c \<or> u = t))"
  by (simp add: version_pair_def commit_version_def)

definition history_rel :: "mvcc_op list \<Rightarrow> mvcc_checker \<Rightarrow> bool" where
  "history_rel ops mc \<longleftrightarrow> hm_wf (mc_versions mc) \<and> mc_active_snapshots mc = open_txns 1 ops \<and>
     mc_next_txn_id mc = word_of_nat (1 + begins ops) \<and>
     (\<forall>key. map version_pair (versions_of mc key) = written key ops)"

lemma history_rel_step: "history_rel ops mc \<Longrightarrow> history_rel (ops @ [op]) (mvcc_exec op mc)"
proof (cases op)
  case MBegin
  assume "history_rel ops mc"
  then show ?thesis using MBegin
    by (auto simp: history_rel_def versions_of_simps open_txns_snoc written_snoc)
      (simp_all add: begin_txn_def Let_def begins_def)
next
  case (MWrite k t)
  assume "history_rel ops mc"
  then show ?thesis using MWrite
    by (auto simp: history_rel_def versions_of_simps open_txns_snoc written_snoc version_pair_def)
      (simp_all add: write_version_def begins_def hm.wf_insert)
next
  case (MCommit t)
  assume "history_rel ops mc"
  moreover from this have "written key ops = map version_pair (versions_of mc key)" for key
    by (simp add: history_rel_def)
  then have "map version_pair (map (commit_version t) (versions_of mc key)) =
      map (\<lambda>(u, c). (u, c \<or> u = t)) (written key ops)" for key
    by (simp add: version_pair_commit)
  ultimately show ?thesis using MCommit
    by (auto simp: history_rel_def versions_of_simps open_txns_snoc written_snoc)
      (simp_all add: commit_txn_def begins_def)
qed

lemma history_rel_run: "history_rel ops (mvcc_run ops)"
proof (induction ops rule: rev_induct)
  case Nil
  show ?case by (simp add: history_rel_def mvcc_run_def mvcc_new_def begins_def versions_of_def
      hm.wf_empty hm.get_empty)
next
  case (snoc op ops)
  from history_rel_step [OF this, of op] show ?case by (simp add: mvcc_run_def)
qed

lemma pending_run: "map mv_txn_id (filter (\<lambda>v. \<not> mv_committed v) (versions_of (mvcc_run ops) key)) = pending key ops"
proof -
  have "written key ops = map version_pair (versions_of (mvcc_run ops) key)"
    using history_rel_run [of ops] by (simp add: history_rel_def)
  then show ?thesis by (simp add: pending_def filter_map comp_def version_pair_def)
qed

lemma versions_of_all:
  assumes "\<And>key. P key []"
  shows "(\<forall>key vs. hm_get (mc_versions mc) key = Some vs \<longrightarrow> P key vs) \<longleftrightarrow> (\<forall>key. P key (versions_of mc key))"
proof
  assume l: "\<forall>key vs. hm_get (mc_versions mc) key = Some vs \<longrightarrow> P key vs"
  show "\<forall>key. P key (versions_of mc key)"
  proof
    fix key show "P key (versions_of mc key)"
      using l assms by (cases "hm_get (mc_versions mc) key") (simp_all add: versions_of_def)
  qed
qed (metis versions_of_def unwrap_or_def option.case(2))

lemma no_entry_error:
  "hm_wf m \<Longrightarrow> concat (map f (hm_entries m)) = [] \<longleftrightarrow> (\<forall>k v. hm_get m k = Some v \<longrightarrow> f (k, v) = [])"
proof -
  have "concat (map f (hm_entries m)) = [] \<longleftrightarrow> (\<forall>x. x \<in> set (hm_entries m) \<longrightarrow> f x = [])" by auto
  moreover assume "hm_wf m"
  ultimately show ?thesis by (simp only: split_paired_All hm.entries_get)
qed

lemma no_conflict_versions:
  "hm_wf (mc_versions mc) \<Longrightarrow> check_write_conflicts mc = [] \<longleftrightarrow>
   (\<forall>key. length (filter (\<lambda>v. \<not> mv_committed v) (versions_of mc key)) \<le> 1)"
  by (subst versions_of_all [symmetric])
    (auto simp: check_write_conflicts_def no_entry_error write_conflict_def Let_def not_less [symmetric]
      simp del: concat_eq_Nil_conv not_less)

lemma no_phantom_versions:
  "hm_wf (mc_versions mc) \<Longrightarrow> check_phantom mc r = [] \<longleftrightarrow>
   (\<forall>key. \<forall>v \<in> set (versions_of mc key). mv_committed v \<longrightarrow> mv_txn_id v \<le> r)"
  by (subst versions_of_all [symmetric])
    (auto simp: check_phantom_def no_entry_error phantom_errors_def filter_empty_conv not_less
      simp del: concat_eq_Nil_conv)

lemma no_dirty_read_versions:
  "check_snapshot_read mc key r = None \<longleftrightarrow> (\<forall>v \<in> set (versions_of mc key). \<not> dirty_version mc r v)"
  by (cases "hm_get (mc_versions mc) key") (simp_all add: check_snapshot_read_none versions_of_def)

lemma distinct_singleton: "distinct xs \<Longrightarrow> length xs \<le> 1 \<longleftrightarrow> (\<forall>x y. x \<in> set xs \<longrightarrow> y \<in> set xs \<longrightarrow> x = y)"
  by (cases xs; cases "tl xs") auto

text \<open>C26: after any history of begins, writes and commits, the read of a key is refused exactly when
  another transaction that is still open has a pending write of it; where no transaction has two
  pending writes of one key, a conflict is reported exactly when two transactions have pending writes
  of the same key; and a phantom is reported to a transaction exactly when a write of a later
  transaction, to whatever key, is committed. Committing moves the writes made so far, and only
  those, from the pending to the committed ones.\<close>

theorem history_checks_exact:
  assumes "\<And>k. distinct (pending k ops)"
  shows "(check_snapshot_read (mvcc_run ops) key r = None \<longleftrightarrow>
      set (pending key ops) \<inter> set (open_txns 1 ops) \<subseteq> {r}) \<and>
    (check_write_conflicts (mvcc_run ops) = [] \<longleftrightarrow>
      (\<forall>k t u. t \<in> set (pending k ops) \<longrightarrow> u \<in> set (pending k ops) \<longrightarrow> t = u)) \<and>
    (check_phantom (mvcc_run ops) r = [] \<longleftrightarrow> (\<forall>k t. (t, True) \<in> set (written k ops) \<longrightarrow> t \<le> r))"
proof (intro conjI)
  let ?mc = "mvcc_run ops"
  have wf: "hm_wf (mc_versions ?mc)" and active: "mc_active_snapshots ?mc = open_txns 1 ops"
    and versions: "written k ops = map version_pair (versions_of ?mc k)" for k
    using history_rel_run [of ops] by (simp_all add: history_rel_def)
  show "check_snapshot_read ?mc key r = None \<longleftrightarrow> set (pending key ops) \<inter> set (open_txns 1 ops) \<subseteq> {r}"
    unfolding no_dirty_read_versions pending_run [symmetric]
    by (auto simp: dirty_version_def active)
  have "length (filter (\<lambda>v. \<not> mv_committed v) (versions_of ?mc k)) = length (pending k ops)" for k
    by (simp flip: pending_run)
  then show "check_write_conflicts ?mc = [] \<longleftrightarrow>
      (\<forall>k t u. t \<in> set (pending k ops) \<longrightarrow> u \<in> set (pending k ops) \<longrightarrow> t = u)"
    using no_conflict_versions [OF wf] distinct_singleton [OF assms] by simp
  show "check_phantom ?mc r = [] \<longleftrightarrow> (\<forall>k t. (t, True) \<in> set (written k ops) \<longrightarrow> t \<le> r)"
    unfolding no_phantom_versions [OF wf] versions
    by (fastforce simp: version_pair_def image_iff)
qed

lemma history_checks_exact_witness:
  "check_snapshot_read (mvcc_run [MBegin, MBegin, MWrite ''k'' 2, MCommit 2, MWrite ''k'' 1]) ''k'' 1 = None \<and>
   check_snapshot_read (mvcc_run [MBegin, MBegin, MWrite ''k'' 2, MCommit 2, MWrite ''k'' 1]) ''k'' 2 \<noteq> None \<and>
   check_write_conflicts (mvcc_run [MBegin, MBegin, MWrite ''k'' 2, MCommit 2, MWrite ''k'' 1]) = [] \<and>
   check_phantom (mvcc_run [MBegin, MBegin, MWrite ''k'' 2, MCommit 2, MWrite ''k'' 1]) 1 \<noteq> []"
proof -
  let ?ops = "[MBegin, MBegin, MWrite ''k'' 2, MCommit 2, MWrite ''k'' 1]"
  have "distinct (pending k ?ops)" for k by (simp add: pending_def)
  note exact = history_checks_exact [of ?ops, OF this]
  have "(2 :: u64) > 1" by simp
  then show ?thesis
    using exact [of "''k''" 1] exact [of "''k''" 2] by (auto simp: pending_def not_le [symmetric])
qed

text \<open>The errors do not depend on the order the map of versions is visited in.\<close>

definition mvcc_same :: "mvcc_checker \<Rightarrow> mvcc_checker \<Rightarrow> bool" where
  "mvcc_same a b \<longleftrightarrow> hm_wf (mc_versions a) \<and> hm_wf (mc_versions b) \<and>
     hm_get (mc_versions a) = hm_get (mc_versions b) \<and>
     mc_active_snapshots a = mc_active_snapshots b"

lemma mvcc_errors_order:
  assumes "mvcc_same a b"
  shows "mset (check_write_conflicts a) = mset (check_write_conflicts b)"
    and "mset (check_phantom a t) = mset (check_phantom b t)"
    and "check_snapshot_read a key r = check_snapshot_read b key r"
proof -
  have r: "hm_wf (mc_versions a)" "hm_wf (mc_versions b)" "hm_get (mc_versions a) = hm_get (mc_versions b)"
    and s: "mc_active_snapshots a = mc_active_snapshots b" using assms by (auto simp: mvcc_same_def)
  show "mset (check_write_conflicts a) = mset (check_write_conflicts b)"
    unfolding check_write_conflicts_def by (rule hm.iteration_order [OF r])
  show "mset (check_phantom a t) = mset (check_phantom b t)"
    unfolding check_phantom_def by (rule hm.iteration_order [OF r])
  show "check_snapshot_read a key r = check_snapshot_read b key r"
  proof -
    have "dirty_version a r = dirty_version b r" using s by (simp add: dirty_version_def fun_eq_iff)
    then show ?thesis
      using r(3) by (cases "hm_get (mc_versions b) key") (simp_all add: check_snapshot_read_def)
  qed
qed

text \<open>Transaction numbers are fresh as long as the counter does not wrap.\<close>

definition mvcc_ids_inv :: "mvcc_checker \<Rightarrow> bool" where
  "mvcc_ids_inv mc \<longleftrightarrow> distinct (mc_active_snapshots mc) \<and>
     (\<forall>id \<in> set (mc_active_snapshots mc). id < mc_next_txn_id mc)"

lemma begin_txn_fresh:
  assumes "mvcc_ids_inv mc" and "mc_next_txn_id mc < - 1"
  shows "fst (begin_txn mc) \<notin> set (mc_active_snapshots mc) \<and> mvcc_ids_inv (snd (begin_txn mc))"
proof -
  have "mc_next_txn_id mc < mc_next_txn_id mc + 1"
  proof -
    have "1 + mc_next_txn_id mc \<noteq> 0" using assms(2) by (auto simp: add_eq_0_iff)
    from unatSuc [OF this] show ?thesis by (simp add: word_less_nat_alt add.commute)
  qed
  then show ?thesis
    using assms(1) by (auto simp: mvcc_ids_inv_def begin_txn_def Let_def)
qed

text \<open>
  A conflict is counted per key, not per pair of transactions: two writes of one transaction to
  the same key are reported as a write-write conflict.
\<close>

lemma own_writes_conflict:
  "map te_code (check_write_conflicts (write_version ''k'' 1 (write_version ''k'' 1 (snd (begin_txn mvcc_new))))) =
   [''A35001'']"
  by (simp add: check_write_conflicts_def write_conflict_def write_version_def begin_txn_def mvcc_new_def
      hm_defs Let_def)

section \<open>Transactional rollback\<close>

record rollback_checker =
  rb_savepoints :: "string list"
  rb_resources :: "string list"
  rb_rolled_back :: bool

definition rollback_new :: rollback_checker where
  "rollback_new = \<lparr>rb_savepoints = [], rb_resources = [], rb_rolled_back = False\<rparr>"

definition create_savepoint :: "string \<Rightarrow> rollback_checker \<Rightarrow> rollback_checker" where
  "create_savepoint name rb = rb\<lparr>rb_savepoints := rb_savepoints rb @ [name]\<rparr>"

definition acquire_resource :: "string \<Rightarrow> rollback_checker \<Rightarrow> rollback_checker" where
  "acquire_resource name rb = rb\<lparr>rb_resources := rb_resources rb @ [name]\<rparr>"

definition release_resource :: "string \<Rightarrow> rollback_checker \<Rightarrow> rollback_checker" where
  "release_resource name rb = rb\<lparr>rb_resources := filter (\<lambda>r. r \<noteq> name) (rb_resources rb)\<rparr>"

definition rollback_to :: "string \<Rightarrow> rollback_checker \<Rightarrow> rollback_checker \<times> type_error option" where
  "rollback_to savepoint rb =
     (if savepoint \<notin> set (rb_savepoints rb)
      then (rb, Some (type_error_at ''A36001'' (''rollback to unknown savepoint '' @ quoted savepoint) (0, 1)))
      else (rb\<lparr>rb_rolled_back := True,
               rb_savepoints := (case find_index (\<lambda>s. s = savepoint) (rb_savepoints rb) of
                  Some pos \<Rightarrow> take (pos + 1) (rb_savepoints rb) | None \<Rightarrow> rb_savepoints rb)\<rparr>, None))"

definition check_resource_leak :: "rollback_checker \<Rightarrow> type_error list" where
  "check_resource_leak rb =
     (if rb_rolled_back rb
      then map (\<lambda>r. type_error_at ''A36002'' (''resource '' @ quoted r @ '' not released after rollback'') (0, 1))
             (rb_resources rb)
      else [])"

fun nesting_errors :: "string set \<Rightarrow> string list \<Rightarrow> type_error list" where
  "nesting_errors seen [] = []"
| "nesting_errors seen (sp # sps) =
     (if sp \<in> seen
      then type_error_at ''A36003'' (''duplicate savepoint name '' @ quoted sp) (0, 1) # nesting_errors seen sps
      else nesting_errors (insert sp seen) sps)"

definition check_savepoint_nesting :: "rollback_checker \<Rightarrow> type_error list" where
  "check_savepoint_nesting rb = nesting_errors {} (rb_savepoints rb)"

text \<open>The call at a node, and then the children, in the order of the code.\<close>

type_synonym rollback_state = "rollback_checker \<times> type_error list"

definition rollback_call :: "sp_expr \<Rightarrow> rollback_state \<Rightarrow> rollback_state" where
  "rollback_call e = (\<lambda>(rb, errs).
     case extract_call e of None \<Rightarrow> (rb, errs)
     | Some (name, args) \<Rightarrow>
         if name \<in> {''savepoint'', ''create_savepoint''} then
           (create_savepoint (first_ident_arg args ''default'') rb, errs)
         else if name \<in> {''acquire'', ''acquire_resource'', ''lock''} then
           (acquire_resource (first_ident_arg args ''resource'') rb, errs)
         else if name \<in> {''release'', ''release_resource'', ''unlock''} then
           (release_resource (first_ident_arg args ''resource'') rb, errs)
         else if name \<in> {''rollback'', ''rollback_to''} then
           (case rollback_to (first_ident_arg args ''default'') rb of
              (rb', Some e) \<Rightarrow> (rb', errs @ [e]) | (rb', None) \<Rightarrow> (rb', errs))
         else (rb, errs))"

fun rollback_scan_expr :: "sp_expr \<Rightarrow> rollback_state \<Rightarrow> rollback_state" where
  "rollback_scan_expr (Spanned (Ident name) s) st = (create_savepoint name (fst st), snd st)"
| "rollback_scan_expr (Spanned (BlockE es) s) st = fold rollback_scan_expr es st"
| "rollback_scan_expr (Spanned (ListE es) s) st = fold rollback_scan_expr es st"
| "rollback_scan_expr (Spanned (BinOp l op r) s) st = rollback_scan_expr r (rollback_scan_expr l st)"
| "rollback_scan_expr (Spanned (Call f args) s) st =
     fold rollback_scan_expr args (rollback_scan_expr f (rollback_call (Spanned (Call f args) s) st))"
| "rollback_scan_expr e st = st"

definition rollback_step :: "span \<Rightarrow> clause \<Rightarrow> rollback_state \<times> bool \<Rightarrow> rollback_state \<times> bool" where
  "rollback_step span c st =
     (let st1 = (if other_kind_in [''rollback'', ''savepoint'', ''transactional''] (cl_kind c)
                 then (rollback_scan_expr (cl_body c) (fst st), True) else st)
      in if snd st1 \<and> cl_kind c \<in> {Requires, Ensures}
         then (rollback_scan_expr (cl_body c) (fst st1), snd st1) else st1)"

definition rollback_check_source :: "source_file \<Rightarrow> type_error list" where
  "rollback_check_source src =
     (let ((rb, errs), found) =
        scan_decls clauses_contract_fn_block rollback_step (sf_decls src) ((rollback_new, []), False)
      in if \<not> found then [] else errs @ check_resource_leak rb @ check_savepoint_nesting rb)"

subsection \<open>Savepoints as a stack\<close>

lemma nesting_errors_none: "nesting_errors seen sps = [] \<longleftrightarrow> distinct sps \<and> set sps \<inter> seen = {}"
  by (induction seen sps rule: nesting_errors.induct) auto

lemma take_find_index:
  "find_index (\<lambda>s. s = x) xs = Some i \<Longrightarrow> take (i + 1) xs = takeWhile (\<lambda>s. s \<noteq> x) xs @ [x]"
  by (induction xs arbitrary: i) (auto split: if_splits)

text \<open>rolling back to a known savepoint keeps exactly the savepoints created before its first
  occurrence and that savepoint itself, holds on to all resources, and marks the checker; rolling
  back to an unknown one changes nothing and reports \<open>A36001\<close>.\<close>

theorem rollback_to_truncates:
  "rollback_to sp rb =
     (if sp \<in> set (rb_savepoints rb)
      then (rb\<lparr>rb_savepoints := takeWhile (\<lambda>s. s \<noteq> sp) (rb_savepoints rb) @ [sp], rb_rolled_back := True\<rparr>, None)
      else (rb, Some (type_error_at ''A36001'' (''rollback to unknown savepoint '' @ quoted sp) (0, 1))))"
proof (cases "sp \<in> set (rb_savepoints rb)")
  case True
  then have "find_index (\<lambda>s. s = sp) (rb_savepoints rb) \<noteq> None"
    by (simp only: find_index_None) blast
  then obtain i where i: "find_index (\<lambda>s. s = sp) (rb_savepoints rb) = Some i" by blast
  from take_find_index [OF i] True i show ?thesis by (cases rb) (simp add: rollback_to_def)
qed (simp add: rollback_to_def)

text \<open>
  The scan also treats every bare identifier as a savepoint, the function name and the arguments
  of a call included.  So creating one savepoint is reported as a duplicate of itself, and taking
  two locks as the duplicate savepoint \<open>acquire\<close>.
\<close>

lemma single_savepoint_reported:
  "map te_code (rollback_check_source (one_contract [other_clause ''transactional''
     (no_span (Call (no_span (Ident ''savepoint'')) [no_span (Ident ''sp1'')]))])) = [''A36003'']"
  by (simp add: rollback_check_source_def one_contract_def other_clause_def no_span_def scan_clauses_def
      rollback_step_def rollback_call_def create_savepoint_def rollback_new_def first_ident_arg_def
      list_get_def check_resource_leak_def check_savepoint_nesting_def)

end
