(* ===== verification/Durability.thy ===== *)
theory Durability
  imports Checker_Base
begin

text \<open>
  Three storage checkers of \<open>crates/assura-types/src/domain/storage\<close>: the write-ahead log
  discipline (\<open>crash_recovery.rs\<close>), monotonic variables (\<open>monotonic_state.rs\<close>) and the handling
  of failure modes (\<open>storage_failure.rs\<close>).
\<close>

section \<open>Crash recovery\<close>

record wal_entry =
  we_id :: string
  we_data_written :: bool
  we_wal_written :: bool
  we_fsynced :: bool

record crash_checker =
  wc_wal_entries :: "wal_entry list"
  wc_committed :: "string list"
  wc_fsynced :: "string list"

definition crash_new :: crash_checker where
  "crash_new = \<lparr>wc_wal_entries = [], wc_committed = [], wc_fsynced = []\<rparr>"

text \<open>\<open>if let Some(e) = entries.iter_mut().find(|e| e.id == id) { f(e) }\<close>.\<close>

fun update_entry :: "string \<Rightarrow> (wal_entry \<Rightarrow> wal_entry) \<Rightarrow> wal_entry list \<Rightarrow> wal_entry list" where
  "update_entry wid f [] = []"
| "update_entry wid f (e # es) = (if we_id e = wid then f e # es else e # update_entry wid f es)"

definition begin_write :: "string \<Rightarrow> crash_checker \<Rightarrow> crash_checker" where
  "begin_write wid cc = cc\<lparr>wc_wal_entries := wc_wal_entries cc @
     [\<lparr>we_id = wid, we_data_written = False, we_wal_written = False, we_fsynced = False\<rparr>]\<rparr>"

definition write_wal :: "string \<Rightarrow> crash_checker \<Rightarrow> crash_checker" where
  "write_wal wid cc = cc\<lparr>wc_wal_entries :=
     update_entry wid (\<lambda>e. e\<lparr>we_wal_written := True\<rparr>) (wc_wal_entries cc)\<rparr>"

definition write_data :: "string \<Rightarrow> crash_checker \<Rightarrow> crash_checker" where
  "write_data wid cc = cc\<lparr>wc_wal_entries :=
     update_entry wid (\<lambda>e. e\<lparr>we_data_written := True\<rparr>) (wc_wal_entries cc)\<rparr>"

definition fsync :: "string \<Rightarrow> crash_checker \<Rightarrow> crash_checker" where
  "fsync wid cc = cc\<lparr>wc_wal_entries :=
     update_entry wid (\<lambda>e. e\<lparr>we_fsynced := True\<rparr>) (wc_wal_entries cc), wc_fsynced := wc_fsynced cc @ [wid]\<rparr>"

definition commit_write :: "string \<Rightarrow> crash_checker \<Rightarrow> crash_checker" where
  "commit_write wid cc = cc\<lparr>wc_committed := wc_committed cc @ [wid]\<rparr>"

definition check_write_ahead :: "crash_checker \<Rightarrow> type_error list" where
  "check_write_ahead cc = map (\<lambda>e. type_error_at ''A33001''
       (''data write for '' @ quoted (we_id e) @ '' without preceding WAL entry'') (0, 1))
     (filter (\<lambda>e. we_data_written e \<and> \<not> we_wal_written e) (wc_wal_entries cc))"

definition check_commit_durability :: "crash_checker \<Rightarrow> type_error list" where
  "check_commit_durability cc = map (\<lambda>wid. type_error_at ''A33002''
       (''commit for '' @ quoted wid @ '' without fsync'') (0, 1))
     (filter (\<lambda>wid. wid \<notin> set (wc_fsynced cc)) (wc_committed cc))"

definition check_ordering :: "crash_checker \<Rightarrow> type_error list" where
  "check_ordering cc = map (\<lambda>e. type_error_at ''A33003''
       (''fsync for '' @ quoted (we_id e) @ '' before data write'') (0, 1))
     (filter (\<lambda>e. we_fsynced e \<and> \<not> we_data_written e) (wc_wal_entries cc))"

definition crash_check_all :: "crash_checker \<Rightarrow> type_error list" where
  "crash_check_all cc = check_write_ahead cc @ check_commit_durability cc @ check_ordering cc"

definition crash_clause :: "string list \<Rightarrow> (string \<Rightarrow> crash_checker \<Rightarrow> crash_checker) \<Rightarrow> clause \<Rightarrow>
    crash_checker \<Rightarrow> crash_checker" where
  "crash_clause ks f c cc =
     (if other_kind_in ks (cl_kind c)
      then (case extract_ident (cl_body c) of Some wid \<Rightarrow> f wid cc | None \<Rightarrow> cc) else cc)"

definition crash_step :: "span \<Rightarrow> clause \<Rightarrow> crash_checker \<times> bool \<Rightarrow> crash_checker \<times> bool" where
  "crash_step span c = (\<lambda>(cc, found).
     let wal_kinds = [''wal'', ''crash_recovery'', ''write_ahead''];
         cc1 = crash_clause wal_kinds begin_write c cc;
         cc2 = crash_clause [''write_data'', ''data_write''] write_data c cc1;
         cc3 = crash_clause [''write_wal'', ''wal_write''] write_wal c cc2;
         cc4 = crash_clause [''fsync'', ''flush''] fsync c cc3;
         cc5 = crash_clause [''commit''] commit_write c cc4
     in (cc5, found \<or> other_kind_in wal_kinds (cl_kind c)))"

definition crash_check_source :: "source_file \<Rightarrow> type_error list" where
  "crash_check_source src =
     (let (cc, found) = scan_decls clauses_contract_fn_block crash_step (sf_decls src) (crash_new, False)
      in if \<not> found then [] else crash_check_all cc)"

subsection \<open>What the flags record\<close>

datatype wal_event = WriteWal string | WriteData string | Fsync string | Commit string

fun wal_event_step :: "wal_event \<Rightarrow> crash_checker \<Rightarrow> crash_checker" where
  "wal_event_step (WriteWal wid) = write_wal wid"
| "wal_event_step (WriteData wid) = write_data wid"
| "wal_event_step (Fsync wid) = fsync wid"
| "wal_event_step (Commit wid) = commit_write wid"

definition crash_run :: "string list \<Rightarrow> wal_event list \<Rightarrow> crash_checker" where
  "crash_run ids evs = fold wal_event_step evs (fold begin_write ids crash_new)"

definition entry_after :: "wal_event list \<Rightarrow> string \<Rightarrow> wal_entry" where
  "entry_after evs wid = \<lparr>we_id = wid, we_data_written = WriteData wid \<in> set evs,
     we_wal_written = WriteWal wid \<in> set evs, we_fsynced = Fsync wid \<in> set evs\<rparr>"

lemma update_entry_map:
  "distinct ids \<Longrightarrow> (\<And>wid. we_id (g wid) = wid) \<Longrightarrow>
   update_entry x f (map g ids) = map (\<lambda>wid. if wid = x then f (g wid) else g wid) ids"
  by (induction ids) (auto intro!: map_cong)

lemma begin_writes:
  "fold begin_write ids cc =
   cc\<lparr>wc_wal_entries := wc_wal_entries cc @ map (entry_after []) ids\<rparr>"
  by (induction ids arbitrary: cc) (simp_all add: begin_write_def entry_after_def)

lemma crash_run_state:
  assumes "distinct ids"
  shows "crash_run ids evs =
    \<lparr>wc_wal_entries = map (entry_after evs) ids,
     wc_committed = List.map_filter (\<lambda>e. case e of Commit wid \<Rightarrow> Some wid | _ \<Rightarrow> None) evs,
     wc_fsynced = List.map_filter (\<lambda>e. case e of Fsync wid \<Rightarrow> Some wid | _ \<Rightarrow> None) evs\<rparr>"
proof (induction evs rule: rev_induct)
  case Nil
  then show ?case by (simp add: crash_run_def begin_writes crash_new_def)
next
  case (snoc e evs)
  have step: "crash_run ids (evs @ [e]) = wal_event_step e (crash_run ids evs)"
    by (simp add: crash_run_def)
  have wid: "we_id (entry_after evs i) = i" for i by (simp add: entry_after_def)
  show ?case
    unfolding step snoc
    by (cases e)
      (auto simp: write_wal_def write_data_def fsync_def commit_write_def update_entry_map [OF assms wid]
        map_filter_def entry_after_def)
qed

text \<open>What the three rules of the crash recovery check look at, for writes that were begun before any
  event: whether a write with data has a log record, a synced write has data, and a committed write was
  synced.  The order of the events does not enter, although the catalog speaks of a preceding record and
  of data before the sync.\<close>

lemma crash_check_iff:
  assumes "distinct ids"
  shows "crash_check_all (crash_run ids evs) = [] \<longleftrightarrow>
    (\<forall>wid \<in> set ids. (WriteData wid \<in> set evs \<longrightarrow> WriteWal wid \<in> set evs) \<and>
                    (Fsync wid \<in> set evs \<longrightarrow> WriteData wid \<in> set evs)) \<and>
    (\<forall>wid. Commit wid \<in> set evs \<longrightarrow> Fsync wid \<in> set evs)"
proof -
  have "wid \<in> set (List.map_filter (\<lambda>e. case e of Commit wid \<Rightarrow> Some wid | _ \<Rightarrow> None) evs) \<longleftrightarrow> Commit wid \<in> set evs"
    "wid \<in> set (List.map_filter (\<lambda>e. case e of Fsync wid \<Rightarrow> Some wid | _ \<Rightarrow> None) evs) \<longleftrightarrow> Fsync wid \<in> set evs" for wid
    by (force simp: map_filter_def split: wal_event.splits)+
  then show ?thesis
    by (auto simp: crash_check_all_def check_write_ahead_def check_commit_durability_def check_ordering_def
        crash_run_state [OF assms] filter_empty_conv entry_after_def)
qed

lemma crash_check_iff_witness:
  "crash_check_all (crash_run [''a''] [WriteWal ''a'', WriteData ''a'', Fsync ''a'', Commit ''a'']) = []"
  using crash_check_iff [of "[''a'']"] by simp

text \<open>
  The order of the events is not recorded: data written before its log record, and a sync before
  the data, pass the check although its messages speak of a preceding record and of a sync before
  the write.
\<close>

lemma write_before_log_accepted:
  "crash_check_all (crash_run [''a''] [Commit ''a'', Fsync ''a'', WriteData ''a'', WriteWal ''a'']) = []"
  by (simp add: crash_run_def crash_new_def begin_write_def write_wal_def write_data_def fsync_def
      commit_write_def crash_check_all_def check_write_ahead_def check_commit_durability_def
      check_ordering_def)

text \<open>Data of a write that was never begun passes without a log record.\<close>

lemma unbegun_write_accepted: "crash_check_all (crash_run [] [WriteData ''a'']) = []"
  by (simp add: crash_run_def crash_new_def write_data_def crash_check_all_def check_write_ahead_def
      check_commit_durability_def check_ordering_def)

section \<open>Monotonic variables\<close>

datatype monotonic_direction = Increasing | StrictlyIncreasing | Decreasing

record monotonic_info =
  mo_current_value :: int
  mo_direction :: monotonic_direction
  mo_span :: span

type_synonym monotonic_checker = "(string, monotonic_info) hmap"

definition monotonic_declare ::
  "string \<Rightarrow> monotonic_direction \<Rightarrow> int \<Rightarrow> span \<Rightarrow> monotonic_checker \<Rightarrow> monotonic_checker" where
  "monotonic_declare name direction initial span m =
     hm_insert name \<lparr>mo_current_value = initial, mo_direction = direction, mo_span = span\<rparr> m"

fun violates :: "monotonic_direction \<Rightarrow> int \<Rightarrow> int \<Rightarrow> bool" where
  "violates Increasing old new \<longleftrightarrow> new < old"
| "violates StrictlyIncreasing old new \<longleftrightarrow> new \<le> old"
| "violates Decreasing old new \<longleftrightarrow> new > old"

definition monotonic_update ::
  "string \<Rightarrow> int \<Rightarrow> monotonic_checker \<Rightarrow> monotonic_checker \<times> type_error option" where
  "monotonic_update name new_value m =
     (case hm_get m name of None \<Rightarrow> (m, None)
      | Some info \<Rightarrow>
          if violates (mo_direction info) (mo_current_value info) new_value
          then (m, Some (type_error_at ''A37001'' (''monotonicity violation: '' @ quoted name @
                  '' changed from '' @ dec_int (mo_current_value info) @ '' to '' @ dec_int new_value)
                  (mo_span info)))
          else (hm_modify name (\<lambda>i. i\<lparr>mo_current_value := new_value\<rparr>) m, None))"

definition check_reset :: "monotonic_checker \<Rightarrow> string \<Rightarrow> type_error option" where
  "check_reset m name = (if hm_contains_key m name
     then Some (type_error_at ''A37002'' (''illegal reset of monotonic variable '' @ quoted name) (0, 1))
     else None)"

definition check_access :: "monotonic_checker \<Rightarrow> string \<Rightarrow> type_error option" where
  "check_access m name = (if \<not> hm_contains_key m name
     then Some (type_error_at ''A37003'' (''access to undeclared monotonic variable '' @ quoted name) (0, 1))
     else None)"

definition monotonic_current_value :: "monotonic_checker \<Rightarrow> string \<Rightarrow> int option" where
  "monotonic_current_value m name = map_option mo_current_value (hm_get m name)"

definition direction_of :: "string option \<Rightarrow> monotonic_direction" where
  "direction_of d = (case d of None \<Rightarrow> Increasing
     | Some s \<Rightarrow> if s = ''strictly_increasing'' then StrictlyIncreasing
                 else if s = ''decreasing'' then Decreasing else Increasing)"

definition monotonic_declaration :: "span \<Rightarrow> sp_expr \<Rightarrow> monotonic_checker \<Rightarrow> monotonic_checker" where
  "monotonic_declaration span body m =
     (case node body of
        Call f args \<Rightarrow> (case extract_ident f of
            Some name \<Rightarrow> monotonic_declare name (direction_of (ident_arg args 0))
                           (int_arg args 1 default_param_zero) span m
          | None \<Rightarrow> m)
      | Ident name \<Rightarrow> monotonic_declare name Increasing 0 span m
      | _ \<Rightarrow> m)"

text \<open>\<open>return vec![err]\<close> ends the scan: the state is \<open>Inl\<close> of the result from then on.\<close>

type_synonym monotonic_state = "type_error list + monotonic_checker \<times> bool"

definition monotonic_assign :: "clause \<Rightarrow> monotonic_checker \<Rightarrow> monotonic_checker \<times> type_error option" where
  "monotonic_assign c m =
     (case extract_call (cl_body c) of None \<Rightarrow> (m, None)
      | Some (name, args) \<Rightarrow>
          (case Option.bind (list_get args 0) extract_int_literal of None \<Rightarrow> (m, None)
           | Some val \<Rightarrow> monotonic_update name val m))"

definition monotonic_step :: "span \<Rightarrow> clause \<Rightarrow> monotonic_state \<Rightarrow> monotonic_state" where
  "monotonic_step span c st =
     (case st of Inl errs \<Rightarrow> Inl errs
      | Inr (m, found) \<Rightarrow>
          let decl = other_kind_in [''monotonic'', ''monotone'', ''increasing''] (cl_kind c);
              m1 = (if decl then monotonic_declaration span (cl_body c) m else m)
          in case (if other_kind_in [''update'', ''assign'', ''set''] (cl_kind c)
                   then monotonic_assign c m1 else (m1, None)) of
               (m2, Some err) \<Rightarrow> Inl [err]
             | (m2, None) \<Rightarrow>
                 (case (if other_kind_in [''reset''] (cl_kind c)
                        then Option.bind (extract_ident (cl_body c)) (check_reset m2) else None) of
                    Some err \<Rightarrow> Inl [err]
                  | None \<Rightarrow> Inr (m2, found \<or> decl)))"

definition access_error :: "monotonic_checker \<Rightarrow> string \<Rightarrow> type_error option" where
  "access_error m name =
     map_option (\<lambda>err. case monotonic_current_value m name of
         Some val \<Rightarrow> err\<lparr>te_message := te_message err @ '' (current value: '' @ dec_int val @ '')''\<rparr>
       | None \<Rightarrow> err)
     (check_access m name)"

definition access_errors :: "monotonic_checker \<Rightarrow> spanned_decl \<Rightarrow> type_error list" where
  "access_errors m d =
     (case clauses_contract_fn (sd_node d) of None \<Rightarrow> []
      | Some cs \<Rightarrow> concat (map (\<lambda>c. List.map_filter (access_error m) (collect_ident_references (cl_body c)))
            (filter (\<lambda>c. cl_kind c = Ensures) cs)))"

definition monotonic_check_source :: "source_file \<Rightarrow> type_error list" where
  "monotonic_check_source src =
     (case scan_decls clauses_contract_fn monotonic_step (sf_decls src) (Inr (hm_empty, False)) of
        Inl errs \<Rightarrow> errs
      | Inr (m, found) \<Rightarrow> if \<not> found then [] else concat (map (access_errors m) (sf_decls src)))"

subsection \<open>Accepted updates are monotone\<close>

fun follows :: "monotonic_direction \<Rightarrow> int \<Rightarrow> int \<Rightarrow> bool" where
  "follows Increasing a b \<longleftrightarrow> a \<le> b"
| "follows StrictlyIncreasing a b \<longleftrightarrow> a < b"
| "follows Decreasing a b \<longleftrightarrow> a \<ge> b"

fun run_updates :: "string \<Rightarrow> int list \<Rightarrow> monotonic_checker \<Rightarrow> monotonic_checker \<times> type_error list" where
  "run_updates name [] m = (m, [])"
| "run_updates name (v # vs) m =
     (case monotonic_update name v m of
        (m', None) \<Rightarrow> run_updates name vs m'
      | (m', Some e) \<Rightarrow> (case run_updates name vs m' of (m'', es) \<Rightarrow> (m'', e # es)))"

lemma follows_trans: "follows d a b \<Longrightarrow> follows d b c \<Longrightarrow> follows d a c"
  by (cases d) auto

lemma violates_follows: "violates d a b \<longleftrightarrow> \<not> follows d a b"
  by (cases d) auto

text \<open>C27: a sequence of updates of a declared variable is accepted without an error exactly when it
  is monotone in the declared direction, starting from the initial value.\<close>

theorem accepted_updates_monotone:
  "snd (run_updates x vs (monotonic_declare x d v0 sp m)) = [] \<longleftrightarrow> sorted_wrt (follows d) (v0 # vs)"
proof -
  have "snd (run_updates x vs m) = [] \<longleftrightarrow> sorted_wrt (follows (mo_direction i)) (mo_current_value i # vs)"
    if "hm_get m x = Some i" for m i
    using that
  proof (induction vs arbitrary: m i)
    case (Cons v vs)
    have "sorted_wrt (follows (mo_direction i)) (mo_current_value i # v # vs) \<longleftrightarrow>
        follows (mo_direction i) (mo_current_value i) v \<and> sorted_wrt (follows (mo_direction i)) (v # vs)"
      by (auto intro: follows_trans)
    moreover have "hm_get (hm_modify x (\<lambda>i. i\<lparr>mo_current_value := v\<rparr>) m) x = Some (i\<lparr>mo_current_value := v\<rparr>)"
      using Cons.prems by (simp add: hm.get_modify)
    ultimately show ?case
      using Cons.IH [of "hm_modify x (\<lambda>i. i\<lparr>mo_current_value := v\<rparr>) m"] Cons.prems
      by (simp add: monotonic_update_def violates_follows split: prod.split)
  qed simp
  from this [of "monotonic_declare x d v0 sp m"] show ?thesis
    by (simp add: monotonic_declare_def hm.get_insert)
qed

text \<open>
  The second pass reports every identifier of an \<open>ensures\<close> clause that is not monotonic, once some
  variable is: the current value it would append is never there.
\<close>

lemma access_error_has_no_value: "check_access m name = Some e \<Longrightarrow> access_error m name = Some e"
  by (auto simp: access_error_def check_access_def monotonic_current_value_def hm_contains_key_def
      split: if_splits)

lemma ordinary_variable_reported:
  "map te_code (monotonic_check_source (one_contract [other_clause ''monotonic'' (no_span (Ident ''x'')),
     \<lparr>cl_kind = Ensures, cl_body = no_span (Ident ''y''), cl_effect_variables = []\<rparr>])) = [''A37003'']"
  by (simp add: monotonic_check_source_def one_contract_def other_clause_def no_span_def scan_clauses_def
      monotonic_step_def monotonic_declaration_def monotonic_declare_def access_errors_def access_error_def
      check_access_def monotonic_current_value_def collect_ident_references_def map_filter_def hm_defs)

section \<open>Failure modes\<close>

datatype failure_mode = PartialWrite | TornPage | BitRot | DiskFull | IoTimeout

fun failure_mode_name :: "failure_mode \<Rightarrow> string" where
  "failure_mode_name PartialWrite = ''partial_write''"
| "failure_mode_name TornPage = ''torn_page''"
| "failure_mode_name BitRot = ''bit_rot''"
| "failure_mode_name DiskFull = ''disk_full''"
| "failure_mode_name IoTimeout = ''io_timeout''"

record failure_checker =
  sf_failure_modes :: "failure_mode list"
  sf_handled_modes :: "string list"

definition failure_new :: failure_checker where
  "failure_new = \<lparr>sf_failure_modes = [], sf_handled_modes = []\<rparr>"

definition declare_failure_mode :: "failure_mode \<Rightarrow> failure_checker \<Rightarrow> failure_checker" where
  "declare_failure_mode mode fc = fc\<lparr>sf_failure_modes := sf_failure_modes fc @ [mode]\<rparr>"

definition mark_handled :: "string \<Rightarrow> failure_checker \<Rightarrow> failure_checker" where
  "mark_handled name fc =
     (if name \<notin> set (sf_handled_modes fc)
      then fc\<lparr>sf_handled_modes := sf_handled_modes fc @ [name]\<rparr> else fc)"

definition check_unhandled :: "failure_checker \<Rightarrow> type_error list" where
  "check_unhandled fc = map (\<lambda>m. type_error_at ''A38001''
       (''storage failure mode '' @ quoted (failure_mode_name m) @ '' has no handler'') (0, 1))
     (filter (\<lambda>m. failure_mode_name m \<notin> set (sf_handled_modes fc)) (sf_failure_modes fc))"

definition check_spurious_handlers :: "failure_checker \<Rightarrow> type_error list" where
  "check_spurious_handlers fc = map (\<lambda>h. type_error_at ''A38002''
       (''handler for undeclared failure mode '' @ quoted h) (0, 1))
     (filter (\<lambda>h. h \<notin> set (map failure_mode_name (sf_failure_modes fc))) (sf_handled_modes fc))"

definition check_critical_coverage :: "failure_checker \<Rightarrow> type_error list" where
  "check_critical_coverage fc = map (\<lambda>m. type_error_at ''A38003''
       (''critical failure mode '' @ quoted (failure_mode_name m) @ '' must have a handler'') (0, 1))
     (filter (\<lambda>m. m \<in> set (sf_failure_modes fc) \<and> failure_mode_name m \<notin> set (sf_handled_modes fc))
       [PartialWrite, TornPage])"

definition failure_mode_of :: "string \<Rightarrow> failure_mode option" where
  "failure_mode_of name =
     (if name = ''partial_write'' then Some PartialWrite
      else if name = ''torn_page'' then Some TornPage
      else if name = ''bit_rot'' then Some BitRot
      else if name = ''disk_full'' then Some DiskFull
      else if name = ''io_timeout'' then Some IoTimeout else None)"

text \<open>The \<open>continue\<close> on an unknown mode skips the rest of the clause, which another keyword guards.\<close>

definition failure_step :: "span \<Rightarrow> clause \<Rightarrow> failure_checker \<times> bool \<Rightarrow> failure_checker \<times> bool" where
  "failure_step span c = (\<lambda>(fc, found).
     if other_kind_in [''failure_mode'', ''storage_failure''] (cl_kind c)
     then (case Option.bind (extract_ident (cl_body c)) failure_mode_of of
             Some mode \<Rightarrow> declare_failure_mode mode fc | None \<Rightarrow> fc, True)
     else if other_kind_in [''handles'', ''handles_failure''] (cl_kind c)
     then (case extract_ident (cl_body c) of Some name \<Rightarrow> mark_handled name fc | None \<Rightarrow> fc, found)
     else (fc, found))"

definition failure_check :: "failure_checker \<Rightarrow> type_error list" where
  "failure_check fc = check_unhandled fc @ check_critical_coverage fc @ check_spurious_handlers fc"

definition failure_check_source :: "source_file \<Rightarrow> type_error list" where
  "failure_check_source src =
     (let (fc, found) = scan_decls clauses_contract_fn_block failure_step (sf_decls src) (failure_new, False)
      in if \<not> found then [] else failure_check fc)"

lemma failure_mode_of_name [simp]: "failure_mode_of (failure_mode_name m) = Some m"
  by (cases m) (simp_all add: failure_mode_of_def)

lemma failure_mode_name_of: "failure_mode_of s = Some m \<Longrightarrow> failure_mode_name m = s"
  by (auto simp: failure_mode_of_def split: if_splits)

text \<open>Handlers are recorded once, also across a whole source file.\<close>

interpretation failure: clause_scanner clauses_contract_fn_block failure_step
  "\<lambda>st. distinct (sf_handled_modes (fst st))"
proof
  show "distinct (sf_handled_modes (fst (failure_step sp c st)))"
    if "distinct (sf_handled_modes (fst st))" for sp c st
    using that
    by (cases st) (auto simp: failure_step_def declare_failure_mode_def mark_handled_def split: option.split)
qed

lemma check_unhandled_nil:
  "check_unhandled fc = [] \<longleftrightarrow> failure_mode_name ` set (sf_failure_modes fc) \<subseteq> set (sf_handled_modes fc)"
  by (simp add: check_unhandled_def filter_empty_conv image_subset_iff)

lemma check_spurious_nil:
  "check_spurious_handlers fc = [] \<longleftrightarrow> set (sf_handled_modes fc) \<subseteq> failure_mode_name ` set (sf_failure_modes fc)"
  by (simp only: check_spurious_handlers_def map_is_Nil_conv filter_empty_conv set_map) blast

text \<open>A critical mode without a handler is also an unhandled mode.\<close>

lemma critical_le_unhandled: "length (check_critical_coverage fc) \<le> length (check_unhandled fc)"
proof -
  let ?P = "\<lambda>m. failure_mode_name m \<notin> set (sf_handled_modes fc)"
  let ?c = "filter (\<lambda>m. m \<in> set (sf_failure_modes fc) \<and> ?P m) [PartialWrite, TornPage]"
  have "distinct ?c"
    by (rule distinct_filter) simp
  then have "length ?c = card (set ?c)"
    by (rule distinct_card [symmetric])
  also have "\<dots> \<le> card (set (filter ?P (sf_failure_modes fc)))"
    by (rule card_mono) auto
  also have "\<dots> \<le> length (filter ?P (sf_failure_modes fc))"
    by (rule card_length)
  finally show ?thesis
    by (simp only: check_critical_coverage_def check_unhandled_def length_map)
qed

text \<open>The failure model check passes exactly when the handled modes are the declared ones; each
  error about a critical mode comes with an error about an unhandled one; and the scan of a source
  file never lists a handler twice.\<close>

theorem failure_check_iff:
  "(failure_check fc = [] \<longleftrightarrow> set (sf_handled_modes fc) = failure_mode_name ` set (sf_failure_modes fc)) \<and>
   length (check_critical_coverage fc) \<le> length (check_unhandled fc) \<and>
   distinct (sf_handled_modes (fst (scan_decls clauses_contract_fn_block failure_step ds (failure_new, False))))"
proof (intro conjI)
  have "check_critical_coverage fc = []" if "check_unhandled fc = []"
    using critical_le_unhandled [of fc] that by simp
  then show "failure_check fc = [] \<longleftrightarrow> set (sf_handled_modes fc) = failure_mode_name ` set (sf_failure_modes fc)"
    by (auto simp only: failure_check_def append_is_Nil_conv check_unhandled_nil check_spurious_nil)
  show "length (check_critical_coverage fc) \<le> length (check_unhandled fc)"
    by (rule critical_le_unhandled)
  show "distinct (sf_handled_modes (fst (scan_decls clauses_contract_fn_block failure_step ds (failure_new, False))))"
    by (rule failure.scan_inv) (simp add: failure_new_def)
qed

end
