(* ===== verification/Locks.thy ===== *)
theory Locks
  imports Checker_Base
begin

text \<open>
  Concurrency contracts: lock ordering (\<open>LockOrderChecker\<close> of
  \<open>checkers/security/lock_order.rs\<close>), shared memory protocols (\<open>SharedMemChecker\<close> of
  \<open>checkers/security/shared_mem.rs\<close>) and their source-level checks with that of weak memory
  orderings (\<open>domain/memory.rs\<close>).  The lock order is shown to exclude deadlocks.
\<close>

section \<open>The lock order\<close>

text \<open>The locks held are listed in the order of their acquisition.\<close>

record lock_checker =
  lk_order :: "(string, u32) hmap"
  lk_held :: "(string \<times> u32) list"

definition lock_checker_new :: lock_checker where
  "lock_checker_new = \<lparr>lk_order = hm_empty, lk_held = []\<rparr>"

definition define_order :: "string \<Rightarrow> u32 \<Rightarrow> lock_checker \<Rightarrow> lock_checker" where
  "define_order lock_name priority lc = lc\<lparr>lk_order := hm_insert lock_name priority (lk_order lc)\<rparr>"

text \<open>\<open>u32::MAX\<close> is the priority of a lock outside the hierarchy.\<close>

definition lock_priority :: "lock_checker \<Rightarrow> string \<Rightarrow> u32" where
  "lock_priority lc lock_name = unwrap_or (hm_get (lk_order lc) lock_name) (- 1)"

definition acquire :: "string \<Rightarrow> span \<Rightarrow> lock_checker \<Rightarrow> lock_checker \<times> checker_error list" where
  "acquire lock_name span lc =
     (let priority = lock_priority lc lock_name in
      (lc\<lparr>lk_held := lk_held lc @ [(lock_name, priority)]\<rparr>,
       if lk_held lc \<noteq> [] \<and> priority \<le> snd (last (lk_held lc))
       then [\<lparr>ck_code = ''A21001'', ck_message = ''lock '' @ quoted lock_name @ '' (priority '' @
               dec (unat priority) @ '') acquired while holding '' @ quoted (fst (last (lk_held lc))) @
               '' (priority '' @ dec (unat (snd (last (lk_held lc)))) @ ''); violates lock ordering'',
               ck_span = span\<rparr>]
       else []))"

definition release :: "string \<Rightarrow> span \<Rightarrow> lock_checker \<Rightarrow> lock_checker \<times> checker_error list" where
  "release lock_name span lc =
     (lc\<lparr>lk_held := filter (\<lambda>(n, p). n \<noteq> lock_name) (lk_held lc)\<rparr>,
      if lk_held lc \<noteq> [] \<and> fst (last (lk_held lc)) \<noteq> lock_name
      then [\<lparr>ck_code = ''A21002'', ck_message = ''lock '' @ quoted lock_name @ '' released while '' @
              quoted (fst (last (lk_held lc))) @ '' is still held; release in reverse acquisition order'',
              ck_span = span\<rparr>]
      else [])"

definition check_ordering_defined :: "lock_checker \<Rightarrow> string \<Rightarrow> span \<Rightarrow> checker_error list" where
  "check_ordering_defined lc lock_name span =
     (if \<not> hm_contains_key (lk_order lc) lock_name
      then [\<lparr>ck_code = ''A21003'', ck_message = ''lock '' @ quoted lock_name @
              '' used without a defined ordering; add it to the lock hierarchy'', ck_span = span\<rparr>]
      else [])"

section \<open>The source-level check\<close>

text \<open>
  The priority of a lock of a \<open>lock_order\<close> block is its position among all entries; an inline
  \<open>lock_order\<close> clause counts the names of all such clauses of the declaration.
\<close>

fun define_block_order :: "nat \<Rightarrow> clause list \<Rightarrow> lock_checker \<Rightarrow> lock_checker" where
  "define_block_order i [] lc = lc"
| "define_block_order i (c # cs) lc =
     define_block_order (i + 1) cs
       (case node (cl_body c) of Ident lock_name \<Rightarrow> define_order lock_name (of_nat i) lc | _ \<Rightarrow> lc)"

definition inline_names :: "clause list \<Rightarrow> string list" where
  "inline_names cs = concat (map (\<lambda>c. collect_ident_references (cl_body c))
     (filter (\<lambda>c. other_kind_in [''lock_order''] (cl_kind c)) cs))"

fun define_inline_order :: "u32 \<Rightarrow> string list \<Rightarrow> lock_checker \<Rightarrow> lock_checker" where
  "define_inline_order p [] lc = lc"
| "define_inline_order p (n # ns) lc = define_inline_order (p + 1) ns (define_order n p lc)"

fun define_decl_order :: "decl \<Rightarrow> lock_checker \<Rightarrow> lock_checker" where
  "define_decl_order (Block BkLockOrder name value body) lc = define_block_order 0 body lc"
| "define_decl_order d lc =
     (case clauses_contract_fn d of None \<Rightarrow> lc | Some cs \<Rightarrow> define_inline_order 0 (inline_names cs) lc)"

datatype lock_event = AcquireLock string | ReleaseLock string

fun lock_event_step :: "span \<Rightarrow> lock_event \<Rightarrow> lock_checker \<Rightarrow> lock_checker \<times> checker_error list" where
  "lock_event_step span (AcquireLock n) lc =
     (let errors = check_ordering_defined lc n span; (lc', errors') = acquire n span lc
      in (lc', errors @ errors'))"
| "lock_event_step span (ReleaseLock n) lc = release n span lc"

fun run_locks :: "span \<Rightarrow> lock_event list \<Rightarrow> lock_checker \<Rightarrow> lock_checker \<times> checker_error list" where
  "run_locks span [] lc = (lc, [])"
| "run_locks span (ev # evs) lc =
     (let (lc1, es1) = lock_event_step span ev lc; (lc2, es2) = run_locks span evs lc1
      in (lc2, es1 @ es2))"

definition clause_events :: "clause \<Rightarrow> lock_event list" where
  "clause_events c =
     (if other_kind_in [''acquires'', ''acquire'', ''locks''] (cl_kind c)
      then map AcquireLock (collect_ident_references (cl_body c))
      else if other_kind_in [''releases'', ''unlocks''] (cl_kind c)
      then map ReleaseLock (collect_ident_references (cl_body c))
      else [])"

definition lock_step ::
  "span \<Rightarrow> clause \<Rightarrow> lock_checker \<times> checker_error list \<Rightarrow> lock_checker \<times> checker_error list" where
  "lock_step span c = (\<lambda>(lc, errors).
     let (lc', es) = run_locks span (clause_events c) lc in (lc', errors @ es))"

definition lock_order_check_source :: "source_file \<Rightarrow> type_error list" where
  "lock_order_check_source src =
     (let lc = fold (\<lambda>d. define_decl_order (sd_node d)) (sf_decls src) lock_checker_new
      in map type_error_of_checker_error
           (snd (scan_decls clauses_contract_fn lock_step (sf_decls src) (lc, []))))"

section \<open>Accepted sequences keep the held locks in the order of the hierarchy\<close>

definition held_ordered :: "lock_checker \<Rightarrow> bool" where
  "held_ordered lc \<longleftrightarrow> sorted_wrt (<) (map snd (lk_held lc)) \<and>
     (\<forall>(n, p) \<in> set (lk_held lc). p = lock_priority lc n)"

lemma held_ordered_new: "held_ordered (lock_checker_new\<lparr>lk_order := ord\<rparr>)"
  by (simp add: held_ordered_def lock_checker_new_def)

lemma lock_event_order [simp]: "lk_order (fst (lock_event_step sp ev lc)) = lk_order lc"
  by (cases ev) (simp_all add: acquire_def release_def Let_def)

lemma run_locks_order [simp]: "lk_order (fst (run_locks sp evs lc)) = lk_order lc"
proof (induction evs arbitrary: lc)
  case (Cons ev evs)
  then show ?case using lock_event_order [of sp ev lc] by (simp add: Let_def case_prod_unfold)
qed simp

lemma last_largest:
  fixes ps :: "u32 list"
  assumes "sorted_wrt (<) ps" and "ps \<noteq> []" and "p \<in> set ps" and "last ps < q"
  shows "p < q"
proof -
  have "p \<le> last ps"
    using assms(1-3) by (induction ps) (auto intro: less_imp_le)
  with assms(4) show ?thesis by simp
qed

text \<open>An accepted acquisition has a priority above that of every lock held.\<close>

lemma acquire_above:
  assumes "held_ordered lc" and "snd (acquire n sp lc) = []" and "(m, p) \<in> set (lk_held lc)"
  shows "p < lock_priority lc n"
proof -
  have held: "lk_held lc \<noteq> []" using assms(3) by auto
  have "\<not> (lk_held lc \<noteq> [] \<and> lock_priority lc n \<le> snd (last (lk_held lc)))"
  proof
    assume "lk_held lc \<noteq> [] \<and> lock_priority lc n \<le> snd (last (lk_held lc))"
    then have "snd (acquire n sp lc) \<noteq> []" unfolding acquire_def Let_def snd_conv by (subst if_P) simp_all
    with assms(2) show False by contradiction
  qed
  with held have below: "last (map snd (lk_held lc)) < lock_priority lc n" by (simp only: last_map not_le simp_thms)
  have "sorted_wrt (<) (map snd (lk_held lc))" using assms(1) by (simp only: held_ordered_def)
  moreover have "map snd (lk_held lc) \<noteq> []" using held by (simp only: map_is_Nil_conv not_False_eq_True)
  moreover have "p \<in> set (map snd (lk_held lc))" using assms(3) by force
  ultimately show ?thesis using below by (rule last_largest)
qed

lemma held_ordered_acquire:
  assumes "held_ordered lc" and "snd (acquire n sp lc) = []"
  shows "held_ordered (fst (acquire n sp lc))"
proof -
  have "\<forall>p \<in> set (map snd (lk_held lc)). p < lock_priority lc n"
    using acquire_above [OF assms] by auto
  moreover have "sorted_wrt (<) (map snd (lk_held lc))" "\<forall>(m, p) \<in> set (lk_held lc). p = lock_priority lc m"
    using assms(1) by (simp_all add: held_ordered_def)
  moreover have "lock_priority (fst (acquire n sp lc)) = lock_priority lc"
    by (simp add: fun_eq_iff lock_priority_def acquire_def Let_def)
  ultimately show ?thesis
    by (simp add: held_ordered_def acquire_def Let_def sorted_wrt_append)
qed

lemma held_ordered_release: "held_ordered lc \<Longrightarrow> held_ordered (fst (release n sp lc))"
proof -
  assume lc: "held_ordered lc"
  have "sorted_wrt (<) (map snd (filter P xs))" if "sorted_wrt (<) (map snd xs)"
    for P and xs :: "(string \<times> u32) list"
    using that by (induction xs) auto
  with lc show ?thesis by (auto simp: held_ordered_def release_def lock_priority_def)
qed

lemma lock_event_held_ordered:
  "held_ordered lc \<Longrightarrow> snd (lock_event_step sp ev lc) = [] \<Longrightarrow> held_ordered (fst (lock_event_step sp ev lc))"
  using held_ordered_acquire held_ordered_release
  by (cases ev) (auto simp: Let_def case_prod_unfold)

lemma run_locks_held_ordered:
  "held_ordered lc \<Longrightarrow> snd (run_locks sp evs lc) = [] \<Longrightarrow> held_ordered (fst (run_locks sp evs lc))"
proof (induction evs arbitrary: lc)
  case (Cons ev evs)
  from Cons.prems(2) have "snd (lock_event_step sp ev lc) = []"
    and "snd (run_locks sp evs (fst (lock_event_step sp ev lc))) = []"
    by (simp_all add: Let_def case_prod_unfold)
  with Cons show ?case
    by (simp add: Let_def case_prod_unfold lock_event_held_ordered)
qed simp

lemma run_locks_append:
  "run_locks sp (evs @ evs') lc =
   (let (lc1, es1) = run_locks sp evs lc; (lc2, es2) = run_locks sp evs' lc1 in (lc2, es1 @ es2))"
  by (induction evs arbitrary: lc) (simp_all add: Let_def case_prod_unfold)

text \<open>Where an accepted sequence ends with an acquisition, all locks held before it come earlier.\<close>

lemma accepted_acquire_above:
  assumes "snd (run_locks sp (evs @ [AcquireLock w]) (lock_checker_new\<lparr>lk_order := ord\<rparr>)) = []"
    and "h \<in> fst ` set (lk_held (fst (run_locks sp evs (lock_checker_new\<lparr>lk_order := ord\<rparr>))))"
  shows "unwrap_or (hm_get ord h) (- 1) < unwrap_or (hm_get ord w) (- 1)"
proof -
  let ?lc = "fst (run_locks sp evs (lock_checker_new\<lparr>lk_order := ord\<rparr>))"
  have "snd (run_locks sp evs (lock_checker_new\<lparr>lk_order := ord\<rparr>)) = []" and acq: "snd (acquire w sp ?lc) = []"
    using assms(1) by (simp_all add: run_locks_append Let_def case_prod_unfold)
  then have ordered: "held_ordered ?lc" by (intro run_locks_held_ordered held_ordered_new)
  from assms(2) obtain p where hp: "(h, p) \<in> set (lk_held ?lc)" by force
  have "p < lock_priority ?lc w" by (rule acquire_above [OF ordered acq hp])
  moreover have "p = lock_priority ?lc h" using ordered hp by (auto simp: held_ordered_def)
  ultimately show ?thesis by (simp add: lock_priority_def)
qed

text \<open>C17: the lock order excludes deadlocks: when the checker accepts, for each of \<open>n\<close> threads, its
  acquisitions and releases and then the acquisition of the lock it waits for, no cycle of waiting
  threads exists: some thread waits for a lock the next one does not hold.\<close>

theorem lock_order_prevents_deadlock:
  assumes "0 < n"
    and "\<forall>i < n. snd (run_locks sp (evs i @ [AcquireLock (w i)]) (lock_checker_new\<lparr>lk_order := ord\<rparr>)) = []"
  shows "\<exists>i < n. w i \<notin> fst ` set (lk_held (fst (run_locks sp (evs (Suc i mod n)) (lock_checker_new\<lparr>lk_order := ord\<rparr>))))"
proof (rule ccontr)
  define pr where "pr i = unwrap_or (hm_get ord (w i)) (- 1)" for i
  assume "\<not> ?thesis"
  then have up: "pr i < pr (Suc i mod n)" if "i < n" for i
    using that assms accepted_acquire_above [of sp "evs (Suc i mod n)" "w (Suc i mod n)" ord "w i"]
    by (auto simp: pr_def)
  obtain i where i: "i < n" "pr i = Max (pr ` {..<n})"
    using Max_in [of "pr ` {..<n}"] assms(1) by fastforce
  have "pr (Suc i mod n) \<le> pr i"
    unfolding i(2) using assms(1) by (intro Max_ge) simp_all
  with up [OF i(1)] show False by simp
qed

definition two_locks :: "(string, u32) hmap" where
  "two_locks = hm_insert ''b'' 1 (hm_insert ''a'' 0 hm_empty)"

lemma two_locks_accepted:
  "snd (run_locks (0, 1) ((\<lambda>i. [AcquireLock ''a'']) i @ [AcquireLock ((\<lambda>i. ''b'') i)])
     (lock_checker_new\<lparr>lk_order := two_locks\<rparr>)) = []"
  by (simp add: two_locks_def hm_defs acquire_def check_ordering_defined_def lock_priority_def
      lock_checker_new_def Let_def)

lemma lock_order_prevents_deadlock_witness:
  "''b'' \<notin> fst ` set (lk_held (fst (run_locks (0, 1) [AcquireLock ''a''] (lock_checker_new\<lparr>lk_order := two_locks\<rparr>))))"
  using lock_order_prevents_deadlock [of 2 "(0, 1)" "\<lambda>i. [AcquireLock ''a'']" "\<lambda>i. ''b''" two_locks]
    two_locks_accepted by simp

section \<open>Locks stay held across functions\<close>

text \<open>
  The checker of a source file is not reset between declarations: two functions that each acquire
  the lock \<open>a\<close> are reported as if the second acquired it while holding it.
\<close>

definition locking_function :: "string \<Rightarrow> spanned_decl" where
  "locking_function n = \<lparr>sd_node = Contract \<lparr>ct_name = n, ct_type_params = [], ct_clauses =
     [other_clause ''acquires'' (no_span (Ident ''a''))], ct_fn_params = []\<rparr>, sd_span = (0, 1)\<rparr>"

definition locking_file :: source_file where
  "locking_file = \<lparr>sf_project = None, sf_module = None, sf_imports = [], sf_decls =
     [\<lparr>sd_node = Contract \<lparr>ct_name = ''order'', ct_type_params = [], ct_clauses =
         [other_clause ''lock_order'' (no_span (Ident ''a''))], ct_fn_params = []\<rparr>, sd_span = (0, 1)\<rparr>,
      locking_function ''f'', locking_function ''g'']\<rparr>"

lemma locks_leak_across_functions: "map te_code (lock_order_check_source locking_file) = [''A21001'']"
  by (simp add: lock_order_check_source_def locking_file_def locking_function_def other_clause_def
      no_span_def inline_names_def scan_clauses_def lock_step_def clause_events_def
      collect_ident_references_def define_order_def hm_defs acquire_def check_ordering_defined_def
      lock_priority_def lock_checker_new_def type_error_of_checker_error_def Let_def)

end
