(* ===== verification/Smt_Builtins.thy ===== *)
theory Smt_Builtins
  imports Smt_Terms
begin

text \<open>
  The built-in operations the encoders know (\<open>policy/encode_method_policy.rs\<close>), how the shell
  and the Z3 back end (\<open>z3_backend/havoc_assume.rs\<close>) render them, and the names of the encoder's
  symbols (\<open>policy/encode_atom_policy.rs\<close>).
\<close>

section \<open>Names\<close>

definition sanitize_smt_name :: "string \<Rightarrow> string" where
  "sanitize_smt_name s = map (\<lambda>c. if c = CHR ''.'' then CHR ''_'' else c) s"

definition result_var_name :: string where "result_var_name = ''__result''"

definition concat_uf_name :: string where "concat_uf_name = ''__concat''"

definition canonical_length_name :: "string \<Rightarrow> string" where
  "canonical_length_name n = ''__canonical_len_'' @ sanitize_smt_name n"

definition fresh_temp_name :: "nat \<Rightarrow> string" where
  "fresh_temp_name n = ''__fresh_'' @ dec n"

definition field_uif_name :: "string \<Rightarrow> string" where
  "field_uif_name f = ''__field_'' @ f"

definition adt_tag_uf_name :: "string \<Rightarrow> string" where
  "adt_tag_uf_name n = ''__adt_tag_'' @ n"

definition adt_accessor_uf_name :: "string \<Rightarrow> string \<Rightarrow> string" where
  "adt_accessor_uf_name n a = ''__adt_'' @ n @ ''_'' @ a"

definition ir_construct_uf_name :: "string \<Rightarrow> string" where
  "ir_construct_uf_name t = ''__ir_construct_'' @ t"

definition ir_block_result_name :: "nat \<Rightarrow> string" where
  "ir_block_result_name b = ''__ir_block'' @ dec b @ ''_result''"

definition ir_block_slot_name :: "nat \<Rightarrow> nat \<Rightarrow> string" where
  "ir_block_slot_name b s = ''__ir_block'' @ dec b @ ''_slot_'' @ dec s"

definition ir_block_label_name :: "nat \<Rightarrow> string" where
  "ir_block_label_name b = ''__ir_block_'' @ dec b"

definition ir_call_temp_prefix :: "string \<Rightarrow> string" where
  "ir_call_temp_prefix f = ''__ir_call_'' @ f @ ''_''"

definition ir_call_uf_name :: "string \<Rightarrow> string" where
  "ir_call_uf_name f = ''__ir_call_'' @ f"

definition ir_state_uf_name :: "string \<Rightarrow> string" where
  "ir_state_uf_name s = ''__ir_state_'' @ s"

definition ir_tag_name :: "string \<Rightarrow> string" where
  "ir_tag_name t = ''__ir_tag_'' @ t"

definition ir_slot_name :: "nat \<Rightarrow> string" where
  "ir_slot_name s = ''__ir_slot_'' @ dec s"

text \<open>\<open>len\<close> and \<open>length\<close>.\<close>

definition is_length_method_name :: "string \<Rightarrow> bool" where
  "is_length_method_name n \<longleftrightarrow> n = ''len'' \<or> n = ''length''"

text \<open>The FNV-1a hash of a name, read as a signed integer.\<close>

definition pattern_hash_name :: "string \<Rightarrow> int" where
  "pattern_hash_name n =
     sint (fold (\<lambda>c hash. (xor hash (of_char c)) * 0x100000001b3) n (0xcbf29ce484222325 :: u64))"

lemma pattern_hash_name_range: "- (2 ^ 63) \<le> pattern_hash_name n \<and> pattern_hash_name n < 2 ^ 63"
  using sint_ge [of "fold (\<lambda>c hash. (xor hash (of_char c)) * 0x100000001b3) n (0xcbf29ce484222325 :: u64)"]
    sint_lt [of "fold (\<lambda>c hash. (xor hash (of_char c)) * 0x100000001b3) n (0xcbf29ce484222325 :: u64)"]
  by (simp add: pattern_hash_name_def)

section \<open>Built-in operations\<close>

datatype known_builtin =
  KbAbs | KbMin | KbMax | KbClamp | KbSignum | KbSubstring | KbConcat | KbAppend | KbIndexOf | KbCharAt
| KbReplace | KbSplit | KbTrim | KbClone | KbReverse | KbClear | KbPush | KbPop | KbInsert | KbRemove
| KbSlice | KbTake | KbDrop | KbTail | KbFirst | KbGet | KbSet | KbPut

definition unary_builtin :: "string \<Rightarrow> known_builtin option" where
  "unary_builtin op =
     (if op = ''abs'' then Some KbAbs
      else if op = ''signum'' then Some KbSignum
      else if op \<in> {''trim'', ''to_lowercase'', ''to_uppercase'', ''to_lower'', ''to_upper''} then Some KbTrim
      else if op \<in> {''clone'', ''to_string'', ''to_owned'', ''as_str''} then Some KbClone
      else if op = ''reverse'' then Some KbReverse
      else if op = ''clear'' then Some KbClear
      else if op \<in> {''pop'', ''pop_back'', ''pop_front''} then Some KbPop
      else if op \<in> {''tail'', ''rest''} then Some KbTail
      else if op \<in> {''first'', ''last'', ''head'', ''front'', ''back''} then Some KbFirst
      else None)"

definition binary_builtin :: "string \<Rightarrow> known_builtin option" where
  "binary_builtin op =
     (if op = ''min'' then Some KbMin
      else if op = ''max'' then Some KbMax
      else if op = ''concat'' then Some KbConcat
      else if op = ''append'' then Some KbAppend
      else if op \<in> {''index_of'', ''find'', ''indexOf''} then Some KbIndexOf
      else if op \<in> {''char_at'', ''charAt'', ''code_unit_at''} then Some KbCharAt
      else if op = ''split'' then Some KbSplit
      else if op \<in> {''push'', ''push_back'', ''push_front''} then Some KbPush
      else if op \<in> {''remove'', ''remove_at''} then Some KbRemove
      else if op = ''take'' then Some KbTake
      else if op = ''drop'' then Some KbDrop
      else if op = ''get'' then Some KbGet
      else None)"

definition ternary_builtin :: "string \<Rightarrow> known_builtin option" where
  "ternary_builtin op =
     (if op = ''clamp'' then Some KbClamp
      else if op \<in> {''substring'', ''substr''} then Some KbSubstring
      else if op = ''replace'' then Some KbReplace
      else if op = ''insert'' then Some KbInsert
      else if op = ''slice'' then Some KbSlice
      else if op = ''set'' then Some KbSet
      else if op = ''put'' then Some KbPut
      else None)"

definition classify_known_builtin :: "string \<Rightarrow> nat \<Rightarrow> known_builtin option" where
  "classify_known_builtin op arity =
     (if arity = 1 then unary_builtin op else if arity = 2 then binary_builtin op
      else if arity = 3 then ternary_builtin op else None)"

text \<open>\<open>args[i]\<close>: the arity is checked, so the index is in range.\<close>

fun builtin_smtlib :: "known_builtin \<Rightarrow> string \<Rightarrow> smt_term list \<Rightarrow> smt_term" where
  "builtin_smtlib KbAbs op args =
     (let x = args ! 0 in SApp FIte [SApp FGe [x, SInt 0], x, SApp FSub [x]])"
| "builtin_smtlib KbMin op args =
     (let a = args ! 0; b = args ! 1 in SApp FIte [SApp FLe [a, b], a, b])"
| "builtin_smtlib KbMax op args =
     (let a = args ! 0; b = args ! 1 in SApp FIte [SApp FGe [a, b], a, b])"
| "builtin_smtlib KbClamp op args =
     (let x = args ! 0; lo = args ! 1; hi = args ! 2; raised = SApp FIte [SApp FGe [x, lo], x, lo]
      in SApp FIte [SApp FLe [raised, hi], raised, hi])"
| "builtin_smtlib KbSignum op args =
     (let x = args ! 0; capped = SApp FIte [SApp FLe [x, SInt 1], x, SInt 1]; neg1 = SApp FSub [SInt 1]
      in SApp FIte [SApp FGe [capped, neg1], capped, neg1])"
| "builtin_smtlib KbSubstring op args = SApp (FUser ''substring'') args"
| "builtin_smtlib KbConcat op args = SApp (FUser concat_uf_name) args"
| "builtin_smtlib KbAppend op args = SApp (FUser concat_uf_name) args"
| "builtin_smtlib KbIndexOf op args = SApp (FUser ''index_of'') args"
| "builtin_smtlib KbCharAt op args = SApp (FUser ''char_at'') args"
| "builtin_smtlib KbReplace op args = SApp (FUser ''replace'') args"
| "builtin_smtlib KbSplit op args = SApp (FUser ''split'') args"
| "builtin_smtlib KbGet op args = SApp (FUser ''get'') args"
| "builtin_smtlib KbSet op args = SApp (FUser ''set'') args"
| "builtin_smtlib KbPut op args = SApp (FUser ''put'') args"
| "builtin_smtlib _ op args = SApp (FUser op) args"

definition known_builtin_to_smtlib :: "string \<Rightarrow> smt_term list \<Rightarrow> smt_term option" where
  "known_builtin_to_smtlib op args =
     map_option (\<lambda>kind. builtin_smtlib kind op args) (classify_known_builtin op (length args))"

fun builtin_z3 :: "known_builtin \<Rightarrow> smt_term list \<Rightarrow> smt_term option" where
  "builtin_z3 KbAbs args =
     (let x = args ! 0 in Some (SApp FIte [SApp FGe [x, SInt 0], x, SApp FSub [SInt 0, x]]))"
| "builtin_z3 KbMin args =
     (let a = args ! 0; b = args ! 1 in Some (SApp FIte [SApp FLe [a, b], a, b]))"
| "builtin_z3 KbMax args =
     (let a = args ! 0; b = args ! 1 in Some (SApp FIte [SApp FGe [a, b], a, b]))"
| "builtin_z3 KbClamp args =
     (let x = args ! 0; lo = args ! 1; hi = args ! 2; raised = SApp FIte [SApp FGe [x, lo], x, lo]
      in Some (SApp FIte [SApp FLe [raised, hi], raised, hi]))"
| "builtin_z3 KbSignum args =
     (let x = args ! 0; capped = SApp FIte [SApp FLe [x, SInt 1], x, SInt 1]
      in Some (SApp FIte [SApp FGe [capped, SInt (- 1)], capped, SInt (- 1)]))"
| "builtin_z3 KbConcat args = Some (SApp FAdd [args ! 0, args ! 1])"
| "builtin_z3 _ args = None"

definition known_builtin_to_z3 :: "string \<Rightarrow> smt_term list \<Rightarrow> smt_term option" where
  "known_builtin_to_z3 op args =
     Option.bind (classify_known_builtin op (length args)) (\<lambda>kind. builtin_z3 kind args)"

text \<open>What the arithmetic ones mean.\<close>

fun builtin_value :: "known_builtin \<Rightarrow> int list \<Rightarrow> int option" where
  "builtin_value KbAbs [x] = Some \<bar>x\<bar>"
| "builtin_value KbMin [a, b] = Some (min a b)"
| "builtin_value KbMax [a, b] = Some (max a b)"
| "builtin_value KbClamp [x, lo, hi] = Some (min (max x lo) hi)"
| "builtin_value KbSignum [x] = Some (sgn x)"
| "builtin_value _ _ = None"

fun_cases builtin_valueE: "builtin_value kind vs = Some v"

lemma map_eq_single: "map f xs = [y] \<longleftrightarrow> (\<exists>x. xs = [x] \<and> f x = y)"
  by (cases xs) auto

lemma map_eq_pair: "map f xs = [y, z] \<longleftrightarrow> (\<exists>a b. xs = [a, b] \<and> f a = y \<and> f b = z)"
  by (cases xs) (auto simp: map_eq_single)

lemma map_eq_triple:
  "map f xs = [y, z, w] \<longleftrightarrow> (\<exists>a b c. xs = [a, b, c] \<and> f a = y \<and> f b = z \<and> f c = w)"
  by (cases xs) (auto simp: map_eq_pair)

text \<open>C33: for the arithmetic built-ins (absolute value, minimum, maximum, clamping and sign) both back
  ends build a term, and both terms have the value the operation means.\<close>

theorem known_builtins_agree:
  assumes "classify_known_builtin op (length args) = Some kind"
    and "builtin_value kind (map (ieval M) args) = Some v"
  shows "map_option (ieval M) (known_builtin_to_smtlib op args) = Some v \<and>
         map_option (ieval M) (known_builtin_to_z3 op args) = Some v"
  using assms(2) unfolding known_builtin_to_smtlib_def known_builtin_to_z3_def assms(1)
  by (elim builtin_valueE)
    (auto simp: map_eq_single map_eq_pair map_eq_triple Let_def min_def max_def sgn_if)

lemma known_builtins_agree_witness:
  "map_option (ieval \<lparr>sm_var = (\<lambda>x. 0), sm_fun = (\<lambda>f vs. 0)\<rparr>) (known_builtin_to_smtlib ''clamp'' [SInt 9, SInt 1, SInt 5]) = Some 5 \<and>
   map_option (ieval \<lparr>sm_var = (\<lambda>x. 0), sm_fun = (\<lambda>f vs. 0)\<rparr>) (known_builtin_to_z3 ''clamp'' [SInt 9, SInt 1, SInt 5]) = Some 5"
  by (rule known_builtins_agree [where kind = KbClamp])
    (simp_all add: classify_known_builtin_def ternary_builtin_def)

text \<open>
  Concatenation is where they differ: the shell leaves it uninterpreted, Z3 adds the integers that
  stand for the values, so that it can prove that concatenation commutes.
\<close>

lemma z3_concat_commutes:
  "map_option (ieval M) (known_builtin_to_z3 ''concat'' [a, b]) =
   map_option (ieval M) (known_builtin_to_z3 ''concat'' [b, a])"
  by (simp add: known_builtin_to_z3_def classify_known_builtin_def binary_builtin_def)

end
