(* ===== verification/Adt_Axioms.thy ===== *)
theory Adt_Axioms
  imports Smt_Builtins Ast
begin

text \<open>
  The axioms by which the Z3 back end (\<open>z3_backend/encoder/adt.rs\<close>) and the shell back end
  (\<open>cvc5_backend/cvc5_adt.rs\<close>) emulate algebraic data types over the integers: a tag function,
  accessor functions, and quantified axioms.  The theory characterises when they have a model.
\<close>

section \<open>Quantified axioms\<close>

datatype smt_axiom = Forall_Int "string list" smt_term | Ground smt_term

definition with_vars :: "smt_model \<Rightarrow> (string \<times> int) list \<Rightarrow> smt_model" where
  "with_vars M bs = fold (\<lambda>(x, v) M. M\<lparr>sm_var := (sm_var M)(x := v)\<rparr>) bs M"

fun holds :: "smt_model \<Rightarrow> smt_axiom \<Rightarrow> bool" where
  "holds M (Forall_Int xs t) \<longleftrightarrow> (\<forall>vs. length vs = length xs \<longrightarrow> beval (with_vars M (zip xs vs)) t)"
| "holds M (Ground t) \<longleftrightarrow> beval M t"

declare holds.simps(1) [simp del]

lemma holds_Forall_1: "holds M (Forall_Int [x] t) \<longleftrightarrow> (\<forall>v. beval (with_vars M [(x, v)]) t)"
proof -
  have "length vs = length [x] \<longleftrightarrow> (\<exists>v. vs = [v])" for vs :: "int list" by (cases vs) auto
  then show ?thesis by (simp only: holds.simps) auto
qed

lemma holds_Forall_2:
  "holds M (Forall_Int [x, y] t) \<longleftrightarrow> (\<forall>v w. beval (with_vars M [(x, v), (y, w)]) t)"
proof -
  have "length vs = length [x, y] \<longleftrightarrow> (\<exists>v w. vs = [v, w])" for vs :: "int list"
    by (cases vs; cases "tl vs") auto
  then have "holds M (Forall_Int [x, y] t) \<longleftrightarrow>
      (\<forall>vs. (\<exists>v w. vs = [v, w]) \<longrightarrow> beval (with_vars M (zip [x, y] vs)) t)"
    by (simp only: holds.simps)
  also have "\<dots> \<longleftrightarrow> (\<forall>v w. beval (with_vars M (zip [x, y] [v, w])) t)" by blast
  finally show ?thesis by simp
qed

section \<open>Definition of a data type\<close>

record adt_constructor =
  ac_name :: string
  ac_tag :: int
  ac_accessors :: "string list"

record adt_def =
  ad_name :: string
  ad_constructors :: "adt_constructor list"

definition adt_constructors :: "(string \<times> string list) list \<Rightarrow> adt_constructor list" where
  "adt_constructors ctors =
     map (\<lambda>(tag, name, accs). \<lparr>ac_name = name, ac_tag = int tag, ac_accessors = accs\<rparr>)
       (enumerate 0 ctors)"

definition adt_exhaust_var_name :: "string \<Rightarrow> string" where
  "adt_exhaust_var_name n = ''__adt_exh_'' @ n"

definition adt_inject_var_name :: "string \<Rightarrow> string \<Rightarrow> char \<Rightarrow> string" where
  "adt_inject_var_name n c leg = ''__adt_inj_'' @ n @ ''_'' @ c @ ''_'' @ [leg]"

definition tag_is :: "string \<Rightarrow> string \<Rightarrow> int \<Rightarrow> smt_term" where
  "tag_is n x tag = SApp FEq [SApp (FUser (adt_tag_uf_name n)) [SSym x], SInt tag]"

definition accessor_eq :: "string \<Rightarrow> string \<Rightarrow> string \<Rightarrow> string \<Rightarrow> smt_term" where
  "accessor_eq n a b acc =
     SApp FEq [SApp (FUser (adt_accessor_uf_name n acc)) [SSym a],
               SApp (FUser (adt_accessor_uf_name n acc)) [SSym b]]"

definition exhaustive_axiom :: "string \<Rightarrow> string \<Rightarrow> adt_constructor list \<Rightarrow> smt_axiom" where
  "exhaustive_axiom n x cs = Forall_Int [x] (SApp FOr (map (\<lambda>c. tag_is n x (ac_tag c)) cs))"

definition injective_axiom :: "string \<Rightarrow> string \<Rightarrow> string \<Rightarrow> adt_constructor \<Rightarrow> smt_axiom" where
  "injective_axiom n a b c =
     Forall_Int [a, b] (SApp FImplies
       [SApp FAnd ([tag_is n a (ac_tag c), tag_is n b (ac_tag c)] @
                   map (accessor_eq n a b) (ac_accessors c)),
        SApp FEq [SSym a, SSym b]])"

definition define_adt :: "string \<Rightarrow> (string \<times> string list) list \<Rightarrow> adt_def \<times> smt_axiom list" where
  "define_adt n ctors =
     (let cs = adt_constructors ctors in
      (\<lparr>ad_name = n, ad_constructors = cs\<rparr>,
       exhaustive_axiom n (adt_exhaust_var_name n) cs #
       map (\<lambda>c. injective_axiom n (adt_inject_var_name n (ac_name c) CHR ''a'')
                  (adt_inject_var_name n (ac_name c) CHR ''b'') c) cs))"

text \<open>The shell back end uses the variables \<open>x\<close>, \<open>a\<close> and \<open>b\<close>.\<close>

definition define_adt_cvc5 :: "string \<Rightarrow> (string \<times> string list) list \<Rightarrow> adt_def \<times> smt_axiom list" where
  "define_adt_cvc5 n ctors =
     (let cs = adt_constructors ctors in
      (\<lparr>ad_name = n, ad_constructors = cs\<rparr>,
       exhaustive_axiom n ''x'' cs # map (injective_axiom n ''a'' ''b'') cs))"

section \<open>When the axioms have a model\<close>

definition tag_fun :: "smt_model \<Rightarrow> string \<Rightarrow> int \<Rightarrow> int" where
  "tag_fun M n x = sm_fun M (adt_tag_uf_name n) [x]"

lemma with_vars_simps [simp]:
  "sm_fun (with_vars M bs) = sm_fun M"
  "sm_var (with_vars M []) = sm_var M"
  "sm_var (with_vars M ((x, v) # bs)) = sm_var (with_vars (M\<lparr>sm_var := (sm_var M)(x := v)\<rparr>) bs)"
proof -
  show "sm_fun (with_vars M bs) = sm_fun M"
    by (induction bs arbitrary: M) (auto simp: with_vars_def)
qed (simp_all add: with_vars_def)

lemma holds_exhaustive:
  "holds M (exhaustive_axiom n x cs) \<longleftrightarrow> (\<forall>v. \<exists>c \<in> set cs. tag_fun M n v = ac_tag c)"
  by (simp add: exhaustive_axiom_def holds_Forall_1 tag_is_def tag_fun_def list_ex_iff)

lemma holds_injective:
  assumes "a \<noteq> b"
  shows "holds M (injective_axiom n a b c) \<longleftrightarrow>
    (\<forall>v w. tag_fun M n v = ac_tag c \<and> tag_fun M n w = ac_tag c \<and>
       (\<forall>acc \<in> set (ac_accessors c). sm_fun M (adt_accessor_uf_name n acc) [v] =
          sm_fun M (adt_accessor_uf_name n acc) [w]) \<longrightarrow> v = w)"
  using assms
  by (simp add: injective_axiom_def holds_Forall_2 tag_is_def tag_fun_def accessor_eq_def list_all_iff)

lemma adt_inject_var_distinct: "adt_inject_var_name n c CHR ''a'' \<noteq> adt_inject_var_name n c CHR ''b''"
  by (simp add: adt_inject_var_name_def)

lemma in_adt_constructors:
  "c \<in> set (adt_constructors ctors) \<longleftrightarrow>
   (\<exists>i < length ctors. c = \<lparr>ac_name = fst (ctors ! i), ac_tag = int i, ac_accessors = snd (ctors ! i)\<rparr>)"
  by (auto simp: adt_constructors_def in_set_enumerate_eq image_iff Bex_def split_paired_Ex case_prod_unfold)

text \<open>What both sets of axioms say.\<close>

definition adt_model :: "smt_model \<Rightarrow> string \<Rightarrow> (string \<times> string list) list \<Rightarrow> bool" where
  "adt_model M n ctors \<longleftrightarrow>
     (\<forall>v. \<exists>i < length ctors. tag_fun M n v = int i) \<and>
     (\<forall>i < length ctors. \<forall>v w. tag_fun M n v = int i \<and> tag_fun M n w = int i \<and>
        (\<forall>acc \<in> set (snd (ctors ! i)). sm_fun M (adt_accessor_uf_name n acc) [v] =
           sm_fun M (adt_accessor_uf_name n acc) [w]) \<longrightarrow> v = w)"

lemma all_constructors:
  "(\<forall>c \<in> set (adt_constructors ctors). P c) \<longleftrightarrow>
   (\<forall>i < length ctors. P \<lparr>ac_name = fst (ctors ! i), ac_tag = int i, ac_accessors = snd (ctors ! i)\<rparr>)"
  by (auto simp: in_adt_constructors)

lemma ex_constructors:
  "(\<exists>c \<in> set (adt_constructors ctors). P c) \<longleftrightarrow>
   (\<exists>i < length ctors. P \<lparr>ac_name = fst (ctors ! i), ac_tag = int i, ac_accessors = snd (ctors ! i)\<rparr>)"
  by (auto simp: in_adt_constructors)

lemma define_adt_model: "list_all (holds M) (snd (define_adt n ctors)) \<longleftrightarrow> adt_model M n ctors"
proof -
  have "list_all (holds M) (snd (define_adt n ctors)) \<longleftrightarrow>
      holds M (exhaustive_axiom n (adt_exhaust_var_name n) (adt_constructors ctors)) \<and>
      (\<forall>c \<in> set (adt_constructors ctors). holds M (injective_axiom n
         (adt_inject_var_name n (ac_name c) CHR ''a'') (adt_inject_var_name n (ac_name c) CHR ''b'') c))"
    by (simp add: define_adt_def Let_def list_all_iff)
  then show ?thesis
    by (simp only: holds_exhaustive holds_injective [OF adt_inject_var_distinct] all_constructors
        ex_constructors adt_constructor.simps adt_model_def)
qed

lemma define_adt_cvc5_model:
  "list_all (holds M) (snd (define_adt_cvc5 n ctors)) \<longleftrightarrow> adt_model M n ctors"
proof -
  have distinct: "''a'' \<noteq> ''b''" by simp
  have "list_all (holds M) (snd (define_adt_cvc5 n ctors)) \<longleftrightarrow>
      holds M (exhaustive_axiom n ''x'' (adt_constructors ctors)) \<and>
      (\<forall>c \<in> set (adt_constructors ctors). holds M (injective_axiom n ''a'' ''b'' c))"
    by (simp add: define_adt_cvc5_def Let_def list_all_iff)
  then show ?thesis
    by (simp only: holds_exhaustive holds_injective [OF distinct] all_constructors
        ex_constructors adt_constructor.simps adt_model_def)
qed

lemma adt_model_field:
  assumes "adt_model M n ctors"
  shows "\<exists>c \<in> set ctors. snd c \<noteq> []"
proof (rule ccontr)
  assume none: "\<not> (\<exists>c \<in> set ctors. snd c \<noteq> [])"
  have "inj (tag_fun M n)"
  proof (rule injI)
    fix v w assume same: "tag_fun M n v = tag_fun M n w"
    from assms [unfolded adt_model_def, THEN conjunct1] obtain i
      where i: "i < length ctors" "tag_fun M n v = int i" by blast
    have nullary: "snd (ctors ! i) = []" using none nth_mem [OF i(1)] by simp
    have "tag_fun M n w = int i" using i(2) same by simp
    then show "v = w" using i(1,2) nullary
       assms [unfolded adt_model_def, THEN conjunct2, THEN spec, THEN mp, OF i(1), THEN spec, THEN spec,
         of v w] by (metis empty_iff empty_set)
  qed
  moreover have "finite (range (tag_fun M n))"
  proof (rule finite_subset)
    show "range (tag_fun M n) \<subseteq> int ` {..<length ctors}" using assms [unfolded adt_model_def, THEN conjunct1] by blast
  qed simp
  ultimately have "finite (UNIV :: int set)" by (metis finite_imageD)
  then show False by simp
qed

text \<open>
  A model where some constructor \<open>j\<close> has a field: a constructor without fields has one value, its
  own tag; every other integer is a value of \<open>j\<close>, and is its own field.
\<close>

definition field_model :: "string \<Rightarrow> (string \<times> string list) list \<Rightarrow> nat \<Rightarrow> smt_model" where
  "field_model n ctors j =
     \<lparr>sm_var = (\<lambda>x. 0),
      sm_fun = (\<lambda>f vs. if f = adt_tag_uf_name n
                      then (if \<exists>i < length ctors. snd (ctors ! i) = [] \<and> hd vs = int i then hd vs else int j)
                      else hd vs)\<rparr>"

lemma field_model_tag:
  "tag_fun (field_model n ctors j) n v =
     (if \<exists>i < length ctors. snd (ctors ! i) = [] \<and> v = int i then v else int j)"
  by (simp only: tag_fun_def field_model_def smt_model.simps list.sel if_True simp_thms)

lemma adt_model_exists:
  assumes names: "adt_tag_uf_name n \<notin> adt_accessor_uf_name n ` set (concat (map snd ctors))"
    and j: "j < length ctors" "snd (ctors ! j) \<noteq> []"
  shows "adt_model (field_model n ctors j) n ctors"
  unfolding adt_model_def
proof (intro conjI allI impI)
  have "tag_fun (field_model n ctors j) n v = int j \<or>
      (\<exists>i < length ctors. tag_fun (field_model n ctors j) n v = int i)" for v
    unfolding field_model_tag by (rule if_split [THEN iffD2]) blast
  then show "\<exists>i < length ctors. tag_fun (field_model n ctors j) n v = int i" for v
    using j(1) by blast
  fix i v w
  assume i: "i < length ctors"
    and eqs: "tag_fun (field_model n ctors j) n v = int i \<and> tag_fun (field_model n ctors j) n w = int i \<and>
        (\<forall>acc \<in> set (snd (ctors ! i)). sm_fun (field_model n ctors j) (adt_accessor_uf_name n acc) [v] =
           sm_fun (field_model n ctors j) (adt_accessor_uf_name n acc) [w])"
  show "v = w"
  proof (cases "snd (ctors ! i) = []")
    case True
    have "u = int i" if "tag_fun (field_model n ctors j) n u = int i" for u
      using that True j(2) by (cases "\<exists>i < length ctors. snd (ctors ! i) = [] \<and> u = int i")
        (simp_all only: field_model_tag if_True if_False of_nat_eq_iff)
    then have "v = int i" "w = int i" using eqs by blast+
    then show ?thesis by simp
  next
    case False
    then obtain acc where acc: "acc \<in> set (snd (ctors ! i))" by (cases "snd (ctors ! i)") auto
    with i have "acc \<in> set (concat (map snd ctors))" by (auto intro!: bexI [of _ "ctors ! i"])
    with names have "adt_accessor_uf_name n acc \<noteq> adt_tag_uf_name n" by (metis imageI)
    with eqs acc show ?thesis by (force simp: field_model_def)
  qed
qed

text \<open>C30: the axioms either back end writes for a data type have a model exactly when some constructor
  has a field: for an enumeration (constructors without fields only) they are contradictory, since
  they make the integers a finite set, and every property is then verified.\<close>

theorem adt_axioms_satisfiable_iff:
  assumes "adt_tag_uf_name n \<notin> adt_accessor_uf_name n ` set (concat (map snd ctors))"
  shows "((\<exists>M. list_all (holds M) (snd (define_adt n ctors))) \<longleftrightarrow> list_ex (\<lambda>c. snd c \<noteq> []) ctors) \<and>
         ((\<exists>M. list_all (holds M) (snd (define_adt_cvc5 n ctors))) \<longleftrightarrow> list_ex (\<lambda>c. snd c \<noteq> []) ctors)"
proof -
  have "\<exists>M. adt_model M n ctors" if "list_ex (\<lambda>c. snd c \<noteq> []) ctors"
  proof -
    from that obtain j where "j < length ctors" "snd (ctors ! j) \<noteq> []"
      by (auto simp: list_ex_iff in_set_conv_nth)
    from adt_model_exists [OF assms this] show ?thesis ..
  qed
  moreover have "list_ex (\<lambda>c. snd c \<noteq> []) ctors" if "adt_model M n ctors" for M
    using adt_model_field [OF that] by (simp add: list_ex_iff)
  ultimately have "(\<exists>M. adt_model M n ctors) \<longleftrightarrow> list_ex (\<lambda>c. snd c \<noteq> []) ctors" by blast
  then show ?thesis by (simp only: define_adt_model define_adt_cvc5_model)
qed

lemma adt_axioms_satisfiable_iff_witness:
  "(\<exists>M. list_all (holds M) (snd (define_adt ''Option'' [(''Some'', [''value'']), (''None'', [])]))) \<and>
   \<not> (\<exists>M. list_all (holds M) (snd (define_adt ''Color'' [(''Red'', []), (''Green'', [])])))"
  using adt_axioms_satisfiable_iff [of "''Option''" "[(''Some'', [''value'']), (''None'', [])]"]
    adt_axioms_satisfiable_iff [of "''Color''" "[(''Red'', []), (''Green'', [])]"]
  by (simp add: adt_tag_uf_name_def adt_accessor_uf_name_def)

section \<open>Data types of match expressions\<close>

text \<open>
  The Z3 encoder gives every \<open>match\<close> with constructor patterns a data type of its own, made of the
  constructors its arms name.  \<open>None\<close> is a match without constructor patterns.
\<close>

definition pattern_accessors :: "pattern list \<Rightarrow> string list" where
  "pattern_accessors pats =
     map (\<lambda>(i, field). case field of PIdent n \<Rightarrow> n | _ \<Rightarrow> ''f'' @ dec i) (enumerate 0 pats)"

definition arm_constructor :: "match_arm \<Rightarrow> (string \<times> string list) option" where
  "arm_constructor arm =
     (case arm_pattern arm of
        PConstructor name pats \<Rightarrow> Some (name, pattern_accessors pats) | _ \<Rightarrow> None)"

definition match_adt_fresh_name :: "nat \<Rightarrow> string" where
  "match_adt_fresh_name n = ''__match_adt_'' @ dec n"

definition register_match_adt_from_arms ::
  "nat \<Rightarrow> match_arm list \<Rightarrow> (adt_def \<times> smt_axiom list) option" where
  "register_match_adt_from_arms fresh_counter arms =
     (let specs = List.map_filter arm_constructor arms in
      if specs = [] then None else Some (define_adt (match_adt_fresh_name fresh_counter) specs))"

text \<open>The condition of an arm: the tag of the scrutinee is that of its constructor, \<open>0\<close> if unknown.\<close>

definition adt_ctor_tag_or_zero :: "string list \<Rightarrow> string \<Rightarrow> int" where
  "adt_ctor_tag_or_zero names name =
     (case find_index (\<lambda>m. m = name) names of None \<Rightarrow> 0 | Some i \<Rightarrow> int i)"

definition adt_is_constructor :: "adt_def \<Rightarrow> string \<Rightarrow> smt_term \<Rightarrow> smt_term" where
  "adt_is_constructor d name value =
     SApp FEq [SApp (FUser (adt_tag_uf_name (ad_name d))) [value],
       SInt (case find (\<lambda>c. ac_name c = name) (ad_constructors d) of
               Some c \<Rightarrow> ac_tag c
             | None \<Rightarrow> adt_ctor_tag_or_zero (map ac_name (ad_constructors d)) name)]"

text \<open>
  A match whose arms name one constructor always takes that arm: the axioms make its tag the tag of
  every integer, also where other arms follow (as for \<open>Some(v)\<close> before the plain name \<open>None\<close>).
\<close>

lemma single_constructor_always_matches:
  assumes "register_match_adt_from_arms k arms = Some (d, axs)"
    and "List.map_filter arm_constructor arms = [(name, accs)]"
    and "list_all (holds M) axs"
  shows "beval M (adt_is_constructor d name t)"
proof -
  let ?n = "match_adt_fresh_name k"
  have d: "define_adt ?n [(name, accs)] = (d, axs)"
    using assms(1,2) by (simp add: register_match_adt_from_arms_def)
  then have "list_all (holds M) (snd (define_adt ?n [(name, accs)]))" using assms(3) by simp
  then have "tag_fun M ?n (ieval M t) = 0" by (simp only: define_adt_model) (simp add: adt_model_def)
  moreover have "d = \<lparr>ad_name = ?n, ad_constructors = adt_constructors [(name, accs)]\<rparr>"
    using d by (simp add: define_adt_def Let_def)
  ultimately show ?thesis
    by (simp add: adt_is_constructor_def adt_constructors_def tag_fun_def)
qed

end
