(* ===== verification/Ir_Syntax.thy ===== *)
theory Ir_Syntax
  imports Type_Core Adt_Axioms
begin

text \<open>
  The implementation IR (\<open>crates/assura-smt/src/ir.rs\<close>): numbered slots, typed instructions,
  blocks that are sibling functions, and predicates; with the lookups of
  \<open>ir_modules/ir_encode.rs\<close> and \<open>ir_modules/ir_type_ctx.rs\<close> and the slot names of
  \<open>havoc_assume.rs\<close>.
\<close>

section \<open>Syntax\<close>

text \<open>
  A floating point literal is kept as its value truncated to an \<open>i64\<close>, the only thing the
  lowering reads of it.
\<close>

datatype ir_literal = IrInt int | IrFloat int | IrBool bool | IrStr string

datatype ir_arith_op = IrAdd | IrSub | IrMul | IrDiv | IrMod

datatype ir_cmp_op = IrEq | IrNe | IrLt | IrLe | IrGt | IrGe

datatype ir_match_pattern = IrPatInt int | IrPatBool bool | IrPatStr string | IrPatWildcard

datatype ir_expr =
  IrConst ir_literal
| IrLoad nat
| IrCall string "nat list"
| IrField nat nat "string option"
| IrConstruct string "(nat \<times> nat) list"
| IrArith ir_arith_op nat nat
| IrCmp ir_cmp_op nat nat
| IrCast nat string
| IrIf nat nat nat
| IrTransition nat string
| IrMatch nat "(ir_match_pattern \<times> nat) list"
| IrLoop nat nat

datatype ir_pred_arg =
  IrSlot nat
| IrSlotResult
| IrLit ir_literal
| IrArgArith ir_arith_op ir_pred_arg ir_pred_arg

datatype ir_pred =
  IrTrue
| IrFalse
| IrPredCmp ir_cmp_op ir_pred_arg ir_pred_arg
| IrAnd ir_pred ir_pred
| IrOr ir_pred ir_pred
| IrNot ir_pred

record ir_slot_decl =
  sd_slot :: nat
  sd_ty :: string

record ir_instr =
  in_target :: nat
  in_expr :: ir_expr
  in_ty :: string

record ir_function =
  if_id :: string
  if_params :: "ir_slot_decl list"
  if_return_type :: string
  if_effects :: string
  if_pre :: "ir_pred option"
  if_post :: "ir_pred option"
  if_body :: "ir_instr list"

record ir_module =
  im_name :: string
  im_functions :: "ir_function list"

text \<open>\<open>usize::MAX\<close>, the slot \<open>$result\<close>.\<close>

definition result_slot :: nat where
  "result_slot = 2 ^ 64 - 1"

section \<open>Lookups\<close>

record ir_encode_ctx =
  ic_struct_fields :: "(string \<rightharpoonup> (string \<times> ty) list) option"
  ic_bodies :: "(string \<rightharpoonup> ir_function) option"
  ic_blocks :: "(nat \<rightharpoonup> ir_instr list) option"

definition callee_ir :: "ir_encode_ctx \<Rightarrow> string \<Rightarrow> ir_function option" where
  "callee_ir C name = Option.bind (ic_bodies C) (\<lambda>m. m name)"

definition block_body :: "ir_encode_ctx \<Rightarrow> nat \<Rightarrow> ir_instr list option" where
  "block_body C block = Option.bind (ic_blocks C) (\<lambda>m. m block)"

definition is_collection_ir_type :: "string \<Rightarrow> bool" where
  "is_collection_ir_type t \<longleftrightarrow>
     t \<in> {''Bytes'', ''String'', ''List'', ''Map'', ''Set''} \<or>
     prefix ''List<'' t \<or> prefix ''Map<'' t \<or> prefix ''Set<'' t"

definition is_length_ir_call :: "string \<Rightarrow> nat \<Rightarrow> bool" where
  "is_length_ir_call f arity \<longleftrightarrow> arity = 1 \<and> is_length_method_name f"

text \<open>The blocks of a module; of two functions with one number the later counts.\<close>

definition block_map_from_module :: "ir_module \<Rightarrow> (nat \<rightharpoonup> ir_instr list)" where
  "block_map_from_module m =
     fold (\<lambda>f blocks.
             case Option.bind (strip_prefix (if_id f) ''#'') (parse_uint 64) of
               Some i \<Rightarrow> blocks(i \<mapsto> if_body f) | None \<Rightarrow> blocks)
       (im_functions m) Map.empty"

definition slot_type_map :: "ir_function \<Rightarrow> (nat \<rightharpoonup> string)" where
  "slot_type_map f = fold (\<lambda>p m. m(sd_slot p \<mapsto> sd_ty p)) (if_params f) Map.empty"

definition ir_param_names :: "ir_function \<Rightarrow> string list \<Rightarrow> (nat \<times> string) list" where
  "ir_param_names f contract_param_names =
     map (\<lambda>(i, p). (sd_slot p,
            if i < length contract_param_names then contract_param_names ! i
            else ''slot_'' @ dec (sd_slot p)))
       (enumerate 0 (if_params f))"

definition base_type_name :: "string \<Rightarrow> string" where
  "base_type_name t = trim (takeWhile (\<lambda>c. c \<noteq> CHR ''<'') t)"

definition field_name_at :: "ir_encode_ctx \<Rightarrow> string \<Rightarrow> nat \<Rightarrow> string option" where
  "field_name_at C ir_type i =
     Option.bind (ic_struct_fields C) (\<lambda>m. Option.bind (m (base_type_name ir_type))
       (\<lambda>fs. if i < length fs then Some (fst (fs ! i)) else None))"

definition field_names_for :: "ir_encode_ctx \<Rightarrow> string \<Rightarrow> string list option" where
  "field_names_for C type_name =
     Option.bind (ic_struct_fields C) (\<lambda>m. map_option (map fst) (m type_name))"

definition has_struct_layout :: "ir_encode_ctx \<Rightarrow> string \<Rightarrow> bool" where
  "has_struct_layout C type_name \<longleftrightarrow>
     (case Option.bind (ic_struct_fields C) (\<lambda>m. m type_name) of
        Some fs \<Rightarrow> fs \<noteq> [] | None \<Rightarrow> False)"

lemma field_name_at_base:
  "has_struct_layout C (base_type_name t) \<longleftrightarrow> field_name_at C t 0 \<noteq> None"
  by (auto simp: has_struct_layout_def field_name_at_def split: option.splits bind_splits)

lemma slot_type_map_dom: "dom (slot_type_map f) = sd_slot ` set (if_params f)"
proof -
  have "dom (fold (\<lambda>p m. m(sd_slot p \<mapsto> sd_ty p)) ps m) = sd_slot ` set ps \<union> dom m"
    for ps :: "ir_slot_decl list" and m :: "nat \<rightharpoonup> string"
    by (induction ps arbitrary: m) auto
  from this [of "if_params f" Map.empty] show ?thesis by (simp add: slot_type_map_def)
qed

lemma ir_param_names_slots: "map fst (ir_param_names f names) = map sd_slot (if_params f)"
proof -
  have "map fst (map (\<lambda>(i, p). (sd_slot p, g i p)) (enumerate n ps)) = map sd_slot ps"
    for n and ps :: "ir_slot_decl list" and g :: "nat \<Rightarrow> ir_slot_decl \<Rightarrow> string"
    by (induction ps arbitrary: n) auto
  then show ?thesis unfolding ir_param_names_def .
qed

end
