(* ===== verification/Ir_Lower.thy ===== *)
theory Ir_Lower
  imports Ir_Syntax "HOL-Library.Monad_Syntax"
begin

text \<open>
  The lowering of IR to solver terms shared by the back ends (\<open>ir_modules/ir_lower.rs\<close>) and the
  walk over the body of an implementation (\<open>ir_modules/ir_exec.rs\<close>).  The trait
  \<open>IrTermBuilder\<close> is a record of operations over the builder's state; operations that leave the
  state alone in every back end are plain functions.  The recursion through blocks and calls is
  not bounded in the code: the first argument bounds its depth, and \<open>None\<close> is the stack overflow
  beyond it.
\<close>

section \<open>Term builders\<close>

type_synonym slots = "nat \<rightharpoonup> smt_term"

record ir_slot_context =
  sc_slot_to_name :: "nat \<rightharpoonup> string"
  sc_slot_types :: "nat \<rightharpoonup> string"

record 's ir_builder =
  ib_int_const :: "int \<Rightarrow> smt_term"
  ib_get_or_create_named :: "string \<Rightarrow> 's \<Rightarrow> smt_term \<times> 's"
  ib_fresh_int :: "'s \<Rightarrow> smt_term \<times> 's"
  ib_push_eq_axiom :: "smt_term \<Rightarrow> smt_term \<Rightarrow> 's \<Rightarrow> 's"
  ib_arith :: "ir_arith_op \<Rightarrow> smt_term \<Rightarrow> smt_term \<Rightarrow> smt_term"
  ib_cmp_as_int :: "ir_cmp_op \<Rightarrow> smt_term \<Rightarrow> smt_term \<Rightarrow> smt_term"
  ib_ite_nonzero :: "smt_term \<Rightarrow> smt_term \<Rightarrow> smt_term \<Rightarrow> smt_term"
  ib_nullary_uf :: "string \<Rightarrow> 's \<Rightarrow> smt_term \<times> 's"
  ib_nary_uf :: "string \<Rightarrow> smt_term list \<Rightarrow> smt_term"
  ib_canonical_length :: "string \<Rightarrow> 's \<Rightarrow> smt_term \<times> 's"
  ib_try_known_builtin :: "string \<Rightarrow> smt_term list \<Rightarrow> smt_term option"
  ib_encode_field :: "ir_encode_ctx \<Rightarrow> nat \<Rightarrow> nat \<Rightarrow> slots \<Rightarrow> ir_slot_context \<Rightarrow> 's \<Rightarrow> smt_term \<times> 's"
  ib_encode_construct :: "ir_encode_ctx \<Rightarrow> string \<Rightarrow> (nat \<times> nat) list \<Rightarrow> slots \<Rightarrow> 's \<Rightarrow> smt_term \<times> 's"
  ib_wrap_machine_term :: "smt_term \<Rightarrow> smt_term"
  ib_push_ir_post :: "ir_pred \<Rightarrow> slots \<Rightarrow> 's \<Rightarrow> 's"

text \<open>A slot that has no term stands for any integer.\<close>

definition load_slot :: "'s ir_builder \<Rightarrow> slots \<Rightarrow> nat \<Rightarrow> 's \<Rightarrow> smt_term \<times> 's" where
  "load_slot B slots k s = (case slots k of Some t \<Rightarrow> (t, s) | None \<Rightarrow> ib_fresh_int B s)"

fun load_slots :: "'s ir_builder \<Rightarrow> slots \<Rightarrow> nat list \<Rightarrow> 's \<Rightarrow> smt_term list \<times> 's" where
  "load_slots B slots [] s = ([], s)"
| "load_slots B slots (k # ks) s =
     (let (t, s) = load_slot B slots k s; (ts, s) = load_slots B slots ks s in (t # ts, s))"

definition on_result_load_from_param :: "'s ir_builder \<Rightarrow> string \<Rightarrow> 's \<Rightarrow> 's" where
  "on_result_load_from_param B param s =
     (let (len_result, s) = ib_canonical_length B ''result'' s;
          (len_param, s) = ib_canonical_length B param s
      in ib_push_eq_axiom B len_result len_param s)"

definition on_result_construct :: "'s ir_builder \<Rightarrow> string \<Rightarrow> 's \<Rightarrow> 's" where
  "on_result_construct B type_id s =
     (let (tag_val, s) = ib_get_or_create_named B (ir_tag_name type_id) s
      in ib_push_eq_axiom B tag_val (ib_int_const B (pattern_hash_name type_id)) s)"

section \<open>Instructions\<close>

fun ir_arith_is_machine_op :: "ir_expr \<Rightarrow> bool" where
  "ir_arith_is_machine_op (IrArith op l r) \<longleftrightarrow> op = IrAdd \<or> op = IrSub \<or> op = IrMul"
| "ir_arith_is_machine_op _ \<longleftrightarrow> False"

definition bind_ir_computed :: "'s ir_builder \<Rightarrow> nat \<Rightarrow> smt_term \<Rightarrow> slots \<Rightarrow> ir_expr \<Rightarrow> 's \<Rightarrow> 's" where
  "bind_ir_computed B target computed slots e s =
     (let computed = (if target = result_slot \<and> ir_arith_is_machine_op e
                      then ib_wrap_machine_term B computed else computed)
      in case slots target of Some slot \<Rightarrow> ib_push_eq_axiom B computed slot s | None \<Rightarrow> s)"

text \<open>The loop over the instructions of a block or a callee: every slot written gets a constant.\<close>

type_synonym 's ir_encoder = "ir_expr \<Rightarrow> slots \<Rightarrow> ir_slot_context \<Rightarrow> 's \<Rightarrow> (smt_term \<times> 's) option"

definition declare_target ::
  "'s ir_builder \<Rightarrow> (nat \<Rightarrow> string) \<Rightarrow> nat \<Rightarrow> slots \<Rightarrow> 's \<Rightarrow> slots \<times> 's" where
  "declare_target B slot_name target local s =
     (if target \<noteq> result_slot \<and> local target = None
      then let (t, s) = ib_get_or_create_named B (slot_name target) s in (local(target \<mapsto> t), s)
      else (local, s))"

fun lower_instrs ::
  "'s ir_builder \<Rightarrow> 's ir_encoder \<Rightarrow> (nat \<Rightarrow> string) \<Rightarrow> ir_slot_context \<Rightarrow> ir_instr list \<Rightarrow> slots \<Rightarrow>
   smt_term option \<Rightarrow> 's \<Rightarrow> (slots \<times> smt_term option \<times> 's) option" where
  "lower_instrs B enc slot_name ctx [] local latest s = Some (local, latest, s)"
| "lower_instrs B enc slot_name ctx (i # is) local latest s =
     (let (local, s) = declare_target B slot_name (in_target i) local s in
      do {
        (computed, s) \<leftarrow> enc (in_expr i) local ctx s;
        lower_instrs B enc slot_name ctx is local (local (in_target i))
          (bind_ir_computed B (in_target i) computed local (in_expr i) s)
      })"

definition eval_ir_block ::
  "'s ir_builder \<Rightarrow> ir_encode_ctx \<Rightarrow> 's ir_encoder \<Rightarrow> nat \<Rightarrow> slots \<Rightarrow> ir_slot_context \<Rightarrow> 's \<Rightarrow>
   (smt_term option \<times> 's) option" where
  "eval_ir_block B C enc block slots ctx s =
     (case block_body C block of
        None \<Rightarrow> Some (None, s)
      | Some body \<Rightarrow>
          (let (block_result, s) = ib_get_or_create_named B (ir_block_result_name block) s in
           do {
             (local, latest, s) \<leftarrow> lower_instrs B enc (ir_block_slot_name block) ctx body
                                  (slots(result_slot \<mapsto> block_result)) None s;
             Some (latest, s)
           }))"

text \<open>A block that is missing, or empty, has an uninterpreted value.\<close>

definition eval_ir_block_or_uf ::
  "'s ir_builder \<Rightarrow> ir_encode_ctx \<Rightarrow> 's ir_encoder \<Rightarrow> nat \<Rightarrow> slots \<Rightarrow> ir_slot_context \<Rightarrow> 's \<Rightarrow>
   (smt_term \<times> 's) option" where
  "eval_ir_block_or_uf B C enc block slots ctx s =
     do {
       (v, s) \<leftarrow> eval_ir_block B C enc block slots ctx s;
       Some (case v of Some t \<Rightarrow> (t, s) | None \<Rightarrow> ib_nullary_uf B (ir_block_label_name block) s)
     }"

section \<open>Calls\<close>

definition call_param_name :: "string \<Rightarrow> nat \<Rightarrow> string" where
  "call_param_name f k = ir_call_temp_prefix f @ ''param_'' @ dec k"

definition call_result_name :: "string \<Rightarrow> string" where
  "call_result_name f = ir_call_temp_prefix f @ ''result''"

definition call_slot_name :: "string \<Rightarrow> nat \<Rightarrow> string" where
  "call_slot_name f k = ir_call_temp_prefix f @ ''slot_'' @ dec k"

fun bind_params ::
  "'s ir_builder \<Rightarrow> string \<Rightarrow> slots \<Rightarrow> (ir_slot_decl \<times> nat) list \<Rightarrow> slots \<Rightarrow> 's \<Rightarrow> slots \<times> 's" where
  "bind_params B f slots [] local s = (local, s)"
| "bind_params B f slots ((p, a) # pas) local s =
     (let (arg_val, s) = load_slot B slots a s;
          (slot_var, s) = ib_get_or_create_named B (call_param_name f (sd_slot p)) s
      in bind_params B f slots pas (local(sd_slot p \<mapsto> slot_var)) (ib_push_eq_axiom B arg_val slot_var s))"

definition eval_ir_call ::
  "'s ir_builder \<Rightarrow> ir_encode_ctx \<Rightarrow> 's ir_encoder \<Rightarrow> string \<Rightarrow> nat list \<Rightarrow> slots \<Rightarrow> 's \<Rightarrow>
   (smt_term option \<times> 's) option" where
  "eval_ir_call B C enc f args slots s =
     (case callee_ir C f of
        None \<Rightarrow> Some (None, s)
      | Some callee \<Rightarrow>
          if length (if_params callee) \<noteq> length args then Some (None, s)
          else
            (let (local, s) = bind_params B f slots (zip (if_params callee) args) Map.empty s;
                 (result_var, s) = ib_get_or_create_named B (call_result_name f) s;
                 ctx = \<lparr>sc_slot_to_name = map_of (rev (map (\<lambda>p. (sd_slot p, call_param_name f (sd_slot p)))
                                                         (if_params callee))),
                        sc_slot_types = slot_type_map callee\<rparr>
             in do {
               (local, latest, s) \<leftarrow> lower_instrs B enc (call_slot_name f) ctx (if_body callee)
                                    (local(result_slot \<mapsto> result_var)) None s;
               Some (local result_slot, s)
             }))"

definition encode_call ::
  "'s ir_builder \<Rightarrow> ir_encode_ctx \<Rightarrow> 's ir_encoder \<Rightarrow> string \<Rightarrow> nat list \<Rightarrow> slots \<Rightarrow> ir_slot_context \<Rightarrow> 's \<Rightarrow>
   (smt_term \<times> 's) option" where
  "encode_call B C enc f args slots ctx s =
     (case (if is_length_ir_call f (length args) then sc_slot_to_name ctx (hd args) else None) of
        Some name \<Rightarrow> Some (ib_canonical_length B name s)
      | None \<Rightarrow>
          do {
            (inlined, s) \<leftarrow> eval_ir_call B C enc f args slots s;
            (case inlined of
               Some t \<Rightarrow> Some (t, s)
             | None \<Rightarrow>
                 (let (ts, s) = load_slots B slots args s in
                  case ib_try_known_builtin B f ts of
                    Some t \<Rightarrow> Some (t, s)
                  | None \<Rightarrow> Some (ib_nary_uf B (ir_call_uf_name f) ts, s)))
          })"

section \<open>Expressions\<close>

definition encode_literal :: "'s ir_builder \<Rightarrow> ir_literal \<Rightarrow> 's \<Rightarrow> smt_term \<times> 's" where
  "encode_literal B lit s =
     (case lit of
        IrInt n \<Rightarrow> (ib_int_const B n, s)
      | IrFloat n \<Rightarrow> (ib_int_const B n, s)
      | IrBool b \<Rightarrow> (ib_int_const B (if b then 1 else 0), s)
      | IrStr _ \<Rightarrow> ib_fresh_int B s)"

text \<open>A projection out of a value that is itself a projection names the whole path.\<close>

definition encode_field_expr ::
  "'s ir_builder \<Rightarrow> ir_encode_ctx \<Rightarrow> nat \<Rightarrow> nat \<Rightarrow> string option \<Rightarrow> slots \<Rightarrow> ir_slot_context \<Rightarrow> 's \<Rightarrow>
   smt_term \<times> 's" where
  "encode_field_expr B C slot i name slots ctx s =
     (if name = None \<and> i = 0 \<and>
         (case sc_slot_types ctx slot of Some t \<Rightarrow> is_collection_ir_type t | None \<Rightarrow> False)
      then ib_encode_field B C slot i slots ctx s
      else
        let field_name = (case name of Some n \<Rightarrow> n | None \<Rightarrow> dec i) in
        case sc_slot_to_name ctx slot of
          Some base_name \<Rightarrow>
            if str_contains base_name ''__''
            then ib_get_or_create_named B (base_name @ ''__'' @ field_name) s
            else let (base, s) = load_slot B slots slot s
                 in (ib_nary_uf B (field_uif_name field_name) [base], s)
        | None \<Rightarrow>
            let (base, s) = load_slot B slots slot s
            in (ib_nary_uf B (field_uif_name field_name) [base], s))"

definition encode_transition :: "'s ir_builder \<Rightarrow> nat \<Rightarrow> string \<Rightarrow> slots \<Rightarrow> 's \<Rightarrow> smt_term \<times> 's" where
  "encode_transition B slot state slots s =
     (let (val, s) = load_slot B slots slot s in (ib_nary_uf B (ir_state_uf_name state) [val], s))"

definition pattern_term :: "'s ir_builder \<Rightarrow> ir_match_pattern \<Rightarrow> smt_term option" where
  "pattern_term B pat =
     (case pat of
        IrPatWildcard \<Rightarrow> None
      | IrPatInt n \<Rightarrow> Some (ib_int_const B n)
      | IrPatBool b \<Rightarrow> Some (ib_int_const B (if b then 1 else 0))
      | IrPatStr t \<Rightarrow> Some (ib_int_const B (pattern_hash_name t)))"

text \<open>The arms are lowered from the last to the first.\<close>

fun lower_arms ::
  "'s ir_builder \<Rightarrow> ir_encode_ctx \<Rightarrow> 's ir_encoder \<Rightarrow> smt_term \<Rightarrow> slots \<Rightarrow> ir_slot_context \<Rightarrow>
   (ir_match_pattern \<times> nat) list \<Rightarrow> smt_term \<Rightarrow> 's \<Rightarrow> (smt_term \<times> 's) option" where
  "lower_arms B C enc scr slots ctx [] otherwise s = Some (otherwise, s)"
| "lower_arms B C enc scr slots ctx ((pat, block) # arms) otherwise s =
     do {
       (result, s) \<leftarrow> lower_arms B C enc scr slots ctx arms otherwise s;
       (block_val, s) \<leftarrow> eval_ir_block_or_uf B C enc block slots ctx s;
       Some (case pattern_term B pat of
               None \<Rightarrow> (block_val, s)
             | Some v \<Rightarrow> (ib_ite_nonzero B (ib_cmp_as_int B IrEq scr v) block_val result, s))
     }"

definition encode_match ::
  "'s ir_builder \<Rightarrow> ir_encode_ctx \<Rightarrow> 's ir_encoder \<Rightarrow> nat \<Rightarrow> (ir_match_pattern \<times> nat) list \<Rightarrow> slots \<Rightarrow>
   ir_slot_context \<Rightarrow> 's \<Rightarrow> (smt_term \<times> 's) option" where
  "encode_match B C enc scrutinee arms slots ctx s =
     (let (scr, s) = load_slot B slots scrutinee s;
          (otherwise, s) = ib_nullary_uf B ''__match_default'' s
      in lower_arms B C enc scr slots ctx arms otherwise s)"

definition encode_if ::
  "'s ir_builder \<Rightarrow> ir_encode_ctx \<Rightarrow> 's ir_encoder \<Rightarrow> nat \<Rightarrow> nat \<Rightarrow> nat \<Rightarrow> slots \<Rightarrow> ir_slot_context \<Rightarrow> 's \<Rightarrow>
   (smt_term \<times> 's) option" where
  "encode_if B C enc cond then_block else_block slots ctx s =
     (let (c, s) = load_slot B slots cond s in
      do {
        (t, s) \<leftarrow> eval_ir_block_or_uf B C enc then_block slots ctx s;
        (e, s) \<leftarrow> eval_ir_block_or_uf B C enc else_block slots ctx s;
        Some (ib_ite_nonzero B c t e, s)
      })"

definition encode_step :: "'s ir_builder \<Rightarrow> ir_encode_ctx \<Rightarrow> 's ir_encoder \<Rightarrow> 's ir_encoder" where
  "encode_step B C enc expr slots ctx s =
     (case expr of
        IrConst lit \<Rightarrow> Some (encode_literal B lit s)
      | IrLoad k \<Rightarrow> Some (load_slot B slots k s)
      | IrArith op l r \<Rightarrow>
          (let (a, s) = load_slot B slots l s; (b, s) = load_slot B slots r s
           in Some (ib_arith B op a b, s))
      | IrCmp op l r \<Rightarrow>
          (let (a, s) = load_slot B slots l s; (b, s) = load_slot B slots r s
           in Some (ib_cmp_as_int B op a b, s))
      | IrCall f args \<Rightarrow> encode_call B C enc f args slots ctx s
      | IrField k i name \<Rightarrow> Some (encode_field_expr B C k i name slots ctx s)
      | IrConstruct type_id fs \<Rightarrow> Some (ib_encode_construct B C type_id fs slots s)
      | IrCast k _ \<Rightarrow> Some (load_slot B slots k s)
      | IrTransition k state \<Rightarrow> Some (encode_transition B k state slots s)
      | IrIf c t e \<Rightarrow> encode_if B C enc c t e slots ctx s
      | IrMatch k arms \<Rightarrow> encode_match B C enc k arms slots ctx s
      | IrLoop body_block cond \<Rightarrow>
          (let (_, s) = load_slot B slots cond s
           in eval_ir_block_or_uf B C enc body_block slots ctx s))"

fun encode_ir_expr :: "nat \<Rightarrow> 's ir_builder \<Rightarrow> ir_encode_ctx \<Rightarrow> 's ir_encoder" where
  "encode_ir_expr 0 B C expr slots ctx s = None"
| "encode_ir_expr (Suc n) B C expr slots ctx s = encode_step B C (encode_ir_expr n B C) expr slots ctx s"

section \<open>The body of an implementation\<close>

text \<open>The names of the values projections lead to, and the axioms special results get.\<close>

definition track_field_name :: "ir_instr \<Rightarrow> (nat \<rightharpoonup> string) \<Rightarrow> (nat \<rightharpoonup> string)" where
  "track_field_name i names =
     (case in_expr i of
        IrField k n name \<Rightarrow>
          (case names k of
             Some base_name \<Rightarrow>
               names(in_target i \<mapsto> base_name @ ''__'' @ (case name of Some f \<Rightarrow> f | None \<Rightarrow> dec n))
           | None \<Rightarrow> names)
      | _ \<Rightarrow> names)"

definition result_hooks :: "'s ir_builder \<Rightarrow> ir_instr \<Rightarrow> (nat \<rightharpoonup> string) \<Rightarrow> 's \<Rightarrow> 's" where
  "result_hooks B i names s =
     (if in_target i \<noteq> result_slot then s
      else case in_expr i of
             IrLoad src \<Rightarrow> (case names src of Some param \<Rightarrow> on_result_load_from_param B param s | None \<Rightarrow> s)
           | IrConstruct type_id _ \<Rightarrow> on_result_construct B type_id s
           | _ \<Rightarrow> s)"

fun apply_instrs ::
  "'s ir_builder \<Rightarrow> 's ir_encoder \<Rightarrow> (nat \<rightharpoonup> string) \<Rightarrow> ir_instr list \<Rightarrow> (nat \<rightharpoonup> string) \<Rightarrow> slots \<Rightarrow> 's \<Rightarrow>
   (slots \<times> 's) option" where
  "apply_instrs B enc types [] names slots s = Some (slots, s)"
| "apply_instrs B enc types (i # is) names slots s =
     (let (slots, s) = declare_target B ir_slot_name (in_target i) slots s in
      do {
        (computed, s) \<leftarrow> enc (in_expr i) slots \<lparr>sc_slot_to_name = names, sc_slot_types = types\<rparr> s;
        let s = bind_ir_computed B (in_target i) computed slots (in_expr i) s;
        let names = track_field_name i names;
        apply_instrs B enc types is names slots (result_hooks B i names s)
      })"

definition apply_ir_body_constraints ::
  "nat \<Rightarrow> 's ir_builder \<Rightarrow> ir_encode_ctx \<Rightarrow> ir_function \<Rightarrow> string list \<Rightarrow> slots \<Rightarrow> 's \<Rightarrow> (slots \<times> 's) option" where
  "apply_ir_body_constraints n B C f contract_param_names slots s =
     do {
       (slots, s) \<leftarrow> apply_instrs B (encode_ir_expr n B C) (slot_type_map f) (if_body f)
                       (map_of (rev (ir_param_names f contract_param_names))) slots s;
       Some (slots, case if_post f of Some post \<Rightarrow> ib_push_ir_post B post slots s | None \<Rightarrow> s)
     }"

text \<open>The slots a back end starts from: the parameters and the result, as constants.\<close>

fun param_slots :: "'s ir_builder \<Rightarrow> (nat \<times> string) list \<Rightarrow> slots \<Rightarrow> 's \<Rightarrow> slots \<times> 's" where
  "param_slots B [] slots s = (slots, s)"
| "param_slots B ((k, name) # ps) slots s =
     (let (t, s) = ib_get_or_create_named B name s in param_slots B ps (slots(k \<mapsto> t)) s)"

end
