(* ===== verification/Ir_Sound.thy ===== *)
theory Ir_Sound
  imports Ir_Lower
begin

text \<open>
  What the lowering of IR promises.  The reference is an interpreter of IR over integers; the
  interface of a term builder is the locale \<open>ir_builder_sem\<close>, and its client's lemma says that in
  every model of the axioms the lowering emits, every slot has the value the interpreter
  computes for it.
\<close>

section \<open>An interpreter\<close>

text \<open>
  The integers arithmetic, comparisons, blocks, matches and calls compute.  Strings and matches
  against them, records, typestates, lengths and loops have no integer the solver terms could be
  compared with: they have no value here.  The semantics is given by the values of the functions
  without a body, some of which may have none, the divisors for which division is defined, and the
  machine type results are reduced to.
\<close>

record ir_semantics =
  ir_ext :: "string \<Rightarrow> int list \<Rightarrow> int option"
  ir_divisor :: "int \<Rightarrow> bool"
  ir_machine :: "(nat \<times> bool) option"

type_synonym env = "nat \<rightharpoonup> int"

type_synonym evaluator = "ir_expr \<Rightarrow> env \<Rightarrow> int option"

fun arith_value :: "(int \<Rightarrow> bool) \<Rightarrow> ir_arith_op \<Rightarrow> int \<Rightarrow> int \<Rightarrow> int option" where
  "arith_value d IrAdd a b = Some (a + b)"
| "arith_value d IrSub a b = Some (a - b)"
| "arith_value d IrMul a b = Some (a * b)"
| "arith_value d IrDiv a b = (if d b then Some (a sdiv b) else None)"
| "arith_value d IrMod a b = (if d b then Some (a smod b) else None)"

fun cmp_holds :: "ir_cmp_op \<Rightarrow> int \<Rightarrow> int \<Rightarrow> bool" where
  "cmp_holds IrEq a b \<longleftrightarrow> a = b"
| "cmp_holds IrNe a b \<longleftrightarrow> a \<noteq> b"
| "cmp_holds IrLt a b \<longleftrightarrow> a < b"
| "cmp_holds IrLe a b \<longleftrightarrow> a \<le> b"
| "cmp_holds IrGt a b \<longleftrightarrow> a > b"
| "cmp_holds IrGe a b \<longleftrightarrow> a \<ge> b"

definition cmp_value :: "ir_cmp_op \<Rightarrow> int \<Rightarrow> int \<Rightarrow> int" where
  "cmp_value op a b = (if cmp_holds op a b then 1 else 0)"

fun literal_value :: "ir_literal \<Rightarrow> int option" where
  "literal_value (IrInt n) = Some n"
| "literal_value (IrFloat n) = Some n"
| "literal_value (IrBool b) = Some (if b then 1 else 0)"
| "literal_value (IrStr _) = None"

definition stored_value :: "ir_semantics \<Rightarrow> ir_instr \<Rightarrow> int \<Rightarrow> int" where
  "stored_value S i v =
     (if in_target i = result_slot \<and> ir_arith_is_machine_op (in_expr i)
      then machine_value (ir_machine S) v else v)"

fun run_instrs :: "ir_semantics \<Rightarrow> evaluator \<Rightarrow> ir_instr list \<Rightarrow> env \<Rightarrow> env option" where
  "run_instrs S ev [] env = Some env"
| "run_instrs S ev (i # is) env =
     do { v \<leftarrow> ev (in_expr i) env; run_instrs S ev is (env(in_target i \<mapsto> stored_value S i v)) }"

definition run_block :: "ir_semantics \<Rightarrow> ir_encode_ctx \<Rightarrow> evaluator \<Rightarrow> nat \<Rightarrow> env \<Rightarrow> int option" where
  "run_block S C ev block env =
     do {
       body \<leftarrow> block_body C block;
       if body = [] then None
       else do { env \<leftarrow> run_instrs S ev body (env(result_slot := None)); env (in_target (last body)) }
     }"

fun param_env :: "(ir_slot_decl \<times> int) list \<Rightarrow> env \<Rightarrow> env" where
  "param_env [] env = env"
| "param_env ((p, v) # pvs) env = param_env pvs (env(sd_slot p \<mapsto> v))"

definition run_call :: "ir_semantics \<Rightarrow> ir_encode_ctx \<Rightarrow> evaluator \<Rightarrow> string \<Rightarrow> nat list \<Rightarrow> env \<Rightarrow> int option" where
  "run_call S C ev f args env =
     do {
       vs \<leftarrow> those (map env args);
       (case callee_ir C f of
          None \<Rightarrow> ir_ext S f vs
        | Some callee \<Rightarrow>
            if length (if_params callee) \<noteq> length args then ir_ext S f vs
            else do {
              env \<leftarrow> run_instrs S ev (if_body callee)
                       ((param_env (zip (if_params callee) vs) Map.empty)(result_slot := None));
              env result_slot
            })
     }"

text \<open>Whether a pattern matches; a string is compared with no integer.\<close>

definition pattern_matches :: "ir_match_pattern \<Rightarrow> int \<Rightarrow> bool option" where
  "pattern_matches pat v =
     (case pat of
        IrPatWildcard \<Rightarrow> Some True
      | IrPatInt n \<Rightarrow> Some (v = n)
      | IrPatBool b \<Rightarrow> Some (v = (if b then 1 else 0))
      | IrPatStr t \<Rightarrow> None)"

fun run_arms ::
  "ir_semantics \<Rightarrow> ir_encode_ctx \<Rightarrow> evaluator \<Rightarrow> int \<Rightarrow> (ir_match_pattern \<times> nat) list \<Rightarrow> env \<Rightarrow> int option" where
  "run_arms S C ev v [] env = None"
| "run_arms S C ev v ((pat, block) # arms) env =
     do { m \<leftarrow> pattern_matches pat v; if m then run_block S C ev block env else run_arms S C ev v arms env }"

definition value_step :: "ir_semantics \<Rightarrow> ir_encode_ctx \<Rightarrow> evaluator \<Rightarrow> evaluator" where
  "value_step S C ev expr env =
     (case expr of
        IrConst lit \<Rightarrow> literal_value lit
      | IrLoad k \<Rightarrow> env k
      | IrCast k _ \<Rightarrow> env k
      | IrArith op l r \<Rightarrow> do { a \<leftarrow> env l; b \<leftarrow> env r; arith_value (ir_divisor S) op a b }
      | IrCmp op l r \<Rightarrow> do { a \<leftarrow> env l; b \<leftarrow> env r; Some (cmp_value op a b) }
      | IrCall f args \<Rightarrow> if is_length_ir_call f (length args) then None else run_call S C ev f args env
      | IrIf c t e \<Rightarrow> do { v \<leftarrow> env c; run_block S C ev (if v \<noteq> 0 then t else e) env }
      | IrMatch k arms \<Rightarrow> do { v \<leftarrow> env k; run_arms S C ev v arms env }
      | _ \<Rightarrow> None)"

fun ir_value :: "nat \<Rightarrow> ir_semantics \<Rightarrow> ir_encode_ctx \<Rightarrow> evaluator" where
  "ir_value 0 S C expr env = None"
| "ir_value (Suc n) S C expr env = value_step S C (ir_value n S C) expr env"

definition run_ir_function ::
  "nat \<Rightarrow> ir_semantics \<Rightarrow> ir_encode_ctx \<Rightarrow> ir_function \<Rightarrow> env \<Rightarrow> env option" where
  "run_ir_function n S C f env = run_instrs S (ir_value n S C) (if_body f) env"

section \<open>The interface of a term builder\<close>

definition agree :: "smt_model \<Rightarrow> slots \<Rightarrow> env \<Rightarrow> bool" where
  "agree M slots env \<longleftrightarrow> (\<forall>k v. env k = Some v \<longrightarrow> (\<exists>t. slots k = Some t \<and> ieval M t = v))"

definition enc_mono :: "('s \<Rightarrow> bool) \<Rightarrow> 's ir_encoder \<Rightarrow> bool" where
  "enc_mono sat enc \<longleftrightarrow>
     (\<forall>e slots ctx s t s'. enc e slots ctx s = Some (t, s') \<longrightarrow> sat s' \<longrightarrow> sat s)"

definition enc_sound :: "smt_model \<Rightarrow> ('s \<Rightarrow> bool) \<Rightarrow> 's ir_encoder \<Rightarrow> evaluator \<Rightarrow> bool" where
  "enc_sound M sat enc ev \<longleftrightarrow>
     (\<forall>e slots ctx s t s' env v.
        enc e slots ctx s = Some (t, s') \<longrightarrow> sat s' \<longrightarrow> agree M slots env \<longrightarrow> ev e env = Some v \<longrightarrow>
        ieval M t = v)"

lemma agreeD: "agree M slots env \<Longrightarrow> env k = Some v \<Longrightarrow> \<exists>t. slots k = Some t \<and> ieval M t = v"
  by (simp add: agree_def)

lemma agree_empty [simp]: "agree M slots Map.empty"
  by (simp add: agree_def)

lemma agree_update:
  "agree M slots env \<Longrightarrow> ieval M t = v \<Longrightarrow> agree M (slots(k \<mapsto> t)) (env(k \<mapsto> v))"
  by (auto simp: agree_def)

lemma agree_update_slot: "agree M slots env \<Longrightarrow> agree M (slots(k \<mapsto> t)) (env(k := None))"
  by (auto simp: agree_def)

lemma agree_update_new: "agree M slots env \<Longrightarrow> slots k = None \<Longrightarrow> agree M (slots(k \<mapsto> t)) env"
  by (auto simp: agree_def) (metis option.distinct(1))

lemma agree_bound: "agree M slots env \<Longrightarrow> slots k = Some t \<Longrightarrow> ieval M t = v \<Longrightarrow> agree M slots (env(k \<mapsto> v))"
  by (auto simp: agree_def)

locale ir_builder_sem =
  fixes B :: "'s ir_builder"
    and sat :: "smt_model \<Rightarrow> 's \<Rightarrow> bool"
    and S :: "smt_model \<Rightarrow> ir_semantics"
  assumes sat_named: "sat M (snd (ib_get_or_create_named B name s)) \<Longrightarrow> sat M s"
    and sat_fresh: "sat M (snd (ib_fresh_int B s)) \<Longrightarrow> sat M s"
    and sat_nullary: "sat M (snd (ib_nullary_uf B name s)) \<Longrightarrow> sat M s"
    and sat_length: "sat M (snd (ib_canonical_length B name s)) \<Longrightarrow> sat M s"
    and sat_field: "sat M (snd (ib_encode_field B C k i slots ctx s)) \<Longrightarrow> sat M s"
    and sat_construct: "sat M (snd (ib_encode_construct B C type_id fs slots s)) \<Longrightarrow> sat M s"
    and sat_post: "sat M (ib_push_ir_post B post slots s) \<Longrightarrow> sat M s"
    and sat_push: "sat M (ib_push_eq_axiom B l r s) \<longleftrightarrow> sat M s \<and> ieval M l = ieval M r"
    and const_value: "ieval M (ib_int_const B n) = n"
    and arith_term: "arith_value (ir_divisor (S M)) op (ieval M a) (ieval M b) = Some v \<Longrightarrow>
                      ieval M (ib_arith B op a b) = v"
    and cmp_term: "ieval M (ib_cmp_as_int B cmp a b) = cmp_value cmp (ieval M a) (ieval M b)"
    and ite_term: "ieval M (ib_ite_nonzero B c a b) = (if ieval M c \<noteq> 0 then ieval M a else ieval M b)"
    and wrap_term: "ieval M (ib_wrap_machine_term B t) = machine_value (ir_machine (S M)) (ieval M t)"
    and ext_builtin: "ib_try_known_builtin B f ts = Some t \<Longrightarrow> ir_ext (S M) f (map (ieval M) ts) = Some v \<Longrightarrow>
                      ieval M t = v"
    and ext_uf: "ib_try_known_builtin B f ts = None \<Longrightarrow> ir_ext (S M) f (map (ieval M) ts) = Some v \<Longrightarrow>
                 ieval M (ib_nary_uf B (ir_call_uf_name f) ts) = v"
begin

lemma sat_load_slot: "sat M (snd (load_slot B slots k s)) \<Longrightarrow> sat M s"
  by (auto simp: load_slot_def split: option.splits dest: sat_fresh)

lemma sat_load_slots: "sat M (snd (load_slots B slots ks s)) \<Longrightarrow> sat M s"
  by (induction ks arbitrary: s) (auto simp: Let_def case_prod_beta dest: sat_load_slot)

lemma sat_bind: "sat M (bind_ir_computed B k t slots e s) \<Longrightarrow> sat M s"
  by (auto simp: bind_ir_computed_def Let_def sat_push split: option.splits)

lemma sat_declare: "sat M (snd (declare_target B nm k slots s)) \<Longrightarrow> sat M s"
  by (auto simp: declare_target_def case_prod_beta dest: sat_named split: if_splits)

lemma sat_hooks: "sat M (result_hooks B i names s) \<Longrightarrow> sat M s"
  by (auto simp: result_hooks_def on_result_load_from_param_def on_result_construct_def case_prod_beta
      sat_push split: if_splits ir_expr.splits option.splits dest: sat_length sat_named)

lemma load_slot_agree:
  "agree M slots env \<Longrightarrow> env k = Some v \<Longrightarrow> \<exists>t. load_slot B slots k s = (t, s) \<and> ieval M t = v"
  by (drule (1) agreeD) (auto simp: load_slot_def)

lemma load_slots_agree:
  "agree M slots env \<Longrightarrow> those (map env ks) = Some vs \<Longrightarrow>
   \<exists>ts. load_slots B slots ks s = (ts, s) \<and> map (ieval M) ts = vs"
proof (induction ks arbitrary: vs)
  case (Cons k ks)
  then obtain v vs' where v: "env k = Some v" "those (map env ks) = Some vs'" "vs = v # vs'"
    by (auto split: option.splits)
  with Cons load_slot_agree [OF Cons.prems(1) v(1), of s] show ?case by auto
qed simp

lemma declare_agree:
  assumes "agree M slots env" and "declare_target B nm k slots s = (slots', s')"
  shows "agree M slots' env" and "k \<noteq> result_slot \<or> slots result_slot \<noteq> None \<Longrightarrow> slots' k \<noteq> None"
    and "slots result_slot \<noteq> None \<Longrightarrow> slots' result_slot = slots result_slot"
  using assms
  by (auto simp: declare_target_def case_prod_beta split: if_splits intro: agree_update_new)

lemma bind_agree:
  assumes "agree M slots env" and "slots (in_target i) \<noteq> None"
    and "sat M (bind_ir_computed B (in_target i) t slots (in_expr i) s)" and "ieval M t = v"
  shows "agree M slots (env(in_target i \<mapsto> stored_value (S M) i v))"
  using assms
  by (auto simp: bind_ir_computed_def Let_def sat_push wrap_term stored_value_def
      intro!: agree_bound split: if_splits)

end

section \<open>The lowering is sound\<close>

context ir_builder_sem
begin

lemma lower_instrs_mono:
  assumes "enc_mono (sat M) enc"
  shows "lower_instrs B enc nm ctx is local latest s = Some (local', latest', s') \<Longrightarrow> sat M s' \<Longrightarrow> sat M s"
proof (induction "is" arbitrary: local latest s)
  case (Cons i "is")
  obtain l1 s1 where d: "declare_target B nm (in_target i) local s = (l1, s1)" by fastforce
  with Cons.prems obtain t s2 where e: "enc (in_expr i) l1 ctx s1 = Some (t, s2)"
    and rest: "lower_instrs B enc nm ctx is l1 (l1 (in_target i))
                 (bind_ir_computed B (in_target i) t l1 (in_expr i) s2) = Some (local', latest', s')"
    by (auto simp: bind_eq_Some_conv)
  have "sat M s2" using Cons.IH [OF rest Cons.prems(2)] by (rule sat_bind)
  then have "sat M s1" using assms e by (auto simp: enc_mono_def)
  then show ?case using d sat_declare by (metis snd_conv)
qed simp

lemma lower_instrs_latest:
  "lower_instrs B enc nm ctx is local latest s = Some (local', latest', s') \<Longrightarrow>
   local result_slot \<noteq> None \<Longrightarrow>
   local' result_slot = local result_slot \<and>
   latest' = (if is = [] then latest else local' (in_target (last is)))"
proof (induction "is" arbitrary: local latest s)
  case (Cons i "is")
  obtain l1 s1 where d: "declare_target B nm (in_target i) local s = (l1, s1)" by fastforce
  have r: "l1 result_slot = local result_slot"
    using d Cons.prems(2) by (auto simp: declare_target_def case_prod_beta split: if_splits)
  from d Cons.prems obtain t s2 where
    "lower_instrs B enc nm ctx is l1 (l1 (in_target i))
       (bind_ir_computed B (in_target i) t l1 (in_expr i) s2) = Some (local', latest', s')"
    by (auto simp: bind_eq_Some_conv)
  from Cons.IH [OF this] this r Cons.prems(2) show ?case by auto
qed simp

lemma lower_instrs_sound:
  assumes "enc_mono (sat M) enc" and "enc_sound M (sat M) enc ev"
  shows "lower_instrs B enc nm ctx is local latest s = Some (local', latest', s') \<Longrightarrow> sat M s' \<Longrightarrow>
         agree M local env \<Longrightarrow> local result_slot \<noteq> None \<Longrightarrow> run_instrs (S M) ev is env = Some env' \<Longrightarrow>
         agree M local' env'"
proof (induction "is" arbitrary: local latest s env)
  case (Cons i "is")
  obtain l1 s1 where d: "declare_target B nm (in_target i) local s = (l1, s1)" by fastforce
  with Cons.prems(1) obtain t s2 where e: "enc (in_expr i) l1 ctx s1 = Some (t, s2)"
    and rest: "lower_instrs B enc nm ctx is l1 (l1 (in_target i))
                 (bind_ir_computed B (in_target i) t l1 (in_expr i) s2) = Some (local', latest', s')"
    by (auto simp: bind_eq_Some_conv)
  from Cons.prems(5) obtain v where v: "ev (in_expr i) env = Some v"
    and run: "run_instrs (S M) ev is (env(in_target i \<mapsto> stored_value (S M) i v)) = Some env'"
    by (auto simp: bind_eq_Some_conv)
  note l1 = declare_agree [OF Cons.prems(3) d]
  have bound: "sat M (bind_ir_computed B (in_target i) t l1 (in_expr i) s2)"
    by (rule lower_instrs_mono [OF assms(1) rest Cons.prems(2)])
  then have "sat M s2" by (rule sat_bind)
  then have "ieval M t = v" using assms(2) e l1(1) v by (auto simp: enc_sound_def)
  with bind_agree [OF l1(1) l1(2) bound] Cons.prems(4)
  have "agree M l1 (env(in_target i \<mapsto> stored_value (S M) i v))" by blast
  from Cons.IH [OF rest Cons.prems(2) this _ run] l1(3) Cons.prems(4) show ?case by simp
qed simp

lemma eval_ir_block_mono:
  assumes "enc_mono (sat M) enc" and "eval_ir_block B C enc b slots ctx s = Some (r, s')" and "sat M s'"
  shows "sat M s"
  using assms lower_instrs_mono [OF assms(1)]
  by (fastforce simp: eval_ir_block_def case_prod_beta bind_eq_Some_conv split: option.splits dest: sat_named)

lemma block_or_uf_mono:
  assumes "enc_mono (sat M) enc" and "eval_ir_block_or_uf B C enc b slots ctx s = Some (t, s')" and "sat M s'"
  shows "sat M s"
proof -
  from assms(2) obtain r s1 where r: "eval_ir_block B C enc b slots ctx s = Some (r, s1)"
    and t: "(t, s') = (case r of Some t \<Rightarrow> (t, s1) | None \<Rightarrow> ib_nullary_uf B (ir_block_label_name b) s1)"
    by (auto simp: eval_ir_block_or_uf_def bind_eq_Some_conv)
  have "sat M s1" using t assms(3) sat_nullary by (cases r) (auto, metis snd_conv)
  then show ?thesis using eval_ir_block_mono [OF assms(1) r] by simp
qed

lemma block_or_uf_sound:
  assumes "enc_mono (sat M) enc" and "enc_sound M (sat M) enc ev"
    and "eval_ir_block_or_uf B C enc b slots ctx s = Some (t, s')" and "sat M s'"
    and "agree M slots env" and "run_block (S M) C ev b env = Some v"
  shows "ieval M t = v"
proof -
  from assms(6) obtain body env' where body: "block_body C b = Some body" "body \<noteq> []"
    and run: "run_instrs (S M) ev body (env(result_slot := None)) = Some env'"
    and v: "env' (in_target (last body)) = Some v"
    by (auto simp: run_block_def bind_eq_Some_conv split: if_splits)
  obtain t0 s0 where named: "ib_get_or_create_named B (ir_block_result_name b) s = (t0, s0)" by fastforce
  from assms(3) body named obtain local' latest' s1 where
    l: "lower_instrs B enc (ir_block_slot_name b) ctx body (slots(result_slot \<mapsto> t0)) None s0 =
          Some (local', latest', s1)"
    and t: "(t, s') = (case latest' of Some t \<Rightarrow> (t, s1) | None \<Rightarrow> ib_nullary_uf B (ir_block_label_name b) s1)"
    by (auto simp: eval_ir_block_or_uf_def eval_ir_block_def bind_eq_Some_conv split: prod.splits)
  have latest: "latest' = local' (in_target (last body))"
    using lower_instrs_latest [OF l] body(2) by simp
  have "sat M s1" using t assms(4) sat_nullary by (cases latest') (auto, metis snd_conv)
  then have "agree M local' env'"
    using lower_instrs_sound [OF assms(1,2) l _ agree_update_slot [OF assms(5)] _ run] by simp
  from agreeD [OF this v] t latest show ?thesis by auto
qed

lemma bind_params_mono: "sat M (snd (bind_params B f slots pas local s)) \<Longrightarrow> sat M s"
proof (induction pas arbitrary: local s)
  case (Cons pa pas)
  obtain p a where pa: "pa = (p, a)" by fastforce
  obtain t s1 where 1: "load_slot B slots a s = (t, s1)" by fastforce
  obtain u s2 where 2: "ib_get_or_create_named B (call_param_name f (sd_slot p)) s1 = (u, s2)" by fastforce
  from Cons pa 1 2 have "sat M (ib_push_eq_axiom B t u s2)" by simp
  then have "sat M s1" using sat_named [of M "call_param_name f (sd_slot p)" s1] 2 by (simp add: sat_push)
  then show ?case using sat_load_slot [of M slots a s] 1 by simp
qed simp

lemma bind_params_agree:
  assumes "agree M slots env"
  shows "length ps = length as \<Longrightarrow> those (map env as) = Some vs \<Longrightarrow>
         bind_params B f slots (zip ps as) local s = (local', s') \<Longrightarrow> sat M s' \<Longrightarrow> agree M local e \<Longrightarrow>
         agree M local' (param_env (zip ps vs) e)"
proof (induction ps as arbitrary: vs local s e rule: list_induct2)
  case (Cons p ps a as)
  from Cons.prems(1) obtain v vs' where v: "env a = Some v" "those (map env as) = Some vs'" "vs = v # vs'"
    by (auto split: option.splits)
  from load_slot_agree [OF assms v(1)] obtain t where t: "load_slot B slots a s = (t, s)" "ieval M t = v"
    by blast
  obtain u s2 where u: "ib_get_or_create_named B (call_param_name f (sd_slot p)) s = (u, s2)" by fastforce
  from Cons.prems(2) t(1) u have rest:
    "bind_params B f slots (zip ps as) (local(sd_slot p \<mapsto> u)) (ib_push_eq_axiom B t u s2) = (local', s')"
    by simp
  have "sat M (ib_push_eq_axiom B t u s2)"
    using bind_params_mono [of M f slots "zip ps as"] rest Cons.prems(3) by (metis snd_conv)
  then have "ieval M u = v" using t(2) by (simp add: sat_push)
  from Cons.IH [OF v(2) rest Cons.prems(3) agree_update [OF Cons.prems(4) this]] show ?case
    by (simp only: v(3) zip_Cons_Cons param_env.simps)
qed simp

lemma eval_ir_call_mono:
  assumes "enc_mono (sat M) enc" and "eval_ir_call B C enc f args slots s = Some (r, s')" and "sat M s'"
  shows "sat M s"
proof (cases "callee_ir C f")
  case (Some callee)
  obtain local s1 where 1: "bind_params B f slots (zip (if_params callee) args) Map.empty s = (local, s1)"
    by fastforce
  obtain u s2 where 2: "ib_get_or_create_named B (call_result_name f) s1 = (u, s2)" by fastforce
  show ?thesis
  proof (cases "length (if_params callee) = length args")
    case True
    with assms(2) Some 1 2 obtain ctx local' latest' where
      "lower_instrs B enc (call_slot_name f) ctx (if_body callee) (local(result_slot \<mapsto> u)) None s2 =
         Some (local', latest', s')"
      by (auto simp: eval_ir_call_def bind_eq_Some_conv)
    from lower_instrs_mono [OF assms(1) this assms(3)] have "sat M s1"
      using sat_named [of M "call_result_name f" s1] 2 by simp
    then show ?thesis using bind_params_mono [of M f slots "zip (if_params callee) args"] 1 by (metis snd_conv)
  qed (use assms Some in \<open>simp add: eval_ir_call_def\<close>)
qed (use assms in \<open>simp add: eval_ir_call_def\<close>)

lemma encode_call_mono:
  assumes "enc_mono (sat M) enc" and "encode_call B C enc f args slots ctx s = Some (t, s')" and "sat M s'"
  shows "sat M s"
proof (cases "if is_length_ir_call f (length args) then sc_slot_to_name ctx (hd args) else None")
  case None
  with assms(2) obtain r s1 where r: "eval_ir_call B C enc f args slots s = Some (r, s1)"
    and t: "(case r of Some t \<Rightarrow> Some (t, s1)
             | None \<Rightarrow> (let (ts, s) = load_slots B slots args s1 in
                  case ib_try_known_builtin B f ts of
                    Some t \<Rightarrow> Some (t, s)
                  | None \<Rightarrow> Some (ib_nary_uf B (ir_call_uf_name f) ts, s))) = Some (t, s')"
    by (auto simp: encode_call_def bind_eq_Some_conv)
  have "sat M s1"
    using t assms(3) sat_load_slots [of M slots args s1]
    by (auto simp: case_prod_beta split: option.splits)
  then show ?thesis using eval_ir_call_mono [OF assms(1) r] by simp
next
  case (Some name)
  with assms show ?thesis by (auto simp: encode_call_def) (metis sat_length snd_conv)
qed

lemma encode_call_sound:
  assumes "enc_mono (sat M) enc" and "enc_sound M (sat M) enc ev"
    and "\<not> is_length_ir_call f (length args)"
    and "encode_call B C enc f args slots ctx s = Some (t, s')" and "sat M s'"
    and "agree M slots env" and "run_call (S M) C ev f args env = Some v"
  shows "ieval M t = v"
proof -
  from assms(7) obtain vs where vs: "those (map env args) = Some vs" by (auto simp: run_call_def bind_eq_Some_conv)
  show ?thesis
  proof (cases "\<exists>callee. callee_ir C f = Some callee \<and> length (if_params callee) = length args")
    case False
    have inl: "eval_ir_call B C enc f args slots s = Some (None, s)"
      using False by (auto simp: eval_ir_call_def split: option.splits)
    have v: "ir_ext (S M) f vs = Some v"
      using assms(7) False vs by (auto simp: run_call_def split: option.splits if_splits)
    from load_slots_agree [OF assms(6) vs] obtain ts where
      ts: "load_slots B slots args s = (ts, s)" "map (ieval M) ts = vs" by blast
    from assms(3,4) inl ts(1) have "(case ib_try_known_builtin B f ts of
            Some t \<Rightarrow> Some (t, s) | None \<Rightarrow> Some (ib_nary_uf B (ir_call_uf_name f) ts, s)) = Some (t, s')"
      by (simp add: encode_call_def)
    then show ?thesis using ext_builtin ext_uf ts(2) v by (auto split: option.splits)
  next
    case True
    then obtain callee where callee: "callee_ir C f = Some callee" "length (if_params callee) = length args"
      by blast
    obtain local s1 where 1: "bind_params B f slots (zip (if_params callee) args) Map.empty s = (local, s1)"
      by fastforce
    obtain u s2 where 2: "ib_get_or_create_named B (call_result_name f) s1 = (u, s2)" by fastforce
    obtain r s3 where r: "eval_ir_call B C enc f args slots s = Some (r, s3)"
      using assms(3,4) by (auto simp: encode_call_def bind_eq_Some_conv)
    with callee 1 2 obtain ctx' local' latest' where
      l: "lower_instrs B enc (call_slot_name f) ctx' (if_body callee) (local(result_slot \<mapsto> u)) None s2 =
            Some (local', latest', s3)" and res: "r = local' result_slot"
      by (auto simp: eval_ir_call_def bind_eq_Some_conv)
    have "local' result_slot = Some u" using lower_instrs_latest [OF l] by simp
    with assms(3,4) r res have t: "t = u" "s' = s3" by (auto simp: encode_call_def)
    let ?e = "(param_env (zip (if_params callee) vs) Map.empty)(result_slot := None)"
    from assms(7) callee vs obtain env' where run: "run_instrs (S M) ev (if_body callee) ?e = Some env'"
      and v: "env' result_slot = Some v"
      by (auto simp: run_call_def bind_eq_Some_conv)
    have "sat M s2" using lower_instrs_mono [OF assms(1) l] assms(5) t(2) by simp
    then have "sat M s1" using sat_named [of M "call_result_name f" s1] 2 by simp
    from bind_params_agree [OF assms(6) callee(2) vs 1 this agree_empty]
    have "agree M (local(result_slot \<mapsto> u)) ?e" by (rule agree_update_slot)
    from lower_instrs_sound [OF assms(1,2) l _ this _ run] assms(5) t(2) have "agree M local' env'" by simp
    from agreeD [OF this v] \<open>local' result_slot = Some u\<close> t(1) show ?thesis by simp
  qed
qed

lemma lower_arms_mono:
  assumes "enc_mono (sat M) enc"
  shows "lower_arms B C enc scr slots ctx arms d s = Some (t, s') \<Longrightarrow> sat M s' \<Longrightarrow> sat M s"
proof (induction arms arbitrary: t s')
  case (Cons arm arms)
  obtain pat b where arm: "arm = (pat, b)" by fastforce
  with Cons.prems(1) obtain r s1 bv where
    r: "lower_arms B C enc scr slots ctx arms d s = Some (r, s1)"
    and bv: "eval_ir_block_or_uf B C enc b slots ctx s1 = Some (bv, s')"
    by (auto simp: bind_eq_Some_conv split: option.splits)
  from Cons.IH [OF r block_or_uf_mono [OF assms bv Cons.prems(2)]] show ?case .
qed simp

lemma pattern_term_value:
  "pattern_matches pat v = Some m \<Longrightarrow>
   m \<longleftrightarrow> (case pattern_term B pat of None \<Rightarrow> True | Some t \<Rightarrow> v = ieval M t)"
  by (auto simp: pattern_term_def pattern_matches_def const_value split: ir_match_pattern.splits)

lemma lower_arms_sound:
  assumes "enc_mono (sat M) enc" and "enc_sound M (sat M) enc ev" and "agree M slots env"
  shows "lower_arms B C enc scr slots ctx arms d s = Some (t, s') \<Longrightarrow> sat M s' \<Longrightarrow>
         run_arms (S M) C ev (ieval M scr) arms env = Some v \<Longrightarrow> ieval M t = v"
proof (induction arms arbitrary: t s')
  case (Cons arm arms)
  obtain pat b where arm: "arm = (pat, b)" by fastforce
  with Cons.prems(1) obtain r s1 bv where
    r: "lower_arms B C enc scr slots ctx arms d s = Some (r, s1)"
    and bv: "eval_ir_block_or_uf B C enc b slots ctx s1 = Some (bv, s')"
    and t: "t = (case pattern_term B pat of None \<Rightarrow> bv
                 | Some p \<Rightarrow> ib_ite_nonzero B (ib_cmp_as_int B IrEq scr p) bv r)"
    by (auto simp: bind_eq_Some_conv split: option.splits)
  have s1: "sat M s1" by (rule block_or_uf_mono [OF assms(1) bv Cons.prems(2)])
  note block = block_or_uf_sound [OF assms(1,2) bv Cons.prems(2) assms(3)]
  from Cons.prems(3) arm obtain m where m: "pattern_matches pat (ieval M scr) = Some m"
    and v: "(if m then run_block (S M) C ev b env else run_arms (S M) C ev (ieval M scr) arms env) = Some v"
    by (auto simp: bind_eq_Some_conv)
  from pattern_term_value [OF m, of M] v t Cons.IH [OF r s1] block show ?case
    by (auto simp: ite_term cmp_term cmp_value_def split: option.splits if_splits)
qed simp

lemma encode_if_mono:
  assumes "enc_mono (sat M) enc" and "encode_if B C enc c b1 b2 slots ctx s = Some (t, s')" and "sat M s'"
  shows "sat M s"
proof -
  obtain c0 s0 where c: "load_slot B slots c s = (c0, s0)" by fastforce
  with assms(2) obtain t1 s1 t2 where
    "eval_ir_block_or_uf B C enc b1 slots ctx s0 = Some (t1, s1)"
    "eval_ir_block_or_uf B C enc b2 slots ctx s1 = Some (t2, s')"
    by (auto simp: encode_if_def bind_eq_Some_conv)
  then have "sat M s0" using assms(1,3) block_or_uf_mono by blast
  then show ?thesis using c sat_load_slot by (metis snd_conv)
qed

lemma encode_if_sound:
  assumes "enc_mono (sat M) enc" and "enc_sound M (sat M) enc ev"
    and "encode_if B C enc c b1 b2 slots ctx s = Some (t, s')" and "sat M s'"
    and "agree M slots env" and "env c = Some w"
    and "run_block (S M) C ev (if w \<noteq> 0 then b1 else b2) env = Some v"
  shows "ieval M t = v"
proof -
  from load_slot_agree [OF assms(5,6)] obtain c0 where c: "load_slot B slots c s = (c0, s)" "ieval M c0 = w"
    by blast
  with assms(3) obtain t1 s1 t2 where
    1: "eval_ir_block_or_uf B C enc b1 slots ctx s = Some (t1, s1)" and
    2: "eval_ir_block_or_uf B C enc b2 slots ctx s1 = Some (t2, s')" and
    t: "t = ib_ite_nonzero B c0 t1 t2"
    by (auto simp: encode_if_def bind_eq_Some_conv)
  have "sat M s1" by (rule block_or_uf_mono [OF assms(1) 2 assms(4)])
  from block_or_uf_sound [OF assms(1,2) 1 this assms(5)] block_or_uf_sound [OF assms(1,2) 2 assms(4,5)]
    assms(7) c(2) t show ?thesis by (auto simp: ite_term split: if_splits)
qed

lemma encode_match_mono:
  assumes "enc_mono (sat M) enc" and "encode_match B C enc k arms slots ctx s = Some (t, s')" and "sat M s'"
  shows "sat M s"
proof -
  obtain scr s1 where 1: "load_slot B slots k s = (scr, s1)" by fastforce
  obtain d s2 where 2: "ib_nullary_uf B ''__match_default'' s1 = (d, s2)" by fastforce
  from assms(2) 1 2 have "lower_arms B C enc scr slots ctx arms d s2 = Some (t, s')"
    by (simp add: encode_match_def)
  from lower_arms_mono [OF assms(1) this assms(3)] have "sat M s1"
    using sat_nullary [of M "''__match_default''" s1] 2 by simp
  then show ?thesis using 1 sat_load_slot [of M slots k s] by simp
qed

lemma encode_match_sound:
  assumes "enc_mono (sat M) enc" and "enc_sound M (sat M) enc ev"
    and "encode_match B C enc k arms slots ctx s = Some (t, s')" and "sat M s'"
    and "agree M slots env" and "env k = Some w" and "run_arms (S M) C ev w arms env = Some v"
  shows "ieval M t = v"
proof -
  from load_slot_agree [OF assms(5,6)] obtain scr where 1: "load_slot B slots k s = (scr, s)" "ieval M scr = w"
    by blast
  obtain d s2 where 2: "ib_nullary_uf B ''__match_default'' s = (d, s2)" by fastforce
  from assms(3) 1 2 have "lower_arms B C enc scr slots ctx arms d s2 = Some (t, s')"
    by (simp add: encode_match_def)
  from lower_arms_sound [OF assms(1,2,5) this assms(4)] 1(2) assms(7) show ?thesis by simp
qed

lemma encode_step_mono:
  assumes "enc_mono (sat M) enc"
  shows "enc_mono (sat M) (encode_step B C enc)"
  unfolding enc_mono_def
proof (intro allI impI)
  fix e slots ctx s t s'
  assume e: "encode_step B C enc e slots ctx s = Some (t, s')" and s': "sat M s'"
  note loads = sat_load_slot sat_fresh sat_field sat_construct sat_named
  show "sat M s"
  proof (cases e)
    case (IrConst lit)
    with e s' show ?thesis
      using sat_fresh [of M s] by (cases lit) (auto simp: encode_step_def encode_literal_def)
  next
    case (IrCall f args)
    with e s' show ?thesis using encode_call_mono [OF assms] by (simp add: encode_step_def)
  next
    case (IrIf c b1 b2)
    with e s' show ?thesis using encode_if_mono [OF assms] by (simp add: encode_step_def)
  next
    case (IrMatch k arms)
    with e s' show ?thesis using encode_match_mono [OF assms] by (simp add: encode_step_def)
  next
    case (IrLoop b c)
    obtain c0 s0 where c: "load_slot B slots c s = (c0, s0)" by fastforce
    with e IrLoop have "eval_ir_block_or_uf B C enc b slots ctx s0 = Some (t, s')" by (simp add: encode_step_def)
    from block_or_uf_mono [OF assms this s'] show ?thesis using c sat_load_slot [of M slots c s] by simp
  next
    case (IrField k i name)
    with e have "sat M (snd (encode_field_expr B C k i name slots ctx s))" using s' by (simp add: encode_step_def)
    then show ?thesis
      by (auto simp: encode_field_expr_def Let_def case_prod_beta split: if_splits option.splits dest: loads)
  next
    case (IrArith op l r)
    with e have "sat M (snd (load_slot B slots r (snd (load_slot B slots l s))))" using s'
      by (auto simp: encode_step_def case_prod_beta)
    then show ?thesis by (auto dest: loads)
  next
    case (IrCmp op l r)
    with e have "sat M (snd (load_slot B slots r (snd (load_slot B slots l s))))" using s'
      by (auto simp: encode_step_def case_prod_beta)
    then show ?thesis by (auto dest: loads)
  next
    case (IrTransition k state)
    with e have "sat M (snd (load_slot B slots k s))" using s'
      by (auto simp: encode_step_def encode_transition_def case_prod_beta)
    then show ?thesis by (rule loads)
  next
    case (IrLoad k)
    with e have "sat M (snd (load_slot B slots k s))" using s' by (simp add: encode_step_def)
    then show ?thesis by (rule loads)
  next
    case (IrCast k ty)
    with e have "sat M (snd (load_slot B slots k s))" using s' by (simp add: encode_step_def)
    then show ?thesis by (rule loads)
  next
    case (IrConstruct type_id fs)
    with e have "sat M (snd (ib_encode_construct B C type_id fs slots s))" using s' by (simp add: encode_step_def)
    then show ?thesis by (rule loads)
  qed
qed

lemma encode_step_sound:
  assumes "enc_mono (sat M) enc" and "enc_sound M (sat M) enc ev"
  shows "enc_sound M (sat M) (encode_step B C enc) (value_step (S M) C ev)"
  unfolding enc_sound_def
proof (intro allI impI)
  fix e slots ctx s t s' env v
  assume e: "encode_step B C enc e slots ctx s = Some (t, s')" and s': "sat M s'"
    and a: "agree M slots env" and v: "value_step (S M) C ev e env = Some v"
  show "ieval M t = v"
  proof (cases e)
    case (IrConst lit)
    with e v show ?thesis
      by (cases lit) (auto simp: encode_step_def value_step_def encode_literal_def const_value)
  next
    case (IrCall f args)
    with e v have "\<not> is_length_ir_call f (length args)" "run_call (S M) C ev f args env = Some v"
      "encode_call B C enc f args slots ctx s = Some (t, s')"
      by (auto simp: encode_step_def value_step_def split: if_splits)
    with s' a show ?thesis using encode_call_sound [OF assms] by blast
  next
    case (IrIf c b1 b2)
    with v obtain w where "env c = Some w" "run_block (S M) C ev (if w \<noteq> 0 then b1 else b2) env = Some v"
      by (auto simp: value_step_def bind_eq_Some_conv)
    moreover from IrIf e have "encode_if B C enc c b1 b2 slots ctx s = Some (t, s')" by (simp add: encode_step_def)
    ultimately show ?thesis using encode_if_sound [OF assms] s' a by blast
  next
    case (IrMatch k arms)
    with v obtain w where "env k = Some w" "run_arms (S M) C ev w arms env = Some v"
      by (auto simp: value_step_def bind_eq_Some_conv)
    moreover from IrMatch e have "encode_match B C enc k arms slots ctx s = Some (t, s')" by (simp add: encode_step_def)
    ultimately show ?thesis using encode_match_sound [OF assms] s' a by blast
  next
    case (IrArith op l r)
    with v obtain x y where xy: "env l = Some x" "env r = Some y" "arith_value (ir_divisor (S M)) op x y = Some v"
      by (auto simp: value_step_def bind_eq_Some_conv)
    from load_slot_agree [OF a xy(1)] load_slot_agree [OF a xy(2)] e IrArith xy(3) show ?thesis
      by (auto simp: encode_step_def case_prod_beta) (metis arith_term fst_conv snd_conv)
  next
    case (IrCmp op l r)
    with v obtain x y where xy: "env l = Some x" "env r = Some y" "cmp_value op x y = v"
      by (auto simp: value_step_def bind_eq_Some_conv)
    from load_slot_agree [OF a xy(1)] load_slot_agree [OF a xy(2)] e IrCmp xy(3) show ?thesis
      by (auto simp: encode_step_def case_prod_beta) (metis cmp_term fst_conv snd_conv)
  next
    case (IrLoad k)
    with v have "env k = Some v" by (simp add: value_step_def)
    from load_slot_agree [OF a this, of s] e IrLoad show ?thesis by (auto simp: encode_step_def)
  next
    case (IrCast k ty)
    with v have "env k = Some v" by (simp add: value_step_def)
    from load_slot_agree [OF a this, of s] e IrCast show ?thesis by (auto simp: encode_step_def)
  qed (use v in \<open>simp_all add: value_step_def\<close>)
qed

lemma encode_mono: "enc_mono (sat M) (encode_ir_expr n B C)"
proof (induction n)
  case (Suc n)
  then show ?case using encode_step_mono [OF Suc] by (simp add: enc_mono_def)
qed (simp add: enc_mono_def)

lemma encode_sound: "enc_sound M (sat M) (encode_ir_expr n B C) (ir_value m (S M) C)"
proof (induction n arbitrary: m)
  case (Suc n)
  show ?case
  proof (cases m)
    case (Suc m')
    with encode_step_sound [OF encode_mono Suc.IH] show ?thesis by (simp add: enc_sound_def)
  qed (simp add: enc_sound_def)
qed (simp add: enc_sound_def)

lemma apply_instrs_mono:
  "apply_instrs B (encode_ir_expr n B C) types is names slots s = Some (slots', s') \<Longrightarrow> sat M s' \<Longrightarrow> sat M s"
proof (induction "is" arbitrary: names slots s)
  case (Cons i "is")
  obtain l1 s1 where d: "declare_target B ir_slot_name (in_target i) slots s = (l1, s1)" by fastforce
  with Cons.prems(1) obtain t s2 names' where
    e: "encode_ir_expr n B C (in_expr i) l1 \<lparr>sc_slot_to_name = names, sc_slot_types = types\<rparr> s1 = Some (t, s2)"
    and rest: "apply_instrs B (encode_ir_expr n B C) types is names' l1
      (result_hooks B i names' (bind_ir_computed B (in_target i) t l1 (in_expr i) s2)) = Some (slots', s')"
    by (auto simp: bind_eq_Some_conv Let_def)
  have "sat M s2" using Cons.IH [OF rest Cons.prems(2)] sat_hooks sat_bind by blast
  then have "sat M s1" using encode_mono e by (auto simp: enc_mono_def)
  then show ?case using d sat_declare by (metis snd_conv)
qed simp

lemma apply_instrs_sound:
  "apply_instrs B (encode_ir_expr n B C) types is names slots s = Some (slots', s') \<Longrightarrow> sat M s' \<Longrightarrow>
   agree M slots env \<Longrightarrow> slots result_slot \<noteq> None \<Longrightarrow>
   run_instrs (S M) (ir_value m (S M) C) is env = Some env' \<Longrightarrow>
   agree M slots' env' \<and> slots' result_slot = slots result_slot"
proof (induction "is" arbitrary: names slots s env)
  case (Cons i "is")
  obtain l1 s1 where d: "declare_target B ir_slot_name (in_target i) slots s = (l1, s1)" by fastforce
  with Cons.prems(1) obtain t s2 names' where
    e: "encode_ir_expr n B C (in_expr i) l1 \<lparr>sc_slot_to_name = names, sc_slot_types = types\<rparr> s1 = Some (t, s2)"
    and rest: "apply_instrs B (encode_ir_expr n B C) types is names' l1
      (result_hooks B i names' (bind_ir_computed B (in_target i) t l1 (in_expr i) s2)) = Some (slots', s')"
    by (auto simp: bind_eq_Some_conv Let_def)
  from Cons.prems(5) obtain v where v: "ir_value m (S M) C (in_expr i) env = Some v"
    and run: "run_instrs (S M) (ir_value m (S M) C) is (env(in_target i \<mapsto> stored_value (S M) i v)) = Some env'"
    by (auto simp: bind_eq_Some_conv)
  note l1 = declare_agree [OF Cons.prems(3) d]
  have bound: "sat M (bind_ir_computed B (in_target i) t l1 (in_expr i) s2)"
    using apply_instrs_mono [OF rest Cons.prems(2)] by (rule sat_hooks)
  then have "sat M s2" by (rule sat_bind)
  then have "ieval M t = v" using encode_sound e l1(1) v by (auto simp: enc_sound_def)
  with bind_agree [OF l1(1) l1(2) bound] Cons.prems(4)
  have "agree M l1 (env(in_target i \<mapsto> stored_value (S M) i v))" by blast
  from Cons.IH [OF rest Cons.prems(2) this _ run] l1(3) Cons.prems(4) show ?case by simp
qed simp

text \<open>In a model of the axioms of a body, the slots have the values its execution computes.\<close>

lemma apply_sound:
  assumes "apply_ir_body_constraints n B C f names slots s = Some (slots', s')" and "sat M s'"
    and "agree M slots env" and "slots result_slot \<noteq> None"
    and "run_ir_function m (S M) C f env = Some env'"
  shows "agree M slots' env' \<and> slots' result_slot = slots result_slot \<and> sat M s"
proof -
  from assms(1) obtain s1 where
    a: "apply_instrs B (encode_ir_expr n B C) (slot_type_map f) (if_body f)
          (map_of (rev (ir_param_names f names))) slots s = Some (slots', s1)"
    and s': "s' = (case if_post f of Some post \<Rightarrow> ib_push_ir_post B post slots' s1 | None \<Rightarrow> s1)"
    by (auto simp: apply_ir_body_constraints_def bind_eq_Some_conv)
  have "sat M s1" using s' assms(2) by (auto split: option.splits dest: sat_post)
  with apply_instrs_sound [OF a this assms(3,4) assms(5) [unfolded run_ir_function_def]]
    apply_instrs_mono [OF a this] show ?thesis by simp
qed

end

end
