(* ===== verification/Ir_Builders.thy ===== *)
theory Ir_Builders
  imports Ir_Sound
begin

text \<open>
  The two term builders: the shell back end that writes an SMT-LIB script
  (\<open>cvc5_backend/cvc5_ir_smtlib.rs\<close>) and the Z3 back end (\<open>z3_backend/havoc_assume.rs\<close>,
  \<open>z3_backend/encoder/core_impl.rs\<close>, \<open>z3_backend/encoder/adt.rs\<close>).  Both meet the interface
  \<open>ir_builder_sem\<close>, the shell for positive divisors only.
\<close>

section \<open>The shell back end\<close>

datatype smt_cmd = Declare_Const string | Declare_Fun string | Assert smt_axiom

record smtlib_state =
  ss_script :: "smt_cmd list"
  ss_vars :: "string set"
  ss_fresh :: nat
  ss_adts :: "string set"

definition emit :: "smt_cmd \<Rightarrow> smtlib_state \<Rightarrow> smtlib_state" where
  "emit cmd s = s\<lparr>ss_script := ss_script s @ [cmd]\<rparr>"

definition declare_key :: "string \<Rightarrow> smtlib_state \<Rightarrow> smtlib_state" where
  "declare_key key s =
     (if key \<in> ss_vars s then s
      else emit (Declare_Const key) (s\<lparr>ss_vars := insert key (ss_vars s)\<rparr>))"

definition declare_int_var :: "string \<Rightarrow> smtlib_state \<Rightarrow> smtlib_state" where
  "declare_int_var name s = declare_key (sanitize_smt_name name) s"

definition declare_canonical_len :: "string \<Rightarrow> smtlib_state \<Rightarrow> smtlib_state" where
  "declare_canonical_len name s = declare_key (canonical_length_name name) s"

definition smtlib_fresh_name :: "smtlib_state \<Rightarrow> string \<times> smtlib_state" where
  "smtlib_fresh_name s = (fresh_temp_name (ss_fresh s), s\<lparr>ss_fresh := Suc (ss_fresh s)\<rparr>)"

fun mk_ir_arith_smtlib :: "ir_arith_op \<Rightarrow> smt_term \<Rightarrow> smt_term \<Rightarrow> smt_term" where
  "mk_ir_arith_smtlib IrAdd l r = SApp FAdd [l, r]"
| "mk_ir_arith_smtlib IrSub l r = SApp FSub [l, r]"
| "mk_ir_arith_smtlib IrMod l r = rust_trunc_mod_smtlib l r"
| "mk_ir_arith_smtlib IrMul l r = SApp FMul [l, r]"
| "mk_ir_arith_smtlib IrDiv l r = rust_trunc_div_smtlib l r"

fun mk_ir_cmp_bool :: "ir_cmp_op \<Rightarrow> smt_term \<Rightarrow> smt_term \<Rightarrow> smt_term" where
  "mk_ir_cmp_bool IrEq l r = SApp FEq [l, r]"
| "mk_ir_cmp_bool IrNe l r = SApp FNot [SApp FEq [l, r]]"
| "mk_ir_cmp_bool IrLt l r = SApp FLt [l, r]"
| "mk_ir_cmp_bool IrLe l r = SApp FLe [l, r]"
| "mk_ir_cmp_bool IrGt l r = SApp FGt [l, r]"
| "mk_ir_cmp_bool IrGe l r = SApp FGe [l, r]"

definition smtlib_named :: "string \<Rightarrow> smtlib_state \<Rightarrow> smt_term \<times> smtlib_state" where
  "smtlib_named name s = (SSym (sanitize_smt_name name), declare_int_var name s)"

definition smtlib_fresh_int :: "smtlib_state \<Rightarrow> smt_term \<times> smtlib_state" where
  "smtlib_fresh_int s = (let (name, s) = smtlib_fresh_name s in (SSym name, declare_int_var name s))"

definition smtlib_length :: "string \<Rightarrow> smtlib_state \<Rightarrow> smt_term \<times> smtlib_state" where
  "smtlib_length name s = (SSym (canonical_length_name name), declare_canonical_len name s)"

definition smtlib_nary_uf :: "string \<Rightarrow> smt_term list \<Rightarrow> smt_term" where
  "smtlib_nary_uf name args = SApp (FUser (sanitize_smt_name name)) args"

definition smtlib_load_slot :: "slots \<Rightarrow> nat \<Rightarrow> smtlib_state \<Rightarrow> smt_term \<times> smtlib_state" where
  "smtlib_load_slot slots k s = (case slots k of Some t \<Rightarrow> (t, s) | None \<Rightarrow> smtlib_fresh_int s)"

fun smtlib_load_slots :: "slots \<Rightarrow> nat list \<Rightarrow> smtlib_state \<Rightarrow> smt_term list \<times> smtlib_state" where
  "smtlib_load_slots slots [] s = ([], s)"
| "smtlib_load_slots slots (k # ks) s =
     (let (t, s) = smtlib_load_slot slots k s; (ts, s) = smtlib_load_slots slots ks s in (t # ts, s))"

definition smtlib_encode_field ::
  "ir_encode_ctx \<Rightarrow> nat \<Rightarrow> nat \<Rightarrow> slots \<Rightarrow> ir_slot_context \<Rightarrow> smtlib_state \<Rightarrow> smt_term \<times> smtlib_state" where
  "smtlib_encode_field C slot i slots ctx s =
     (case (if i = 0 \<and> (case sc_slot_types ctx slot of Some t \<Rightarrow> is_collection_ir_type t | None \<Rightarrow> False)
            then sc_slot_to_name ctx slot else None) of
        Some name \<Rightarrow> smtlib_length name s
      | None \<Rightarrow>
          (let (base, s) = smtlib_load_slot slots slot s;
               field_name = (case Option.bind (sc_slot_types ctx slot) (\<lambda>t. field_name_at C t i) of
                               Some f \<Rightarrow> f | None \<Rightarrow> dec i)
           in (smtlib_nary_uf (field_uif_name field_name) [base], s)))"

text \<open>A record type is declared once, as a data type with one constructor.\<close>

definition ensure_struct_adt_smtlib :: "string \<Rightarrow> string list \<Rightarrow> smtlib_state \<Rightarrow> smtlib_state" where
  "ensure_struct_adt_smtlib type_name field_names s =
     (if type_name \<in> ss_adts s then s
      else s\<lparr>ss_adts := insert type_name (ss_adts s),
             ss_script := ss_script s @
               Declare_Fun (adt_tag_uf_name type_name) #
               map (\<lambda>a. Declare_Fun (adt_accessor_uf_name type_name a)) field_names @
               map Assert (snd (define_adt_cvc5 type_name [(type_name, field_names)]))\<rparr>)"

definition construct_axioms ::
  "(string \<Rightarrow> string) \<Rightarrow> string \<Rightarrow> int \<Rightarrow> string list \<Rightarrow> smt_term list \<Rightarrow> smt_term \<Rightarrow> smt_axiom list" where
  "construct_axioms san type_id tag field_names args val =
     Ground (SApp FEq [SApp (FUser (san (adt_tag_uf_name type_id))) [val], SInt tag]) #
     map (\<lambda>(accessor, arg). Ground (SApp FEq [SApp (FUser (san (adt_accessor_uf_name type_id accessor))) [val], arg]))
       (zip field_names args)"

definition smtlib_encode_construct ::
  "ir_encode_ctx \<Rightarrow> string \<Rightarrow> (nat \<times> nat) list \<Rightarrow> slots \<Rightarrow> smtlib_state \<Rightarrow> smt_term \<times> smtlib_state" where
  "smtlib_encode_construct C type_id fs slots s =
     (case (if has_struct_layout C type_id then field_names_for C type_id else None) of
        Some field_names \<Rightarrow>
          (let s = ensure_struct_adt_smtlib type_id field_names s;
               (args, s) = smtlib_load_slots slots (map snd (sort_key fst fs)) s;
               (val, s) = smtlib_fresh_int s
           in (val, s\<lparr>ss_script := ss_script s @
                       map Assert (construct_axioms sanitize_smt_name type_id 0 field_names args val)\<rparr>))
      | None \<Rightarrow>
          (let (args, s) = smtlib_load_slots slots (map snd fs) s
           in (smtlib_nary_uf (ir_construct_uf_name type_id) args, s)))"

text \<open>Postconditions.  A missing slot and a string become a fresh name, which is not declared.\<close>

definition smtlib_fresh_arg :: "smtlib_state \<Rightarrow> smt_term \<times> smtlib_state" where
  "smtlib_fresh_arg s = (let (name, s) = smtlib_fresh_name s in (SSym name, s))"

fun encode_ir_pred_arg_smtlib :: "ir_pred_arg \<Rightarrow> slots \<Rightarrow> smtlib_state \<Rightarrow> smt_term \<times> smtlib_state" where
  "encode_ir_pred_arg_smtlib (IrSlot n) slots s =
     (case slots n of Some t \<Rightarrow> (t, s) | None \<Rightarrow> smtlib_fresh_arg s)"
| "encode_ir_pred_arg_smtlib IrSlotResult slots s =
     ((case slots result_slot of Some t \<Rightarrow> t | None \<Rightarrow> SSym result_var_name), s)"
| "encode_ir_pred_arg_smtlib (IrLit (IrInt n)) slots s = (SInt n, s)"
| "encode_ir_pred_arg_smtlib (IrLit (IrFloat n)) slots s = (SInt n, s)"
| "encode_ir_pred_arg_smtlib (IrLit (IrBool b)) slots s = (SInt (if b then 1 else 0), s)"
| "encode_ir_pred_arg_smtlib (IrLit (IrStr t)) slots s = smtlib_fresh_arg s"
| "encode_ir_pred_arg_smtlib (IrArgArith op l r) slots s =
     (let (a, s) = encode_ir_pred_arg_smtlib l slots s; (b, s) = encode_ir_pred_arg_smtlib r slots s
      in (mk_ir_arith_smtlib op a b, s))"

fun encode_ir_pred_smtlib :: "ir_pred \<Rightarrow> slots \<Rightarrow> smtlib_state \<Rightarrow> smt_term \<times> smtlib_state" where
  "encode_ir_pred_smtlib IrTrue slots s = (SBool True, s)"
| "encode_ir_pred_smtlib IrFalse slots s = (SBool False, s)"
| "encode_ir_pred_smtlib (IrPredCmp op l r) slots s =
     (let (a, s) = encode_ir_pred_arg_smtlib l slots s; (b, s) = encode_ir_pred_arg_smtlib r slots s
      in (mk_ir_cmp_bool op a b, s))"
| "encode_ir_pred_smtlib (IrAnd p q) slots s =
     (let (a, s) = encode_ir_pred_smtlib p slots s; (b, s) = encode_ir_pred_smtlib q slots s
      in (SApp FAnd [a, b], s))"
| "encode_ir_pred_smtlib (IrOr p q) slots s =
     (let (a, s) = encode_ir_pred_smtlib p slots s; (b, s) = encode_ir_pred_smtlib q slots s
      in (SApp FOr [a, b], s))"
| "encode_ir_pred_smtlib (IrNot p) slots s =
     (let (a, s) = encode_ir_pred_smtlib p slots s in (SApp FNot [a], s))"

definition smtlib_push_post :: "ir_pred \<Rightarrow> slots \<Rightarrow> smtlib_state \<Rightarrow> smtlib_state" where
  "smtlib_push_post post slots s =
     (let (p, s) = encode_ir_pred_smtlib post slots s in emit (Assert (Ground p)) s)"

definition smtlib_builder :: "(nat \<times> bool) option \<Rightarrow> smtlib_state ir_builder" where
  "smtlib_builder machine_wrap =
     \<lparr>ib_int_const = SInt,
      ib_get_or_create_named = smtlib_named,
      ib_fresh_int = smtlib_fresh_int,
      ib_push_eq_axiom = (\<lambda>l r. emit (Assert (Ground (SApp FEq [l, r])))),
      ib_arith = mk_ir_arith_smtlib,
      ib_cmp_as_int = (\<lambda>op l r. SApp FIte [mk_ir_cmp_bool op l r, SInt 1, SInt 0]),
      ib_ite_nonzero = (\<lambda>c t e. SApp FIte [SApp FDistinct [c, SInt 0], t, e]),
      ib_nullary_uf = smtlib_named,
      ib_nary_uf = smtlib_nary_uf,
      ib_canonical_length = smtlib_length,
      ib_try_known_builtin = known_builtin_to_smtlib,
      ib_encode_field = smtlib_encode_field,
      ib_encode_construct = smtlib_encode_construct,
      ib_wrap_machine_term = wrap_machine_int machine_wrap,
      ib_push_ir_post = smtlib_push_post\<rparr>"

definition apply_ir_body_smtlib ::
  "nat \<Rightarrow> (nat \<times> bool) option \<Rightarrow> ir_encode_ctx \<Rightarrow> ir_function \<Rightarrow> string list \<Rightarrow> smtlib_state \<Rightarrow>
   smtlib_state option" where
  "apply_ir_body_smtlib n machine_wrap C f contract_param_names s =
     (let s = s\<lparr>ss_fresh := 0, ss_adts := {}\<rparr>;
          (slots, s) = param_slots (smtlib_builder machine_wrap) (ir_param_names f contract_param_names) Map.empty s
      in map_option snd
           (apply_ir_body_constraints n (smtlib_builder machine_wrap) C f contract_param_names
              (slots(result_slot \<mapsto> SSym result_var_name)) (declare_int_var ''result'' s)))"

section \<open>The Z3 back end\<close>

text \<open>
  Of the encoder's fields the IR uses four.  A variable is kept as its reading as an integer
  (\<open>Z3Value::as_int\<close>); the arities of the functions are book-keeping.
\<close>

record z3_encoder =
  ze_vars :: "string \<rightharpoonup> smt_term"
  ze_fresh :: nat
  ze_axioms :: "smt_axiom list"
  ze_adts :: "string \<rightharpoonup> adt_def"
  ze_lengths :: "string \<rightharpoonup> smt_term"

definition push_axiom :: "smt_axiom \<Rightarrow> z3_encoder \<Rightarrow> z3_encoder" where
  "push_axiom a s = s\<lparr>ze_axioms := ze_axioms s @ [a]\<rparr>"

definition get_or_create_int :: "string \<Rightarrow> z3_encoder \<Rightarrow> smt_term \<times> z3_encoder" where
  "get_or_create_int name s =
     (case ze_vars s name of
        Some t \<Rightarrow> (t, s)
      | None \<Rightarrow> (SSym name, s\<lparr>ze_vars := (ze_vars s)(name \<mapsto> SSym name)\<rparr>))"

definition z3_fresh_int :: "z3_encoder \<Rightarrow> smt_term \<times> z3_encoder" where
  "z3_fresh_int s =
     (let n = Suc (ze_fresh s) in (SSym (fresh_temp_name n), s\<lparr>ze_fresh := n\<rparr>))"

definition z3_nary_uf :: "string \<Rightarrow> smt_term list \<Rightarrow> smt_term" where
  "z3_nary_uf name args = SApp (FUser name) args"

definition canonical_length :: "string \<Rightarrow> z3_encoder \<Rightarrow> smt_term \<times> z3_encoder" where
  "canonical_length name s =
     (case ze_lengths s name of
        Some v \<Rightarrow> (v, s)
      | None \<Rightarrow>
          (let v = SSym (canonical_length_name name);
               s = push_axiom (Ground (SApp FGe [v, SInt 0])) s;
               (obj, s) = get_or_create_int name s;
               s = fold (\<lambda>uf. push_axiom (Ground (SApp FEq [z3_nary_uf uf [obj], v])))
                     [''len'', ''__field_len''] s
           in (v, s\<lparr>ze_lengths := (ze_lengths s)(name \<mapsto> v)\<rparr>)))"

definition z3_load_slot :: "slots \<Rightarrow> nat \<Rightarrow> z3_encoder \<Rightarrow> smt_term \<times> z3_encoder" where
  "z3_load_slot slots k s = (case slots k of Some t \<Rightarrow> (t, s) | None \<Rightarrow> z3_fresh_int s)"

fun z3_load_slots :: "slots \<Rightarrow> nat list \<Rightarrow> z3_encoder \<Rightarrow> smt_term list \<times> z3_encoder" where
  "z3_load_slots slots [] s = ([], s)"
| "z3_load_slots slots (k # ks) s =
     (let (t, s) = z3_load_slot slots k s; (ts, s) = z3_load_slots slots ks s in (t # ts, s))"

fun z3_arith :: "ir_arith_op \<Rightarrow> smt_term \<Rightarrow> smt_term \<Rightarrow> smt_term" where
  "z3_arith IrAdd l r = SApp FAdd [l, r]"
| "z3_arith IrSub l r = SApp FSub [l, r]"
| "z3_arith IrMul l r = SApp FMul [l, r]"
| "z3_arith IrDiv l r = z3_trunc_div l r"
| "z3_arith IrMod l r = z3_trunc_mod l r"

definition z3_encode_field ::
  "ir_encode_ctx \<Rightarrow> nat \<Rightarrow> nat \<Rightarrow> slots \<Rightarrow> ir_slot_context \<Rightarrow> z3_encoder \<Rightarrow> smt_term \<times> z3_encoder" where
  "z3_encode_field C slot i slots ctx s =
     (case (if i = 0 \<and> (case sc_slot_types ctx slot of Some t \<Rightarrow> is_collection_ir_type t | None \<Rightarrow> False)
            then sc_slot_to_name ctx slot else None) of
        Some name \<Rightarrow> canonical_length name s
      | None \<Rightarrow>
          (let (base, s) = z3_load_slot slots slot s;
               field_name = (case Option.bind (sc_slot_types ctx slot) (\<lambda>t. field_name_at C t i) of
                               Some f \<Rightarrow> f | None \<Rightarrow> dec i)
           in (z3_nary_uf (field_uif_name field_name) [base], s)))"

definition ensure_struct_adt :: "string \<Rightarrow> string list \<Rightarrow> z3_encoder \<Rightarrow> z3_encoder" where
  "ensure_struct_adt type_name field_names s =
     (if field_names = [] \<or> ze_adts s type_name \<noteq> None then s
      else let (d, axs) = define_adt type_name [(type_name, field_names)]
           in s\<lparr>ze_axioms := ze_axioms s @ axs, ze_adts := (ze_adts s)(type_name \<mapsto> d)\<rparr>)"

definition z3_adt_constructor ::
  "string \<Rightarrow> string \<Rightarrow> smt_term list \<Rightarrow> z3_encoder \<Rightarrow> smt_term \<times> z3_encoder" where
  "z3_adt_constructor adt ctor_name args s =
     (let ctor = Option.bind (ze_adts s adt) (\<lambda>d. find (\<lambda>c. ac_name c = ctor_name) (ad_constructors d));
          tag = (case ctor of
                   Some c \<Rightarrow> ac_tag c
                 | None \<Rightarrow> (case ze_adts s adt of
                             Some d \<Rightarrow> adt_ctor_tag_or_zero (map ac_name (ad_constructors d)) ctor_name
                           | None \<Rightarrow> 0));
          accessors = (case ctor of Some c \<Rightarrow> ac_accessors c | None \<Rightarrow> []);
          (val, s) = z3_fresh_int s
      in (val, s\<lparr>ze_axioms := ze_axioms s @ construct_axioms (\<lambda>n. n) adt tag accessors args val\<rparr>))"

definition z3_encode_construct ::
  "ir_encode_ctx \<Rightarrow> string \<Rightarrow> (nat \<times> nat) list \<Rightarrow> slots \<Rightarrow> z3_encoder \<Rightarrow> smt_term \<times> z3_encoder" where
  "z3_encode_construct C type_id fs slots s =
     (case (if has_struct_layout C type_id then field_names_for C type_id else None) of
        Some field_names \<Rightarrow>
          (let s = ensure_struct_adt type_id field_names s;
               (args, s) = z3_load_slots slots (map snd (sort_key fst fs)) s
           in z3_adt_constructor type_id type_id args s)
      | None \<Rightarrow>
          (let (args, s) = z3_load_slots slots (map snd fs) s
           in (z3_nary_uf (ir_construct_uf_name type_id) args, s)))"

fun encode_ir_pred_arg_z3 :: "ir_pred_arg \<Rightarrow> slots \<Rightarrow> z3_encoder \<Rightarrow> smt_term \<times> z3_encoder" where
  "encode_ir_pred_arg_z3 (IrSlot n) slots s =
     (case slots n of Some t \<Rightarrow> (t, s) | None \<Rightarrow> z3_fresh_int s)"
| "encode_ir_pred_arg_z3 IrSlotResult slots s =
     (case slots result_slot of Some t \<Rightarrow> (t, s) | None \<Rightarrow> get_or_create_int ''result'' s)"
| "encode_ir_pred_arg_z3 (IrLit (IrInt n)) slots s = (SInt n, s)"
| "encode_ir_pred_arg_z3 (IrLit (IrFloat n)) slots s = (SInt n, s)"
| "encode_ir_pred_arg_z3 (IrLit (IrBool b)) slots s = (SInt (if b then 1 else 0), s)"
| "encode_ir_pred_arg_z3 (IrLit (IrStr t)) slots s = z3_fresh_int s"
| "encode_ir_pred_arg_z3 (IrArgArith op l r) slots s =
     (let (a, s) = encode_ir_pred_arg_z3 l slots s; (b, s) = encode_ir_pred_arg_z3 r slots s
      in (z3_arith op a b, s))"

fun encode_ir_pred_z3 :: "ir_pred \<Rightarrow> slots \<Rightarrow> z3_encoder \<Rightarrow> smt_term \<times> z3_encoder" where
  "encode_ir_pred_z3 IrTrue slots s = (SBool True, s)"
| "encode_ir_pred_z3 IrFalse slots s = (SBool False, s)"
| "encode_ir_pred_z3 (IrPredCmp op l r) slots s =
     (let (a, s) = encode_ir_pred_arg_z3 l slots s; (b, s) = encode_ir_pred_arg_z3 r slots s
      in (mk_ir_cmp_bool op a b, s))"
| "encode_ir_pred_z3 (IrAnd p q) slots s =
     (let (a, s) = encode_ir_pred_z3 p slots s; (b, s) = encode_ir_pred_z3 q slots s
      in (SApp FAnd [a, b], s))"
| "encode_ir_pred_z3 (IrOr p q) slots s =
     (let (a, s) = encode_ir_pred_z3 p slots s; (b, s) = encode_ir_pred_z3 q slots s
      in (SApp FOr [a, b], s))"
| "encode_ir_pred_z3 (IrNot p) slots s =
     (let (a, s) = encode_ir_pred_z3 p slots s in (SApp FNot [a], s))"

definition z3_push_post :: "ir_pred \<Rightarrow> slots \<Rightarrow> z3_encoder \<Rightarrow> z3_encoder" where
  "z3_push_post post slots s = (let (p, s) = encode_ir_pred_z3 post slots s in push_axiom (Ground p) s)"

definition z3_builder :: "(nat \<times> bool) option \<Rightarrow> z3_encoder ir_builder" where
  "z3_builder machine_wrap =
     \<lparr>ib_int_const = SInt,
      ib_get_or_create_named = get_or_create_int,
      ib_fresh_int = z3_fresh_int,
      ib_push_eq_axiom = (\<lambda>l r. push_axiom (Ground (SApp FEq [l, r]))),
      ib_arith = z3_arith,
      ib_cmp_as_int = (\<lambda>op l r. SApp FIte [mk_ir_cmp_bool op l r, SInt 1, SInt 0]),
      ib_ite_nonzero = (\<lambda>c t e. SApp FIte [SApp FNot [SApp FEq [c, SInt 0]], t, e]),
      ib_nullary_uf = (\<lambda>name s. (z3_nary_uf name [], s)),
      ib_nary_uf = z3_nary_uf,
      ib_canonical_length = canonical_length,
      ib_try_known_builtin = known_builtin_to_z3,
      ib_encode_field = z3_encode_field,
      ib_encode_construct = z3_encode_construct,
      ib_wrap_machine_term = wrap_machine_int machine_wrap,
      ib_push_ir_post = z3_push_post\<rparr>"

definition apply_ir_body_z3 ::
  "nat \<Rightarrow> (nat \<times> bool) option \<Rightarrow> ir_encode_ctx \<Rightarrow> ir_function \<Rightarrow> string list \<Rightarrow> z3_encoder \<Rightarrow>
   z3_encoder option" where
  "apply_ir_body_z3 n machine_wrap C f contract_param_names s =
     (let (slots, s) = param_slots (z3_builder machine_wrap) (ir_param_names f contract_param_names) Map.empty s;
          (result, s) = get_or_create_int ''result'' s
      in map_option snd
           (apply_ir_body_constraints n (z3_builder machine_wrap) C f contract_param_names
              (slots(result_slot \<mapsto> result)) s))"

lemma smtlib_ops [simp]:
  "ib_int_const (smtlib_builder w) = SInt"
  "ib_get_or_create_named (smtlib_builder w) = smtlib_named"
  "ib_fresh_int (smtlib_builder w) = smtlib_fresh_int"
  "ib_push_eq_axiom (smtlib_builder w) = (\<lambda>l r. emit (Assert (Ground (SApp FEq [l, r]))))"
  "ib_arith (smtlib_builder w) = mk_ir_arith_smtlib"
  "ib_cmp_as_int (smtlib_builder w) = (\<lambda>op l r. SApp FIte [mk_ir_cmp_bool op l r, SInt 1, SInt 0])"
  "ib_ite_nonzero (smtlib_builder w) = (\<lambda>c t e. SApp FIte [SApp FDistinct [c, SInt 0], t, e])"
  "ib_nullary_uf (smtlib_builder w) = smtlib_named"
  "ib_nary_uf (smtlib_builder w) = smtlib_nary_uf"
  "ib_canonical_length (smtlib_builder w) = smtlib_length"
  "ib_try_known_builtin (smtlib_builder w) = known_builtin_to_smtlib"
  "ib_push_ir_post (smtlib_builder w) = smtlib_push_post"
  "ib_wrap_machine_term (smtlib_builder w) = wrap_machine_int w"
  by (simp_all add: smtlib_builder_def)

lemma z3_ops [simp]:
  "ib_int_const (z3_builder w) = SInt"
  "ib_get_or_create_named (z3_builder w) = get_or_create_int"
  "ib_fresh_int (z3_builder w) = z3_fresh_int"
  "ib_push_eq_axiom (z3_builder w) = (\<lambda>l r. push_axiom (Ground (SApp FEq [l, r])))"
  "ib_arith (z3_builder w) = z3_arith"
  "ib_cmp_as_int (z3_builder w) = (\<lambda>op l r. SApp FIte [mk_ir_cmp_bool op l r, SInt 1, SInt 0])"
  "ib_ite_nonzero (z3_builder w) = (\<lambda>c t e. SApp FIte [SApp FNot [SApp FEq [c, SInt 0]], t, e])"
  "ib_nullary_uf (z3_builder w) = (\<lambda>name s. (z3_nary_uf name [], s))"
  "ib_nary_uf (z3_builder w) = z3_nary_uf"
  "ib_canonical_length (z3_builder w) = canonical_length"
  "ib_try_known_builtin (z3_builder w) = known_builtin_to_z3"
  "ib_push_ir_post (z3_builder w) = z3_push_post"
  "ib_wrap_machine_term (z3_builder w) = wrap_machine_int w"
  by (simp_all add: z3_builder_def)

section \<open>The shell meets the interface\<close>

fun cmd_holds :: "smt_model \<Rightarrow> smt_cmd \<Rightarrow> bool" where
  "cmd_holds M (Assert a) \<longleftrightarrow> holds M a"
| "cmd_holds M _ \<longleftrightarrow> True"

definition smtlib_sat :: "smt_model \<Rightarrow> smtlib_state \<Rightarrow> bool" where
  "smtlib_sat M s \<longleftrightarrow> list_all (cmd_holds M) (ss_script s)"

text \<open>The function the shell writes for a built-in that is not arithmetic.\<close>

fun builtin_uf :: "known_builtin \<Rightarrow> string \<Rightarrow> string" where
  "builtin_uf KbSubstring op = ''substring''"
| "builtin_uf KbConcat op = concat_uf_name"
| "builtin_uf KbAppend op = concat_uf_name"
| "builtin_uf KbIndexOf op = ''index_of''"
| "builtin_uf KbCharAt op = ''char_at''"
| "builtin_uf KbReplace op = ''replace''"
| "builtin_uf KbSplit op = ''split''"
| "builtin_uf KbGet op = ''get''"
| "builtin_uf KbSet op = ''set''"
| "builtin_uf KbPut op = ''put''"
| "builtin_uf _ op = op"

definition smtlib_call_value :: "smt_model \<Rightarrow> string \<Rightarrow> int list \<Rightarrow> int" where
  "smtlib_call_value M f vs =
     (case classify_known_builtin f (length vs) of
        Some kind \<Rightarrow> (case builtin_value kind vs of
                        Some v \<Rightarrow> v | None \<Rightarrow> sm_fun M (builtin_uf kind f) vs)
      | None \<Rightarrow> sm_fun M (sanitize_smt_name (ir_call_uf_name f)) vs)"

definition smtlib_semantics :: "(nat \<times> bool) option \<Rightarrow> smt_model \<Rightarrow> ir_semantics" where
  "smtlib_semantics machine_wrap M =
     \<lparr>ir_ext = (\<lambda>f vs. Some (smtlib_call_value M f vs)), ir_divisor = (\<lambda>b. b > 0), ir_machine = machine_wrap\<rparr>"

text \<open>
  What a call without a body returns for Z3: a built-in what it means, any other function what the
  model gives its symbol.  A concatenation of the integers that stand for two sequences means nothing,
  so an execution that concatenates has no value; the encoder adds the integers
  (\<open>z3_concat_commutes\<close>).
\<close>

definition z3_call_value :: "smt_model \<Rightarrow> string \<Rightarrow> int list \<Rightarrow> int option" where
  "z3_call_value M f vs =
     (case classify_known_builtin f (length vs) of
        Some kind \<Rightarrow> (case builtin_value kind vs of
                        Some v \<Rightarrow> Some v
                      | None \<Rightarrow> if kind = KbConcat then None else Some (sm_fun M (ir_call_uf_name f) vs))
      | None \<Rightarrow> Some (sm_fun M (ir_call_uf_name f) vs))"

definition z3_semantics :: "(nat \<times> bool) option \<Rightarrow> smt_model \<Rightarrow> ir_semantics" where
  "z3_semantics machine_wrap M =
     \<lparr>ir_ext = z3_call_value M, ir_divisor = (\<lambda>b. b \<noteq> 0), ir_machine = machine_wrap\<rparr>"

lemma mk_ir_cmp_bool_holds: "beval M (mk_ir_cmp_bool op l r) \<longleftrightarrow> cmp_holds op (ieval M l) (ieval M r)"
  by (cases op) auto

lemma cmp_ite_value:
  "ieval M (SApp FIte [mk_ir_cmp_bool op l r, SInt 1, SInt 0]) = cmp_value op (ieval M l) (ieval M r)"
  by (simp add: cmp_value_def mk_ir_cmp_bool_holds)

lemma classify_arity:
  assumes "classify_known_builtin op n = Some kind"
  shows "kind \<in> {KbAbs, KbSignum} \<Longrightarrow> n = 1" and "kind \<in> {KbMin, KbMax, KbConcat} \<Longrightarrow> n = 2"
    and "kind = KbClamp \<Longrightarrow> n = 3"
  using assms
  by (auto simp: classify_known_builtin_def unary_builtin_def binary_builtin_def ternary_builtin_def
      split: if_splits)

lemma builtin_value_defined:
  assumes "classify_known_builtin op (length vs) = Some kind" and "kind \<in> {KbAbs, KbSignum, KbMin, KbMax, KbClamp}"
  shows "builtin_value kind vs \<noteq> None"
  using assms(2) classify_arity [OF assms(1)]
  by (elim insertE) (auto simp: length_Suc_conv numeral_2_eq_2 numeral_3_eq_3)

lemma builtin_smtlib_value:
  assumes "classify_known_builtin f (length ts) = Some kind"
  shows "ieval M (builtin_smtlib kind f ts) = smtlib_call_value M f (map (ieval M) ts)"
proof (cases "builtin_value kind (map (ieval M) ts)")
  case None
  with builtin_value_defined [of f "map (ieval M) ts" kind] assms
  have "kind \<notin> {KbAbs, KbSignum, KbMin, KbMax, KbClamp}" by auto
  then have "builtin_smtlib kind f ts = SApp (FUser (builtin_uf kind f)) ts" by (cases kind) auto
  then show ?thesis using None assms by (simp add: smtlib_call_value_def)
next
  case (Some v)
  have "ieval M (builtin_smtlib kind f ts) = v"
    using Some by (elim builtin_valueE)
      (auto simp: map_eq_single map_eq_pair map_eq_triple Let_def min_def max_def sgn_if)
  then show ?thesis using Some assms by (simp add: smtlib_call_value_def)
qed

lemma builtin_z3_value:
  assumes "classify_known_builtin f (length ts) = Some kind" and "z3_call_value M f (map (ieval M) ts) = Some v"
  shows "(case builtin_z3 kind ts of Some t \<Rightarrow> ieval M t | None \<Rightarrow> sm_fun M (ir_call_uf_name f) (map (ieval M) ts)) = v"
proof (cases "builtin_value kind (map (ieval M) ts)")
  case None
  with builtin_value_defined [of f "map (ieval M) ts" kind] assms(1)
  have k: "kind \<notin> {KbAbs, KbSignum, KbMin, KbMax, KbClamp}" by auto
  from None assms have "kind \<noteq> KbConcat" by (auto simp: z3_call_value_def)
  with k have "builtin_z3 kind ts = None" by (cases kind) auto
  then show ?thesis using None assms \<open>kind \<noteq> KbConcat\<close> by (simp add: z3_call_value_def)
next
  case (Some x)
  have "map_option (ieval M) (builtin_z3 kind ts) = Some x"
    using Some by (elim builtin_valueE)
      (auto simp: map_eq_single map_eq_pair map_eq_triple Let_def min_def max_def sgn_if)
  then show ?thesis using Some assms by (auto simp: z3_call_value_def)
qed

text \<open>Every operation only adds commands.\<close>

definition script_grows :: "smtlib_state \<Rightarrow> smtlib_state \<Rightarrow> bool" where
  "script_grows s s' \<longleftrightarrow> set (ss_script s) \<subseteq> set (ss_script s')"

lemma script_grows_trans: "script_grows s t \<Longrightarrow> script_grows t u \<Longrightarrow> script_grows s u"
  by (auto simp: script_grows_def)

lemma script_grows_sat: "script_grows s s' \<Longrightarrow> smtlib_sat M s' \<Longrightarrow> smtlib_sat M s"
  by (auto simp: script_grows_def smtlib_sat_def list_all_iff)

lemma emit_grows [simp]: "script_grows s (emit c s)"
  by (auto simp: script_grows_def emit_def)

lemma declare_grows [simp]: "script_grows s (declare_int_var n s)" "script_grows s (declare_canonical_len n s)"
  by (auto simp: declare_int_var_def declare_canonical_len_def declare_key_def script_grows_def emit_def)

lemma smtlib_ops_grow [simp]:
  "script_grows s (snd (smtlib_named n s))" "script_grows s (snd (smtlib_fresh_int s))"
  "script_grows s (snd (smtlib_length n s))" "script_grows s (snd (smtlib_fresh_arg s))"
  by (auto simp: smtlib_named_def smtlib_length_def smtlib_fresh_arg_def smtlib_fresh_name_def smtlib_fresh_int_def)
    (auto simp: declare_int_var_def declare_key_def script_grows_def emit_def)

lemma smtlib_load_grows [simp]: "script_grows s (snd (smtlib_load_slot slots k s))"
  by (cases "slots k") (auto simp: smtlib_load_slot_def script_grows_def [of s s])

lemma smtlib_loads_grow [simp]: "script_grows s (snd (smtlib_load_slots slots ks s))"
proof (induction ks arbitrary: s)
  case (Cons k ks)
  from script_grows_trans [OF smtlib_load_grows Cons.IH] show ?case by (simp add: case_prod_beta)
qed (simp add: script_grows_def)

lemma smtlib_pred_arg_grows [simp]: "script_grows s (snd (encode_ir_pred_arg_smtlib a slots s))"
proof (induction a arbitrary: s)
  case (IrArgArith op l r)
  from script_grows_trans [OF IrArgArith] show ?case by (simp add: case_prod_beta)
next
  case (IrLit lit)
  show ?case by (cases lit) (simp_all add: script_grows_def [of s s])
qed (simp_all add: script_grows_def [of s s for s] split: option.split)

lemma smtlib_pred_grows [simp]: "script_grows s (snd (encode_ir_pred_smtlib p slots s))"
proof (induction p arbitrary: s)
  case (IrPredCmp op l r)
  from script_grows_trans [OF smtlib_pred_arg_grows smtlib_pred_arg_grows] show ?case by (simp add: case_prod_beta)
next
  case (IrAnd p q)
  from script_grows_trans [OF IrAnd] show ?case by (simp add: case_prod_beta)
next
  case (IrOr p q)
  from script_grows_trans [OF IrOr] show ?case by (simp add: case_prod_beta)
qed (auto simp: case_prod_beta script_grows_def [of s s for s])

lemma smtlib_push_post_grows: "script_grows s (smtlib_push_post p slots s)"
  using script_grows_trans [OF smtlib_pred_grows emit_grows] by (simp add: smtlib_push_post_def case_prod_beta)

lemma smtlib_field_grows: "script_grows s (snd (smtlib_encode_field C k i slots ctx s))"
  by (auto simp: smtlib_encode_field_def case_prod_beta split: option.split)

lemma smtlib_construct_grows: "script_grows s (snd (smtlib_encode_construct C type_id fs slots s))"
proof (cases "if has_struct_layout C type_id then field_names_for C type_id else None")
  case None
  then show ?thesis by (simp add: smtlib_encode_construct_def case_prod_beta)
next
  case (Some names)
  let ?s1 = "ensure_struct_adt_smtlib type_id names s"
  let ?s2 = "snd (smtlib_load_slots slots (map snd (sort_key fst fs)) ?s1)"
  have "script_grows s ?s1" by (auto simp: ensure_struct_adt_smtlib_def script_grows_def)
  then have "script_grows s (snd (smtlib_fresh_int ?s2))"
    using script_grows_trans smtlib_loads_grow smtlib_ops_grow(2) by metis
  then show ?thesis using Some
    by (auto simp: smtlib_encode_construct_def case_prod_beta script_grows_def Let_def)
qed

interpretation smtlib: ir_builder_sem "smtlib_builder machine_wrap" smtlib_sat "smtlib_semantics machine_wrap"
proof unfold_locales
  fix M s name t f and l r :: smt_term and C and k i and slots :: slots and ctx type_id fs post
  let ?B = "smtlib_builder machine_wrap"
  show "smtlib_sat M (snd (ib_get_or_create_named ?B name s)) \<Longrightarrow> smtlib_sat M s"
    "smtlib_sat M (snd (ib_fresh_int ?B s)) \<Longrightarrow> smtlib_sat M s"
    "smtlib_sat M (snd (ib_nullary_uf ?B name s)) \<Longrightarrow> smtlib_sat M s"
    "smtlib_sat M (snd (ib_canonical_length ?B name s)) \<Longrightarrow> smtlib_sat M s"
    by (simp_all add: smtlib_builder_def) (metis script_grows_sat smtlib_ops_grow)+
  show "smtlib_sat M (snd (ib_encode_field ?B C k i slots ctx s)) \<Longrightarrow> smtlib_sat M s"
    by (simp add: smtlib_builder_def) (metis script_grows_sat smtlib_field_grows)
  show "smtlib_sat M (snd (ib_encode_construct ?B C type_id fs slots s)) \<Longrightarrow> smtlib_sat M s"
    by (simp add: smtlib_builder_def) (metis script_grows_sat smtlib_construct_grows)
  show "smtlib_sat M (ib_push_ir_post ?B post slots s) \<Longrightarrow> smtlib_sat M s"
    by (simp add: smtlib_builder_def) (metis script_grows_sat smtlib_push_post_grows)
  show "smtlib_sat M (ib_push_eq_axiom ?B l r s) = (smtlib_sat M s \<and> ieval M l = ieval M r)"
    by (auto simp: smtlib_builder_def smtlib_sat_def emit_def)
next
  fix M n and a b c t :: smt_term and op cmp v f ts
  let ?B = "smtlib_builder machine_wrap"
  show "ieval M (ib_int_const ?B n) = n" by (simp add: smtlib_builder_def)
  show "arith_value (ir_divisor (smtlib_semantics machine_wrap M)) op (ieval M a) (ieval M b) = Some v \<Longrightarrow>
        ieval M (ib_arith ?B op a b) = v"
    by (cases op) (auto simp: smtlib_builder_def smtlib_semantics_def smtlib_trunc_positive split: if_splits)
  show "ieval M (ib_cmp_as_int ?B cmp a b) = cmp_value cmp (ieval M a) (ieval M b)"
    by (simp add: smtlib_builder_def cmp_ite_value del: ieval_simps(9))
  show "ieval M (ib_ite_nonzero ?B c a b) = (if ieval M c \<noteq> 0 then ieval M a else ieval M b)"
    by (simp add: smtlib_builder_def)
  show "ieval M (ib_wrap_machine_term ?B t) = machine_value (ir_machine (smtlib_semantics machine_wrap M)) (ieval M t)"
    by (simp add: smtlib_builder_def smtlib_semantics_def wrap_machine_value)
  show "ib_try_known_builtin ?B f ts = Some t \<Longrightarrow>
        ir_ext (smtlib_semantics machine_wrap M) f (map (ieval M) ts) = Some v \<Longrightarrow> ieval M t = v"
    by (auto simp: smtlib_builder_def known_builtin_to_smtlib_def smtlib_semantics_def builtin_smtlib_value)
  show "ib_try_known_builtin ?B f ts = None \<Longrightarrow>
        ir_ext (smtlib_semantics machine_wrap M) f (map (ieval M) ts) = Some v \<Longrightarrow>
        ieval M (ib_nary_uf ?B (ir_call_uf_name f) ts) = v"
    by (auto simp: smtlib_builder_def known_builtin_to_smtlib_def smtlib_semantics_def smtlib_call_value_def
        smtlib_nary_uf_def)
qed

section \<open>Z3 meets the interface\<close>

definition z3_sat :: "smt_model \<Rightarrow> z3_encoder \<Rightarrow> bool" where
  "z3_sat M s \<longleftrightarrow> list_all (holds M) (ze_axioms s)"

definition axioms_grow :: "z3_encoder \<Rightarrow> z3_encoder \<Rightarrow> bool" where
  "axioms_grow s s' \<longleftrightarrow> set (ze_axioms s) \<subseteq> set (ze_axioms s')"

lemma axioms_grow_trans: "axioms_grow s t \<Longrightarrow> axioms_grow t u \<Longrightarrow> axioms_grow s u"
  by (auto simp: axioms_grow_def)

lemma axioms_grow_refl [simp]: "axioms_grow s s"
  by (simp add: axioms_grow_def)

lemma axioms_grow_sat: "axioms_grow s s' \<Longrightarrow> z3_sat M s' \<Longrightarrow> z3_sat M s"
  by (auto simp: axioms_grow_def z3_sat_def list_all_iff)

lemma push_axiom_grows [simp]: "axioms_grow s (push_axiom a s)"
  by (auto simp: axioms_grow_def push_axiom_def)

lemma get_or_create_int_axioms [simp]: "ze_axioms (snd (get_or_create_int n s)) = ze_axioms s"
  by (simp add: get_or_create_int_def split: option.split)

lemma z3_ops_grow [simp]:
  "axioms_grow s (snd (get_or_create_int n s))" "axioms_grow s (snd (z3_fresh_int s))"
  "axioms_grow s (snd (canonical_length n s))"
  by (auto simp: axioms_grow_def z3_fresh_int_def canonical_length_def Let_def case_prod_beta push_axiom_def
      split: option.split)

lemma z3_load_grows [simp]: "axioms_grow s (snd (z3_load_slot slots k s))"
  by (cases "slots k") (auto simp: z3_load_slot_def)

lemma z3_loads_grow [simp]: "axioms_grow s (snd (z3_load_slots slots ks s))"
proof (induction ks arbitrary: s)
  case (Cons k ks)
  from axioms_grow_trans [OF z3_load_grows Cons.IH] show ?case by (simp add: case_prod_beta)
qed simp

lemma z3_pred_arg_grows [simp]: "axioms_grow s (snd (encode_ir_pred_arg_z3 a slots s))"
proof (induction a arbitrary: s)
  case (IrArgArith op l r)
  from axioms_grow_trans [OF IrArgArith] show ?case by (simp add: case_prod_beta)
next
  case (IrLit lit)
  show ?case by (cases lit) simp_all
qed (simp_all split: option.split)

lemma z3_pred_grows [simp]: "axioms_grow s (snd (encode_ir_pred_z3 p slots s))"
proof (induction p arbitrary: s)
  case (IrPredCmp op l r)
  from axioms_grow_trans [OF z3_pred_arg_grows z3_pred_arg_grows] show ?case by (simp add: case_prod_beta)
next
  case (IrAnd p q)
  from axioms_grow_trans [OF IrAnd] show ?case by (simp add: case_prod_beta)
next
  case (IrOr p q)
  from axioms_grow_trans [OF IrOr] show ?case by (simp add: case_prod_beta)
qed (simp_all add: case_prod_beta)

lemma z3_push_post_grows: "axioms_grow s (z3_push_post p slots s)"
  using axioms_grow_trans [OF z3_pred_grows push_axiom_grows] by (simp add: z3_push_post_def case_prod_beta)

lemma z3_field_grows: "axioms_grow s (snd (z3_encode_field C k i slots ctx s))"
  by (auto simp: z3_encode_field_def case_prod_beta split: option.split)

lemma z3_adt_constructor_grows: "axioms_grow s (snd (z3_adt_constructor adt c args s))"
  by (auto simp: z3_adt_constructor_def Let_def case_prod_beta axioms_grow_def z3_fresh_int_def)

lemma z3_construct_grows: "axioms_grow s (snd (z3_encode_construct C type_id fs slots s))"
proof (cases "if has_struct_layout C type_id then field_names_for C type_id else None")
  case None
  then show ?thesis by (simp add: z3_encode_construct_def case_prod_beta)
next
  case (Some names)
  have "axioms_grow s (ensure_struct_adt type_id names s)"
    by (auto simp: ensure_struct_adt_def axioms_grow_def case_prod_beta)
  from axioms_grow_trans [OF axioms_grow_trans [OF this z3_loads_grow] z3_adt_constructor_grows] Some
  show ?thesis by (simp add: z3_encode_construct_def case_prod_beta Let_def)
qed

interpretation z3: ir_builder_sem "z3_builder machine_wrap" z3_sat "z3_semantics machine_wrap"
proof unfold_locales
  fix M s name t f and l r :: smt_term and C and k i and slots :: slots and ctx type_id fs post
  let ?B = "z3_builder machine_wrap"
  show "z3_sat M (snd (ib_get_or_create_named ?B name s)) \<Longrightarrow> z3_sat M s"
    "z3_sat M (snd (ib_fresh_int ?B s)) \<Longrightarrow> z3_sat M s"
    "z3_sat M (snd (ib_nullary_uf ?B name s)) \<Longrightarrow> z3_sat M s"
    "z3_sat M (snd (ib_canonical_length ?B name s)) \<Longrightarrow> z3_sat M s"
    by (simp_all add: z3_builder_def) (metis axioms_grow_sat z3_ops_grow)+
  show "z3_sat M (snd (ib_encode_field ?B C k i slots ctx s)) \<Longrightarrow> z3_sat M s"
    by (simp add: z3_builder_def) (metis axioms_grow_sat z3_field_grows)
  show "z3_sat M (snd (ib_encode_construct ?B C type_id fs slots s)) \<Longrightarrow> z3_sat M s"
    by (simp add: z3_builder_def) (metis axioms_grow_sat z3_construct_grows)
  show "z3_sat M (ib_push_ir_post ?B post slots s) \<Longrightarrow> z3_sat M s"
    by (simp add: z3_builder_def) (metis axioms_grow_sat z3_push_post_grows)
  show "z3_sat M (ib_push_eq_axiom ?B l r s) = (z3_sat M s \<and> ieval M l = ieval M r)"
    by (auto simp: z3_builder_def z3_sat_def push_axiom_def)
next
  fix M n and a b c t :: smt_term and op cmp v f ts
  let ?B = "z3_builder machine_wrap"
  show "ieval M (ib_int_const ?B n) = n" by (simp add: z3_builder_def)
  show "arith_value (ir_divisor (z3_semantics machine_wrap M)) op (ieval M a) (ieval M b) = Some v \<Longrightarrow>
        ieval M (ib_arith ?B op a b) = v"
    by (cases op) (auto simp: z3_builder_def z3_semantics_def z3_trunc_values split: if_splits)
  show "ieval M (ib_cmp_as_int ?B cmp a b) = cmp_value cmp (ieval M a) (ieval M b)"
    by (simp add: z3_builder_def cmp_ite_value del: ieval_simps(9))
  show "ieval M (ib_ite_nonzero ?B c a b) = (if ieval M c \<noteq> 0 then ieval M a else ieval M b)"
    by (simp add: z3_builder_def)
  show "ieval M (ib_wrap_machine_term ?B t) = machine_value (ir_machine (z3_semantics machine_wrap M)) (ieval M t)"
    by (simp add: z3_builder_def z3_semantics_def wrap_machine_value)
  show "ib_try_known_builtin ?B f ts = Some t \<Longrightarrow>
        ir_ext (z3_semantics machine_wrap M) f (map (ieval M) ts) = Some v \<Longrightarrow> ieval M t = v"
    by (auto simp: z3_builder_def known_builtin_to_z3_def z3_semantics_def bind_eq_Some_conv
        dest: builtin_z3_value)
  show "ib_try_known_builtin ?B f ts = None \<Longrightarrow>
        ir_ext (z3_semantics machine_wrap M) f (map (ieval M) ts) = Some v \<Longrightarrow>
        ieval M (ib_nary_uf ?B (ir_call_uf_name f) ts) = v"
    using builtin_z3_value [of f ts _ M v]
    by (cases "classify_known_builtin f (length ts)")
      (force simp: z3_builder_def known_builtin_to_z3_def z3_semantics_def z3_nary_uf_def z3_call_value_def)+
qed

section \<open>The result of a verified body\<close>

text \<open>The constants the parameters are: by name in the shell, as registered in Z3.\<close>

definition smtlib_param_env :: "smt_model \<Rightarrow> ir_function \<Rightarrow> string list \<Rightarrow> env" where
  "smtlib_param_env M f names =
     (\<lambda>k. if k = result_slot then None
          else map_option (\<lambda>name. sm_var M (sanitize_smt_name name)) (map_of (rev (ir_param_names f names)) k))"

lemma smtlib_param_slots:
  "param_slots (smtlib_builder machine_wrap) ps slots s = (slots', s') \<Longrightarrow>
   slots' = slots ++ map_of (rev (map (\<lambda>(k, name). (k, SSym (sanitize_smt_name name))) ps))"
proof (induction ps arbitrary: slots s)
  case (Cons p ps)
  obtain k name where p: "p = (k, name)" by fastforce
  with Cons show ?case
    by (simp add: smtlib_builder_def smtlib_named_def map_add_upd_left map_add_def fun_eq_iff split: option.split)
qed simp

lemma map_of_rev_map:
  "map_of (rev (map (\<lambda>(k, v). (k, g v)) ps)) k = map_option g (map_of (rev ps) k)"
proof -
  have "rev (map (\<lambda>(k, v). (k, g v)) ps) = map (\<lambda>(k, v). (k, g v)) (rev ps)" by (simp add: rev_map)
  then show ?thesis by (simp only: map_of_map) (simp add: comp_def)
qed


definition z3_var :: "z3_encoder \<Rightarrow> string \<Rightarrow> smt_term" where
  "z3_var s name = (case ze_vars s name of Some t \<Rightarrow> t | None \<Rightarrow> SSym name)"

lemma get_or_create_int_var:
  "fst (get_or_create_int name s) = z3_var s name"
  "z3_var (snd (get_or_create_int name s)) n = z3_var s n"
  by (auto simp: get_or_create_int_def z3_var_def split: option.split)

definition z3_param_env :: "smt_model \<Rightarrow> z3_encoder \<Rightarrow> ir_function \<Rightarrow> string list \<Rightarrow> env" where
  "z3_param_env M s f names =
     (\<lambda>k. if k = result_slot then None
          else map_option (\<lambda>name. ieval M (z3_var s name)) (map_of (rev (ir_param_names f names)) k))"

lemma z3_param_slots:
  "param_slots (z3_builder machine_wrap) ps slots s = (slots', s') \<Longrightarrow>
   slots' = slots ++ map_of (rev (map (\<lambda>(k, name). (k, z3_var s name)) ps)) \<and> z3_var s' = z3_var s"
proof (induction ps arbitrary: slots s)
  case (Cons p ps)
  obtain k name where p: "p = (k, name)" by fastforce
  obtain t s1 where g: "get_or_create_int name s = (t, s1)" by fastforce
  then have g': "t = z3_var s name" "z3_var s1 = z3_var s"
    using get_or_create_int_var [of name s] by (auto simp: fun_eq_iff)
  from Cons.prems p g have "param_slots (z3_builder machine_wrap) ps (slots(k \<mapsto> t)) s1 = (slots', s')"
    by (simp add: z3_builder_def)
  from Cons.IH [OF this] p g' show ?case
    by (auto simp: map_add_def fun_eq_iff split: option.split)
qed simp


end
