(* ===== verification/Ir_Facts.thy ===== *)
theory Ir_Facts
  imports Ir_Builders
begin

text \<open>
  When the lowering of IR ends, when the axioms it emits have a model, and where they do not mean
  what the program does.
\<close>

section \<open>Examples\<close>

definition empty_smtlib :: smtlib_state where
  "empty_smtlib = \<lparr>ss_script = [], ss_vars = {}, ss_fresh = 0, ss_adts = {}\<rparr>"

definition empty_z3 :: z3_encoder where
  "empty_z3 = \<lparr>ze_vars = Map.empty, ze_fresh = 0, ze_axioms = [], ze_adts = Map.empty, ze_lengths = Map.empty\<rparr>"

definition instr :: "nat \<Rightarrow> ir_expr \<Rightarrow> ir_instr" where
  "instr k e = \<lparr>in_target = k, in_expr = e, in_ty = ''Int''\<rparr>"

definition int_function :: "nat list \<Rightarrow> ir_instr list \<Rightarrow> ir_function" where
  "int_function ks body =
     \<lparr>if_id = ''#0'', if_params = map (\<lambda>k. \<lparr>sd_slot = k, sd_ty = ''Int''\<rparr>) ks, if_return_type = ''Int'',
      if_effects = ''pure'', if_pre = None, if_post = None, if_body = body\<rparr>"

definition ctx_of :: "(string \<times> ir_function) list \<Rightarrow> (nat \<times> ir_instr list) list \<Rightarrow> ir_encode_ctx" where
  "ctx_of bodies blocks =
     \<lparr>ic_struct_fields = None, ic_bodies = Some (map_of bodies), ic_blocks = Some (map_of blocks)\<rparr>"

text \<open>\<open>$1 = arith add $0 $0; $result = if $1 then #1 else #2\<close>, with two constant blocks.\<close>

definition branch_function :: ir_function where
  "branch_function =
     int_function [0] [instr 1 (IrArith IrAdd 0 0), instr result_slot (IrIf 1 1 2)]"

definition branch_ctx :: ir_encode_ctx where
  "branch_ctx =
     ctx_of [] [(1, [instr result_slot (IrConst (IrInt 10))]), (2, [instr result_slot (IrConst (IrInt 20))])]"

definition branch_model :: smt_model where
  "branch_model =
     \<lparr>sm_var = (\<lambda>x. if x = ''x'' then 3 else if x = ''__ir_slot_1'' then 6 else if x = ''__ir_block2_result'' then 20
                    else 10),
      sm_fun = (\<lambda>f vs. 0)\<rparr>"

lemmas example_defs =
  empty_smtlib_def empty_z3_def instr_def int_function_def ctx_of_def branch_function_def branch_ctx_def
  branch_model_def

lemma dec_small [simp]: "dec 0 = ''0''" "dec 1 = ''1''" "dec (Suc 0) = ''1''" "dec 2 = ''2''"
  by (simp_all add: dec.simps char_of_def bit_Suc_0_iff)

lemma result_slot_small [simp]:
  "result_slot \<noteq> 0" "result_slot \<noteq> 1" "result_slot \<noteq> 2" "0 \<noteq> result_slot" "1 \<noteq> result_slot" "2 \<noteq> result_slot"
  "result_slot \<noteq> Suc 0" "Suc 0 \<noteq> result_slot"
  by (simp_all add: result_slot_def)

lemmas lower_defs =
  apply_ir_body_smtlib_def apply_ir_body_z3_def apply_ir_body_constraints_def ir_param_names_def
  declare_target_def encode_step_def load_slot_def bind_ir_computed_def track_field_name_def result_hooks_def
  encode_if_def eval_ir_block_or_uf_def eval_ir_block_def block_body_def callee_ir_def eval_ir_call_def
  encode_call_def encode_literal_def is_length_ir_call_def is_length_method_name_def

lemmas smtlib_state_defs =
  smtlib_named_def declare_int_var_def declare_key_def emit_def sanitize_smt_name_def

lemmas name_defs =
  ir_slot_name_def ir_block_result_name_def ir_block_slot_name_def result_var_name_def
  call_param_name_def call_slot_name_def call_result_name_def ir_call_temp_prefix_def

lemma branch_axioms:
  "case apply_ir_body_smtlib (Suc (Suc 0)) None branch_ctx branch_function [''x''] empty_smtlib of
     Some s \<Rightarrow> smtlib_sat branch_model s | None \<Rightarrow> False"
  by (simp add: lower_defs example_defs smtlib_state_defs name_defs smtlib_sat_def)

lemmas run_defs =
  run_ir_function_def value_step_def run_block_def run_call_def stored_value_def
  smtlib_param_env_def z3_param_env_def ir_param_names_def


lemma branch_axioms_z3:
  "case apply_ir_body_z3 (Suc (Suc 0)) None branch_ctx branch_function [''x''] empty_z3 of
     Some s \<Rightarrow> z3_sat branch_model s | None \<Rightarrow> False"
  by (simp add: lower_defs example_defs name_defs z3_sat_def get_or_create_int_def push_axiom_def)


section \<open>Termination\<close>

text \<open>
  The lowering follows blocks and callees without remembering where it has been.  The units a body
  reaches are the blocks and callees its expressions name, and those the bodies of reached units name.
  The lowering ends where no endless chain of references runs through them; what the context holds
  besides does not matter.
\<close>

datatype ir_unit = BlockUnit nat | CalleeUnit string

definition expr_units :: "ir_expr \<Rightarrow> ir_unit set" where
  "expr_units e =
     (case e of
        IrCall f _ \<Rightarrow> {CalleeUnit f}
      | IrIf _ t e \<Rightarrow> {BlockUnit t, BlockUnit e}
      | IrMatch _ arms \<Rightarrow> BlockUnit ` snd ` set arms
      | IrLoop b _ \<Rightarrow> {BlockUnit b}
      | _ \<Rightarrow> {})"

definition body_units :: "ir_instr list \<Rightarrow> ir_unit set" where
  "body_units is = (\<Union>i \<in> set is. expr_units (in_expr i))"

fun unit_body :: "ir_encode_ctx \<Rightarrow> ir_unit \<Rightarrow> ir_instr list option" where
  "unit_body C (BlockUnit b) = block_body C b"
| "unit_body C (CalleeUnit f) = map_option if_body (callee_ir C f)"

inductive_set reached_units :: "ir_encode_ctx \<Rightarrow> ir_function \<Rightarrow> ir_unit set"
  for C :: ir_encode_ctx and f :: ir_function where
  direct: "u \<in> body_units (if_body f) \<Longrightarrow> u \<in> reached_units C f"
| indirect: "u \<in> reached_units C f \<Longrightarrow> unit_body C u = Some body \<Longrightarrow> v \<in> body_units body \<Longrightarrow>
    v \<in> reached_units C f"

definition unit_refs :: "ir_encode_ctx \<Rightarrow> ir_function \<Rightarrow> (ir_unit \<times> ir_unit) set" where
  "unit_refs C f =
     {(v, u). u \<in> reached_units C f \<and> (\<exists>body. unit_body C u = Some body \<and> v \<in> body_units body)}"

lemma finite_body_units [simp]: "finite (body_units is)"
proof -
  have "finite (expr_units e)" for e by (auto simp: expr_units_def split: ir_expr.split)
  then show ?thesis by (simp add: body_units_def)
qed

lemma finite_unit_refs: "finite {v. (v, u) \<in> unit_refs C f}"
proof -
  have "{v. (v, u) \<in> unit_refs C f} \<subseteq> (case unit_body C u of None \<Rightarrow> {} | Some body \<Rightarrow> body_units body)"
    by (auto simp: unit_refs_def)
  then show ?thesis by (rule finite_subset) (auto split: option.split)
qed

text \<open>In a program, where only finitely many units are reached, no endless chain means no cycle.\<close>

lemma acyclic_unit_refs:
  assumes "finite (reached_units C f)" and "acyclic (unit_refs C f)"
  shows "wf (unit_refs C f)"
proof (rule finite_acyclic_wf [OF _ assms(2)])
  have "unit_refs C f \<subseteq> reached_units C f \<times> reached_units C f"
    by (auto simp: unit_refs_def intro: reached_units.indirect)
  then show "finite (unit_refs C f)" using assms(1) by (simp add: finite_subset)
qed

text \<open>A relation without endless chains in which everything has finitely many predecessors has ranks.\<close>

lemma wf_rank:
  assumes "wf R" and "\<And>u. finite {v. (v, u) \<in> R}"
  obtains rk :: "'a \<Rightarrow> nat" where "\<And>v u. (v, u) \<in> R \<Longrightarrow> rk v < rk u"
proof -
  define F where "F g u = Max (insert 0 (Suc ` g ` {v. (v, u) \<in> R}))" for g :: "'a \<Rightarrow> nat" and u
  define rk where "rk = wfrec R F"
  have "rk v < rk u" if "(v, u) \<in> R" for v u
  proof -
    have "rk u = F (cut rk R u) u" unfolding rk_def by (rule wfrec [OF assms(1)])
    also have "\<dots> = F rk u"
      unfolding F_def by (rule arg_cong [where f = Max]) (auto simp: cut_apply image_iff)
    finally have "rk u = Max (insert 0 (Suc ` rk ` {v. (v, u) \<in> R}))" by (simp add: F_def)
    moreover have "Suc (rk v) \<le> Max (insert 0 (Suc ` rk ` {v. (v, u) \<in> R}))"
      using that by (intro Max_ge) (simp_all add: assms(2))
    ultimately show ?thesis by simp
  qed
  then show ?thesis by (rule that)
qed

lemma lower_instrs_total:
  "(\<And>i local ctx s. i \<in> set is \<Longrightarrow> \<exists>t s'. enc (in_expr i) local ctx s = Some (t, s')) \<Longrightarrow>
   \<exists>l r s'. lower_instrs B enc nm ctx is local latest s = Some (l, r, s')"
proof (induction "is" arbitrary: local latest s)
  case (Cons i "is")
  obtain l1 s1 where d: "declare_target B nm (in_target i) local s = (l1, s1)" by fastforce
  from Cons.prems [of i l1 ctx s1] obtain t s2 where "enc (in_expr i) l1 ctx s1 = Some (t, s2)" by auto
  then show ?case using d Cons.IH [OF Cons.prems] by simp
qed simp

lemma block_total:
  assumes "\<And>body i local ctx s. block_body C b = Some body \<Longrightarrow> i \<in> set body \<Longrightarrow>
             \<exists>t s'. enc (in_expr i) local ctx s = Some (t, s')"
  shows "\<exists>t s'. eval_ir_block_or_uf B C enc b slots ctx s = Some (t, s')"
proof (cases "block_body C b")
  case None
  then show ?thesis
    by (cases "ib_nullary_uf B (ir_block_label_name b) s") (simp add: eval_ir_block_or_uf_def eval_ir_block_def)
next
  case (Some body)
  obtain t0 s0 where n: "ib_get_or_create_named B (ir_block_result_name b) s = (t0, s0)" by fastforce
  from lower_instrs_total [of body enc, OF assms [OF Some]] obtain l r s1 where
    "lower_instrs B enc (ir_block_slot_name b) ctx body (slots(result_slot \<mapsto> t0)) None s0 = Some (l, r, s1)"
    by blast
  then show ?thesis using Some n
    by (cases r; cases "ib_nullary_uf B (ir_block_label_name b) s1")
      (simp_all add: eval_ir_block_or_uf_def eval_ir_block_def)
qed

lemma arms_total:
  assumes "\<And>pat b s. (pat, b) \<in> set arms \<Longrightarrow> \<exists>t s'. eval_ir_block_or_uf B C enc b slots ctx s = Some (t, s')"
  shows "\<exists>t s'. lower_arms B C enc scr slots ctx arms d s = Some (t, s')"
  using assms
proof (induction arms)
  case (Cons arm arms)
  obtain pat b where arm: "arm = (pat, b)" by fastforce
  from Cons obtain t s1 where "lower_arms B C enc scr slots ctx arms d s = Some (t, s1)" by fastforce
  moreover from Cons.prems [of pat b s1] arm obtain t' s2 where
    "eval_ir_block_or_uf B C enc b slots ctx s1 = Some (t', s2)" by auto
  ultimately show ?case using arm by (auto split: option.split)
qed simp

lemma call_total:
  assumes "\<And>callee i local ctx s. callee_ir C f = Some callee \<Longrightarrow> i \<in> set (if_body callee) \<Longrightarrow>
             \<exists>t s'. enc (in_expr i) local ctx s = Some (t, s')"
  shows "\<exists>t s'. encode_call B C enc f args slots ctx s = Some (t, s')"
proof -
  have "\<exists>r s'. eval_ir_call B C enc f args slots s = Some (r, s')"
  proof (cases "callee_ir C f")
    case (Some callee)
    obtain l1 s1 where 1: "bind_params B f slots (zip (if_params callee) args) Map.empty s = (l1, s1)" by fastforce
    obtain u s2 where 2: "ib_get_or_create_named B (call_result_name f) s1 = (u, s2)" by fastforce
    from lower_instrs_total [of "if_body callee" enc, OF assms [OF Some]] obtain l r s3 where
      "lower_instrs B enc (call_slot_name f)
         \<lparr>sc_slot_to_name = map_of (rev (map (\<lambda>p. (sd_slot p, call_param_name f (sd_slot p))) (if_params callee))),
          sc_slot_types = slot_type_map callee\<rparr> (if_body callee) (l1(result_slot \<mapsto> u)) None s2 = Some (l, r, s3)"
      by blast
    then show ?thesis using Some 1 2 by (simp add: eval_ir_call_def)
  qed (simp add: eval_ir_call_def)
  then obtain r s1 where "eval_ir_call B C enc f args slots s = Some (r, s1)" by blast
  then show ?thesis
    by (cases "ib_canonical_length B (the (sc_slot_to_name ctx (hd args))) s")
      (auto simp: encode_call_def case_prod_beta split: option.splits)
qed

definition ranked_units :: "(ir_unit \<Rightarrow> nat) \<Rightarrow> ir_unit set \<Rightarrow> ir_encode_ctx \<Rightarrow> bool" where
  "ranked_units rk U C \<longleftrightarrow>
     (\<forall>u \<in> U. \<forall>body. unit_body C u = Some body \<longrightarrow> (\<forall>v \<in> body_units body. v \<in> U \<and> rk v < rk u))"

lemma ranked_unitsD:
  assumes "ranked_units rk U C" and "u \<in> U" and "unit_body C u = Some body" and "i \<in> set body"
  shows "expr_units (in_expr i) \<subseteq> {v \<in> U. rk v < rk u}"
  using assms by (fastforce simp: ranked_units_def body_units_def)

lemma encode_total:
  assumes "ranked_units rk U C"
  shows "expr_units e \<subseteq> {v \<in> U. Suc (rk v) < n} \<Longrightarrow> n > 0 \<Longrightarrow>
    \<exists>t s'. encode_ir_expr n B C e slots ctx s = Some (t, s')"
proof (induction n arbitrary: e slots ctx s)
  case (Suc n)
  have unit: "\<exists>t s'. encode_ir_expr n B C (in_expr i) local ctx s = Some (t, s')"
    if "u \<in> U" "rk u < n" "unit_body C u = Some body" "i \<in> set body" for u body i local ctx s
    using ranked_unitsD [OF assms that(1,3,4)] that(2) by (intro Suc.IH) fastforce+
  have block: "\<exists>t s'. eval_ir_block_or_uf B C (encode_ir_expr n B C) b slots ctx s = Some (t, s')"
    if "BlockUnit b \<in> expr_units e" for b slots ctx s
    using that Suc.prems(1) unit [of "BlockUnit b"] by (intro block_total) auto
  have pair: "\<exists>t s'. Some p = Some (t, s')" for p :: "smt_term \<times> 'a" by (cases p) simp
  show ?case
  proof (cases e)
    case (IrCall f args)
    then have "CalleeUnit f \<in> U" "rk (CalleeUnit f) < n" using Suc.prems(1) by (auto simp: expr_units_def)
    from unit [OF this] have "\<exists>t s'. encode_call B C (encode_ir_expr n B C) f args slots ctx s = Some (t, s')"
      by (intro call_total) auto
    then show ?thesis using IrCall by (simp add: encode_step_def)
  next
    case (IrIf c b1 b2)
    then have "BlockUnit b1 \<in> expr_units e" "BlockUnit b2 \<in> expr_units e" by (auto simp: expr_units_def)
    with IrIf block show ?thesis
      by (simp add: encode_step_def encode_if_def case_prod_beta bind_eq_Some_conv) (metis prod.sel)
  next
    case (IrMatch k arms)
    then have "BlockUnit b \<in> expr_units e" if "(pat, b) \<in> set arms" for pat b
      using that by (force simp: expr_units_def)
    then have "\<exists>t s'. lower_arms B C (encode_ir_expr n B C) scr slots ctx arms d s = Some (t, s')" for scr d s
      by (intro arms_total block)
    then show ?thesis by (simp add: IrMatch encode_step_def encode_match_def case_prod_beta)
  next
    case (IrLoop b c)
    then have "BlockUnit b \<in> expr_units e" by (simp add: expr_units_def)
    with IrLoop block [of b] show ?thesis by (simp add: encode_step_def case_prod_beta)
  qed (simp_all add: encode_step_def pair case_prod_beta)
qed simp

lemma apply_instrs_total:
  assumes "ranked_units rk U C" and "n > 0"
  shows "list_all (\<lambda>i. expr_units (in_expr i) \<subseteq> {v \<in> U. Suc (rk v) < n}) is \<Longrightarrow>
         \<exists>r. apply_instrs B (encode_ir_expr n B C) types is names slots s = Some r"
proof (induction "is" arbitrary: names slots s)
  case (Cons i "is")
  obtain l1 s1 where d: "declare_target B ir_slot_name (in_target i) slots s = (l1, s1)" by fastforce
  from encode_total [OF assms(1), of "in_expr i" n] Cons.prems assms(2) obtain t s2 where
    "encode_ir_expr n B C (in_expr i) l1 \<lparr>sc_slot_to_name = names, sc_slot_types = types\<rparr> s1 = Some (t, s2)"
    by fastforce
  then show ?case using d Cons by (simp add: Let_def)
qed simp

lemma constraints_total:
  assumes "ranked_units rk U C" and "body_units (if_body f) \<subseteq> {v \<in> U. Suc (rk v) < n}" and "n > 0"
  shows "apply_ir_body_constraints n B C f names slots s \<noteq> None"
proof -
  have "list_all (\<lambda>i. expr_units (in_expr i) \<subseteq> {v \<in> U. Suc (rk v) < n}) (if_body f)"
    using assms(2) by (auto simp: list_all_iff body_units_def)
  from apply_instrs_total [OF assms(1,3) this, of B "slot_type_map f" "map_of (rev (ir_param_names f names))" slots s]
  show ?thesis by (auto simp: apply_ir_body_constraints_def case_prod_beta)
qed

text \<open>C29: when no endless chain of references runs through the blocks and callees a body reaches, there
  is a recursion depth from which on lowering the body returns for both back ends, whatever the names,
  the machine type and the state of the encoder.\<close>

theorem ir_lowering_terminates:
  assumes "wf (unit_refs C f)"
  shows "\<exists>depth. \<forall>n \<ge> depth. \<forall>machine_wrap names s e.
    apply_ir_body_smtlib n machine_wrap C f names s \<noteq> None \<and> apply_ir_body_z3 n machine_wrap C f names e \<noteq> None"
proof -
  obtain rk :: "ir_unit \<Rightarrow> nat" where rk: "\<And>v u. (v, u) \<in> unit_refs C f \<Longrightarrow> rk v < rk u"
    using wf_rank [OF assms finite_unit_refs] by blast
  then have ranked: "ranked_units rk (reached_units C f) C"
    by (auto simp: ranked_units_def unit_refs_def intro: reached_units.indirect)
  define depth where "depth = Suc (Suc (Suc (Max (insert 0 (rk ` body_units (if_body f))))))"
  have "apply_ir_body_smtlib n machine_wrap C f names s \<noteq> None \<and> apply_ir_body_z3 n machine_wrap C f names e \<noteq> None"
    if "n \<ge> depth" for n machine_wrap names s e
  proof -
    have "Suc (rk v) < n" if "v \<in> body_units (if_body f)" for v
    proof -
      have "rk v \<le> Max (insert 0 (rk ` body_units (if_body f)))"
        using that by (intro Max_ge) simp_all
      then show ?thesis using \<open>n \<ge> depth\<close> unfolding depth_def by linarith
    qed
    then have body: "body_units (if_body f) \<subseteq> {v \<in> reached_units C f. Suc (rk v) < n}"
      by (auto intro: reached_units.direct)
    moreover have "n > 0" using that by (simp add: depth_def)
    ultimately show ?thesis
      by (simp add: apply_ir_body_smtlib_def apply_ir_body_z3_def case_prod_beta Let_def
          constraints_total [OF ranked] del: not_None_eq)
  qed
  then show ?thesis by blast
qed

text \<open>The witness: a branch, in a context with an unrelated recursive function.\<close>

definition branch_loop_ctx :: ir_encode_ctx where
  "branch_loop_ctx =
     ctx_of [(''fact'', int_function [0] [instr result_slot (IrCall ''fact'' [0])])]
       [(1, [instr result_slot (IrConst (IrInt 10))]), (2, [instr result_slot (IrConst (IrInt 20))])]"

lemma branch_loop_blocks:
  "unit_body branch_loop_ctx (BlockUnit 1) = Some [instr result_slot (IrConst (IrInt 10))]"
  "unit_body branch_loop_ctx (BlockUnit 2) = Some [instr result_slot (IrConst (IrInt 20))]"
  by (simp_all add: branch_loop_ctx_def ctx_of_def block_body_def)

lemma constant_units: "body_units [instr k (IrConst lit)] = {}"
  by (simp add: body_units_def expr_units_def instr_def)

lemma branch_unit_bodies:
  "u \<in> {BlockUnit 1, BlockUnit 2} \<Longrightarrow> unit_body branch_loop_ctx u = Some body \<Longrightarrow> body_units body = {}"
  using branch_loop_blocks by (elim insertE) (auto simp only: constant_units option.inject)

lemma branch_reached:
  "u \<in> reached_units branch_loop_ctx branch_function \<Longrightarrow> u \<in> {BlockUnit 1, BlockUnit 2}"
proof (induction rule: reached_units.induct)
  case (direct u)
  then show ?case
    by (auto simp: body_units_def expr_units_def branch_function_def int_function_def instr_def)
next
  case (indirect u body v)
  with branch_unit_bodies [OF indirect.IH indirect.hyps(2)] show ?case by simp
qed

lemma branch_refs: "unit_refs branch_loop_ctx branch_function = {}"
proof -
  have False if "u \<in> reached_units branch_loop_ctx branch_function" "unit_body branch_loop_ctx u = Some body"
      "v \<in> body_units body" for u v body
    using branch_unit_bodies [OF branch_reached [OF that(1)] that(2)] that(3) by simp
  then show ?thesis by (auto simp: unit_refs_def simp del: unit_body.simps)
qed

lemma ir_lowering_terminates_witness:
  "\<exists>depth. apply_ir_body_smtlib depth (Some (32, True)) branch_loop_ctx branch_function [''x''] empty_smtlib \<noteq> None \<and>
   apply_ir_body_z3 depth (Some (32, True)) branch_loop_ctx branch_function [''x''] empty_z3 \<noteq> None"
proof -
  have "wf (unit_refs branch_loop_ctx branch_function)" by (simp add: branch_refs)
  from ir_lowering_terminates [OF this] show ?thesis by blast
qed

text \<open>
  A function that calls itself is inlined without end: no depth is enough, whatever the branches its
  execution would take, since both branches of a conditional are lowered.
\<close>

definition recursive_ctx :: ir_encode_ctx where
  "recursive_ctx = ctx_of [(''fact'', int_function [0] [instr result_slot (IrCall ''fact'' [0])])] []"

lemma recursive_call_overflows: "encode_ir_expr n B recursive_ctx (IrCall ''fact'' [k]) slots ctx s = None"
proof (induction n arbitrary: k slots ctx s)
  case (Suc n)
  then show ?case
    by (simp add: encode_step_def encode_call_def is_length_ir_call_def is_length_method_name_def
        eval_ir_call_def callee_ir_def recursive_ctx_def ctx_of_def int_function_def instr_def
        declare_target_def case_prod_beta)
qed simp

section \<open>Contradictory axioms\<close>

text \<open>
  Every inlined call of a function uses the same constants for its parameters, so two calls of one
  function force their arguments to be equal: the axioms have no model for other arguments, and
  whatever the contract ensures is then proved.  The body is
  \<open>$2 = call f ($0); $result = call f ($1)\<close>.
\<close>

definition twice_ctx :: ir_encode_ctx where
  "twice_ctx = ctx_of [(''f'', int_function [0] [instr result_slot (IrLoad 0)])] []"

definition twice_function :: ir_function where
  "twice_function = int_function [0, 1] [instr 2 (IrCall ''f'' [0]), instr result_slot (IrCall ''f'' [1])]"

lemma two_calls_force_equal_arguments:
  "case apply_ir_body_smtlib (Suc (Suc 0)) None twice_ctx twice_function [''x'', ''y''] empty_smtlib of
     Some s \<Rightarrow> \<forall>M. smtlib_sat M s \<longrightarrow> sm_var M ''x'' = sm_var M ''y'' | None \<Rightarrow> False"
  by (simp add: lower_defs example_defs smtlib_state_defs name_defs smtlib_sat_def twice_ctx_def
      twice_function_def)

text \<open>
  The postcondition an implementation states for itself is assumed with the body, and never
  checked: a body with the postcondition \<open>false\<close> verifies every contract.
\<close>

lemma post_is_assumed:
  assumes "apply_ir_body_z3 n machine_wrap C (f\<lparr>if_post := Some IrFalse\<rparr>) names s = Some s'"
  shows "\<not> z3_sat M s'"
  using assms
  by (auto simp: apply_ir_body_z3_def apply_ir_body_constraints_def bind_eq_Some_conv z3_push_post_def
      push_axiom_def z3_sat_def case_prod_beta Let_def)

section \<open>Straight-line bodies have a model\<close>

text \<open>
  Where the body is a sequence of constants, loads, arithmetic, comparisons and casts that writes
  every slot once, the axioms never exclude an execution: for all values of the parameters on which
  the body runs there is a model, and by \<open>smtlib_result_is_execution\<close> its result is that of the run.
\<close>

fun straight_expr :: "ir_expr \<Rightarrow> bool" where
  "straight_expr (IrConst lit) \<longleftrightarrow> literal_value lit \<noteq> None"
| "straight_expr (IrLoad _) \<longleftrightarrow> True"
| "straight_expr (IrCast _ _) \<longleftrightarrow> True"
| "straight_expr (IrArith _ _ _) \<longleftrightarrow> True"
| "straight_expr (IrCmp _ _ _) \<longleftrightarrow> True"
| "straight_expr _ \<longleftrightarrow> False"

text \<open>A result copied from a parameter also gets the length axioms, and is left out.\<close>

definition plain_instr :: "nat set \<Rightarrow> ir_instr \<Rightarrow> bool" where
  "plain_instr ps i \<longleftrightarrow>
     straight_expr (in_expr i) \<and>
     \<not> (in_target i = result_slot \<and> (\<exists>k \<in> ps. in_expr i = IrLoad k))"

definition straight_line :: "ir_function \<Rightarrow> bool" where
  "straight_line f \<longleftrightarrow>
     list_all (plain_instr (sd_slot ` set (if_params f))) (if_body f) \<and>
     distinct (map in_target (if_body f)) \<and>
     set (map in_target (if_body f)) \<inter> sd_slot ` set (if_params f) = {} \<and>
     distinct (map sd_slot (if_params f)) \<and> result_slot \<notin> sd_slot ` set (if_params f) \<and>
     if_post f = None"

lemma straight_state:
  assumes "straight_expr e" and "agree M slots env" and "ir_value m S C e env = Some v" and "n > 0"
  shows "\<exists>t. encode_ir_expr n B C e slots ctx s = Some (t, s)"
proof -
  obtain n' m' where nm: "n = Suc n'" "m = Suc m'" using assms(3,4) by (cases n; cases m) auto
  have load: "\<exists>t. load_slot B slots k s = (t, s)" if "env k = Some v" for k v s
    using agreeD [OF assms(2) that] by (auto simp: load_slot_def)
  show ?thesis
  proof (cases e)
    case (IrConst lit)
    then show ?thesis using assms(1) nm by (cases lit) (simp_all add: encode_step_def encode_literal_def)
  next
    case (IrArith op l r)
    with assms(3) nm obtain a b where ab: "env l = Some a" "env r = Some b"
      by (auto simp: value_step_def bind_eq_Some_conv)
    from load [OF ab(1)] load [OF ab(2)] IrArith nm show ?thesis
      by (simp add: encode_step_def case_prod_beta) (metis snd_conv)
  next
    case (IrCmp op l r)
    with assms(3) nm obtain a b where ab: "env l = Some a" "env r = Some b"
      by (auto simp: value_step_def bind_eq_Some_conv)
    from load [OF ab(1)] load [OF ab(2)] IrCmp nm show ?thesis
      by (simp add: encode_step_def case_prod_beta) (metis snd_conv)
  next
    case (IrLoad k)
    with assms(3) nm load [of k v] show ?thesis by (simp add: encode_step_def value_step_def)
  next
    case (IrCast k ty)
    with assms(3) nm load [of k v] show ?thesis by (simp add: encode_step_def value_step_def)
  qed (use assms(1) in simp_all)
qed

lemma sanitize_dec: "sanitize_smt_name (p @ dec n) = sanitize_smt_name p @ dec n"
proof -
  have "map (\<lambda>c. if c = CHR ''.'' then CHR ''_'' else c) s = s" if "list_all is_digit s" for s
    using that by (induction s) (auto simp: is_digit_def)
  from this [OF digits_val_is_digit [OF digits_val_dec]] show ?thesis by (simp add: sanitize_smt_name_def)
qed

lemma slot_symbol: "sanitize_smt_name (ir_slot_name k) = ''__ir_slot_'' @ dec k"
  unfolding ir_slot_name_def sanitize_dec by (simp add: sanitize_smt_name_def)

lemma run_instrs_keeps:
  "run_instrs S ev is env = Some env' \<Longrightarrow> k \<notin> in_target ` set is \<Longrightarrow> env' k = env k"
  by (induction "is" arbitrary: env) (auto simp: bind_eq_Some_conv)

lemma run_instrs_defines:
  "run_instrs S ev is env = Some env' \<Longrightarrow> k \<in> in_target ` set is \<Longrightarrow> \<exists>v. env' k = Some v"
proof (induction "is" arbitrary: env)
  case (Cons i "is")
  then show ?case
    by (cases "k \<in> in_target ` set is") (auto simp: bind_eq_Some_conv run_instrs_keeps)
qed simp

lemma param_slots_sat:
  "param_slots (smtlib_builder w) ps slots s = (slots', s') \<Longrightarrow> smtlib_sat M s \<Longrightarrow> smtlib_sat M s'"
proof (induction ps arbitrary: slots s)
  case (Cons p ps)
  obtain k name where p: "p = (k, name)" by fastforce
  with Cons show ?case
    by (auto simp: smtlib_named_def declare_int_var_def declare_key_def smtlib_sat_def emit_def split: if_splits)
qed simp

definition slot_symbol_value :: "smt_model \<Rightarrow> nat \<Rightarrow> int" where
  "slot_symbol_value M k =
     sm_var M (if k = result_slot then result_var_name else sanitize_smt_name (ir_slot_name k))"

lemma declare_agree_smtlib:
  "agree M slots env \<Longrightarrow> declare_target (smtlib_builder w) nm k slots s = (slots', s') \<Longrightarrow> agree M slots' env"
  by (rule smtlib.declare_agree)

lemma smtlib_apply_complete:
  assumes "list_all (plain_instr ps) is" and "distinct (map in_target is)" and "n > 0"
    and "\<forall>k. names k \<noteq> None \<longrightarrow> k \<in> ps"
    and "agree M slots env" and "slots result_slot = Some (SSym result_var_name)"
    and "\<forall>k \<in> in_target ` set is. k \<noteq> result_slot \<longrightarrow> slots k = None"
    and "run_instrs (smtlib_semantics w M) (ir_value m (smtlib_semantics w M) C) is env = Some env'"
    and "\<forall>k \<in> in_target ` set is. env' k = Some (slot_symbol_value M k)"
    and "smtlib_sat M s"
  shows "\<exists>r s'. apply_instrs (smtlib_builder w) (encode_ir_expr n (smtlib_builder w) C) types is names slots s =
                 Some (r, s') \<and> smtlib_sat M s'"
  using assms
proof (induction "is" arbitrary: slots env s)
  case (Cons i "is")
  let ?B = "smtlib_builder w" and ?S = "smtlib_semantics w M" and ?k = "in_target i"
  from Cons.prems(8) obtain v where v: "ir_value m ?S C (in_expr i) env = Some v"
    and run: "run_instrs ?S (ir_value m ?S C) is (env(?k \<mapsto> stored_value ?S i v)) = Some env'"
    by (auto simp: bind_eq_Some_conv)
  have k: "?k \<notin> in_target ` set is" using Cons.prems(2) by simp
  then have k': "\<forall>j \<in> set is. in_target j \<noteq> ?k" by (metis imageI)
  from k have "env' ?k = Some (stored_value ?S i v)" using run_instrs_keeps [OF run] by simp
  then have val: "slot_symbol_value M ?k = stored_value ?S i v" using Cons.prems(9) by simp
  define l1 where "l1 = (if ?k = result_slot then slots else slots(?k \<mapsto> SSym (sanitize_smt_name (ir_slot_name ?k))))"
  define s1 where "s1 = (if ?k = result_slot then s else declare_int_var (ir_slot_name ?k) s)"
  have d: "declare_target ?B ir_slot_name ?k slots s = (l1, s1)"
    using Cons.prems(7) by (auto simp: declare_target_def l1_def s1_def smtlib_named_def)
  have s1: "smtlib_sat M s1"
    using Cons.prems(10) by (auto simp: s1_def smtlib_sat_def declare_int_var_def declare_key_def emit_def)
  have a1: "agree M l1 env"
    using declare_agree_smtlib [OF Cons.prems(5) d] .
  have slot: "\<exists>t. l1 ?k = Some t \<and> ieval M t = stored_value ?S i v"
    using val Cons.prems(6) by (auto simp: l1_def slot_symbol_value_def split: if_splits)
  have straight: "straight_expr (in_expr i)" using Cons.prems(1) by (simp add: plain_instr_def)
  define ctx where "ctx = \<lparr>sc_slot_to_name = names, sc_slot_types = types\<rparr>"
  from straight_state [OF straight a1 v Cons.prems(3), of ?B ctx s1] obtain t where
    e: "encode_ir_expr n ?B C (in_expr i) l1 ctx s1 = Some (t, s1)" ..
  have t: "ieval M t = v" using smtlib.encode_sound e s1 a1 v unfolding enc_sound_def by blast
  define s2 where "s2 = bind_ir_computed ?B ?k t l1 (in_expr i) s1"
  have s2: "smtlib_sat M s2"
    using slot s1 t by (auto simp: s2_def bind_ir_computed_def smtlib_sat_def emit_def stored_value_def
        wrap_machine_value smtlib_semantics_def split: if_splits)
  have names: "track_field_name i names = names"
    using straight by (auto simp: track_field_name_def split: ir_expr.split)
  have hooks: "result_hooks ?B i names s2 = s2"
    using Cons.prems(1,4) straight
    by (auto simp: result_hooks_def plain_instr_def split: ir_expr.split option.split)
  have a2: "agree M l1 (env(?k \<mapsto> stored_value ?S i v))" using slot a1 by (auto intro: agree_bound)
  have "\<exists>r s'. apply_instrs ?B (encode_ir_expr n ?B C) types is names l1 s2 = Some (r, s') \<and> smtlib_sat M s'"
    by (rule Cons.IH [OF _ _ Cons.prems(3,4) a2 _ _ run _ s2])
      (use Cons.prems k' in \<open>auto simp: l1_def\<close>)
  then show ?case using d e by (simp add: Let_def names hooks flip: s2_def ctx_def)
qed simp

text \<open>The model of a run: every slot has the value it is given.\<close>

definition run_value :: "env \<Rightarrow> string \<Rightarrow> int option" where
  "run_value env x =
     (if x = result_var_name then env result_slot
      else let k = (SOME k. x = sanitize_smt_name (ir_slot_name k)) in
           if x = sanitize_smt_name (ir_slot_name k) then env k else None)"

definition run_model :: "smt_model \<Rightarrow> env \<Rightarrow> smt_model" where
  "run_model M env = M\<lparr>sm_var := (\<lambda>x. if prefix ''__'' x
     then (case run_value env x of Some v \<Rightarrow> v | None \<Rightarrow> sm_var M x) else sm_var M x)\<rparr>"

lemma run_model_semantics: "smtlib_semantics w (run_model M env) = smtlib_semantics w M"
proof -
  have "sm_fun (run_model M env) = sm_fun M" by (simp add: run_model_def)
  then have "smtlib_call_value (run_model M env) = smtlib_call_value M"
    by (intro ext) (simp only: smtlib_call_value_def)
  then show ?thesis by (simp add: smtlib_semantics_def)
qed

lemma run_model_slot:
  assumes "env k = Some v"
  shows "slot_symbol_value (run_model M env) k = v"
proof -
  have "run_value env (if k = result_slot then result_var_name else sanitize_smt_name (ir_slot_name k)) = Some v"
    using assms by (auto simp: run_value_def slot_symbol result_var_name_def)
  then show ?thesis by (auto simp: slot_symbol_value_def run_model_def result_var_name_def slot_symbol)
qed

lemma run_model_params:
  assumes "list_all (\<lambda>name. \<not> prefix ''__'' (sanitize_smt_name name)) (map snd (ir_param_names f names))"
  shows "smtlib_param_env (run_model M env) f names = smtlib_param_env M f names"
proof
  fix k
  let ?names = "map_of (rev (ir_param_names f names))"
  have "sm_var (run_model M env) (sanitize_smt_name name) = sm_var M (sanitize_smt_name name)"
    if "?names k = Some name" for name
  proof -
    from map_of_SomeD [OF that] have "\<not> prefix ''__'' (sanitize_smt_name name)"
      using assms by (force simp: list_all_iff)
    then show ?thesis by (simp add: run_model_def)
  qed
  then show "smtlib_param_env (run_model M env) f names k = smtlib_param_env M f names k"
    by (cases "?names k") (auto simp: smtlib_param_env_def)
qed

lemma param_names_dom: "map_of (rev (ir_param_names f names)) k \<noteq> None \<longleftrightarrow> k \<in> sd_slot ` set (if_params f)"
  using ir_param_names_slots [of f names] by (metis domIff dom_map_of_conv_image_fst image_set set_rev)

text \<open>C28: take a body of constants, loads, casts, arithmetic and comparisons that assigns every slot
  once and no parameter, copies no parameter to the result, states no postcondition, and whose
  parameters have distinct slots and names not beginning with two underscores.  For all values of the
  parameters for which it runs, every divisor being positive, the axioms the shell writes have a model
  with those values: the encoding is never contradictory there.\<close>

theorem straight_line_satisfiable:
  assumes "straight_line f" and "n > 0"
    and "\<forall>M. smtlib_sat M s"
    and "list_all (\<lambda>name. \<not> prefix ''__'' (sanitize_smt_name name)) (map snd (ir_param_names f names))"
    and "run_ir_function m (smtlib_semantics w M) C f (smtlib_param_env M f names) = Some env"
  shows "\<exists>M' s'. apply_ir_body_smtlib n w C f names s = Some s' \<and> smtlib_sat M' s' \<and>
           smtlib_param_env M' f names = smtlib_param_env M f names"
proof -
  let ?B = "smtlib_builder w" and ?ps = "sd_slot ` set (if_params f)" and ?body = "if_body f"
  let ?names = "map_of (rev (ir_param_names f names))" and ?M = "run_model M env"
  have f: "list_all (plain_instr ?ps) ?body" "distinct (map in_target ?body)"
    "in_target ` set ?body \<inter> ?ps = {}" "result_slot \<notin> ?ps" "if_post f = None"
    using assms(1) by (auto simp: straight_line_def)
  note params = run_model_params [OF assms(4), of M env]
  have run: "run_instrs (smtlib_semantics w ?M) (ir_value m (smtlib_semantics w ?M) C) ?body
      (smtlib_param_env ?M f names) = Some env"
    using assms(5) by (simp only: run_model_semantics params run_ir_function_def)
  have slot: "\<forall>k \<in> in_target ` set ?body. env k = Some (slot_symbol_value ?M k)"
    using run_instrs_defines [OF run] run_model_slot by fastforce
  define s0 where "s0 = s\<lparr>ss_fresh := 0, ss_adts := {}\<rparr>"
  obtain slots1 s1 where p: "param_slots ?B (ir_param_names f names) Map.empty s0 = (slots1, s1)" by fastforce
  let ?slots = "slots1(result_slot \<mapsto> SSym result_var_name)"
  have slots1: "slots1 k = map_option (\<lambda>name. SSym (sanitize_smt_name name)) (?names k)" for k
    using smtlib_param_slots [OF p] by (simp add: map_of_rev_map)
  have "?names k = None" if "k \<in> in_target ` set ?body" for k
    using that f(3) param_names_dom [of f names k] by blast
  then have fresh: "\<forall>k \<in> in_target ` set ?body. k \<noteq> result_slot \<longrightarrow> ?slots k = None" by (simp add: slots1)
  have "smtlib_sat ?M s1" using param_slots_sat [OF p] assms(3) by (simp add: s0_def smtlib_sat_def)
  then have sat: "smtlib_sat ?M (declare_int_var ''result'' s1)"
    by (simp add: declare_int_var_def declare_key_def smtlib_sat_def emit_def)
  have agree: "agree ?M ?slots (smtlib_param_env ?M f names)"
    by (auto simp: agree_def smtlib_param_env_def slots1)
  have "\<exists>r s'. apply_instrs ?B (encode_ir_expr n ?B C) (slot_type_map f) ?body ?names ?slots
      (declare_int_var ''result'' s1) = Some (r, s') \<and> smtlib_sat ?M s'"
    using param_names_dom [of f names]
    by (intro smtlib_apply_complete [OF f(1,2) assms(2) _ agree _ fresh run slot sat]) simp_all
  then show ?thesis using params p f(5)
    by (auto simp: apply_ir_body_smtlib_def apply_ir_body_constraints_def s0_def)
qed

text \<open>\<open>$1 = arith add $0 $0; $2 = cmp lt $0 $1; $result = arith mul $1 $2\<close>.\<close>

definition straight_example :: ir_function where
  "straight_example =
     int_function [0] [instr 1 (IrArith IrAdd 0 0), instr 2 (IrCmp IrLt 0 1),
                       instr result_slot (IrArith IrMul 1 2)]"

lemma straight_line_satisfiable_witness:
  "\<exists>M s'. apply_ir_body_smtlib 1 (Some (8, True)) branch_ctx straight_example [''x''] empty_smtlib = Some s' \<and>
     smtlib_sat M s' \<and> smtlib_param_env M straight_example [''x''] 0 = Some 3"
proof -
  have "\<exists>env. run_ir_function (Suc 0) (smtlib_semantics (Some (8, True)) branch_model) branch_ctx straight_example
          (smtlib_param_env branch_model straight_example [''x'']) = Some env"
    by (simp add: run_defs straight_example_def example_defs smtlib_semantics_def sanitize_smt_name_def)
  then obtain env where run: "run_ir_function (Suc 0) (smtlib_semantics (Some (8, True)) branch_model) branch_ctx
      straight_example (smtlib_param_env branch_model straight_example [''x'']) = Some env" ..
  have "smtlib_param_env branch_model straight_example [''x''] 0 = Some 3"
    by (simp add: run_defs straight_example_def example_defs sanitize_smt_name_def)
  moreover have "straight_line straight_example"
    by (simp add: straight_line_def straight_example_def int_function_def instr_def plain_instr_def)
  moreover have "\<forall>M. smtlib_sat M empty_smtlib" by (simp add: smtlib_sat_def empty_smtlib_def)
  moreover have "list_all (\<lambda>name. \<not> prefix ''__'' (sanitize_smt_name name))
      (map snd (ir_param_names straight_example [''x'']))"
    by (simp add: ir_param_names_def straight_example_def int_function_def sanitize_smt_name_def)
  ultimately show ?thesis
    using straight_line_satisfiable [OF _ _ _ _ run, of 1 empty_smtlib] by (metis zero_less_one)
qed

end
