(* ===== verification/Bmc.thy ===== *)
theory Bmc
  imports Smt_Terms
begin

text \<open>
  Bounded model checking and k-induction: \<open>crates/assura-smt/src/bmc.rs\<close> and
  \<open>k_induction.rs\<close>.  The constraints of a transition system are text; a step of the unrolling
  renames the variables in the text and parses it.  The solver is a parameter: it answers a
  list of assertions.  Predicates are ASCII text.
\<close>

section \<open>Searching and replacing in text\<close>

text \<open>\<open>str::find\<close>, \<open>str::rfind\<close> of a character, \<open>str::replacen(_, _, 1)\<close>, \<open>str::split\<close>.\<close>

fun find_str :: "string \<Rightarrow> string \<Rightarrow> nat option" where
  "find_str pat [] = (if pat = [] then Some 0 else None)"
| "find_str pat (c # cs) = (if prefix pat (c # cs) then Some 0 else map_option Suc (find_str pat cs))"

definition rfind_char :: "char \<Rightarrow> string \<Rightarrow> nat option" where
  "rfind_char c s = map_option (\<lambda>i. length s - 1 - i) (find_index (\<lambda>d. d = c) (rev s))"

definition replace_first :: "string \<Rightarrow> string \<Rightarrow> string \<Rightarrow> string" where
  "replace_first pat new s =
     (case find_str pat s of Some i \<Rightarrow> take i s @ new @ drop (i + length pat) s | None \<Rightarrow> s)"

function split_str :: "string \<Rightarrow> string \<Rightarrow> string list" where
  "split_str pat s =
     (case find_str pat s of
        None \<Rightarrow> [s]
      | Some i \<Rightarrow> if pat = [] \<or> s = [] then [s] else take i s # split_str pat (drop (i + length pat) s))"
  by pat_completeness auto
termination
  by (relation "measure (\<lambda>(pat, s). length s)") auto

declare split_str.simps [simp del]

definition is_word_char :: "char \<Rightarrow> bool" where
  "is_word_char c \<longleftrightarrow>
     is_digit c \<or> (65 \<le> (of_char c :: nat) \<and> (of_char c :: nat) \<le> 90) \<or>
     (97 \<le> (of_char c :: nat) \<and> (of_char c :: nat) \<le> 122) \<or> c = CHR ''_''"

text \<open>
  \<open>replace_word\<close>: the loop keeps the character before the position, here \<open>prev\<close>.
\<close>

definition word_starts :: "char option \<Rightarrow> bool" where
  "word_starts prev \<longleftrightarrow> (case prev of None \<Rightarrow> True | Some c \<Rightarrow> \<not> is_word_char c)"

definition word_ends :: "string \<Rightarrow> bool" where
  "word_ends rest \<longleftrightarrow> (case rest of [] \<Rightarrow> True | c # _ \<Rightarrow> \<not> is_word_char c)"

function replace_from :: "string \<Rightarrow> string \<Rightarrow> char option \<Rightarrow> string \<Rightarrow> string" where
  "replace_from w to prev text =
     (case text of
        [] \<Rightarrow> []
      | c # cs \<Rightarrow>
          if w \<noteq> [] \<and> prefix w text \<and> word_starts prev \<and> word_ends (drop (length w) text)
          then to @ replace_from w to (Some (last w)) (drop (length w) text)
          else c # replace_from w to (Some c) cs)"
  by pat_completeness auto
termination
  by (relation "measure (\<lambda>(w, to, prev, text). length text)") (auto simp: diff_less_Suc)

declare replace_from.simps [simp del]

definition replace_word :: "string \<Rightarrow> string \<Rightarrow> string \<Rightarrow> string" where
  "replace_word text w to = (if w = [] then text else replace_from w to None text)"

section \<open>Parsing predicates\<close>

text \<open>
  The variables are given by their names; a constant of the solver is a symbol of that name.
  Each operator is looked for from the right, \<open>+\<close> and \<open>-\<close> only behind the first character.
\<close>

definition split_at_char :: "char \<Rightarrow> nat \<Rightarrow> string \<Rightarrow> (string \<times> string) option" where
  "split_at_char c least s =
     (case rfind_char c s of
        Some i \<Rightarrow> if i \<ge> least then Some (take i s, drop (i + 1) s) else None
      | None \<Rightarrow> None)"

definition parse_atom :: "string list \<Rightarrow> string \<Rightarrow> smt_term option" where
  "parse_atom vars s =
     (case parse_i64 s of
        Some n \<Rightarrow> Some (SInt n)
      | None \<Rightarrow> if s \<in> set vars then Some (SSym s) else None)"

fun both :: "smt_fun \<Rightarrow> smt_term option \<Rightarrow> smt_term option \<Rightarrow> smt_term option" where
  "both f (Some a) (Some b) = Some (SApp f [a, b])"
| "both f _ _ = None"

lemma find_index_lt: "find_index p xs = Some i \<Longrightarrow> i < length xs"
  by (auto dest: find_index_Some)

lemma rfind_char_lt: "rfind_char c s = Some i \<Longrightarrow> i < length s"
  by (auto simp: rfind_char_def dest!: find_index_lt)

lemma split_at_char_shorter:
  "split_at_char c k s = Some (a, b) \<Longrightarrow> length a < length s \<and> length b < length s"
  by (auto simp: split_at_char_def split: option.splits if_splits dest!: rfind_char_lt)

lemma trim_length: "length (trim s) \<le> length s"
  unfolding trim_def by (metis length_dropWhile_le length_rev order_trans)

function parse_bmc_int_expr :: "string list \<Rightarrow> string \<Rightarrow> smt_term option" where
  "parse_bmc_int_expr vars expr =
     (case split_at_char CHR ''+'' 1 (trim expr) of
        Some (a, b) \<Rightarrow> both FAdd (parse_bmc_int_expr vars a) (parse_bmc_int_expr vars b)
      | None \<Rightarrow>
     (case split_at_char CHR ''-'' 1 (trim expr) of
        Some (a, b) \<Rightarrow> both FSub (parse_bmc_int_expr vars a) (parse_bmc_int_expr vars b)
      | None \<Rightarrow>
     (case split_at_char CHR ''*'' 0 (trim expr) of
        Some (a, b) \<Rightarrow> both FMul (parse_bmc_int_expr vars a) (parse_bmc_int_expr vars b)
      | None \<Rightarrow>
     (case split_at_char CHR ''%'' 0 (trim expr) of
        Some (a, b) \<Rightarrow> both FMod (parse_bmc_int_expr vars a) (parse_bmc_int_expr vars b)
      | None \<Rightarrow> parse_atom vars (trim expr)))))"
  by pat_completeness auto
termination
proof (relation "measure (\<lambda>(vars, expr). length expr)", goal_cases)
  case 1
  then show ?case by simp
qed (use trim_length in \<open>auto dest!: split_at_char_shorter intro: less_le_trans\<close>)

declare parse_bmc_int_expr.simps [simp del]

definition comparisons :: "(string \<times> (smt_term \<Rightarrow> smt_term \<Rightarrow> smt_term)) list" where
  "comparisons =
     [(''>='', \<lambda>a b. SApp FGe [a, b]), (''<='', \<lambda>a b. SApp FLe [a, b]),
      (''!='', \<lambda>a b. SApp FNot [SApp FEq [a, b]]), (''=='', \<lambda>a b. SApp FEq [a, b]),
      (''>'', \<lambda>a b. SApp FGt [a, b]), (''<'', \<lambda>a b. SApp FLt [a, b])]"

fun parse_comparison ::
  "(string \<times> (smt_term \<Rightarrow> smt_term \<Rightarrow> smt_term)) list \<Rightarrow> string list \<Rightarrow> string \<Rightarrow> smt_term option" where
  "parse_comparison [] vars body = None"
| "parse_comparison ((op, build) # ops) vars body =
     (case find_str op body of
        Some pos \<Rightarrow>
          (case (parse_bmc_int_expr vars (trim (take pos body)),
                 parse_bmc_int_expr vars (trim (drop (pos + length op) body))) of
             (Some lhs, Some rhs) \<Rightarrow> Some (build lhs rhs)
           | _ \<Rightarrow> None)
      | None \<Rightarrow> parse_comparison ops vars body)"

lemma find_str_bound: "find_str pat s = Some i \<Longrightarrow> i + length pat \<le> length s"
  by (induction s arbitrary: i) (auto split: if_splits dest: prefix_length_le)

lemma find_str_None: "find_str pat s = None \<longleftrightarrow> \<not> str_contains s pat"
  by (induction s) auto

lemma split_str_shorter:
  assumes "pat \<noteq> []" and "str_contains s pat" and "p \<in> set (split_str pat s)"
  shows "length p < length s"
proof -
  have le: "length p \<le> length s" if "p \<in> set (split_str pat s)" for p s
    using that
  proof (induction pat s rule: split_str.induct)
    case (1 pat s)
    then show ?case
      by (subst (asm) (2) split_str.simps)
        (auto split: option.splits if_splits dest!: find_str_bound intro: le_trans)
  qed
  from assms(2) obtain i where i: "find_str pat s = Some i"
    using find_str_None [of pat s] by (cases "find_str pat s") auto
  then have "s \<noteq> []" using assms(1) by (cases s) auto
  with i assms(1,3) consider "p = take i s" | "p \<in> set (split_str pat (drop (i + length pat) s))"
    by (subst (asm) split_str.simps) auto
  then show ?thesis
  proof cases
    case 1
    have "0 < length pat" using assms(1) by simp
    with find_str_bound [OF i] have "i < length s" by linarith
    with 1 show ?thesis by simp
  next
    case 2
    have "0 < length pat" using assms(1) by simp
    with le [OF 2] find_str_bound [OF i] show ?thesis by (simp, linarith)
  qed
qed

definition collect :: "smt_fun \<Rightarrow> smt_term option list \<Rightarrow> smt_term option" where
  "collect f rs = map_option (SApp f) (those rs)"

function parse_bmc_predicate :: "string list \<Rightarrow> string \<Rightarrow> smt_term option" where
  "parse_bmc_predicate vars text =
     (if trim text = ''true'' then Some (SBool True)
      else if trim text = ''false'' then Some (SBool False)
      else if str_contains (trim text) ''&&''
      then collect FAnd (map (\<lambda>p. parse_bmc_predicate vars (trim p)) (split_str ''&&'' (trim text)))
      else if str_contains (trim text) ''||''
      then collect FOr (map (\<lambda>p. parse_bmc_predicate vars (trim p)) (split_str ''||'' (trim text)))
      else parse_comparison comparisons vars (trim text))"
  by pat_completeness auto
termination
proof (relation "measure (\<lambda>(vars, text). length text)", goal_cases)
  case 1
  then show ?case by simp
next
  case (2 vars body p)
  then have "length p < length (trim body)" by (intro split_str_shorter [of "''&&''"]) auto
  then show ?case using trim_length [of p] trim_length [of body] by simp
next
  case (3 vars body p)
  then have "length p < length (trim body)" by (intro split_str_shorter [of "''||''"]) auto
  then show ?case using trim_length [of p] trim_length [of body] by simp
qed

declare parse_bmc_predicate.simps [simp del]

section \<open>The engine\<close>

datatype bmc_sort = SortInt | SortBool | SortReal

record bmc_config =
  bc_bound :: nat
  bc_timeout_ms :: nat
  bc_enable_lasso :: bool

definition bmc_config_default :: bmc_config where
  "bmc_config_default = \<lparr>bc_bound = 10, bc_timeout_ms = 30000, bc_enable_lasso = True\<rparr>"

definition with_bound :: "nat \<Rightarrow> bmc_config \<Rightarrow> bmc_config" where
  "with_bound k cfg = cfg\<lparr>bc_bound := k\<rparr>"

definition with_timeout :: "nat \<Rightarrow> bmc_config \<Rightarrow> bmc_config" where
  "with_timeout ms cfg = cfg\<lparr>bc_timeout_ms := ms\<rparr>"

record state_variable =
  sv_name :: string
  sv_sort :: bmc_sort

record transition_constraint =
  tc_predicate :: string
  tc_variables :: "string list"

datatype bmc_property = Safety string string | Liveness string string

record bmc_trace_step =
  ts_step :: nat
  ts_assignments :: "(string \<times> string) list"

datatype bmc_result =
  BmcSafe string nat
| BmcCounterexample string nat "bmc_trace_step list"
| BmcLasso string nat nat "bmc_trace_step list"
| BmcUnknown string string

record bmc_engine =
  be_config :: bmc_config
  be_state_variables :: "state_variable list"
  be_transitions :: "transition_constraint list"
  be_initial_constraints :: "string list"
  be_properties :: "bmc_property list"

definition bmc_engine_new :: "bmc_config \<Rightarrow> bmc_engine" where
  "bmc_engine_new cfg =
     \<lparr>be_config = cfg, be_state_variables = [], be_transitions = [], be_initial_constraints = [],
      be_properties = []\<rparr>"

definition add_state_variable :: "string \<Rightarrow> bmc_sort \<Rightarrow> bmc_engine \<Rightarrow> bmc_engine" where
  "add_state_variable name srt eng =
     eng\<lparr>be_state_variables := be_state_variables eng @ [\<lparr>sv_name = name, sv_sort = srt\<rparr>]\<rparr>"

definition add_transition :: "string \<Rightarrow> string list \<Rightarrow> bmc_engine \<Rightarrow> bmc_engine" where
  "add_transition pred vars eng =
     eng\<lparr>be_transitions := be_transitions eng @ [\<lparr>tc_predicate = pred, tc_variables = vars\<rparr>]\<rparr>"

definition add_initial_constraint :: "string \<Rightarrow> bmc_engine \<Rightarrow> bmc_engine" where
  "add_initial_constraint c eng = eng\<lparr>be_initial_constraints := be_initial_constraints eng @ [c]\<rparr>"

definition add_property :: "bmc_property \<Rightarrow> bmc_engine \<Rightarrow> bmc_engine" where
  "add_property p eng = eng\<lparr>be_properties := be_properties eng @ [p]\<rparr>"

abbreviation var_names :: "bmc_engine \<Rightarrow> string list" where
  "var_names eng \<equiv> map sv_name (be_state_variables eng)"

abbreviation bmc_bound :: "bmc_engine \<Rightarrow> nat" where
  "bmc_bound eng \<equiv> bc_bound (be_config eng)"

definition rename_var :: "string \<Rightarrow> nat \<Rightarrow> string" where
  "rename_var name step = name @ ''_'' @ dec step"

text \<open>The stable sort by descending length.\<close>

definition sorted_vars :: "bmc_engine \<Rightarrow> string list" where
  "sorted_vars eng = sort_key (\<lambda>n. - int (length n)) (var_names eng)"

definition rename_predicate :: "bmc_engine \<Rightarrow> string \<Rightarrow> nat \<Rightarrow> string" where
  "rename_predicate eng pred step =
     fold (\<lambda>v text. replace_word text v (rename_var v step)) (sorted_vars eng) pred"

definition rename_transition_predicate :: "bmc_engine \<Rightarrow> string \<Rightarrow> nat \<Rightarrow> string" where
  "rename_transition_predicate eng pred step =
     fold (\<lambda>v text. replace_word text v (rename_var v step)) (sorted_vars eng)
       (fold (\<lambda>v text. replace_word text (v @ [CHR 0x27]) (rename_var v (step + 1))) (sorted_vars eng) pred)"

definition create_stepped_vars :: "bmc_engine \<Rightarrow> string list" where
  "create_stepped_vars eng =
     concat (map (\<lambda>step. map (\<lambda>v. rename_var v step) (var_names eng)) [0..<bmc_bound eng + 1])"

definition parse_predicate_at_step :: "bmc_engine \<Rightarrow> string \<Rightarrow> nat \<Rightarrow> smt_term option" where
  "parse_predicate_at_step eng pred step =
     parse_bmc_predicate (create_stepped_vars eng) (rename_predicate eng pred step)"

definition parse_transition_at_step :: "bmc_engine \<Rightarrow> string \<Rightarrow> nat \<Rightarrow> smt_term option" where
  "parse_transition_at_step eng pred step =
     parse_bmc_predicate (create_stepped_vars eng) (rename_transition_predicate eng pred step)"

text \<open>
  The solver's answer to a list of assertions; with \<open>sat\<close>, the text of the value its model
  gives a constant, where it gives one.
\<close>

datatype sat_result = ZSat "string \<Rightarrow> string option" | ZUnsat | ZUnknown "string option"

type_synonym solver = "smt_term list \<Rightarrow> sat_result"

definition to_lower :: "string \<Rightarrow> string" where
  "to_lower s = map (\<lambda>c. if 65 \<le> (of_char c :: nat) \<and> (of_char c :: nat) \<le> 90
     then char_of ((of_char c :: nat) + 32) else c) s"

definition z3_unknown_is_timeout :: "string \<Rightarrow> bool" where
  "z3_unknown_is_timeout reason \<longleftrightarrow>
     str_contains (to_lower reason) ''timeout'' \<or> str_contains (to_lower reason) ''canceled'' \<or>
     str_contains (to_lower reason) ''cancelled''"

definition extract_trace :: "bmc_engine \<Rightarrow> (string \<Rightarrow> string option) \<Rightarrow> nat \<Rightarrow> bmc_trace_step list" where
  "extract_trace eng model max_step =
     map (\<lambda>step. \<lparr>ts_step = step,
         ts_assignments =
           map (\<lambda>v. (v, case model (rename_var v step) of Some t \<Rightarrow> t | None \<Rightarrow> ''?''))
             (filter (\<lambda>v. rename_var v step \<in> set (create_stepped_vars eng)) (var_names eng))\<rparr>)
       [0..<max_step + 1]"

text \<open>The assertions common to both checks; text that does not parse is left out.\<close>

definition initial_assertions :: "bmc_engine \<Rightarrow> smt_term list" where
  "initial_assertions eng =
     List.map_filter (\<lambda>ic. parse_predicate_at_step eng ic 0) (be_initial_constraints eng)"

definition transition_assertions :: "bmc_engine \<Rightarrow> smt_term list" where
  "transition_assertions eng =
     concat (map (\<lambda>step. List.map_filter (\<lambda>t. parse_transition_at_step eng (tc_predicate t) step)
       (be_transitions eng)) [0..<bmc_bound eng])"

fun safety_steps :: "solver \<Rightarrow> bmc_engine \<Rightarrow> string \<Rightarrow> string \<Rightarrow> smt_term list \<Rightarrow> nat list \<Rightarrow> bmc_result" where
  "safety_steps z3 eng name bad asserted [] = BmcSafe name (bmc_bound eng)"
| "safety_steps z3 eng name bad asserted (step # steps) =
     (case parse_predicate_at_step eng bad step of
        None \<Rightarrow> safety_steps z3 eng name bad asserted steps
      | Some f \<Rightarrow>
          (case z3 (asserted @ [f]) of
             ZSat model \<Rightarrow> BmcCounterexample name step (extract_trace eng model step)
           | ZUnknown reason \<Rightarrow>
               if z3_unknown_is_timeout (case reason of Some r \<Rightarrow> r | None \<Rightarrow> ''unknown'')
               then BmcUnknown name (''timeout at step '' @ dec step)
               else safety_steps z3 eng name bad asserted steps
           | ZUnsat \<Rightarrow> safety_steps z3 eng name bad asserted steps))"

definition check_safety_z3 :: "solver \<Rightarrow> bmc_engine \<Rightarrow> string \<Rightarrow> string \<Rightarrow> bmc_result" where
  "check_safety_z3 z3 eng name bad =
     safety_steps z3 eng name bad (initial_assertions eng @ transition_assertions eng) [0..<bmc_bound eng + 1]"

definition goal_assertions :: "bmc_engine \<Rightarrow> string \<Rightarrow> smt_term list" where
  "goal_assertions eng goal =
     List.map_filter (\<lambda>step. map_option (\<lambda>g. SApp FNot [g]) (parse_predicate_at_step eng goal step))
       [0..<bmc_bound eng + 1]"

definition loop_equations :: "bmc_engine \<Rightarrow> nat \<Rightarrow> smt_term list" where
  "loop_equations eng i =
     map (\<lambda>v. SApp FEq [SSym (rename_var v (bmc_bound eng)), SSym (rename_var v i)])
       (filter (\<lambda>v. rename_var v (bmc_bound eng) \<in> set (create_stepped_vars eng) \<and>
                    rename_var v i \<in> set (create_stepped_vars eng)) (var_names eng))"

fun lasso_steps :: "solver \<Rightarrow> bmc_engine \<Rightarrow> string \<Rightarrow> smt_term list \<Rightarrow> nat list \<Rightarrow> bmc_result" where
  "lasso_steps z3 eng name asserted [] = BmcSafe name (bmc_bound eng)"
| "lasso_steps z3 eng name asserted (i # rest) =
     (if loop_equations eng i = [] then lasso_steps z3 eng name asserted rest
      else (case z3 (asserted @ [SApp FAnd (loop_equations eng i)]) of
              ZSat model \<Rightarrow> BmcLasso name i (bmc_bound eng - i) (extract_trace eng model (bmc_bound eng))
            | ZUnknown reason \<Rightarrow>
                if z3_unknown_is_timeout (case reason of Some r \<Rightarrow> r | None \<Rightarrow> ''unknown'')
                then BmcUnknown name (''timeout during lasso check at loop point '' @ dec i)
                else lasso_steps z3 eng name asserted rest
            | ZUnsat \<Rightarrow> lasso_steps z3 eng name asserted rest))"

definition check_liveness_z3 :: "solver \<Rightarrow> bmc_engine \<Rightarrow> string \<Rightarrow> string \<Rightarrow> bmc_result" where
  "check_liveness_z3 z3 eng name goal =
     lasso_steps z3 eng name
       (initial_assertions eng @ transition_assertions eng @ goal_assertions eng goal) [0..<bmc_bound eng]"

fun check_property :: "solver \<Rightarrow> bmc_engine \<Rightarrow> bmc_property \<Rightarrow> bmc_result" where
  "check_property z3 eng (Safety name bad) = check_safety_z3 z3 eng name bad"
| "check_property z3 eng (Liveness name goal) =
     (if bc_enable_lasso (be_config eng) then check_liveness_z3 z3 eng name goal
      else BmcUnknown name ''lasso detection disabled'')"

definition check :: "solver \<Rightarrow> bmc_engine \<Rightarrow> bmc_result list" where
  "check z3 eng = map (check_property z3 eng) (be_properties eng)"

section \<open>K-induction\<close>

record k_induction_config =
  kc_k :: nat
  kc_timeout_ms :: nat

definition k_induction_config_default :: k_induction_config where
  "k_induction_config_default = \<lparr>kc_k = 5, kc_timeout_ms = 30000\<rparr>"

definition with_k :: "nat \<Rightarrow> k_induction_config \<Rightarrow> k_induction_config" where
  "with_k k cfg = cfg\<lparr>kc_k := k\<rparr>"

datatype k_induction_result =
  KVerified string nat
| KCounterexample string bmc_result
| KUnknown string nat string

record k_induction_obligation =
  ko_name :: string
  ko_state_variables :: "(string \<times> bmc_sort) list"
  ko_initial_constraints :: "string list"
  ko_transitions :: "(string \<times> string list) list"
  ko_property :: bmc_property

definition negate_predicate :: "string \<Rightarrow> string" where
  "negate_predicate pred =
     (let p = trim pred
      in if str_contains p ''>='' then replace_first ''>='' ''<'' p
         else if str_contains p ''<='' then replace_first ''<='' ''>'' p
         else if str_contains p ''!='' then replace_first ''!='' ''=='' p
         else if str_contains p ''=='' then replace_first ''=='' ''!='' p
         else if str_contains p ''>'' \<and> \<not> str_contains p ''>='' then replace_first ''>'' ''<='' p
         else if str_contains p ''<'' \<and> \<not> str_contains p ''<='' then replace_first ''<'' ''>='' p
         else ''!('' @ p @ '')'')"

definition declare_system :: "k_induction_obligation \<Rightarrow> bmc_engine \<Rightarrow> bmc_engine" where
  "declare_system ob eng =
     fold (\<lambda>(n, s). add_state_variable n s) (ko_state_variables ob) eng"

definition declare_transitions :: "k_induction_obligation \<Rightarrow> bmc_engine \<Rightarrow> bmc_engine" where
  "declare_transitions ob eng = fold (\<lambda>(p, vs). add_transition p vs) (ko_transitions ob) eng"

definition build_bmc_engine :: "k_induction_config \<Rightarrow> k_induction_obligation \<Rightarrow> nat \<Rightarrow> bmc_engine" where
  "build_bmc_engine cfg ob k =
     declare_transitions ob
       (fold add_initial_constraint (ko_initial_constraints ob)
         (declare_system ob
           (bmc_engine_new (with_timeout (kc_timeout_ms cfg) (with_bound k bmc_config_default)))))"

definition first_result :: "bmc_result list \<Rightarrow> string \<Rightarrow> nat \<Rightarrow> bmc_result" where
  "first_result rs name k = (case rs of r # _ \<Rightarrow> r | [] \<Rightarrow> BmcSafe name k)"

definition run_base_case :: "solver \<Rightarrow> k_induction_config \<Rightarrow> k_induction_obligation \<Rightarrow> bmc_result" where
  "run_base_case z3 cfg ob =
     first_result (check z3 (add_property (ko_property ob) (build_bmc_engine cfg ob (kc_k cfg))))
       (ko_name ob) (kc_k cfg)"

fun induction_property :: "nat \<Rightarrow> bmc_property \<Rightarrow> bmc_engine \<Rightarrow> bmc_engine" where
  "induction_property k (Safety name bad) eng =
     add_property (Safety name bad)
       (fold (\<lambda>step e. add_initial_constraint (rename_predicate e (negate_predicate bad) step) e)
         [0..<k + 1] eng)"
| "induction_property k (Liveness name goal) eng = add_property (Liveness name goal) eng"

definition run_inductive_step :: "solver \<Rightarrow> k_induction_config \<Rightarrow> k_induction_obligation \<Rightarrow> bmc_result" where
  "run_inductive_step z3 cfg ob =
     (let eng = declare_transitions ob
            (declare_system ob
              (bmc_engine_new (with_timeout (kc_timeout_ms cfg) (with_bound (kc_k cfg + 1) bmc_config_default))))
      in first_result (check z3 (induction_property (kc_k cfg) (ko_property ob) eng)) (ko_name ob) (kc_k cfg + 1))"

definition prove :: "solver \<Rightarrow> k_induction_config \<Rightarrow> k_induction_obligation \<Rightarrow> k_induction_result" where
  "prove z3 cfg ob =
     (let base = run_base_case z3 cfg ob
      in case base of
           BmcSafe p b \<Rightarrow>
             (case run_inductive_step z3 cfg ob of
                BmcSafe p b \<Rightarrow> KVerified (ko_name ob) (kc_k cfg)
              | BmcUnknown p reason \<Rightarrow> KUnknown (ko_name ob) (kc_k cfg) (''inductive step inconclusive: '' @ reason)
              | _ \<Rightarrow> KUnknown (ko_name ob) (kc_k cfg)
                       ''inductive step failed; property holds up to bound but unbounded proof not found'')
         | BmcUnknown p reason \<Rightarrow> KUnknown (ko_name ob) (kc_k cfg) (''base case inconclusive: '' @ reason)
         | _ \<Rightarrow> KCounterexample (ko_name ob) base)"

end
