(* ===== verification/Bmc_Text.thy ===== *)
theory Bmc_Text
  imports Bmc
begin

text \<open>
  What the text processing of the model checker does on predicates written with single blanks
  between names, numbers and operators: renaming the variables of a step and parsing the result
  gives the predicate's meaning in the state of that step.
\<close>

section \<open>Predicates as trees\<close>

text \<open>
  The grammar is the one the parser implements: \<open>&&\<close> binds weaker than \<open>||\<close>, and each of
  \<open>+ - * %\<close> weaker than the next.
\<close>

datatype arith_op = AddOp | SubOp | MulOp | ModOp

datatype bexp = BVar string | BNum nat | BBin arith_op bexp bexp

datatype cmp_op = CGe | CLe | CNe | CEq | CGt | CLt

datatype batom = BTrue | BFalse | BCmp cmp_op bexp bexp

type_synonym bpred = "batom list list"

fun op_char :: "arith_op \<Rightarrow> char" where
  "op_char AddOp = CHR ''+''"
| "op_char SubOp = CHR ''-''"
| "op_char MulOp = CHR ''*''"
| "op_char ModOp = CHR ''%''"

fun op_level :: "arith_op \<Rightarrow> nat" where
  "op_level AddOp = 0"
| "op_level SubOp = 1"
| "op_level MulOp = 2"
| "op_level ModOp = 3"

fun cmp_text :: "cmp_op \<Rightarrow> string" where
  "cmp_text CGe = ''>=''"
| "cmp_text CLe = ''<=''"
| "cmp_text CNe = ''!=''"
| "cmp_text CEq = ''==''"
| "cmp_text CGt = ''>''"
| "cmp_text CLt = ''<''"

fun exp_toks :: "bexp \<Rightarrow> string list" where
  "exp_toks (BVar x) = [x]"
| "exp_toks (BNum n) = [dec n]"
| "exp_toks (BBin c a b) = exp_toks a @ [op_char c] # exp_toks b"

fun atom_toks :: "batom \<Rightarrow> string list" where
  "atom_toks BTrue = [''true'']"
| "atom_toks BFalse = [''false'']"
| "atom_toks (BCmp c a b) = exp_toks a @ cmp_text c # exp_toks b"

fun sep_toks :: "string \<Rightarrow> string list list \<Rightarrow> string list" where
  "sep_toks sep [] = []"
| "sep_toks sep [ts] = ts"
| "sep_toks sep (ts # us # tss) = ts @ sep # sep_toks sep (us # tss)"

definition clause_toks :: "batom list \<Rightarrow> string list" where
  "clause_toks c = sep_toks ''||'' (map atom_toks c)"

definition pred_toks :: "bpred \<Rightarrow> string list" where
  "pred_toks p = sep_toks ''&&'' (map clause_toks p)"

abbreviation spaced :: "string list \<Rightarrow> string" where
  "spaced ts \<equiv> join '' '' ts"

definition pred_text :: "bpred \<Rightarrow> string" where
  "pred_text p = spaced (pred_toks p)"

subsection \<open>Meaning\<close>

type_synonym state = "string \<Rightarrow> int"

fun exp_val :: "state \<Rightarrow> bexp \<Rightarrow> int" where
  "exp_val s (BVar x) = s x"
| "exp_val s (BNum n) = int n"
| "exp_val s (BBin AddOp a b) = exp_val s a + exp_val s b"
| "exp_val s (BBin SubOp a b) = exp_val s a - exp_val s b"
| "exp_val s (BBin MulOp a b) = exp_val s a * exp_val s b"
| "exp_val s (BBin ModOp a b) = exp_val s a mod exp_val s b"

fun cmp_rel :: "cmp_op \<Rightarrow> int \<Rightarrow> int \<Rightarrow> bool" where
  "cmp_rel CGe a b \<longleftrightarrow> a \<ge> b"
| "cmp_rel CLe a b \<longleftrightarrow> a \<le> b"
| "cmp_rel CNe a b \<longleftrightarrow> a \<noteq> b"
| "cmp_rel CEq a b \<longleftrightarrow> a = b"
| "cmp_rel CGt a b \<longleftrightarrow> a > b"
| "cmp_rel CLt a b \<longleftrightarrow> a < b"

fun atom_holds :: "state \<Rightarrow> batom \<Rightarrow> bool" where
  "atom_holds s BTrue \<longleftrightarrow> True"
| "atom_holds s BFalse \<longleftrightarrow> False"
| "atom_holds s (BCmp c a b) \<longleftrightarrow> cmp_rel c (exp_val s a) (exp_val s b)"

definition pred_holds :: "state \<Rightarrow> bpred \<Rightarrow> bool" where
  "pred_holds s p \<longleftrightarrow> list_all (list_ex (atom_holds s)) p"

subsection \<open>Well-formed predicates\<close>

definition word :: "string \<Rightarrow> bool" where
  "word s \<longleftrightarrow> s \<noteq> [] \<and> list_all is_word_char s"

definition var_name :: "string \<Rightarrow> bool" where
  "var_name s \<longleftrightarrow> word s \<and> \<not> is_digit (hd s) \<and> s \<noteq> ''true'' \<and> s \<noteq> ''false''"

fun exp_vars :: "bexp \<Rightarrow> string set" where
  "exp_vars (BVar x) = {x}"
| "exp_vars (BNum n) = {}"
| "exp_vars (BBin c a b) = exp_vars a \<union> exp_vars b"

fun atom_vars :: "batom \<Rightarrow> string set" where
  "atom_vars (BCmp c a b) = exp_vars a \<union> exp_vars b"
| "atom_vars _ = {}"

definition pred_vars :: "bpred \<Rightarrow> string set" where
  "pred_vars p = (\<Union>c \<in> set p. \<Union>a \<in> set c. atom_vars a)"

fun exp_ops :: "bexp \<Rightarrow> arith_op set" where
  "exp_ops (BBin c a b) = insert c (exp_ops a \<union> exp_ops b)"
| "exp_ops _ = {}"

fun pos_num :: "bexp \<Rightarrow> bool" where
  "pos_num (BNum n) \<longleftrightarrow> n > 0"
| "pos_num _ \<longleftrightarrow> False"

fun exp_wf :: "bexp \<Rightarrow> bool" where
  "exp_wf (BVar x) \<longleftrightarrow> True"
| "exp_wf (BNum n) \<longleftrightarrow> int n \<le> i64_max"
| "exp_wf (BBin c a b) \<longleftrightarrow>
     exp_wf a \<and> exp_wf b \<and> (\<forall>d \<in> exp_ops a. op_level c \<le> op_level d) \<and>
     (\<forall>d \<in> exp_ops b. op_level c < op_level d) \<and> (c = ModOp \<longrightarrow> pos_num b)"

fun atom_wf :: "batom \<Rightarrow> bool" where
  "atom_wf (BCmp c a b) \<longleftrightarrow> exp_wf a \<and> exp_wf b"
| "atom_wf _ \<longleftrightarrow> True"

definition pred_wf :: "bpred \<Rightarrow> bool" where
  "pred_wf p \<longleftrightarrow> p \<noteq> [] \<and> (\<forall>c \<in> set p. c \<noteq> [] \<and> (\<forall>a \<in> set c. atom_wf a))"

subsection \<open>Terms and renaming\<close>

fun exp_term :: "bexp \<Rightarrow> smt_term" where
  "exp_term (BVar x) = SSym x"
| "exp_term (BNum n) = SInt (int n)"
| "exp_term (BBin AddOp a b) = SApp FAdd [exp_term a, exp_term b]"
| "exp_term (BBin SubOp a b) = SApp FSub [exp_term a, exp_term b]"
| "exp_term (BBin MulOp a b) = SApp FMul [exp_term a, exp_term b]"
| "exp_term (BBin ModOp a b) = SApp FMod [exp_term a, exp_term b]"

fun cmp_term :: "cmp_op \<Rightarrow> smt_term \<Rightarrow> smt_term \<Rightarrow> smt_term" where
  "cmp_term CGe a b = SApp FGe [a, b]"
| "cmp_term CLe a b = SApp FLe [a, b]"
| "cmp_term CNe a b = SApp FNot [SApp FEq [a, b]]"
| "cmp_term CEq a b = SApp FEq [a, b]"
| "cmp_term CGt a b = SApp FGt [a, b]"
| "cmp_term CLt a b = SApp FLt [a, b]"

fun atom_term :: "batom \<Rightarrow> smt_term" where
  "atom_term BTrue = SBool True"
| "atom_term BFalse = SBool False"
| "atom_term (BCmp c a b) = cmp_term c (exp_term a) (exp_term b)"

definition group_term :: "smt_fun \<Rightarrow> smt_term list \<Rightarrow> smt_term" where
  "group_term f ts = (case ts of [t] \<Rightarrow> t | _ \<Rightarrow> SApp f ts)"

definition pred_term :: "bpred \<Rightarrow> smt_term" where
  "pred_term p = group_term FAnd (map (\<lambda>c. group_term FOr (map atom_term c)) p)"

fun exp_map :: "(string \<Rightarrow> string) \<Rightarrow> bexp \<Rightarrow> bexp" where
  "exp_map f (BVar x) = BVar (f x)"
| "exp_map f (BNum n) = BNum n"
| "exp_map f (BBin c a b) = BBin c (exp_map f a) (exp_map f b)"

fun atom_map :: "(string \<Rightarrow> string) \<Rightarrow> batom \<Rightarrow> batom" where
  "atom_map f (BCmp c a b) = BCmp c (exp_map f a) (exp_map f b)"
| "atom_map f a = a"

definition pred_map :: "(string \<Rightarrow> string) \<Rightarrow> bpred \<Rightarrow> bpred" where
  "pred_map f = map (map (atom_map f))"

lemma exp_map_facts [simp]:
  "exp_ops (exp_map f e) = exp_ops e" "exp_vars (exp_map f e) = f ` exp_vars e"
  "pos_num (exp_map f e) = pos_num e"
  by (induction e) auto

lemma exp_wf_map [simp]: "exp_wf (exp_map f e) = exp_wf e"
  by (induction e) auto

lemma exp_val_map [simp]: "exp_val s (exp_map f e) = exp_val (s \<circ> f) e"
proof (induction e)
  case (BBin c a b)
  then show ?case by (cases c) simp_all
qed simp_all

lemma atom_map_facts [simp]:
  "atom_wf (atom_map f a) = atom_wf a" "atom_vars (atom_map f a) = f ` atom_vars a"
  "atom_holds s (atom_map f a) = atom_holds (s \<circ> f) a"
  by (cases a; simp add: image_Un)+

lemma pred_map_facts [simp]:
  "pred_wf (pred_map f p) = pred_wf p" "pred_vars (pred_map f p) = f ` pred_vars p"
  "pred_holds s (pred_map f p) = pred_holds (s \<circ> f) p"
  by (auto simp: pred_wf_def pred_map_def pred_vars_def pred_holds_def list_all_iff list_ex_iff)

text \<open>The terms mean what the trees mean.\<close>

lemma exp_term_val: "exp_wf e \<Longrightarrow> ieval M (exp_term e) = exp_val (sm_var M) e"
proof (induction e)
  case (BBin c a b)
  then show ?case
  proof (cases c)
    case ModOp
    with BBin obtain n where "b = BNum n" "n > 0" by (cases b) auto
    with BBin ModOp show ?thesis by (simp add: smt_mod_def euclid_mod_def)
  qed simp_all
qed simp_all

lemma atom_term_holds: "atom_wf a \<Longrightarrow> beval M (atom_term a) = atom_holds (sm_var M) a"
proof (cases a)
  case (BCmp c x y)
  moreover assume "atom_wf a"
  ultimately show ?thesis by (cases c) (simp_all add: exp_term_val)
qed simp_all

lemma group_term_And: "beval M (group_term FAnd ts) = list_all (beval M) ts"
  by (cases ts rule: list.exhaust) (auto simp: group_term_def split: list.splits)

lemma group_term_Or: "beval M (group_term FOr ts) = list_ex (beval M) ts"
  by (cases ts rule: list.exhaust) (auto simp: group_term_def split: list.splits)

lemma pred_term_holds: "pred_wf p \<Longrightarrow> beval M (pred_term p) = pred_holds (sm_var M) p"
  by (auto simp: pred_term_def group_term_And group_term_Or pred_holds_def pred_wf_def atom_term_holds
      list_all_iff list_ex_iff)

section \<open>Renaming\<close>

text \<open>Tokens: words, primed words, and operators.\<close>

definition primed :: "string \<Rightarrow> string" where
  "primed x = x @ [CHR 0x27]"

definition op_tok :: "string \<Rightarrow> bool" where
  "op_tok t \<longleftrightarrow> t \<noteq> [] \<and> list_all (\<lambda>c. \<not> is_word_char c) t"

definition tok :: "string \<Rightarrow> bool" where
  "tok t \<longleftrightarrow> word t \<or> op_tok t \<or> (\<exists>x. word x \<and> t = primed x)"

lemma non_word_chars [simp]:
  "\<not> is_word_char CHR '' ''" "\<not> is_word_char CHR 0x27"
  "\<not> is_word_char (op_char c)" "\<not> is_word_char CHR ''&''" "\<not> is_word_char CHR ''|''"
  "\<not> is_word_char CHR ''<''" "\<not> is_word_char CHR ''>''" "\<not> is_word_char CHR ''=''" "\<not> is_word_char CHR ''!''"
  by (simp_all add: is_word_char_def is_digit_def, cases c, simp_all)

lemma replace_Nil [simp]: "replace_from w to prev [] = []"
  by (simp add: replace_from.simps)

lemma word_starts_simps [simp]: "word_starts None" "word_starts (Some c) \<longleftrightarrow> \<not> is_word_char c"
  by (simp_all add: word_starts_def)

lemma not_word_primed [simp]: "\<not> word (x @ [CHR 0x27])" "\<not> word (primed x)"
  by (simp_all add: word_def primed_def)

text \<open>A pattern is a word or a primed word; it never starts at a non-word character.\<close>

definition pattern_of :: "string \<Rightarrow> string \<Rightarrow> bool" where
  "pattern_of v w \<longleftrightarrow> word v \<and> (w = v \<or> w = primed v)"

lemma pattern_of_hd: "pattern_of v w \<Longrightarrow> \<exists>c cs. w = c # cs \<and> is_word_char c"
  by (cases v) (auto simp: pattern_of_def word_def primed_def)

lemma replace_skip:
  assumes "\<not> (prefix w (c # cs) \<and> word_starts prev \<and> word_ends (drop (length w) (c # cs)))"
  shows "replace_from w to prev (c # cs) = c # replace_from w to (Some c) cs"
  using assms by (subst replace_from.simps) auto

lemma replace_nonword:
  "pattern_of v w \<Longrightarrow> list_all (\<lambda>c. \<not> is_word_char c) cs \<Longrightarrow>
   replace_from w to prev (cs @ rest) =
   cs @ replace_from w to (if cs = [] then prev else Some (last cs)) rest"
proof (induction cs arbitrary: prev)
  case (Cons c cs)
  then obtain d ds where "w = d # ds" "is_word_char d" using pattern_of_hd by blast
  with Cons.prems(2) have "\<not> prefix w (c # cs @ rest)" by auto
  with Cons show ?case by (simp add: replace_skip)
qed simp

lemma replace_inside:
  "is_word_char p \<Longrightarrow> list_all is_word_char cs \<Longrightarrow>
   replace_from w to (Some p) (cs @ rest) = cs @ replace_from w to (Some (last (p # cs))) rest"
  by (induction cs arbitrary: p) (simp_all add: replace_skip)

text \<open>At the start of a token, the pattern matches exactly the token it is.\<close>

definition boundary :: "string \<Rightarrow> bool" where
  "boundary rest \<longleftrightarrow> rest = [] \<or> hd rest = CHR '' ''"

lemma takeWhile_word:
  "word u \<Longrightarrow> rest = [] \<or> \<not> is_word_char (hd rest) \<Longrightarrow> takeWhile is_word_char (u @ rest) = u"
  by (cases rest) (auto simp: word_def list_all_iff takeWhile_append)

lemma token_match:
  assumes v: "pattern_of v w" and u: "word u" and q: "q = [] \<or> q = [CHR 0x27]" and b: "boundary rest"
  shows "prefix w (u @ q @ rest) \<and> word_ends (drop (length w) (u @ q @ rest)) \<longleftrightarrow>
    v = u \<and> (w = u @ q \<or> w = u \<and> q = [CHR 0x27])"
proof
  assume m: "prefix w (u @ q @ rest) \<and> word_ends (drop (length w) (u @ q @ rest))"
  then obtain zs where zs: "u @ q @ rest = w @ zs" by (auto simp: prefix_def)
  with m have ends: "word_ends zs" by simp
  have tu: "takeWhile is_word_char (u @ q @ rest) = u"
    using q b by (intro takeWhile_word u) (auto simp: boundary_def)
  from v consider (plain) "w = v" | (prime) "w = v @ [CHR 0x27]" by (auto simp: pattern_of_def primed_def)
  then have "takeWhile is_word_char (w @ zs) = v"
  proof cases
    case plain
    have "zs = [] \<or> \<not> is_word_char (hd zs)" using ends by (cases zs) (simp_all add: word_ends_def)
    with plain v takeWhile_word [of v zs] show ?thesis by (auto simp: pattern_of_def)
  next
    case prime
    with v takeWhile_word [of v "[CHR 0x27] @ zs"] show ?thesis by (auto simp: pattern_of_def primed_def)
  qed
  with tu zs have vu: "v = u" by simp
  from v zs vu q b show "v = u \<and> (w = u @ q \<or> w = u \<and> q = [CHR 0x27])"
    by (auto simp: pattern_of_def primed_def boundary_def)
next
  assume a: "v = u \<and> (w = u @ q \<or> w = u \<and> q = [CHR 0x27])"
  have "word_ends rest" using b by (cases rest) (auto simp: word_ends_def boundary_def)
  with a show "prefix w (u @ q @ rest) \<and> word_ends (drop (length w) (u @ q @ rest))"
    by (auto simp: word_ends_def)
qed

lemma replace_token:
  assumes v: "pattern_of v w" and t: "tok t" and b: "boundary rest" and prev: "word_starts prev"
    and amb: "w = v \<Longrightarrow> t \<noteq> primed v"
  shows "replace_from w to prev (t @ rest) = (if t = w then to else t) @ replace_from w to (Some (last t)) rest"
proof -
  from t consider (op) "op_tok t" | (uq) u q where "t = u @ q" "word u" "q = [] \<or> q = [CHR 0x27]"
    unfolding tok_def primed_def by (metis append_Nil2)
  then show ?thesis
  proof cases
    case op
    with v have "t \<noteq> w" using pattern_of_hd [OF v] by (auto simp: op_tok_def)
    with op v show ?thesis by (simp add: op_tok_def replace_nonword)
  next
    case uq
    have match: "prefix w (t @ rest) \<and> word_ends (drop (length w) (t @ rest)) \<longleftrightarrow> t = w"
      using token_match [OF v uq(2,3) b] uq amb v by (auto simp: pattern_of_def primed_def)
    obtain c cs where u: "u = c # cs" "is_word_char c" "list_all is_word_char cs"
      using uq(2) by (cases u) (auto simp: word_def)
    show ?thesis
    proof (cases "t = w")
      case True
      with match prev u uq(1) show ?thesis by (subst replace_from.simps) simp
    next
      case False
      have "list_all (\<lambda>c. \<not> is_word_char c) q" using uq(3) by auto
      with False match u uq(1) v show ?thesis
        by (auto simp: replace_skip replace_inside replace_nonword)
    qed
  qed
qed

lemma tok_last: "tok t \<Longrightarrow> t \<noteq> []"
  by (auto simp: tok_def word_def op_tok_def primed_def)

lemma replace_spaced:
  assumes "pattern_of v w" and "\<forall>t \<in> set ts. tok t" and "w = v \<Longrightarrow> primed v \<notin> set ts"
  shows "word_starts prev \<Longrightarrow>
    replace_from w to prev (spaced ts) = spaced (map (\<lambda>t. if t = w then to else t) ts)"
  using assms(2,3)
proof (induction ts arbitrary: prev)
  case (Cons t ts)
  show ?case
  proof (cases ts)
    case Nil
    have "replace_from w to prev (t @ []) = (if t = w then to else t) @ replace_from w to (Some (last t)) []"
      using Cons.prems by (intro replace_token [OF assms(1)]) (auto simp: boundary_def)
    with Nil show ?thesis by simp
  next
    case (Cons u us)
    have rest: "replace_from w to p (CHR '' '' # spaced ts) = CHR '' '' # replace_from w to (Some CHR '' '') (spaced ts)" for p
      using replace_nonword [OF assms(1), of "[CHR '' '']" to p "spaced ts"] by simp
    have "replace_from w to prev (t @ '' '' @ spaced ts) =
        (if t = w then to else t) @ replace_from w to (Some (last t)) ('' '' @ spaced ts)"
      using Cons.prems by (intro replace_token [OF assms(1)]) (auto simp: boundary_def)
    with Cons Cons.IH [of "Some CHR '' ''"] Cons.prems rest show ?thesis by simp
  qed
qed simp

lemma replace_word_spaced:
  assumes "pattern_of v w" and "\<forall>t \<in> set ts. tok t" and "w = v \<Longrightarrow> primed v \<notin> set ts"
  shows "replace_word (spaced ts) w to = spaced (map (\<lambda>t. if t = w then to else t) ts)"
  using replace_spaced [OF assms, of None] pattern_of_hd [OF assms(1)] by (auto simp: replace_word_def)

subsection \<open>Renaming all variables\<close>

lemma fold_plain:
  assumes "\<forall>v \<in> set vs. word v \<and> word (f v) \<and> f v \<notin> set vs"
    and "\<forall>t \<in> set ts. tok t" and "\<forall>v \<in> set vs. primed v \<notin> set ts"
  shows "fold (\<lambda>v s. replace_word s v (f v)) vs (spaced ts) =
    spaced (map (\<lambda>t. if t \<in> set vs then f t else t) ts)"
  using assms
proof (induction vs arbitrary: ts)
  case (Cons v vs)
  let ?ts = "map (\<lambda>t. if t = v then f v else t) ts"
  have "replace_word (spaced ts) v (f v) = spaced ?ts"
    using Cons.prems by (intro replace_word_spaced [of v]) (auto simp: pattern_of_def)
  moreover have "fold (\<lambda>v s. replace_word s v (f v)) vs (spaced ?ts) =
      spaced (map (\<lambda>t. if t \<in> set vs then f t else t) ?ts)"
  proof (rule Cons.IH)
    show "\<forall>t \<in> set ?ts. tok t" using Cons.prems by (auto simp: tok_def)
    show "\<forall>u \<in> set vs. primed u \<notin> set ?ts"
      using Cons.prems(1,3) by (auto split: if_splits) (metis not_word_primed(2))
  qed (use Cons.prems in auto)
  moreover have "map (\<lambda>t. if t \<in> set vs then f t else t) ?ts = map (\<lambda>t. if t \<in> set (v # vs) then f t else t) ts"
    using Cons.prems(1) by auto
  ultimately show ?case by (simp only: fold_simps)
qed simp

lemma primed_inject [simp]: "primed x = primed y \<longleftrightarrow> x = y"
  by (simp add: primed_def)

lemma fold_primed:
  assumes "\<forall>v \<in> set vs. word v \<and> word (f v)" and "\<forall>t \<in> set ts. tok t"
  shows "fold (\<lambda>v s. replace_word s (primed v) (f v)) vs (spaced ts) =
    spaced (map (\<lambda>t. if t \<in> primed ` set vs then f (butlast t) else t) ts)"
  using assms
proof (induction vs arbitrary: ts)
  case (Cons v vs)
  let ?ts = "map (\<lambda>t. if t = primed v then f v else t) ts"
  have "replace_word (spaced ts) (primed v) (f v) = spaced ?ts"
    using Cons.prems not_word_primed(2) [of v] by (intro replace_word_spaced [of v]) (auto simp: pattern_of_def)
  moreover have "fold (\<lambda>v s. replace_word s (primed v) (f v)) vs (spaced ?ts) =
      spaced (map (\<lambda>t. if t \<in> primed ` set vs then f (butlast t) else t) ?ts)"
    using Cons.prems by (intro Cons.IH) (auto simp: tok_def)
  moreover have "map (\<lambda>t. if t \<in> primed ` set vs then f (butlast t) else t) ?ts =
      map (\<lambda>t. if t \<in> primed ` set (v # vs) then f (butlast t) else t) ts"
  proof -
    have "f v \<notin> primed ` set vs" using Cons.prems(1) not_word_primed(2) by auto
    moreover have "butlast (primed v) = v" by (simp add: primed_def)
    ultimately show ?thesis by auto
  qed
  ultimately show ?case by (simp only: fold_simps)
qed simp

text \<open>The tokens of a predicate: its variables, and others that are no names.\<close>

definition name_like :: "string \<Rightarrow> bool" where
  "name_like t \<longleftrightarrow> var_name t \<or> (\<exists>x. var_name x \<and> t = primed x)"

lemma dec_digits: "dec n \<noteq> [] \<and> list_all is_digit (dec n)"
proof -
  have "dec n \<noteq> []" by (subst dec.simps) simp
  with digits_val_is_digit [OF digits_val_dec [of n]] show ?thesis by simp
qed

lemma dec_word: "word (dec n)" and dec_hd: "is_digit (hd (dec n))"
  using dec_digits [of n] by (auto simp: word_def is_word_char_def list_all_iff)

lemma op_toks [simp]:
  "op_tok [op_char c]" "op_tok (cmp_text d)" "op_tok ''&&''" "op_tok ''||''"
  by (simp_all add: op_tok_def, cases d, simp_all)

lemma word_hd: "word t \<Longrightarrow> is_word_char (hd t)"
  by (cases t) (simp_all add: word_def)

lemma name_like_hd: "name_like t \<Longrightarrow> is_word_char (hd t)"
  by (auto simp: name_like_def var_name_def primed_def word_hd hd_append word_def)

lemma op_tok_not_name: "op_tok t \<Longrightarrow> \<not> name_like t"
  by (cases t) (auto simp: op_tok_def dest: name_like_hd)

lemma dec_not_name: "\<not> name_like (dec n)"
proof -
  have "dec n \<noteq> primed x" for x using dec_word [of n] not_word_primed(2) [of x] by metis
  then show ?thesis using dec_hd [of n] by (auto simp: name_like_def var_name_def)
qed

lemma keyword_not_name: "\<not> name_like ''true''" "\<not> name_like ''false''"
  by (auto simp: name_like_def var_name_def primed_def append_eq_Cons_conv)

lemma name_like_tok: "name_like t \<Longrightarrow> tok t"
  by (auto simp: name_like_def var_name_def tok_def)

lemma set_sep_toks: "set (sep_toks sep tss) \<subseteq> insert sep (\<Union>ts \<in> set tss. set ts)"
  by (induction sep tss rule: sep_toks.induct) auto

lemma exp_toks_cases:
  "t \<in> set (exp_toks e) \<Longrightarrow> t \<in> exp_vars e \<or> op_tok t \<or> (\<exists>n. t = dec n)"
  by (induction e) auto

lemma pred_toks_cases:
  assumes "t \<in> set (pred_toks p)"
  shows "t \<in> pred_vars p \<or> op_tok t \<or> (\<exists>n. t = dec n) \<or> t = ''true'' \<or> t = ''false''"
proof -
  have atom: "t \<in> set (atom_toks a) \<Longrightarrow> t \<in> atom_vars a \<or> op_tok t \<or> (\<exists>n. t = dec n) \<or> t = ''true'' \<or> t = ''false''" for a
    by (cases a) (auto dest: exp_toks_cases)
  from assms set_sep_toks [of "''&&''" "map clause_toks p"]
  consider "t = ''&&''" | c where "c \<in> set p" "t \<in> set (clause_toks c)" by (auto simp: pred_toks_def)
  then show ?thesis
  proof cases
    case 2
    with set_sep_toks [of "''||''" "map atom_toks c"]
    consider "t = ''||''" | a where "a \<in> set c" "t \<in> set (atom_toks a)" by (auto simp: clause_toks_def)
    then show ?thesis using 2(1) atom by cases (auto simp: pred_vars_def)
  qed simp
qed

lemma pred_toks_tok:
  assumes "\<forall>x \<in> pred_vars p. name_like x" and "t \<in> set (pred_toks p)"
  shows "tok t"
proof -
  have "word ''true''" "word ''false''" by (simp_all add: word_def is_word_char_def is_digit_def)
  then have "tok ''true''" "tok ''false''" "tok (dec n)" for n by (simp_all add: tok_def dec_word)
  moreover have "op_tok t \<Longrightarrow> tok t" by (simp add: tok_def)
  ultimately show ?thesis using pred_toks_cases [OF assms(2)] assms(1) name_like_tok by metis
qed

lemma sep_toks_map: "g sep = sep \<Longrightarrow> map g (sep_toks sep tss) = sep_toks sep (map (map g) tss)"
  by (induction sep tss rule: sep_toks.induct) auto

lemma pred_toks_map:
  assumes V: "\<forall>x \<in> V. name_like x" and sub: "pred_vars p \<subseteq> V"
  shows "map (\<lambda>t. if t \<in> V then f t else t) (pred_toks p) = pred_toks (pred_map f p)"
proof -
  let ?g = "\<lambda>t. if t \<in> V then f t else t"
  have fix_op: "?g t = t" if "op_tok t" for t using V op_tok_not_name [OF that] by auto
  have fix_dec: "?g (dec n) = dec n" for n using V dec_not_name [of n] by auto
  have fix_key: "?g ''true'' = ''true''" "?g ''false'' = ''false''" using V keyword_not_name by auto
  have exp: "exp_vars e \<subseteq> V \<Longrightarrow> map ?g (exp_toks e) = exp_toks (exp_map f e)" for e
    using fix_op [OF op_toks(1)] fix_dec by (induction e) auto
  have atom: "atom_vars a \<subseteq> V \<Longrightarrow> map ?g (atom_toks a) = atom_toks (atom_map f a)" for a
    using exp fix_op [OF op_toks(2)] fix_key by (cases a) auto
  have clause: "map ?g (clause_toks c) = clause_toks (map (atom_map f) c)" if "c \<in> set p" for c
  proof -
    have "\<forall>a \<in> set c. atom_vars a \<subseteq> V" using sub that by (auto simp: pred_vars_def)
    then have eq: "map (map ?g) (map atom_toks c) = map atom_toks (map (atom_map f) c)" using atom by simp
    show ?thesis
      unfolding clause_toks_def sep_toks_map [where g = ?g, OF fix_op [OF op_toks(4)]] eq ..
  qed
  then have eq: "map (map ?g) (map clause_toks p) = map clause_toks (map (map (atom_map f)) p)" by simp
  show ?thesis
    unfolding pred_toks_def pred_map_def sep_toks_map [where g = ?g, OF fix_op [OF op_toks(3)]] eq ..
qed

text \<open>A system's variables: words that are no numbers, and whose copies are not variables themselves.\<close>

definition names_ok :: "string set \<Rightarrow> bool" where
  "names_ok N \<longleftrightarrow> (\<forall>v \<in> N. var_name v \<and> (\<forall>i. rename_var v i \<notin> N))"

lemma set_sorted_vars [simp]: "set (sorted_vars eng) = set (var_names eng)"
  by (simp add: sorted_vars_def)

lemma rename_word: "var_name v \<Longrightarrow> word (rename_var v i)"
  using dec_word [of i] by (auto simp: var_name_def word_def rename_var_def is_word_char_def)

lemma rename_predicate_words:
  assumes names: "names_ok (set (var_names eng))" and vars: "\<forall>x \<in> pred_vars p. var_name x"
  shows "rename_predicate eng (pred_text p) i =
    pred_text (pred_map (\<lambda>x. if x \<in> set (var_names eng) then rename_var x i else x) p)"
proof -
  let ?N = "set (var_names eng)" and ?T = "pred_toks p"
  let ?V = "?N \<union> pred_vars p" and ?f = "\<lambda>x. if x \<in> ?N then rename_var x i else x"
  have like: "\<forall>x \<in> ?V. name_like x" using names vars by (auto simp: names_ok_def name_like_def)
  then have tok: "\<forall>t \<in> set ?T. tok t" using pred_toks_tok [of p] by blast
  have no_prime: "\<forall>v \<in> ?N. primed v \<notin> set ?T"
  proof (intro ballI notI)
    fix v assume v: "v \<in> ?N" and t: "primed v \<in> set ?T"
    have "name_like (primed v)" using v names by (auto simp: names_ok_def name_like_def)
    moreover have "primed v \<notin> pred_vars p" using vars not_word_primed(2) [of v] by (auto simp only: var_name_def)
    ultimately show False
      using pred_toks_cases [OF t] op_tok_not_name [of "primed v"] dec_not_name keyword_not_name by auto
  qed
  have words: "\<forall>v \<in> ?N. word v \<and> word (rename_var v i) \<and> rename_var v i \<notin> ?N"
    using names by (auto simp: names_ok_def rename_word var_name_def)
  have "fold (\<lambda>v s. replace_word s v (rename_var v i)) (sorted_vars eng) (spaced ?T) =
      spaced (map (\<lambda>t. if t \<in> set (sorted_vars eng) then rename_var t i else t) ?T)"
    using words tok no_prime by (intro fold_plain) simp_all
  moreover have "map (\<lambda>t. if t \<in> set (sorted_vars eng) then rename_var t i else t) ?T =
      map (\<lambda>t. if t \<in> ?V then ?f t else t) ?T" by simp
  moreover have "map (\<lambda>t. if t \<in> ?V then ?f t else t) ?T = pred_toks (pred_map ?f p)"
    using like by (intro pred_toks_map) simp_all
  ultimately show ?thesis by (simp only: rename_predicate_def pred_text_def)
qed

lemma exp_map_cong: "(\<And>x. x \<in> exp_vars e \<Longrightarrow> f x = g x) \<Longrightarrow> exp_map f e = exp_map g e"
  by (induction e) auto

lemma pred_map_cong:
  assumes "\<And>x. x \<in> pred_vars p \<Longrightarrow> f x = g x"
  shows "pred_map f p = pred_map g p"
proof -
  have "atom_map f a = atom_map g a" if "c \<in> set p" "a \<in> set c" for c a
  proof -
    have "\<And>x. x \<in> atom_vars a \<Longrightarrow> f x = g x" using assms that by (auto simp: pred_vars_def)
    then show ?thesis by (cases a) (simp_all add: exp_map_cong [of _ f g])
  qed
  then show ?thesis by (simp add: pred_map_def)
qed

lemma rename_predicate_text:
  assumes "names_ok (set (var_names eng))" and "pred_vars p \<subseteq> set (var_names eng)"
  shows "rename_predicate eng (pred_text p) i = pred_text (pred_map (\<lambda>x. rename_var x i) p)"
proof -
  have "pred_map (\<lambda>x. if x \<in> set (var_names eng) then rename_var x i else x) p = pred_map (\<lambda>x. rename_var x i) p"
    using assms(2) by (intro pred_map_cong) auto
  moreover have "\<forall>x \<in> pred_vars p. var_name x" using assms by (auto simp: names_ok_def)
  ultimately show ?thesis using rename_predicate_words [OF assms(1), of p i] by simp
qed

definition step_var :: "nat \<Rightarrow> string \<Rightarrow> string" where
  "step_var i x = (if last x = CHR 0x27 then rename_var (butlast x) (i + 1) else rename_var x i)"

lemma word_last: "word x \<Longrightarrow> is_word_char (last x)"
  by (auto simp: word_def list_all_iff)

lemma step_var_simps [simp]:
  "step_var i (primed x) = rename_var x (i + 1)" "word x \<Longrightarrow> step_var i x = rename_var x i"
  by (simp add: step_var_def primed_def) (use word_last non_word_chars(2) in \<open>metis step_var_def\<close>)

lemma rename_transition_text:
  assumes names: "names_ok (set (var_names eng))"
    and sub: "pred_vars p \<subseteq> set (var_names eng) \<union> primed ` set (var_names eng)"
  shows "rename_transition_predicate eng (pred_text p) i = pred_text (pred_map (step_var i) p)"
proof -
  let ?N = "set (var_names eng)" and ?T = "pred_toks p"
  let ?V = "?N \<union> primed ` ?N"
  let ?f = "\<lambda>v. rename_var v (i + 1)" and ?g = "\<lambda>v. rename_var v i"
  let ?T1 = "map (\<lambda>t. if t \<in> primed ` ?N then ?f (butlast t) else t) ?T"
  have like: "\<forall>x \<in> ?V. name_like x" using names by (auto simp: names_ok_def name_like_def)
  have word: "\<forall>v \<in> ?N. word v \<and> word (?f v)" "\<forall>v \<in> ?N. word v \<and> word (?g v) \<and> ?g v \<notin> ?N"
    using names by (auto simp: names_ok_def rename_word var_name_def)
  have tok: "\<forall>t \<in> set ?T. tok t" using pred_toks_tok [of p] like sub by blast
  have first: "fold (\<lambda>v s. replace_word s (primed v) (?f v)) (sorted_vars eng) (spaced ?T) = spaced ?T1"
    using fold_primed [of "sorted_vars eng" ?f ?T] word(1) tok by simp
  have but: "butlast (primed v) = v" for v by (simp add: primed_def)
  have tok1: "\<forall>t \<in> set ?T1. tok t" using tok word(1) by (auto simp: tok_def but)
  have no_prime: "\<forall>v \<in> ?N. primed v \<notin> set ?T1"
  proof (intro ballI notI)
    fix v assume "v \<in> ?N" and "primed v \<in> set ?T1"
    then obtain t where "primed v = ?f (butlast t)" "t \<in> primed ` ?N" by (auto split: if_splits)
    with word(1) have "word (primed v)" by (auto simp: but)
    then show False by simp
  qed
  have second: "fold (\<lambda>v s. replace_word s v (?g v)) (sorted_vars eng) (spaced ?T1) =
      spaced (map (\<lambda>t. if t \<in> ?N then ?g t else t) ?T1)"
    using fold_plain [of "sorted_vars eng" ?g ?T1] word(2) tok1 no_prime by simp
  have "(if s \<in> ?N then ?g s else s) = (if t \<in> ?V then step_var i t else t)"
    if s: "s = (if t \<in> primed ` ?N then ?f (butlast t) else t)" for t s
  proof (cases "t \<in> primed ` ?N")
    case True
    then obtain v where "v \<in> ?N" "t = primed v" by blast
    with s names show ?thesis by (auto simp: but names_ok_def)
  next
    case False
    with s word(1) show ?thesis by auto
  qed
  then have "map (\<lambda>t. if t \<in> ?N then ?g t else t) ?T1 = map (\<lambda>t. if t \<in> ?V then step_var i t else t) ?T"
    by simp
  with pred_toks_map [OF like sub, of "step_var i"] first second show ?thesis
    by (simp add: rename_transition_predicate_def pred_text_def primed_def [symmetric])
qed

end
