(* ===== verification/Bmc_Parse.thy ===== *)
theory Bmc_Parse
  imports Bmc_Text
begin

text \<open>Parsing the text of a predicate gives its term.\<close>

section \<open>Spacing\<close>

lemma spaced_append:
  "xs \<noteq> [] \<Longrightarrow> ys \<noteq> [] \<Longrightarrow> spaced (xs @ ys) = spaced xs @ '' '' @ spaced ys"
proof (induction xs)
  case (Cons x xs)
  then show ?case by (cases xs; cases ys) auto
qed simp

lemma spaced_around: "xs \<noteq> [] \<Longrightarrow> ys \<noteq> [] \<Longrightarrow> spaced (xs @ t # ys) = spaced xs @ '' '' @ t @ '' '' @ spaced ys"
  using spaced_append [of xs "t # ys"] by (cases ys) auto

definition trimmed :: "string \<Rightarrow> bool" where
  "trimmed s \<longleftrightarrow> s \<noteq> [] \<and> \<not> is_ws (hd s) \<and> \<not> is_ws (last s)"

lemma blank_ws [simp]: "is_ws CHR '' ''"
  by (simp add: is_ws_def)

lemma trim_trimmed [simp]:
  assumes "trimmed s"
  shows "trim s = s" "trim (CHR '' '' # s) = s" "trim (s @ '' '') = s" "trim (CHR '' '' # s @ '' '') = s"
proof -
  have front: "dropWhile is_ws (s @ t) = s @ t" for t using assms by (cases s) (simp_all add: trimmed_def)
  obtain xs x where s: "s = xs @ [x]" using assms by (metis trimmed_def rev_exhaust)
  then have "\<not> is_ws x" using assms by (simp add: trimmed_def)
  with s have rear: "dropWhile is_ws (rev s) = rev s" by simp
  show "trim s = s" using front [of "[]"] rear by (simp add: trim_def)
  show "trim (CHR '' '' # s) = s" using front [of "[]"] rear by (simp add: trim_def)
  show "trim (s @ '' '') = s" using front [of "'' ''"] rear by (simp add: trim_def)
  show "trim (CHR '' '' # s @ '' '') = s" using front [of "'' ''"] rear by (simp add: trim_def)
qed

lemma word_char_no_ws: "is_word_char c \<Longrightarrow> \<not> is_ws c"
  by (auto simp: is_word_char_def is_digit_def is_ws_def)

lemma word_trimmed: "word t \<Longrightarrow> trimmed t"
  by (simp add: trimmed_def word_hd word_last word_char_no_ws word_def)

lemma trimmed_append: "trimmed s \<Longrightarrow> trimmed t \<Longrightarrow> trimmed (s @ u @ t)"
  by (simp add: trimmed_def)

lemma spaced_trimmed: "ts \<noteq> [] \<Longrightarrow> \<forall>t \<in> set ts. trimmed t \<Longrightarrow> trimmed (spaced ts)"
proof (induction ts)
  case (Cons t ts)
  then show ?case
  proof (cases ts)
    case (Cons u us)
    with Cons.IH Cons.prems trimmed_append [of t "spaced ts" "'' ''"] show ?thesis by simp
  qed simp
qed simp

section \<open>Searching\<close>

lemma find_index_rev_none: "c \<notin> set s \<Longrightarrow> find_index (\<lambda>d. d = c) (rev s) = None"
  by (auto simp: find_index_None)

lemma rfind_last:
  assumes "c \<notin> set ys"
  shows "rfind_char c (xs @ c # ys) = Some (length xs)"
proof -
  have "\<forall>x \<in> set (rev ys). \<not> x = c" using assms by auto
  from find_index_append [OF this, of "c # rev xs"] show ?thesis by (simp add: rfind_char_def)
qed

lemma rfind_none: "c \<notin> set s \<Longrightarrow> rfind_char c s = None"
  by (simp add: rfind_char_def find_index_rev_none)

lemma split_at_last: "c \<notin> set ys \<Longrightarrow> k \<le> length xs \<Longrightarrow> split_at_char c k (xs @ c # ys) = Some (xs, ys)"
  by (simp add: split_at_char_def rfind_last)

lemma split_none: "c \<notin> set s \<Longrightarrow> split_at_char c k s = None"
  by (simp add: split_at_char_def rfind_none)

lemma find_str_skip: "pat \<noteq> [] \<Longrightarrow> hd pat \<notin> set xs \<Longrightarrow> find_str pat (xs @ ys) = map_option ((+) (length xs)) (find_str pat ys)"
proof (induction xs)
  case Nil
  then show ?case by (cases "find_str pat ys") simp_all
next
  case (Cons x xs)
  then have "\<not> prefix pat (x # xs @ ys)" by (cases pat) auto
  with Cons show ?case by (cases "find_str pat ys") auto
qed

lemma find_str_absent: "pat \<noteq> [] \<Longrightarrow> hd pat \<notin> set xs \<Longrightarrow> find_str pat xs = None"
  using find_str_skip [of pat xs "[]"] by simp

lemma str_contains_find: "str_contains s pat \<longleftrightarrow> find_str pat s \<noteq> None"
  using find_str_None [of pat s] by simp

section \<open>Integer expressions\<close>

definition exp_text :: "bexp \<Rightarrow> string" where
  "exp_text e = spaced (exp_toks e)"

lemma exp_toks_nonempty [simp]: "exp_toks e \<noteq> []"
  by (cases e) simp_all

lemma exp_text_simps [simp]:
  "exp_text (BVar x) = x" "exp_text (BNum n) = dec n"
  "exp_text (BBin c a b) = (exp_text a @ '' '') @ op_char c # ('' '' @ exp_text b)"
  by (simp_all add: exp_text_def spaced_around)

lemma exp_text_chars:
  "\<forall>x \<in> exp_vars e. word x \<Longrightarrow> c \<in> set (exp_text e) \<Longrightarrow>
   is_word_char c \<or> c = CHR '' '' \<or> c \<in> op_char ` exp_ops e"
proof (induction e)
  case (BNum n)
  then show ?case using dec_word [of n] by (auto simp: word_def list_all_iff)
qed (auto simp: word_def list_all_iff)

lemma op_char_facts [simp]: "op_char c \<noteq> CHR '' ''" "\<not> is_ws (op_char c)"
  by (cases c; simp add: is_ws_def)+

lemma op_char_inject [simp]: "op_char c = op_char d \<longleftrightarrow> c = d"
  by (cases c; cases d) simp_all

lemma op_absent:
  assumes "\<forall>x \<in> exp_vars e. word x" and "d \<notin> exp_ops e"
  shows "op_char d \<notin> set (exp_text e)"
  using exp_text_chars [OF assms(1), of "op_char d"] assms(2) by auto

lemma exp_text_trimmed: "\<forall>x \<in> exp_vars e. word x \<Longrightarrow> trimmed (exp_text e)"
proof (induction e)
  case (BBin c a b)
  then show ?case using trimmed_append [of "exp_text a" "exp_text b" "'' '' @ op_char c # '' ''"] by simp
qed (simp_all add: word_trimmed dec_word)

lemma parse_expr_trim:
  assumes "trim s = trim t"
  shows "parse_bmc_int_expr vars s = parse_bmc_int_expr vars t"
  unfolding parse_bmc_int_expr.simps [of vars s] parse_bmc_int_expr.simps [of vars t] assms ..

lemma parse_int_word:
  assumes "word x" and "\<not> is_digit (hd x)"
  shows "parse_i64 x = None"
proof -
  obtain c cs where x: "x = c # cs" "is_word_char c" "\<not> is_digit c" using assms by (cases x) (auto simp: word_def)
  then have "c \<noteq> CHR ''-''" "c \<noteq> CHR ''+''" by (auto simp: is_word_char_def is_digit_def)
  with x show ?thesis by (simp add: parse_i64_def parse_int_def parse_digits_def)
qed

lemma parse_int_dec: "int n \<le> i64_max \<Longrightarrow> parse_i64 (dec n) = Some (int n)"
proof -
  assume n: "int n \<le> i64_max"
  obtain c cs where c: "dec n = c # cs" "is_digit c" using dec_digits [of n] by (cases "dec n") auto
  then have "c \<noteq> CHR ''-''" "c \<noteq> CHR ''+''" by (auto simp: is_digit_def)
  with c n digits_val_dec [of n] show ?thesis
    by (simp add: parse_i64_def parse_int_def parse_digits_def i64_min_def)
qed

lemma parse_expr_atom:
  assumes "word s"
  shows "parse_bmc_int_expr vars s = parse_atom vars s"
proof -
  have no: "\<not> is_word_char c \<Longrightarrow> c \<notin> set s" for c using assms by (auto simp: word_def list_all_iff)
  have "CHR ''+'' \<notin> set s" "CHR ''-'' \<notin> set s" "CHR ''*'' \<notin> set s" "CHR ''%'' \<notin> set s"
    by (rule no, simp add: is_word_char_def is_digit_def)+
  with assms show ?thesis
    by (subst parse_bmc_int_expr.simps) (simp add: split_none word_trimmed)
qed

lemma parse_expr_split:
  fixes c :: arith_op
  assumes names: "\<forall>x \<in> exp_vars (BBin c a b). word x" and wf: "exp_wf (BBin c a b)"
  shows "parse_bmc_int_expr vars (exp_text (BBin c a b)) =
    both (case c of AddOp \<Rightarrow> FAdd | SubOp \<Rightarrow> FSub | MulOp \<Rightarrow> FMul | ModOp \<Rightarrow> FMod)
      (parse_bmc_int_expr vars (exp_text a)) (parse_bmc_int_expr vars (exp_text b))"
proof -
  let ?s = "exp_text (BBin c a b)"
  have triv: "trim ?s = ?s" using exp_text_trimmed [OF names] by simp
  have a: "parse_bmc_int_expr vars (exp_text a @ '' '') = parse_bmc_int_expr vars (exp_text a)"
    using exp_text_trimmed [of a] names by (intro parse_expr_trim) simp
  have b: "parse_bmc_int_expr vars ('' '' @ exp_text b) = parse_bmc_int_expr vars (exp_text b)"
    using exp_text_trimmed [of b] names by (intro parse_expr_trim) simp
  have here: "split_at_char (op_char c) k ?s = Some (exp_text a @ '' '', '' '' @ exp_text b)"
    if "k \<le> Suc (length (exp_text a))" for k
  proof -
    have "c \<notin> exp_ops b" using wf by auto
    then have "op_char c \<notin> set ('' '' @ exp_text b)" using op_absent [of b c] names by simp
    from split_at_last [OF this, of k "exp_text a @ '' ''"] that show ?thesis by simp
  qed
  have other: "split_at_char (op_char d) k ?s = None" if "op_level d < op_level c" for d k
  proof -
    have "d \<notin> exp_ops (BBin c a b)" using wf that by (auto dest!: bspec)
    then show ?thesis using op_absent [OF names] split_none by blast
  qed
  show ?thesis
    using here [of 0] here [of 1] other [of AddOp] other [of SubOp] other [of MulOp]
    by (subst parse_bmc_int_expr.simps, simp only: triv, cases c) (simp_all only: a b op_char.simps option.case prod.case arith_op.case, auto)
qed

lemma parse_exp_text:
  "\<forall>x \<in> exp_vars e. var_name x \<and> x \<in> set vars \<Longrightarrow> exp_wf e \<Longrightarrow>
   parse_bmc_int_expr vars (exp_text e) = Some (exp_term e)"
proof (induction e)
  case (BVar x)
  then show ?case by (simp add: parse_expr_atom parse_atom_def parse_int_word var_name_def)
next
  case (BNum n)
  then show ?case by (simp add: parse_expr_atom parse_atom_def parse_int_dec dec_word)
next
  case (BBin c a b)
  then have "\<forall>x \<in> exp_vars (BBin c a b). word x" by (auto simp: var_name_def)
  from parse_expr_split [OF this BBin.prems(2)] BBin show ?case by (cases c) auto
qed

section \<open>Comparisons\<close>

lemma exp_text_no_symbol:
  assumes "\<forall>x \<in> exp_vars e. word x" and "c \<in> {CHR ''<'', CHR ''>'', CHR ''='', CHR ''!'', CHR ''&'', CHR ''|''}"
  shows "c \<notin> set (exp_text e)"
proof
  assume "c \<in> set (exp_text e)"
  from exp_text_chars [OF assms(1) this] assms(2) show False
    by (auto simp: is_word_char_def is_digit_def elim!: op_char.elims [OF sym])
qed

lemma find_str_cmp:
  assumes "set xs \<inter> {CHR ''<'', CHR ''>'', CHR ''='', CHR ''!''} = {}"
    and "set ys \<inter> {CHR ''<'', CHR ''>'', CHR ''='', CHR ''!''} = {}"
    and "pat \<in> {''>='', ''<='', ''!='', ''=='', ''>'', ''<''}"
  shows "find_str pat (xs @ cmp_text c @ CHR '' '' # ys) =
    (if prefix pat (cmp_text c) then Some (length xs) else None)"
proof -
  have xs: "pat \<noteq> []" "hd pat \<notin> set xs" and ys: "find_str pat ys = None"
    using assms by (auto intro!: find_str_absent)
  have "find_str pat (cmp_text c @ CHR '' '' # ys) = (if prefix pat (cmp_text c) then Some 0 else None)"
    using assms(3) ys by (cases c) auto
  then show ?thesis by (simp add: find_str_skip [OF xs])
qed

lemma parse_cmp_text:
  assumes a: "\<forall>x \<in> exp_vars a. var_name x \<and> x \<in> set vars" "exp_wf a"
    and b: "\<forall>x \<in> exp_vars b. var_name x \<and> x \<in> set vars" "exp_wf b"
  shows "parse_comparison comparisons vars ((exp_text a @ '' '') @ cmp_text c @ CHR '' '' # exp_text b) =
    Some (cmp_term c (exp_term a) (exp_term b))"
proof -
  have wa: "\<forall>x \<in> exp_vars a. word x" and wb: "\<forall>x \<in> exp_vars b. word x" using a b by (auto simp: var_name_def)
  have clean: "set (exp_text a @ '' '') \<inter> {CHR ''<'', CHR ''>'', CHR ''='', CHR ''!''} = {}"
      "set (exp_text b) \<inter> {CHR ''<'', CHR ''>'', CHR ''='', CHR ''!''} = {}"
    using exp_text_no_symbol [OF wa] exp_text_no_symbol [OF wb] by auto
  note find = find_str_cmp [OF clean, of _ c]
  have ta: "trim (exp_text a @ '' '') = exp_text a" and tb: "trim (CHR '' '' # exp_text b) = exp_text b"
    using exp_text_trimmed [OF wa] exp_text_trimmed [OF wb] by simp_all
  show ?thesis
    using find [of "''>=''"] find [of "''<=''"] find [of "''!=''"] find [of "''==''"] find [of "''>''"] find [of "''<''"]
      parse_exp_text [OF a] parse_exp_text [OF b] ta tb
    by (cases c) (simp_all add: comparisons_def)
qed

section \<open>Predicates\<close>

definition atom_text :: "batom \<Rightarrow> string" where
  "atom_text a = spaced (atom_toks a)"

lemma atom_text_simps [simp]:
  "atom_text BTrue = ''true''" "atom_text BFalse = ''false''"
  "atom_text (BCmp c a b) = (exp_text a @ '' '') @ cmp_text c @ CHR '' '' # exp_text b"
  by (simp_all add: atom_text_def exp_text_def spaced_around)

lemma cmp_text_facts: "cmp_text c \<noteq> []" "CHR ''&'' \<notin> set (cmp_text c)" "CHR ''|'' \<notin> set (cmp_text c)"
  by (cases c; simp)+

lemma atom_text_trimmed: "\<forall>x \<in> atom_vars a. word x \<Longrightarrow> trimmed (atom_text a)"
proof (cases a)
  case (BCmp c x y)
  moreover assume "\<forall>x \<in> atom_vars a. word x"
  ultimately show ?thesis
    using trimmed_append [OF exp_text_trimmed exp_text_trimmed, of x y "'' '' @ cmp_text c @ '' ''"] by simp
qed (simp_all add: trimmed_def is_ws_def)

lemma atom_text_clean:
  assumes "\<forall>x \<in> atom_vars a. word x"
  shows "CHR ''&'' \<notin> set (atom_text a)" "CHR ''|'' \<notin> set (atom_text a)"
  using assms exp_text_no_symbol cmp_text_facts by (cases a; auto)+

lemma no_find: "CHR ''&'' \<notin> set s \<Longrightarrow> \<not> str_contains s ''&&''" "CHR ''|'' \<notin> set s \<Longrightarrow> \<not> str_contains s ''||''"
  by (simp_all add: str_contains_find find_str_absent)

lemma not_keyword: "CHR '' '' \<in> set s \<Longrightarrow> s \<noteq> ''true'' \<and> s \<noteq> ''false''"
  by auto

lemma parse_atom_text:
  assumes "\<forall>x \<in> atom_vars a. var_name x \<and> x \<in> set vars" and "atom_wf a"
  shows "parse_bmc_predicate vars (atom_text a) = Some (atom_term a)"
proof -
  have words: "\<forall>x \<in> atom_vars a. word x" using assms by (auto simp: var_name_def)
  note clean = no_find(1) [OF atom_text_clean(1) [OF words]] no_find(2) [OF atom_text_clean(2) [OF words]]
  show ?thesis
  proof (cases a)
    case (BCmp c x y)
    then have "atom_text a \<noteq> ''true'' \<and> atom_text a \<noteq> ''false''" by (intro not_keyword) simp
    with clean parse_cmp_text [of x vars y c] assms BCmp atom_text_trimmed [OF words] show ?thesis
      by (subst parse_bmc_predicate.simps) simp
  qed (subst parse_bmc_predicate.simps, simp add: trimmed_def is_ws_def)+
qed

text \<open>Splitting joined texts gives them back, up to the blanks.\<close>

fun sep_text :: "string \<Rightarrow> string list \<Rightarrow> string" where
  "sep_text sep [] = []"
| "sep_text sep [s] = s"
| "sep_text sep (s # t # ss) = (s @ '' '') @ sep @ CHR '' '' # sep_text sep (t # ss)"

lemma spaced_sep_toks:
  "\<forall>ts \<in> set tss. ts \<noteq> [] \<Longrightarrow> spaced (sep_toks sep tss) = sep_text sep (map spaced tss)"
proof (induction sep tss rule: sep_toks.induct)
  case (3 sep ts us tss)
  have "sep_toks sep (us # tss) \<noteq> []" using 3 by (cases tss) auto
  with 3 show ?case using spaced_around [of ts "sep_toks sep (us # tss)" sep] by simp
qed simp_all

lemma split_str_step:
  assumes "pat \<noteq> []" and "hd pat \<notin> set xs"
  shows "split_str pat (xs @ pat @ ys) = xs # split_str pat ys"
proof -
  have "find_str pat (pat @ ys) = Some 0" using assms(1) by (cases pat) auto
  then have "find_str pat (xs @ pat @ ys) = Some (length xs)" using find_str_skip [OF assms] by simp
  then show ?thesis using assms(1) by (subst split_str.simps) simp
qed

lemma split_sep_text:
  assumes "pat \<noteq> []" and "hd pat \<noteq> CHR '' ''" and "ss \<noteq> []"
    and "\<forall>s \<in> set ss. trimmed s \<and> hd pat \<notin> set s" and "lead = [] \<or> lead = '' ''"
  shows "map trim (split_str pat (lead @ sep_text pat ss)) = ss"
  using assms(3-5)
proof (induction ss arbitrary: lead)
  case (Cons s ss)
  then have s: "trimmed s" "hd pat \<notin> set s" by simp_all
  show ?case
  proof (cases ss)
    case Nil
    have "hd pat \<notin> set (lead @ s)" using s Cons.prems(3) assms(2) by auto
    then have "split_str pat (lead @ s) = [lead @ s]"
      by (subst split_str.simps) (simp add: find_str_absent [OF assms(1)])
    with Nil s Cons.prems(3) show ?thesis by auto
  next
    case (Cons t us)
    have "hd pat \<notin> set (lead @ s @ '' '')" using s Cons.prems(3) assms(2) by auto
    from split_str_step [OF assms(1) this, of "CHR '' '' # sep_text pat ss"]
    have "split_str pat (lead @ sep_text pat (s # ss)) = (lead @ s @ '' '') # split_str pat (CHR '' '' # sep_text pat ss)"
      by (simp add: Cons)
    moreover have "trim (lead @ s @ '' '') = s" using s(1) Cons.prems(3) by auto
    moreover have "map trim (split_str pat ('' '' @ sep_text pat ss)) = ss"
      using Cons Cons.prems by (intro Cons.IH) simp_all
    ultimately show ?thesis by simp
  qed
qed simp

lemma two_elems: "2 \<le> length ss \<Longrightarrow> \<exists>s t us. ss = s # t # us"
  by (cases ss; cases "tl ss") auto

lemma sep_text_contains: "2 \<le> length ss \<Longrightarrow> str_contains (sep_text sep ss) sep"
proof -
  assume "2 \<le> length ss"
  then obtain s t us where "ss = s # t # us" using two_elems by blast
  then show ?thesis
    using sublist_appendI [of sep "s @ '' ''" "CHR '' '' # sep_text sep (t # us)"]
    by (simp add: str_contains_sublist)
qed

lemma sep_text_trimmed: "ss \<noteq> [] \<Longrightarrow> \<forall>s \<in> set ss. trimmed s \<Longrightarrow> trimmed (sep_text sep ss)"
proof (induction sep ss rule: sep_text.induct)
  case (3 sep s t ss)
  then show ?case using trimmed_append [of s "sep_text sep (t # ss)" "'' '' @ sep @ '' ''"] by simp
qed simp_all

lemma sep_text_blank: "2 \<le> length ss \<Longrightarrow> CHR '' '' \<in> set (sep_text sep ss)"
  by (auto dest!: two_elems)

lemma sep_text_chars: "c \<in> set (sep_text sep ss) \<Longrightarrow> c = CHR '' '' \<or> c \<in> set sep \<or> (\<exists>s \<in> set ss. c \<in> set s)"
  by (induction sep ss rule: sep_text.induct) auto

lemma those_map: "(\<And>x. x \<in> set xs \<Longrightarrow> f x = Some (g x)) \<Longrightarrow> those (map f xs) = Some (map g xs)"
  by (induction xs) auto

lemma map_via: "map h ys = zs \<Longrightarrow> map (\<lambda>p. f (h p)) ys = map f zs"
  by auto

lemma parse_clause_text:
  assumes c: "c \<noteq> []" and vars: "\<forall>a \<in> set c. \<forall>x \<in> atom_vars a. var_name x \<and> x \<in> set vars"
    and wf: "\<forall>a \<in> set c. atom_wf a"
  shows "parse_bmc_predicate vars (sep_text ''||'' (map atom_text c)) = Some (group_term FOr (map atom_term c))"
proof -
  have words: "\<forall>a \<in> set c. \<forall>x \<in> atom_vars a. word x" using vars by (auto simp: var_name_def)
  show ?thesis
  proof (cases "2 \<le> length c")
    case False
    then obtain a where "c = [a]" using c by (cases c; cases "tl c") auto
    with parse_atom_text vars wf show ?thesis by (simp add: group_term_def)
  next
    case True
    let ?s = "sep_text ''||'' (map atom_text c)"
    have trim: "trim ?s = ?s"
      using c words atom_text_trimmed by (intro trim_trimmed sep_text_trimmed) auto
    have "CHR ''&'' \<notin> set ?s"
      using words atom_text_clean(1) by (auto dest!: sep_text_chars)
    then have noand: "\<not> str_contains ?s ''&&''" by (rule no_find)
    have cont: "str_contains ?s ''||''" and key: "?s \<noteq> ''true'' \<and> ?s \<noteq> ''false''"
      using True sep_text_contains [of "map atom_text c"] not_keyword [OF sep_text_blank [of "map atom_text c"]] by auto
    have "map trim (split_str ''||'' ([] @ ?s)) = map atom_text c"
      using c words atom_text_trimmed atom_text_clean(2) by (intro split_sep_text) auto
    from map_via [OF this [unfolded append_Nil], of "parse_bmc_predicate vars"]
    have "parse_bmc_predicate vars ?s = collect FOr (map (parse_bmc_predicate vars) (map atom_text c))"
      using trim noand cont key by (subst parse_bmc_predicate.simps) simp
    moreover have "those (map (parse_bmc_predicate vars \<circ> atom_text) c) = Some (map atom_term c)"
      using parse_atom_text vars wf by (intro those_map) simp
    ultimately show ?thesis using two_elems [OF True] by (auto simp: collect_def group_term_def)
  qed
qed

definition clause_text :: "batom list \<Rightarrow> string" where
  "clause_text c = sep_text ''||'' (map atom_text c)"

lemma clause_toks_nonempty: "c \<noteq> [] \<Longrightarrow> clause_toks c \<noteq> []"
proof -
  have "atom_toks a \<noteq> []" for a by (cases a) simp_all
  then show "c \<noteq> [] \<Longrightarrow> clause_toks c \<noteq> []" by (cases c; cases "tl c") (auto simp: clause_toks_def)
qed

lemma pred_text_sep:
  assumes "\<forall>c \<in> set p. c \<noteq> []"
  shows "pred_text p = sep_text ''&&'' (map clause_text p)"
proof -
  have atom: "atom_toks a \<noteq> []" for a by (cases a) simp_all
  have "spaced (clause_toks c) = clause_text c" for c
    using spaced_sep_toks [of "map atom_toks c" "''||''"] atom
    by (auto simp: clause_toks_def clause_text_def atom_text_def [abs_def] comp_def)
  then show ?thesis
    using spaced_sep_toks [of "map clause_toks p" "''&&''"] assms clause_toks_nonempty
    by (auto simp: pred_text_def pred_toks_def comp_def)
qed

text \<open>A well-formed predicate over known variables is parsed to its term.\<close>

theorem parse_pred_text:
  assumes wf: "pred_wf p" and vars: "\<forall>x \<in> pred_vars p. var_name x \<and> x \<in> set vars"
  shows "parse_bmc_predicate vars (pred_text p) = Some (pred_term p)"
proof -
  have p: "p \<noteq> []" "\<forall>c \<in> set p. c \<noteq> []" "\<forall>c \<in> set p. \<forall>a \<in> set c. atom_wf a" using wf by (auto simp: pred_wf_def)
  have cvars: "\<forall>c \<in> set p. \<forall>a \<in> set c. \<forall>x \<in> atom_vars a. var_name x \<and> x \<in> set vars"
    using vars by (auto simp: pred_vars_def)
  then have words: "\<forall>c \<in> set p. \<forall>a \<in> set c. \<forall>x \<in> atom_vars a. word x" by (auto simp: var_name_def)
  have clause: "parse_bmc_predicate vars (clause_text c) = Some (group_term FOr (map atom_term c))" if "c \<in> set p" for c
    using that p cvars unfolding clause_text_def by (intro parse_clause_text) auto
  have shape: "pred_text p = sep_text ''&&'' (map clause_text p)" using p(2) by (rule pred_text_sep)
  show ?thesis
  proof (cases "2 \<le> length p")
    case False
    then obtain c where "p = [c]" using p(1) by (cases p; cases "tl p") auto
    with clause shape show ?thesis by (simp add: pred_term_def group_term_def)
  next
    case True
    let ?s = "sep_text ''&&'' (map clause_text p)"
    have trimmed: "\<forall>s \<in> set (map clause_text p). trimmed s"
      using p(2) words atom_text_trimmed by (auto simp: clause_text_def intro!: sep_text_trimmed)
    have no_amp: "\<forall>s \<in> set (map clause_text p). CHR ''&'' \<notin> set s"
      using words atom_text_clean(1) by (auto simp: clause_text_def dest!: sep_text_chars)
    have trim: "trim ?s = ?s" using p(1) trimmed by (intro trim_trimmed sep_text_trimmed) auto
    have cont: "str_contains ?s ''&&''" and key: "?s \<noteq> ''true'' \<and> ?s \<noteq> ''false''"
      using True sep_text_contains [of "map clause_text p"] not_keyword [OF sep_text_blank [of "map clause_text p"]]
      by auto
    have "map trim (split_str ''&&'' ([] @ ?s)) = map clause_text p"
      using p(1) trimmed no_amp by (intro split_sep_text) auto
    from map_via [OF this [unfolded append_Nil], of "parse_bmc_predicate vars"]
    have "parse_bmc_predicate vars ?s = collect FAnd (map (parse_bmc_predicate vars) (map clause_text p))"
      using trim cont key by (subst parse_bmc_predicate.simps) simp
    moreover have "those (map (parse_bmc_predicate vars \<circ> clause_text) p) =
        Some (map (\<lambda>c. group_term FOr (map atom_term c)) p)"
      using clause by (intro those_map) simp
    ultimately show ?thesis using two_elems [OF True] shape by (auto simp: collect_def pred_term_def group_term_def)
  qed
qed

end
