(* ===== verification/Bmc_Paths.thy ===== *)
theory Bmc_Paths
  imports Bmc_Parse
begin

text \<open>
  What the safety answers of the model checker mean for the transition system its text
  describes, with a solver whose answers are right.
\<close>

section \<open>Transition systems\<close>

record ts_system =
  ts_names :: "string list"
  ts_inits :: "bpred list"
  ts_steps :: "bpred list"

definition pair_state :: "state \<Rightarrow> state \<Rightarrow> state" where
  "pair_state s s' x = (if last x = CHR 0x27 then s' (butlast x) else s x)"

definition initial_state :: "ts_system \<Rightarrow> state \<Rightarrow> bool" where
  "initial_state sys s \<longleftrightarrow> (\<forall>p \<in> set (ts_inits sys). pred_holds s p)"

definition sys_step :: "ts_system \<Rightarrow> state \<Rightarrow> state \<Rightarrow> bool" where
  "sys_step sys s s' \<longleftrightarrow> (\<forall>p \<in> set (ts_steps sys). pred_holds (pair_state s s') p)"

inductive reach :: "ts_system \<Rightarrow> state \<Rightarrow> bool" for sys where
  init: "initial_state sys s \<Longrightarrow> reach sys s"
| step: "reach sys s \<Longrightarrow> sys_step sys s s' \<Longrightarrow> reach sys s'"

definition state_pred :: "ts_system \<Rightarrow> bpred \<Rightarrow> bool" where
  "state_pred sys p \<longleftrightarrow> pred_wf p \<and> pred_vars p \<subseteq> set (ts_names sys)"

definition sys_ok :: "ts_system \<Rightarrow> bool" where
  "sys_ok sys \<longleftrightarrow> names_ok (set (ts_names sys)) \<and> (\<forall>p \<in> set (ts_inits sys). state_pred sys p) \<and>
     (\<forall>p \<in> set (ts_steps sys). pred_wf p \<and> pred_vars p \<subseteq> set (ts_names sys) \<union> primed ` set (ts_names sys))"

text \<open>The engine and the obligation that hold a system's text.\<close>

definition engine_of :: "ts_system \<Rightarrow> bmc_engine \<Rightarrow> bool" where
  "engine_of sys eng \<longleftrightarrow> var_names eng = ts_names sys \<and> be_initial_constraints eng = map pred_text (ts_inits sys) \<and>
     map tc_predicate (be_transitions eng) = map pred_text (ts_steps sys)"

definition obligation_of :: "ts_system \<Rightarrow> k_induction_obligation \<Rightarrow> bool" where
  "obligation_of sys ob \<longleftrightarrow> map fst (ko_state_variables ob) = ts_names sys \<and>
     ko_initial_constraints ob = map pred_text (ts_inits sys) \<and>
     map fst (ko_transitions ob) = map pred_text (ts_steps sys)"

section \<open>Solvers\<close>

definition has_model :: "smt_term list \<Rightarrow> bool" where
  "has_model fs \<longleftrightarrow> (\<exists>M. \<forall>f \<in> set fs. beval M f)"

text \<open>
  A solver may be right about what it answers, and it may give up.  When it says that its time ran
  out the checks report it; when it gives up on a query for another reason they go on as after
  \<open>unsat\<close>, so every statement names the queries on which that may have happened.
\<close>

definition unsat_right :: "solver \<Rightarrow> bool" where
  "unsat_right z3 \<longleftrightarrow> (\<forall>fs. z3 fs = ZUnsat \<longrightarrow> \<not> has_model fs)"

definition sat_right :: "solver \<Rightarrow> bool" where
  "sat_right z3 \<longleftrightarrow> (\<forall>fs m. z3 fs = ZSat m \<longrightarrow> has_model fs)"

definition gives_up :: "solver \<Rightarrow> smt_term list \<Rightarrow> bool" where
  "gives_up z3 fs \<longleftrightarrow>
     (case z3 fs of
        ZUnknown r \<Rightarrow> \<not> z3_unknown_is_timeout (case r of Some r \<Rightarrow> r | None \<Rightarrow> ''unknown'')
      | _ \<Rightarrow> False)"

text \<open>What a safety check asks at a step: the assertions of the unrolling and the bad predicate there.\<close>

definition safety_query :: "bmc_engine \<Rightarrow> string \<Rightarrow> nat \<Rightarrow> smt_term list" where
  "safety_query eng bad i =
     initial_assertions eng @ transition_assertions eng @
     (case parse_predicate_at_step eng bad i of Some f \<Rightarrow> [f] | None \<Rightarrow> [])"

section \<open>Models and paths\<close>

definition unroll :: "smt_model \<Rightarrow> nat \<Rightarrow> state" where
  "unroll M i x = sm_var M (rename_var x i)"

lemma rename_var_inject [simp]: "rename_var x i = rename_var y j \<longleftrightarrow> x = y \<and> i = j"
proof
  assume eq: "rename_var x i = rename_var y j"
  have no: "CHR ''_'' \<notin> set (rev (dec n))" for n
    using dec_digits [of n] by (auto simp: list_all_iff is_digit_def)
  have tw: "takeWhile (\<lambda>c. c \<noteq> CHR ''_'') (rev (rename_var z n)) = rev (dec n)" for z n
  proof -
    have "rev (rename_var z n) = rev (dec n) @ CHR ''_'' # rev z" by (simp add: rename_var_def)
    moreover have "\<forall>c \<in> set (rev (dec n)). c \<noteq> CHR ''_''" using no [of n] by auto
    ultimately show ?thesis using takeWhile_append2 [of "rev (dec n)" "\<lambda>c. c \<noteq> CHR ''_''"] by simp
  qed
  from tw [of x i] tw [of y j] eq have "i = j" by simp
  with eq show "x = y \<and> i = j" by (simp add: rename_var_def)
qed simp

lemma model_of_path: "\<exists>M. unroll M = s"
proof -
  let ?v = "\<lambda>n. if \<exists>x i. n = rename_var x i then (let (x, i) = (SOME (x, i). n = rename_var x i) in s i x) else 0"
  have "(SOME (y, j). rename_var x i = rename_var y j) = (x, i)" for x i by (rule some_equality) auto
  then have "unroll \<lparr>sm_var = ?v, sm_fun = \<lambda>f xs. 0\<rparr> i x = s i x" for i x by (auto simp: unroll_def)
  then show ?thesis by blast
qed

lemma stepped_vars: "x \<in> set (var_names eng) \<Longrightarrow> i \<le> bmc_bound eng \<Longrightarrow> rename_var x i \<in> set (create_stepped_vars eng)"
  by (auto simp: create_stepped_vars_def simp del: upt_Suc)

lemma rename_var_name: "var_name x \<Longrightarrow> var_name (rename_var x i)"
proof -
  assume x: "var_name x"
  then have "hd (rename_var x i) = hd x" by (auto simp: rename_var_def var_name_def word_def hd_append)
  moreover have "CHR ''_'' \<in> set (rename_var x i)" by (simp add: rename_var_def)
  moreover have "r \<noteq> ''true'' \<and> r \<noteq> ''false''" if "CHR ''_'' \<in> set r" for r using that by auto
  ultimately show ?thesis using x rename_word [OF x, of i] by (simp add: var_name_def)
qed

text \<open>A predicate at a step is the predicate of the state of that step.\<close>

lemma parse_at_step:
  assumes "names_ok (set (var_names eng))" and "pred_wf p" and "pred_vars p \<subseteq> set (var_names eng)"
    and "i \<le> bmc_bound eng"
  shows "parse_predicate_at_step eng (pred_text p) i = Some (pred_term (pred_map (\<lambda>x. rename_var x i) p))"
proof -
  have "\<forall>x \<in> pred_vars (pred_map (\<lambda>x. rename_var x i) p). var_name x \<and> x \<in> set (create_stepped_vars eng)"
    using assms(1,3,4) by (auto simp: names_ok_def intro!: rename_var_name stepped_vars)
  then show ?thesis
    using assms by (simp add: parse_predicate_at_step_def rename_predicate_text parse_pred_text)
qed

lemma state_at_step:
  "pred_wf p \<Longrightarrow> beval M (pred_term (pred_map (\<lambda>x. rename_var x i) p)) = pred_holds (unroll M i) p"
  by (simp add: pred_term_holds comp_def unroll_def [abs_def])

lemma parse_transition:
  assumes "names_ok (set (var_names eng))" and "pred_wf p"
    and "pred_vars p \<subseteq> set (var_names eng) \<union> primed ` set (var_names eng)" and "i < bmc_bound eng"
  shows "parse_transition_at_step eng (pred_text p) i = Some (pred_term (pred_map (step_var i) p))"
proof -
  have "var_name (step_var i x) \<and> step_var i x \<in> set (create_stepped_vars eng)" if "x \<in> pred_vars p" for x
  proof -
    from that assms(3) consider "x \<in> set (var_names eng)" | v where "v \<in> set (var_names eng)" "x = primed v" by blast
    then show ?thesis
    proof cases
      case 1
      with assms(1) have "var_name x" by (auto simp: names_ok_def)
      with 1 assms(4) show ?thesis using stepped_vars [OF 1, of i] rename_var_name [of x i] by (simp add: var_name_def)
    next
      case 2
      with assms(1) have "var_name v" by (auto simp: names_ok_def)
      with 2 assms(4) show ?thesis using stepped_vars [OF 2(1), of "i + 1"] rename_var_name [of v "i + 1"] by simp
    qed
  qed
  then show ?thesis
    using assms by (simp add: parse_transition_at_step_def rename_transition_text parse_pred_text)
qed

lemma step_at:
  "pred_wf p \<Longrightarrow> beval M (pred_term (pred_map (step_var i) p)) = pred_holds (pair_state (unroll M i) (unroll M (i + 1))) p"
proof -
  have "sm_var M \<circ> step_var i = pair_state (unroll M i) (unroll M (i + 1))"
    by (auto simp: step_var_def pair_state_def unroll_def)
  then show "pred_wf p \<Longrightarrow> ?thesis" by (simp add: pred_term_holds)
qed

subsection \<open>What the assertions say\<close>

lemma set_map_filter: "set (List.map_filter f xs) = {y. \<exists>x \<in> set xs. f x = Some y}"
  by (induction xs) (auto simp: List.map_filter_simps split: option.splits)

lemma initial_assertions_hold:
  assumes "names_ok (set (var_names eng))"
    and "be_initial_constraints eng = map pred_text ps" "\<forall>p \<in> set ps. pred_wf p \<and> pred_vars p \<subseteq> set (var_names eng)"
  shows "(\<forall>f \<in> set (initial_assertions eng). beval M f) \<longleftrightarrow> (\<forall>p \<in> set ps. pred_holds (unroll M 0) p)"
  using assms parse_at_step [OF assms(1), of _ 0]
  by (auto simp: initial_assertions_def set_map_filter state_at_step)

lemma transition_assertions_hold:
  assumes "sys_ok sys" and "var_names eng = ts_names sys"
    and "map tc_predicate (be_transitions eng) = map pred_text (ts_steps sys)"
  shows "(\<forall>f \<in> set (transition_assertions eng). beval M f) \<longleftrightarrow>
    (\<forall>i < bmc_bound eng. sys_step sys (unroll M i) (unroll M (i + 1)))"
proof -
  have "(\<forall>f \<in> {f. \<exists>t \<in> set (be_transitions eng). parse_transition_at_step eng (tc_predicate t) i = Some f}. beval M f)
      \<longleftrightarrow> sys_step sys (unroll M i) (unroll M (i + 1))" if i: "i < bmc_bound eng" for i
  proof -
    have p: "parse_transition_at_step eng (pred_text p) i = Some (pred_term (pred_map (step_var i) p)) \<and> pred_wf p"
      if "p \<in> set (ts_steps sys)" for p
      using assms(1,2) that i parse_transition [of eng p i] by (auto simp: sys_ok_def)
    have "{f. \<exists>t \<in> set (be_transitions eng). parse_transition_at_step eng (tc_predicate t) i = Some f} =
        {f. \<exists>w \<in> set (map tc_predicate (be_transitions eng)). parse_transition_at_step eng w i = Some f}" by auto
    also have "\<dots> = (\<lambda>p. pred_term (pred_map (step_var i) p)) ` set (ts_steps sys)"
      unfolding assms(3) using p by auto
    finally show ?thesis using p by (auto simp: sys_step_def step_at)
  qed
  then show ?thesis by (auto simp: transition_assertions_def set_map_filter)
qed

section \<open>Bounded safety\<close>

text \<open>The checks run through their steps until one has an answer.\<close>

lemma safety_steps_safe:
  "safety_steps z3 eng name bad fs steps = BmcSafe n b \<Longrightarrow> i \<in> set steps \<Longrightarrow>
   parse_predicate_at_step eng bad i = Some f \<Longrightarrow> \<not> gives_up z3 (fs @ [f]) \<Longrightarrow> z3 (fs @ [f]) = ZUnsat"
  by (induction steps) (auto simp: gives_up_def split: option.splits sat_result.splits if_splits)

lemma safety_steps_counterexample:
  "safety_steps z3 eng name bad fs steps = BmcCounterexample n i tr \<Longrightarrow>
   i \<in> set steps \<and> (\<exists>f m. parse_predicate_at_step eng bad i = Some f \<and> z3 (fs @ [f]) = ZSat m)"
  by (induction steps) (auto split: option.splits sat_result.splits if_splits)

lemma safety_steps_answers:
  "(\<exists>n b. safety_steps z3 eng name bad fs steps = BmcSafe n b) \<or>
   (\<exists>n i tr. safety_steps z3 eng name bad fs steps = BmcCounterexample n i tr) \<or>
   (\<exists>n r. safety_steps z3 eng name bad fs steps = BmcUnknown n r)"
  by (induction steps) (auto split: option.splits sat_result.splits)

definition path :: "ts_system \<Rightarrow> nat \<Rightarrow> (nat \<Rightarrow> state) \<Rightarrow> bool" where
  "path sys n s \<longleftrightarrow> (\<forall>i < n. sys_step sys (s i) (s (i + 1)))"

text \<open>The models of the assertions are the paths whose first state meets the initial constraints.\<close>

lemma has_model_paths:
  assumes sys: "sys_ok sys" and eng: "var_names eng = ts_names sys"
      "map tc_predicate (be_transitions eng) = map pred_text (ts_steps sys)"
    and init: "\<And>M. (\<forall>f \<in> set (initial_assertions eng). beval M f) \<longleftrightarrow> A (unroll M)"
  shows "has_model (initial_assertions eng @ transition_assertions eng @ gs) \<longleftrightarrow>
    (\<exists>M. A (unroll M) \<and> path sys (bmc_bound eng) (unroll M) \<and> (\<forall>g \<in> set gs. beval M g))"
  using init transition_assertions_hold [OF sys eng]
  unfolding has_model_def path_def set_append ball_Un by blast

lemma has_bad_path:
  assumes sys: "sys_ok sys" and eng: "var_names eng = ts_names sys"
      "map tc_predicate (be_transitions eng) = map pred_text (ts_steps sys)"
    and init: "\<And>M. (\<forall>f \<in> set (initial_assertions eng). beval M f) \<longleftrightarrow> A (unroll M)"
    and bad: "state_pred sys bad" and i: "i \<le> bmc_bound eng"
    and f: "parse_predicate_at_step eng (pred_text bad) i = Some f"
  shows "has_model ((initial_assertions eng @ transition_assertions eng) @ [f]) \<longleftrightarrow>
    (\<exists>s. A s \<and> path sys (bmc_bound eng) s \<and> pred_holds (s i) bad)"
proof -
  have "f = pred_term (pred_map (\<lambda>x. rename_var x i) bad)"
    using parse_at_step [of eng bad i] f bad i sys eng(1) by (simp add: sys_ok_def state_pred_def)
  then have g: "beval M f = pred_holds (unroll M i) bad" for M
    using bad by (simp add: state_at_step state_pred_def)
  show ?thesis
    using has_model_paths [OF sys eng init, of "[f]"] g model_of_path by (auto) metis
qed

text \<open>
  A safety check with a solver that is right and answers says whether a path of the full length
  reaches the bad state; the bad state may come at any step of it.
\<close>

lemma check_safety_paths:
  assumes sys: "sys_ok sys" and eng: "var_names eng = ts_names sys"
      "map tc_predicate (be_transitions eng) = map pred_text (ts_steps sys)"
    and init: "\<And>M. (\<forall>f \<in> set (initial_assertions eng). beval M f) \<longleftrightarrow> A (unroll M)"
    and bad: "state_pred sys bad" and z3: "unsat_right z3"
    and safe: "check_safety_z3 z3 eng name (pred_text bad) = BmcSafe n b"
    and s: "A s" "path sys (bmc_bound eng) s" and i: "i \<le> bmc_bound eng"
    and answered: "\<not> gives_up z3 (safety_query eng (pred_text bad) i)"
  shows "\<not> pred_holds (s i) bad"
proof
  assume holds: "pred_holds (s i) bad"
  obtain f where f: "parse_predicate_at_step eng (pred_text bad) i = Some f"
    using parse_at_step [of eng bad i] bad i sys eng(1) by (simp add: sys_ok_def state_pred_def)
  from safe have "z3 ((initial_assertions eng @ transition_assertions eng) @ [f]) = ZUnsat"
    using i f answered unfolding check_safety_z3_def by (intro safety_steps_safe) (auto simp: safety_query_def)
  then have "\<not> has_model ((initial_assertions eng @ transition_assertions eng) @ [f])"
    using z3 unfolding unsat_right_def by blast
  with has_bad_path [OF sys eng init bad i f] s holds show False by blast
qed

lemma engine_init:
  assumes "sys_ok sys" and "engine_of sys eng"
  shows "(\<forall>f \<in> set (initial_assertions eng). beval M f) \<longleftrightarrow> initial_state sys (unroll M 0)"
  using assms initial_assertions_hold [of eng "ts_inits sys" M]
  by (auto simp: sys_ok_def engine_of_def state_pred_def initial_state_def)

text \<open>
  A small solver to run the checks with: it answers \<open>unsat\<close> where two assertions plainly
  contradict each other and otherwise says that its time ran out.
\<close>

fun below_args :: "smt_term \<Rightarrow> smt_term" where
  "below_args (SApp f ts) = (if f = FGe then SApp FLt ts else SBool True)"
| "below_args t = SBool True"

definition refutes :: "smt_term \<Rightarrow> smt_term \<Rightarrow> bool" where
  "refutes a b \<longleftrightarrow> b = SApp FNot [a] \<or> b = below_args a \<and> b \<noteq> SBool True"

definition refuting_solver :: solver where
  "refuting_solver fs =
     (if list_ex (\<lambda>a. list_ex (refutes a) fs) fs then ZUnsat else ZUnknown (Some ''timeout''))"

lemma refutes_contradiction: "refutes a b \<Longrightarrow> \<not> (beval M a \<and> beval M b)"
  by (cases a) (auto simp: refutes_def beval_def ieval_def split: if_splits)

lemma refuting_solver_right:
  "unsat_right refuting_solver" "sat_right refuting_solver" "\<not> gives_up refuting_solver fs"
proof -
  have "\<not> has_model fs" if "list_ex (\<lambda>a. list_ex (refutes a) fs) fs" for fs
  proof -
    from that obtain a b where "a \<in> set fs" "b \<in> set fs" "refutes a b" by (auto simp: list_ex_iff)
    with refutes_contradiction [of a b] show ?thesis unfolding has_model_def by blast
  qed
  then show "unsat_right refuting_solver" by (simp add: unsat_right_def refuting_solver_def)
  show "sat_right refuting_solver" by (simp add: sat_right_def refuting_solver_def)
  have "z3_unknown_is_timeout ''timeout''" by code_simp
  then show "\<not> gives_up refuting_solver fs" by (simp add: gives_up_def refuting_solver_def)
qed

text \<open>The system \<open>x >= 0\<close>, whose steps keep it, and the predicate \<open>x < 0\<close>.\<close>

definition ex_system :: ts_system where
  "ex_system = \<lparr>ts_names = [''x''], ts_inits = [[[BCmp CGe (BVar ''x'') (BNum 0)]]],
     ts_steps = [[[BCmp CGe (BVar (primed ''x'')) (BNum 0)]]]\<rparr>"

definition ex_bad :: bpred where
  "ex_bad = [[BCmp CLt (BVar ''x'') (BNum 0)]]"

definition ex_obligation :: k_induction_obligation where
  "ex_obligation = \<lparr>ko_name = ''p'', ko_state_variables = [(''x'', SortInt)],
     ko_initial_constraints = [''x >= 0''], ko_transitions = [(''x' >= 0'', [''x''])],
     ko_property = Safety ''p'' ''x < 0''\<rparr>"

definition ex_config :: k_induction_config where
  "ex_config = \<lparr>kc_k = 1, kc_timeout_ms = 1000\<rparr>"

lemma ex_texts:
  "pred_text [[BCmp CGe (BVar ''x'') (BNum 0)]] = ''x >= 0''"
  "pred_text [[BCmp CGe (BVar (primed ''x'')) (BNum 0)]] = ''x' >= 0''"
  "pred_text ex_bad = ''x < 0''"
  by code_simp+

lemma ex_names_ok: "names_ok {''x''}"
proof -
  have "var_name ''x''" by code_simp
  moreover have "length (rename_var ''x'' i) \<noteq> length ''x''" for i by (simp add: rename_var_def)
  then have "rename_var ''x'' i \<noteq> ''x''" for i by metis
  ultimately show ?thesis by (simp add: names_ok_def)
qed

lemma ex_system_ok:
  "sys_ok ex_system" "state_pred ex_system ex_bad" "obligation_of ex_system ex_obligation"
  using ex_names_ok ex_texts
  by (simp_all add: sys_ok_def state_pred_def obligation_of_def ex_system_def ex_bad_def ex_obligation_def
      pred_wf_def pred_vars_def i64_max_def)





end
