(* ===== verification/K_Induction.thy ===== *)
theory K_Induction
  imports Bmc_Paths
begin

text \<open>
  K-induction: what its answer \<open>Verified\<close> means for all the reachable states.
\<close>

section \<open>K-induction on safety properties\<close>

fun negate_cmp :: "cmp_op \<Rightarrow> cmp_op" where
  "negate_cmp CGe = CLt"
| "negate_cmp CLe = CGt"
| "negate_cmp CNe = CEq"
| "negate_cmp CEq = CNe"
| "negate_cmp CGt = CLe"
| "negate_cmp CLt = CGe"

lemma negate_cmp_rel: "cmp_rel (negate_cmp c) a b \<longleftrightarrow> \<not> cmp_rel c a b"
  by (cases c) auto

abbreviation comparison :: "cmp_op \<Rightarrow> bexp \<Rightarrow> bexp \<Rightarrow> bpred" where
  "comparison c a b \<equiv> [[BCmp c a b]]"

lemma comparison_text:
  "pred_text (comparison c a b) = (exp_text a @ '' '') @ cmp_text c @ CHR '' '' # exp_text b"
  by (subst pred_text_sep) (simp_all add: clause_text_def)

text \<open>On a single comparison the textual negation is the logical one.\<close>

lemma negate_comparison_text:
  assumes a: "\<forall>x \<in> exp_vars a. word x" and b: "\<forall>x \<in> exp_vars b. word x"
  shows "negate_predicate (pred_text (comparison c a b)) = pred_text (comparison (negate_cmp c) a b)"
proof -
  let ?a = "exp_text a @ '' ''" and ?b = "exp_text b"
  have clean: "set ?a \<inter> {CHR ''<'', CHR ''>'', CHR ''='', CHR ''!''} = {}"
      "set ?b \<inter> {CHR ''<'', CHR ''>'', CHR ''='', CHR ''!''} = {}"
    using exp_text_no_symbol [OF a] exp_text_no_symbol [OF b] by auto
  define t where "t = ?a @ cmp_text c @ CHR '' '' # ?b"
  have find: "find_str pat t = (if prefix pat (cmp_text c) then Some (length ?a) else None)"
    if "pat \<in> {''>='', ''<='', ''!='', ''=='', ''>'', ''<''}" for pat
    using find_str_cmp [OF clean that, of c] by (simp only: t_def)
  have has: "str_contains t pat \<longleftrightarrow> prefix pat (cmp_text c)"
    if "pat \<in> {''>='', ''<='', ''!='', ''=='', ''>'', ''<''}" for pat
    using find [OF that] by (simp add: str_contains_find)
  have replace: "replace_first pat new t = ?a @ new @ drop (length pat) (cmp_text c) @ CHR '' '' # ?b"
    if "pat \<in> {''>='', ''<='', ''!='', ''=='', ''>'', ''<''}" "prefix pat (cmp_text c)" for pat new
    using find [OF that(1)] that(2) by (auto simp: replace_first_def t_def prefix_def)
  have trim: "trim t = t"
    using trimmed_append [OF exp_text_trimmed [OF a] exp_text_trimmed [OF b], of "'' '' @ cmp_text c @ '' ''"]
    by (intro trim_trimmed) (simp add: t_def)
  have "negate_predicate t = ?a @ cmp_text (negate_cmp c) @ CHR '' '' # ?b"
    unfolding negate_predicate_def trim Let_def by (cases c) (simp_all add: has replace)
  then show ?thesis by (simp only: comparison_text t_def)
qed

text \<open>The engines of the two phases.\<close>

lemma declare_system_fields [simp]:
  "var_names (declare_system ob e) = var_names e @ map fst (ko_state_variables ob)"
  "be_config (declare_system ob e) = be_config e" "be_transitions (declare_system ob e) = be_transitions e"
  "be_initial_constraints (declare_system ob e) = be_initial_constraints e"
  "be_properties (declare_system ob e) = be_properties e"
proof -
  have "map sv_name (be_state_variables (fold (\<lambda>(n, s). add_state_variable n s) vs e)) = var_names e @ map fst vs \<and>
    be_config (fold (\<lambda>(n, s). add_state_variable n s) vs e) = be_config e \<and>
    be_transitions (fold (\<lambda>(n, s). add_state_variable n s) vs e) = be_transitions e \<and>
    be_initial_constraints (fold (\<lambda>(n, s). add_state_variable n s) vs e) = be_initial_constraints e \<and>
    be_properties (fold (\<lambda>(n, s). add_state_variable n s) vs e) = be_properties e" for vs
    by (induction vs arbitrary: e) (auto simp: add_state_variable_def)
  then show "var_names (declare_system ob e) = var_names e @ map fst (ko_state_variables ob)"
    "be_config (declare_system ob e) = be_config e" "be_transitions (declare_system ob e) = be_transitions e"
    "be_initial_constraints (declare_system ob e) = be_initial_constraints e"
    "be_properties (declare_system ob e) = be_properties e"
    by (simp_all add: declare_system_def)
qed

lemma declare_transitions_fields [simp]:
  "map tc_predicate (be_transitions (declare_transitions ob e)) =
   map tc_predicate (be_transitions e) @ map fst (ko_transitions ob)"
  "be_state_variables (declare_transitions ob e) = be_state_variables e"
  "be_config (declare_transitions ob e) = be_config e"
  "be_initial_constraints (declare_transitions ob e) = be_initial_constraints e"
  "be_properties (declare_transitions ob e) = be_properties e"
proof -
  have "map tc_predicate (be_transitions (fold (\<lambda>(p, vs). add_transition p vs) ts e)) =
      map tc_predicate (be_transitions e) @ map fst ts \<and>
    be_state_variables (fold (\<lambda>(p, vs). add_transition p vs) ts e) = be_state_variables e \<and>
    be_config (fold (\<lambda>(p, vs). add_transition p vs) ts e) = be_config e \<and>
    be_initial_constraints (fold (\<lambda>(p, vs). add_transition p vs) ts e) = be_initial_constraints e \<and>
    be_properties (fold (\<lambda>(p, vs). add_transition p vs) ts e) = be_properties e" for ts
    by (induction ts arbitrary: e) (auto simp: add_transition_def)
  then show "map tc_predicate (be_transitions (declare_transitions ob e)) =
      map tc_predicate (be_transitions e) @ map fst (ko_transitions ob)"
    "be_state_variables (declare_transitions ob e) = be_state_variables e"
    "be_config (declare_transitions ob e) = be_config e"
    "be_initial_constraints (declare_transitions ob e) = be_initial_constraints e"
    "be_properties (declare_transitions ob e) = be_properties e"
    by (simp_all add: declare_transitions_def)
qed

lemma add_initial_fold [simp]:
  "be_state_variables (fold add_initial_constraint cs e) = be_state_variables e"
  "be_config (fold add_initial_constraint cs e) = be_config e"
  "be_transitions (fold add_initial_constraint cs e) = be_transitions e"
  "be_initial_constraints (fold add_initial_constraint cs e) = be_initial_constraints e @ cs"
  "be_properties (fold add_initial_constraint cs e) = be_properties e"
  by (induction cs arbitrary: e) (auto simp: add_initial_constraint_def)

lemma rename_same_vars: "var_names e = var_names e' \<Longrightarrow> rename_predicate e p i = rename_predicate e' p i"
  by (simp add: rename_predicate_def sorted_vars_def)

lemma hypotheses_fold:
  "fold (\<lambda>step e. add_initial_constraint (rename_predicate e p step) e) is e =
   fold add_initial_constraint (map (rename_predicate e p) is) e"
proof (induction "is" arbitrary: e)
  case (Cons i rest)
  have "rename_predicate (add_initial_constraint c e) p = rename_predicate e p" for c
    by (rule ext, rule rename_same_vars) (simp add: add_initial_constraint_def)
  with Cons show ?case by simp
qed simp

definition step_engine :: "k_induction_config \<Rightarrow> k_induction_obligation \<Rightarrow> bmc_engine" where
  "step_engine cfg ob =
     declare_transitions ob
       (declare_system ob
         (bmc_engine_new (with_timeout (kc_timeout_ms cfg) (with_bound (kc_k cfg + 1) bmc_config_default))))"

lemma step_engine_fields:
  assumes "obligation_of sys ob"
  shows "var_names (step_engine cfg ob) = ts_names sys" "bmc_bound (step_engine cfg ob) = kc_k cfg + 1"
    "map tc_predicate (be_transitions (step_engine cfg ob)) = map pred_text (ts_steps sys)"
    "be_initial_constraints (step_engine cfg ob) = []" "be_properties (step_engine cfg ob) = []"
    "bc_enable_lasso (be_config (step_engine cfg ob))"
  using assms by (simp_all add: step_engine_def obligation_of_def bmc_engine_new_def with_timeout_def with_bound_def
      bmc_config_default_def)

lemma base_engine_of:
  assumes "obligation_of sys ob"
  shows "engine_of sys (build_bmc_engine cfg ob k)" "bmc_bound (build_bmc_engine cfg ob k) = k"
    "be_properties (build_bmc_engine cfg ob k) = []" "bc_enable_lasso (be_config (build_bmc_engine cfg ob k))"
  using assms by (simp_all add: build_bmc_engine_def engine_of_def obligation_of_def bmc_engine_new_def
      with_timeout_def with_bound_def bmc_config_default_def)

text \<open>The engine of the inductive step with its hypotheses: the property at the first steps.\<close>

definition hypothesis_engine :: "k_induction_config \<Rightarrow> k_induction_obligation \<Rightarrow> string \<Rightarrow> bmc_engine" where
  "hypothesis_engine cfg ob bad =
     fold add_initial_constraint
       (map (rename_predicate (step_engine cfg ob) (negate_predicate bad)) [0..<kc_k cfg + 1]) (step_engine cfg ob)"

lemma check_property_added [simp]: "check_property z3 (add_property p eng) q = check_property z3 eng q"
proof -
  have pred: "parse_predicate_at_step (add_property p eng) = parse_predicate_at_step eng"
    by (intro ext) (simp add: parse_predicate_at_step_def create_stepped_vars_def rename_predicate_def sorted_vars_def
        add_property_def)
  have trans: "parse_transition_at_step (add_property p eng) = parse_transition_at_step eng"
    by (intro ext) (simp add: parse_transition_at_step_def create_stepped_vars_def rename_transition_predicate_def
        sorted_vars_def add_property_def)
  have same: "initial_assertions (add_property p eng) = initial_assertions eng"
    "transition_assertions (add_property p eng) = transition_assertions eng"
    "goal_assertions (add_property p eng) = goal_assertions eng"
    "loop_equations (add_property p eng) = loop_equations eng"
    "extract_trace (add_property p eng) = extract_trace eng"
    "bmc_bound (add_property p eng) = bmc_bound eng"
    "be_config (add_property p eng) = be_config eng"
    using pred trans
    by (auto simp: initial_assertions_def transition_assertions_def goal_assertions_def [abs_def] loop_equations_def [abs_def]
        extract_trace_def [abs_def] create_stepped_vars_def add_property_def)
  have safety: "safety_steps z3 (add_property p eng) n b fs is = safety_steps z3 eng n b fs is" for n b fs "is"
    by (induction "is") (auto simp: pred same split: option.split sat_result.split)
  have lasso: "lasso_steps z3 (add_property p eng) n fs is = lasso_steps z3 eng n fs is" for n fs "is"
    by (induction "is") (auto simp: same split: sat_result.split)
  show ?thesis
    by (cases q) (simp_all add: check_safety_z3_def check_liveness_z3_def safety lasso same)
qed

lemma check_added: "be_properties eng = [] \<Longrightarrow> check z3 (add_property p eng) = [check_property z3 eng p]"
proof -
  assume "be_properties eng = []"
  then have "be_properties (add_property p eng) = [p]" by (simp add: add_property_def)
  then show ?thesis by (simp add: check_def)
qed

lemma hypothesis_engine_fields:
  "var_names (hypothesis_engine cfg ob bad) = var_names (step_engine cfg ob)"
  "be_config (hypothesis_engine cfg ob bad) = be_config (step_engine cfg ob)"
  "be_transitions (hypothesis_engine cfg ob bad) = be_transitions (step_engine cfg ob)"
  "be_properties (hypothesis_engine cfg ob bad) = be_properties (step_engine cfg ob)"
  unfolding hypothesis_engine_def by (simp_all only: add_initial_fold)

lemma base_case_result:
  assumes "obligation_of sys ob"
  shows "run_base_case z3 cfg ob = check_property z3 (build_bmc_engine cfg ob (kc_k cfg)) (ko_property ob)"
  by (simp add: run_base_case_def first_result_def check_added base_engine_of(3) [OF assms])

lemma step_case_result:
  assumes "obligation_of sys ob" and "ko_property ob = Safety name bad"
  shows "run_inductive_step z3 cfg ob = check_safety_z3 z3 (hypothesis_engine cfg ob bad) name bad"
proof -
  have "be_properties (hypothesis_engine cfg ob bad) = []"
    by (simp only: hypothesis_engine_fields step_engine_fields(5) [OF assms(1)])
  then show ?thesis
    unfolding run_inductive_step_def Let_def assms(2) induction_property.simps hypotheses_fold
      step_engine_def [symmetric] hypothesis_engine_def [symmetric] first_result_def
    by (simp add: check_added)
qed

lemma hypotheses_hold:
  assumes sys: "sys_ok sys" "obligation_of sys ob" "state_pred sys (comparison c a b)"
  shows "(\<forall>f \<in> set (initial_assertions (hypothesis_engine cfg ob (pred_text (comparison c a b)))). beval M f) \<longleftrightarrow>
    (\<forall>i \<le> kc_k cfg. \<not> pred_holds (unroll M i) (comparison c a b))"
proof -
  let ?eng = "hypothesis_engine cfg ob (pred_text (comparison c a b))" and ?neg = "comparison (negate_cmp c) a b"
  have names: "names_ok (set (ts_names sys))" using sys(1) by (simp add: sys_ok_def)
  have vars: "exp_vars a \<union> exp_vars b \<subseteq> set (ts_names sys)" and wf: "exp_wf a" "exp_wf b"
    using sys(3) by (auto simp: state_pred_def pred_vars_def pred_wf_def)
  then have words: "\<forall>x \<in> exp_vars a. word x" "\<forall>x \<in> exp_vars b. word x"
    using names by (auto simp: names_ok_def var_name_def)
  have nvars: "pred_vars ?neg \<subseteq> set (ts_names sys)" and nwf: "pred_wf ?neg"
    using vars wf by (auto simp: pred_vars_def pred_wf_def)
  have eng: "var_names ?eng = ts_names sys" "bmc_bound ?eng = kc_k cfg + 1"
    using step_engine_fields [OF sys(2)] by (simp_all only: hypothesis_engine_fields)
  have ren: "rename_predicate (step_engine cfg ob) (negate_predicate (pred_text (comparison c a b))) i =
      pred_text (pred_map (\<lambda>x. rename_var x i) ?neg)" for i
    using names nvars step_engine_fields(1) [OF sys(2)]
    by (simp add: negate_comparison_text [OF words] rename_predicate_text)
  have parse: "parse_predicate_at_step ?eng (pred_text (pred_map (\<lambda>x. rename_var x i) ?neg)) 0 =
      Some (pred_term (pred_map (\<lambda>x. rename_var x i) ?neg))" if "i \<le> kc_k cfg" for i
  proof -
    let ?p = "pred_map (\<lambda>x. rename_var x i) ?neg"
    have vn: "\<forall>x \<in> pred_vars ?p. var_name x" using nvars names by (auto simp: names_ok_def rename_var_name)
    have "pred_map (\<lambda>x. if x \<in> set (var_names ?eng) then rename_var x 0 else x) ?p = pred_map (\<lambda>x. x) ?p"
      using nvars names eng(1) by (intro pred_map_cong) (auto simp: names_ok_def)
    moreover have "exp_map (\<lambda>x. x) e = e" for e by (induction e) simp_all
    then have "atom_map (\<lambda>x. x) r = r" for r by (cases r) simp_all
    then have "pred_map (\<lambda>x. x) q = q" for q by (simp add: pred_map_def map_idI)
    ultimately have "rename_predicate ?eng (pred_text ?p) 0 = pred_text ?p"
      using rename_predicate_words [of ?eng ?p 0] names eng(1) vn by simp
    moreover have "\<forall>x \<in> pred_vars ?p. x \<in> set (create_stepped_vars ?eng)"
      using nvars that eng by (auto intro!: stepped_vars)
    ultimately show ?thesis using vn nwf by (simp add: parse_predicate_at_step_def parse_pred_text)
  qed
  have "be_initial_constraints ?eng = map (\<lambda>i. pred_text (pred_map (\<lambda>x. rename_var x i) ?neg)) [0..<kc_k cfg + 1]"
    using step_engine_fields(4) [OF sys(2)] ren by (simp del: upt_Suc add: hypothesis_engine_def)
  then have "set (initial_assertions ?eng) = (\<lambda>i. pred_term (pred_map (\<lambda>x. rename_var x i) ?neg)) ` {0..kc_k cfg}"
    using parse by (auto simp: initial_assertions_def set_map_filter simp del: upt_Suc)
  moreover have "pred_holds s ?neg \<longleftrightarrow> \<not> pred_holds s (comparison c a b)" for s
    by (simp add: pred_holds_def negate_cmp_rel)
  ultimately show ?thesis using nwf by (auto simp: state_at_step)
qed

lemma verified_phases:
  assumes "prove z3 cfg ob = KVerified n k"
  shows "\<exists>n b. run_base_case z3 cfg ob = BmcSafe n b" "\<exists>n b. run_inductive_step z3 cfg ob = BmcSafe n b"
  using assms by (auto simp: prove_def Let_def split: bmc_result.splits)

text \<open>Where no reachable state is stuck, every reachable state lies on an infinite path.\<close>

definition never_stuck :: "ts_system \<Rightarrow> bool" where
  "never_stuck sys \<longleftrightarrow> (\<forall>s. reach sys s \<longrightarrow> (\<exists>s'. sys_step sys s s'))"

definition run :: "ts_system \<Rightarrow> (nat \<Rightarrow> state) \<Rightarrow> bool" where
  "run sys s \<longleftrightarrow> initial_state sys (s 0) \<and> (\<forall>i. sys_step sys (s i) (s (i + 1)))"

lemma run_reach: "run sys s \<Longrightarrow> reach sys (s i)"
  by (induction i) (auto simp: run_def intro: reach.intros)

lemma reach_prefix:
  "reach sys t \<Longrightarrow> \<exists>s n. initial_state sys (s 0) \<and> path sys n s \<and> s n = t"
proof (induction rule: reach.induct)
  case (init s)
  then show ?case by (intro exI [of _ "\<lambda>i. s"] exI [of _ 0]) (simp add: path_def)
next
  case (step s s')
  then obtain f n where f: "initial_state sys (f 0)" "path sys n f" "f n = s" by blast
  let ?g = "\<lambda>i. if i \<le> n then f i else s'"
  have "path sys (n + 1) ?g"
    unfolding path_def
  proof (intro allI impI)
    fix i assume "i < n + 1"
    then consider "i < n" | "i = n" by linarith
    then show "sys_step sys (?g i) (?g (i + 1))"
      by cases (use f step(2) in \<open>auto simp: path_def\<close>)
  qed
  with f show ?case by (intro exI [of _ ?g] exI [of _ "n + 1"]) simp
qed

lemma reach_run:
  assumes "never_stuck sys" and "reach sys t"
  shows "\<exists>s n. run sys s \<and> s n = t"
proof -
  from reach_prefix [OF assms(2)] obtain f n where f: "initial_state sys (f 0)" "path sys n f" "f n = t" by blast
  obtain nxt where nxt: "\<And>s. reach sys s \<Longrightarrow> sys_step sys s (nxt s)"
    using assms(1) unfolding never_stuck_def by metis
  have reach: "reach sys ((nxt ^^ i) t)" for i
    by (induction i) (auto intro: assms(2) reach.step nxt)
  let ?g = "\<lambda>i. if i \<le> n then f i else (nxt ^^ (i - n)) t"
  have "sys_step sys (?g i) (?g (i + 1))" for i
  proof (cases "i < n")
    case True
    with f(2) show ?thesis by (auto simp: path_def)
  next
    case False
    then have "i + 1 - n = Suc (i - n)" by simp
    then have "?g (i + 1) = nxt (?g i)" using False f(3) by auto
    moreover have "reach sys (?g i)" using reach [of "i - n"] False f(3) by auto
    ultimately show ?thesis using nxt by simp
  qed
  with f have "run sys ?g \<and> ?g n = t" by (simp add: run_def)
  then show ?thesis by blast
qed


lemma ex_never_stuck: "never_stuck ex_system"
proof -
  have "sys_step ex_system s (\<lambda>x. 0)" for s
    by (simp add: sys_step_def ex_system_def pred_holds_def pair_state_def primed_def)
  then show ?thesis unfolding never_stuck_def by blast
qed


section \<open>What the hypotheses leave out\<close>

text \<open>
  A path of the full length has to exist: every initial state of this system is bad, none has a
  successor, and k-induction answers \<open>Verified\<close>.
\<close>

definition stuck_system :: ts_system where
  "stuck_system = \<lparr>ts_names = [''x''], ts_inits = [[[BCmp CGe (BVar ''x'') (BNum 0)]]],
     ts_steps = [[[BCmp CLt (BVar ''x'') (BNum 0)]], [[BCmp CLt (BVar (primed ''x'')) (BNum 0)]]]\<rparr>"

definition stuck_obligation :: k_induction_obligation where
  "stuck_obligation = \<lparr>ko_name = ''p'', ko_state_variables = [(''x'', SortInt)],
     ko_initial_constraints = [''x >= 0''], ko_transitions = [(''x < 0'', [''x'']), (''x' < 0'', [''x''])],
     ko_property = Safety ''p'' ''x >= 0''\<rparr>"

lemma k_induction_stuck_unsound:
  "obligation_of stuck_system stuck_obligation"
  "prove refuting_solver ex_config stuck_obligation = KVerified ''p'' 1"
  "reach stuck_system (\<lambda>x. 0) \<and> pred_holds (\<lambda>x. 0) [[BCmp CGe (BVar ''x'') (BNum 0)]]"
proof -
  show "obligation_of stuck_system stuck_obligation" by code_simp
  show "prove refuting_solver ex_config stuck_obligation = KVerified ''p'' 1" by code_simp
  have "initial_state stuck_system (\<lambda>x. 0)" by (simp add: initial_state_def stuck_system_def pred_holds_def)
  then show "reach stuck_system (\<lambda>x. 0) \<and> pred_holds (\<lambda>x. 0) [[BCmp CGe (BVar ''x'') (BNum 0)]]"
    by (simp add: reach.init pred_holds_def)
qed

text \<open>
  The negation of a conjunction replaces its first comparison only; a predicate that is no
  comparison is not parsed, and then the check answers \<open>Safe\<close> whatever the solver says, as it
  does when the solver gives up for another reason than time.
\<close>

lemma negate_conjunction:
  "negate_predicate ''x > 0 && y > 0'' = ''x <= 0 && y > 0''"
  by code_simp

lemma unparsed_is_safe:
  assumes "\<And>i. parse_predicate_at_step eng bad i = None"
  shows "check_safety_z3 z3 eng name bad = BmcSafe name (bmc_bound eng)"
proof -
  have "safety_steps z3 eng name bad fs steps = BmcSafe name (bmc_bound eng)" for fs steps
    by (induction steps) (simp_all add: assms)
  then show ?thesis by (simp add: check_safety_z3_def)
qed

definition flag_obligation :: k_induction_obligation where
  "flag_obligation = \<lparr>ko_name = ''p'', ko_state_variables = [(''failed'', SortBool)],
     ko_initial_constraints = [], ko_transitions = [], ko_property = Safety ''p'' ''failed''\<rparr>"

lemma boolean_variable_verified: "prove z3 ex_config flag_obligation = KVerified ''p'' 1"
  by code_simp

lemma incomplete_is_safe:
  assumes "\<And>fs. \<exists>r. z3 fs = ZUnknown (Some r) \<and> \<not> z3_unknown_is_timeout r"
  shows "check_safety_z3 z3 eng name bad = BmcSafe name (bmc_bound eng)"
proof -
  have "\<exists>r. z3 fs = ZUnknown (Some r) \<and> \<not> z3_unknown_is_timeout r" for fs by (rule assms)
  then have "safety_steps z3 eng name bad fs steps = BmcSafe name (bmc_bound eng)" for fs steps
  proof (induction steps)
    case (Cons i steps)
    show ?case
    proof (cases "parse_predicate_at_step eng bad i")
      case (Some f)
      obtain r where "z3 (fs @ [f]) = ZUnknown (Some r)" "\<not> z3_unknown_is_timeout r" using Cons.prems by blast
      then show ?thesis using Some Cons by simp
    qed (use Cons in simp)
  qed simp
  then show ?thesis by (simp add: check_safety_z3_def)
qed

text \<open>The grammar of predicates differs from that of contracts in the precedence of its operators.\<close>

lemma or_binds_tighter:
  "parse_bmc_predicate [''x''] ''x > 0 || x > 1 && x > 2'' =
     Some (SApp FAnd [SApp FOr [SApp FGt [SSym ''x'', SInt 0], SApp FGt [SSym ''x'', SInt 1]],
       SApp FGt [SSym ''x'', SInt 2]])"
  by code_simp

lemma modulo_binds_tighter:
  "parse_bmc_int_expr [''x''] ''x * 2 % 3'' = Some (SApp FMul [SSym ''x'', SApp FMod [SInt 2, SInt 3]])"
  by code_simp

end
