(* ===== verification/Bmc_Lasso.thy ===== *)
theory Bmc_Lasso
  imports K_Induction
begin

text \<open>
  The liveness check of the model checker: what \<open>Safe\<close> means when no lasso was found.
\<close>

section \<open>What a predicate depends on\<close>

lemma exp_val_cong: "(\<And>x. x \<in> exp_vars e \<Longrightarrow> s x = s' x) \<Longrightarrow> exp_val s e = exp_val s' e"
proof (induction e)
  case (BBin c a b)
  then show ?case by (cases c) simp_all
qed simp_all

lemma atom_holds_cong: "(\<And>x. x \<in> atom_vars a \<Longrightarrow> s x = s' x) \<Longrightarrow> atom_holds s a = atom_holds s' a"
proof (cases a)
  case (BCmp c x y)
  moreover assume "\<And>x. x \<in> atom_vars a \<Longrightarrow> s x = s' x"
  ultimately show ?thesis using exp_val_cong [of x s s'] exp_val_cong [of y s s'] by simp
qed simp_all

lemma pred_holds_cong:
  assumes "\<And>x. x \<in> pred_vars p \<Longrightarrow> s x = s' x"
  shows "pred_holds s p = pred_holds s' p"
proof -
  have "atom_holds s a = atom_holds s' a" if "c \<in> set p" "a \<in> set c" for c a
    using assms that by (intro atom_holds_cong) (auto simp: pred_vars_def)
  then have "list_ex (atom_holds s) c = list_ex (atom_holds s') c" if "c \<in> set p" for c
    using that by (auto simp: list_ex_iff)
  then show ?thesis by (auto simp: pred_holds_def list_all_iff)
qed

lemma step_target_cong:
  assumes "sys_ok sys" and "\<And>x. x \<in> set (ts_names sys) \<Longrightarrow> t x = t' x"
  shows "sys_step sys s t = sys_step sys s t'"
proof -
  have "pred_holds (pair_state s t) p = pred_holds (pair_state s t') p" if "p \<in> set (ts_steps sys)" for p
  proof (rule pred_holds_cong)
    fix x assume "x \<in> pred_vars p"
    moreover have "pred_vars p \<subseteq> set (ts_names sys) \<union> primed ` set (ts_names sys)"
      using assms(1) \<open>p \<in> _\<close> by (simp add: sys_ok_def)
    ultimately consider "x \<in> set (ts_names sys)" | v where "v \<in> set (ts_names sys)" "x = primed v" by blast
    then show "pair_state s t x = pair_state s t' x"
    proof cases
      case 1
      then have "is_word_char (last x)" using assms(1) word_last by (auto simp: sys_ok_def names_ok_def var_name_def)
      then have "last x \<noteq> CHR 0x27" by (auto simp: is_word_char_def is_digit_def)
      then show ?thesis by (simp add: pair_state_def)
    next
      case 2
      then show ?thesis using assms(2) by (simp add: pair_state_def primed_def)
    qed
  qed
  then show ?thesis by (simp add: sys_step_def)
qed

section \<open>Runs that repeat\<close>

text \<open>
  Where the visible state of a run repeats at \<open>i < j\<close>, the run that goes round from \<open>i\<close> to
  \<open>j\<close> for ever is again one: it is at position \<open>round i j n\<close> of the first after \<open>n\<close> steps.
\<close>

definition visible :: "ts_system \<Rightarrow> state \<Rightarrow> int list" where
  "visible sys s = map s (ts_names sys)"

definition round_trip :: "nat \<Rightarrow> nat \<Rightarrow> nat \<Rightarrow> nat" where
  "round_trip i j n = (if n < i then n else i + (n - i) mod (j - i))"

lemma round_trip_step:
  assumes "i < j"
  shows "round_trip i j (n + 1) = round_trip i j n + 1 \<or>
    round_trip i j (n + 1) = i \<and> round_trip i j n + 1 = j"
proof (cases "n < i")
  case True
  then show ?thesis by (cases "n + 1 < i") (auto simp: round_trip_def)
next
  case False
  then have "n + 1 - i = Suc (n - i)" by simp
  then have "(n + 1 - i) mod (j - i) = (if Suc ((n - i) mod (j - i)) = j - i then 0 else Suc ((n - i) mod (j - i)))"
    by (simp add: mod_Suc)
  then show ?thesis using False assms by (auto simp: round_trip_def)
qed

lemma round_trip_start: "i < j \<Longrightarrow> round_trip i j 0 = 0"
  by (simp add: round_trip_def)

lemma round_trip_period:
  assumes "i < j" and "j \<le> k"
  shows "round_trip i j (k - (j - i)) = round_trip i j k"
proof -
  have "k - i = (k - (j - i) - i) + (j - i)" "\<not> k - (j - i) < i" "\<not> k < i" using assms by auto
  then show ?thesis by (metis mod_add_self2 round_trip_def)
qed

lemma round_trip_run:
  assumes "sys_ok sys" and "run sys f" and "i < j" and "visible sys (f i) = visible sys (f j)"
  shows "run sys (f \<circ> round_trip i j)"
proof -
  let ?r = "round_trip i j"
  have "sys_step sys (f (?r n)) (f (?r (n + 1)))" for n
  proof -
    have step: "sys_step sys (f (?r n)) (f (?r n + 1))" using assms(2) by (simp add: run_def)
    from round_trip_step [OF assms(3), of n] show ?thesis
    proof
      assume "?r (n + 1) = ?r n + 1"
      with step show ?thesis by simp
    next
      assume "?r (n + 1) = i \<and> ?r n + 1 = j"
      moreover have "f j x = f i x" if "x \<in> set (ts_names sys)" for x
        using assms(4) that by (auto simp: visible_def)
      ultimately show ?thesis using step step_target_cong [OF assms(1), of "f j" "f i"] by simp
    qed
  qed
  moreover have "initial_state sys ((f \<circ> ?r) 0)" using assms(2,3) by (simp add: run_def round_trip_start)
  ultimately show ?thesis by (simp add: run_def)
qed

lemma visible_repeats:
  assumes "finite (range (visible sys \<circ> f))" and "card (range (visible sys \<circ> f)) \<le> k"
  shows "\<exists>i j. i < j \<and> j \<le> k \<and> visible sys (f i) = visible sys (f j)"
proof -
  have "card ((visible sys \<circ> f) ` {0..k}) \<le> card (range (visible sys \<circ> f))"
    using assms(1) by (intro card_mono) auto
  with assms(2) have "\<not> inj_on (visible sys \<circ> f) {0..k}" by (intro pigeonhole) simp
  then obtain i j where "i \<le> k" "j \<le> k" "i \<noteq> j" "visible sys (f i) = visible sys (f j)"
    by (auto simp: inj_on_def)
  then show ?thesis by (metis linorder_neqE_nat)
qed

section \<open>The lasso check\<close>

lemma lasso_steps_safe:
  "lasso_steps z3 eng name fs steps = BmcSafe n b \<Longrightarrow> i \<in> set steps \<Longrightarrow>
   loop_equations eng i \<noteq> [] \<Longrightarrow> \<not> gives_up z3 (fs @ [SApp FAnd (loop_equations eng i)]) \<Longrightarrow>
   z3 (fs @ [SApp FAnd (loop_equations eng i)]) = ZUnsat"
  by (induction steps) (auto simp: gives_up_def split: sat_result.splits if_splits)

lemma goal_assertions_hold:
  assumes "sys_ok sys" and "var_names eng = ts_names sys" and "state_pred sys goal"
  shows "(\<forall>f \<in> set (goal_assertions eng (pred_text goal)). beval M f) \<longleftrightarrow>
    (\<forall>i \<le> bmc_bound eng. \<not> pred_holds (unroll M i) goal)"
proof -
  have "parse_predicate_at_step eng (pred_text goal) i = Some (pred_term (pred_map (\<lambda>x. rename_var x i) goal))"
    if "i \<le> bmc_bound eng" for i
    using parse_at_step [of eng goal i] assms that by (simp add: sys_ok_def state_pred_def)
  then have "set (goal_assertions eng (pred_text goal)) =
      (\<lambda>i. SApp FNot [pred_term (pred_map (\<lambda>x. rename_var x i) goal)]) ` {0..bmc_bound eng}"
    by (auto simp: goal_assertions_def set_map_filter simp del: upt_Suc)
  then show ?thesis using assms(3) by (auto simp: state_at_step state_pred_def)
qed

lemma loop_equations_hold:
  assumes "i \<le> bmc_bound eng"
  shows "beval M (SApp FAnd (loop_equations eng i)) \<longleftrightarrow>
    (\<forall>x \<in> set (var_names eng). unroll M (bmc_bound eng) x = unroll M i x)"
  using assms stepped_vars [of _ eng] by (auto simp: loop_equations_def unroll_def list_all_iff)

lemma loop_equations_some: "i \<le> bmc_bound eng \<Longrightarrow> var_names eng \<noteq> [] \<Longrightarrow> loop_equations eng i \<noteq> []"
  using stepped_vars [of _ eng] by (auto simp: loop_equations_def filter_empty_conv)

definition lasso_query :: "bmc_engine \<Rightarrow> string \<Rightarrow> nat \<Rightarrow> smt_term list" where
  "lasso_query eng goal i =
     initial_assertions eng @ transition_assertions eng @ goal_assertions eng goal @
     [SApp FAnd (loop_equations eng i)]"



section \<open>Liveness and k-induction\<close>

text \<open>
  The bound on the number of states cannot be dropped, and k-induction does drop it: on a system
  that counts up for ever no lasso exists, and it answers \<open>Verified\<close> for a goal that is never
  reached, with every solver that is complete and right.
\<close>

lemma lasso_steps_no_model:
  assumes "sat_right z3" and "\<And>fs r. z3 fs \<noteq> ZUnknown r"
    and "\<And>i. i \<in> set steps \<Longrightarrow> \<not> has_model (fs @ [SApp FAnd (loop_equations eng i)])"
  shows "lasso_steps z3 eng name fs steps = BmcSafe name (bmc_bound eng)"
  using assms(3)
proof (induction steps)
  case (Cons i steps)
  have "z3 (fs @ [SApp FAnd (loop_equations eng i)]) = ZUnsat"
    using assms(1,2) Cons.prems [of i] by (cases "z3 (fs @ [SApp FAnd (loop_equations eng i)])") (auto simp: sat_right_def)
  then show ?case using Cons by simp
qed simp

definition counter_system :: ts_system where
  "counter_system = \<lparr>ts_names = [''x''], ts_inits = [[[BCmp CEq (BVar ''x'') (BNum 0)]]],
     ts_steps = [[[BCmp CEq (BVar (primed ''x'')) (BBin AddOp (BVar ''x'') (BNum 1))]]]\<rparr>"

definition counter_obligation :: k_induction_obligation where
  "counter_obligation = \<lparr>ko_name = ''p'', ko_state_variables = [(''x'', SortInt)],
     ko_initial_constraints = [''x == 0''], ko_transitions = [(''x' == x + 1'', [''x''])],
     ko_property = Liveness ''p'' ''x < 0''\<rparr>"

lemma counter_ok: "sys_ok counter_system" "obligation_of counter_system counter_obligation"
proof -
  show "sys_ok counter_system"
    using ex_names_ok
    by (simp add: sys_ok_def state_pred_def counter_system_def pred_wf_def pred_vars_def i64_max_def)
  show "obligation_of counter_system counter_obligation" by code_simp
qed

lemma counter_no_lasso:
  assumes "var_names eng = ts_names counter_system"
    and "map tc_predicate (be_transitions eng) = map pred_text (ts_steps counter_system)" and "i < bmc_bound eng"
  shows "\<not> has_model ((ics @ transition_assertions eng @ gs) @ [SApp FAnd (loop_equations eng i)])"
proof
  assume "has_model ((ics @ transition_assertions eng @ gs) @ [SApp FAnd (loop_equations eng i)])"
  then obtain M where M: "\<forall>f \<in> set (transition_assertions eng). beval M f" "beval M (SApp FAnd (loop_equations eng i))"
    by (auto simp: has_model_def)
  from M(1) have "\<forall>n < bmc_bound eng. sys_step counter_system (unroll M n) (unroll M (n + 1))"
    using transition_assertions_hold [OF counter_ok(1) assms(1,2)] by simp
  then have step: "unroll M (n + 1) ''x'' = unroll M n ''x'' + 1" if "n < bmc_bound eng" for n
    using that by (simp add: sys_step_def counter_system_def pred_holds_def pair_state_def primed_def)
  have count: "unroll M n ''x'' = unroll M 0 ''x'' + int n" if "n \<le> bmc_bound eng" for n
    using that
  proof (induction n)
    case (Suc n)
    then show ?case using step [of n] by simp
  qed simp
  from count [of "bmc_bound eng"] count [of i] assms(3)
  have "unroll M (bmc_bound eng) ''x'' \<noteq> unroll M i ''x''" by linarith
  with M(2) assms show False
    using loop_equations_hold [of i eng M] by (simp add: counter_system_def)
qed

lemma k_induction_liveness_unsound:
  assumes "sat_right z3" and "\<And>fs r. z3 fs \<noteq> ZUnknown r"
  shows "prove z3 cfg counter_obligation = KVerified ''p'' (kc_k cfg)"
    and "run counter_system (\<lambda>i x. int i)"
    and "\<not> pred_holds (\<lambda>x. int i) [[BCmp CLt (BVar ''x'') (BNum 0)]]"
proof -
  have live: "ko_property counter_obligation = Liveness ''p'' ''x < 0''" "ko_name counter_obligation = ''p''"
    by (simp_all add: counter_obligation_def)
  have safe: "check_liveness_z3 z3 eng ''p'' goal = BmcSafe ''p'' (bmc_bound eng)"
    if "var_names eng = ts_names counter_system"
      "map tc_predicate (be_transitions eng) = map pred_text (ts_steps counter_system)" for eng goal
    unfolding check_liveness_z3_def
    using counter_no_lasso [OF that] by (intro lasso_steps_no_model [OF assms]) auto
  note base = base_engine_of [OF counter_ok(2), of cfg "kc_k cfg"]
  note ind = step_engine_fields [OF counter_ok(2), of cfg]
  have "run_base_case z3 cfg counter_obligation = BmcSafe ''p'' (kc_k cfg)"
    using safe [of "build_bmc_engine cfg counter_obligation (kc_k cfg)"] base
    by (simp add: base_case_result [OF counter_ok(2)] live engine_of_def)
  moreover have "run_inductive_step z3 cfg counter_obligation = BmcSafe ''p'' (kc_k cfg + 1)"
    using safe [OF ind(1,3)] ind(2,5,6)
    unfolding run_inductive_step_def Let_def live induction_property.simps step_engine_def [symmetric] first_result_def
    by (simp add: check_added)
  ultimately show "prove z3 cfg counter_obligation = KVerified ''p'' (kc_k cfg)"
    by (simp add: prove_def live)
  show "run counter_system (\<lambda>i x. int i)"
    by (simp add: run_def initial_state_def sys_step_def counter_system_def pred_holds_def pair_state_def primed_def)
  show "\<not> pred_holds (\<lambda>x. int i) [[BCmp CLt (BVar ''x'') (BNum 0)]]" by (simp add: pred_holds_def)
qed

end
