(* ===== verification/Verify_Results.thy ===== *)
theory Verify_Results
  imports Ast Bmc "HOL-Library.List_Lexorder" "HOL-Library.Char_ord"
begin

text \<open>
  The results of clause checks and what is done with them: \<open>result.rs\<close>,
  \<open>policy/solver_outcome_policy.rs\<close>, \<open>portfolio_policy.rs\<close>, \<open>clause_gate_policy.rs\<close>,
  \<open>verify_labels.rs\<close>, \<open>cache.rs\<close> and the outcome of a call of Z3 (\<open>z3_backend/solver.rs\<close>).
  Text is ASCII.
\<close>

section \<open>Results\<close>

type_synonym counter_model = "(string \<times> string) list"

datatype verification_result =
  VrVerified string "string list option" "string option"
| VrCounterexample string string "counter_model option"
| VrTimeout string
| VrUnknown string string

definition verified :: "string \<Rightarrow> verification_result" where
  "verified desc = VrVerified desc None None"

definition verified_with_core :: "string \<Rightarrow> string list \<Rightarrow> verification_result" where
  "verified_with_core desc core = VrVerified desc (if core = [] then None else Some core) None"

definition known_limitation_marker :: string where
  "known_limitation_marker = ''not yet encoded in SMT''"

definition is_known_smt_limitation :: "string \<Rightarrow> bool" where
  "is_known_smt_limitation reason \<longleftrightarrow> str_contains reason known_limitation_marker"

definition not_encoded_reason :: "string \<Rightarrow> string" where
  "not_encoded_reason d =
     (if d = [] then known_limitation_marker
      else if str_contains d known_limitation_marker then d
      else d @ '' '' @ known_limitation_marker)"

definition unknown_not_encoded :: "string \<Rightarrow> string \<Rightarrow> verification_result" where
  "unknown_not_encoded desc detail = VrUnknown desc (not_encoded_reason detail)"

fun is_known_limitation :: "verification_result \<Rightarrow> bool" where
  "is_known_limitation (VrUnknown desc reason) \<longleftrightarrow> is_known_smt_limitation reason"
| "is_known_limitation _ \<longleftrightarrow> False"

fun result_desc :: "verification_result \<Rightarrow> string" where
  "result_desc (VrVerified desc core reason) = desc"
| "result_desc (VrCounterexample desc model cm) = desc"
| "result_desc (VrTimeout desc) = desc"
| "result_desc (VrUnknown desc reason) = desc"

definition contract_name :: "verification_result \<Rightarrow> string" where
  "contract_name r = hd (split_str ''::'' (result_desc r))"

fun is_verified :: "verification_result \<Rightarrow> bool" where
  "is_verified (VrVerified _ _ _) \<longleftrightarrow> True"
| "is_verified _ \<longleftrightarrow> False"

fun is_counterexample :: "verification_result \<Rightarrow> bool" where
  "is_counterexample (VrCounterexample _ _ _) \<longleftrightarrow> True"
| "is_counterexample _ \<longleftrightarrow> False"

section \<open>Outcomes of a solver call\<close>

datatype clause_sat_outcome =
  OcUnsat "string list option"
| OcSat string "counter_model option"
| OcTimeout
| OcUnknown string

definition unsat_with_core :: "string list \<Rightarrow> clause_sat_outcome" where
  "unsat_with_core core = OcUnsat (if core = [] then None else Some core)"

definition clause_uses_satisfiability_semantics :: "clause_kind \<Rightarrow> bool" where
  "clause_uses_satisfiability_semantics kind \<longleftrightarrow> kind = Invariant"

fun interpret_clause_check_result :: "string \<Rightarrow> clause_kind \<Rightarrow> clause_sat_outcome \<Rightarrow> verification_result" where
  "interpret_clause_check_result desc kind (OcUnsat core) =
     (if clause_uses_satisfiability_semantics kind
      then VrCounterexample desc ''invariant is unsatisfiable'' None
      else (case core of
              Some c \<Rightarrow> if c \<noteq> [] then verified_with_core desc c else verified desc
            | None \<Rightarrow> verified desc))"
| "interpret_clause_check_result desc kind (OcSat model cm) =
     (if clause_uses_satisfiability_semantics kind then verified desc
      else VrCounterexample desc model cm)"
| "interpret_clause_check_result desc kind OcTimeout = VrTimeout desc"
| "interpret_clause_check_result desc kind (OcUnknown reason) = VrUnknown desc reason"

text \<open>
  What Z3 answers: the tracking labels of an unsat core; a model, where it gives one, with its
  text and its declarations (name, number of arguments, the value of a constant); or the reason
  why it gave up.
\<close>

datatype z3_answer =
  AnsUnsat "string list"
| AnsSat "(string \<times> (string \<times> nat \<times> string option) list) option"
| AnsUnknown "string option"

definition internal_encoder_exact_names :: "string list" where
  "internal_encoder_exact_names = [''__empty'', ''__empty_map'']"

definition internal_encoder_prefixes :: "string list" where
  "internal_encoder_prefixes =
     [''__str_'', ''__tuple_'', ''__list_'', ''__fresh_'', ''__field_'', ''__index'', ''__len'', ''__arr_'',
      ''__domain_contains'', ''__apply_'', ''__coerce'', ''__trigger_'', ''__list_get'', ''__result'',
      ''__contains'', ''__obj_'', ''__ir_'', ''__canonical_len_'', ''__match_adt_'', ''__call_'',
      ''__old_fresh_'', ''__typestate_'', ''__adt_'', ''__bv_as_real_'', ''__ax_'', ''__append_'',
      ''__ir_slot_'', ''__ir_state_'', ''__ir_tag_'', ''__ir_call_'', ''__ir_block'', ''__adt_val_'']"

definition is_internal_encoder_var :: "string \<Rightarrow> bool" where
  "is_internal_encoder_var name \<longleftrightarrow>
     name \<in> set internal_encoder_exact_names \<or> list_ex (\<lambda>p. prefix p name) internal_encoder_prefixes"

definition is_requires_track_label :: "string \<Rightarrow> bool" where
  "is_requires_track_label name \<longleftrightarrow>
     (case strip_prefix name ''req_'' of Some rest \<Rightarrow> rest \<noteq> [] \<and> list_all is_digit rest | None \<Rightarrow> False)"

definition is_counterexample_user_var :: "string \<Rightarrow> bool" where
  "is_counterexample_user_var name \<longleftrightarrow> \<not> is_internal_encoder_var name \<or> name = ''__result''"

definition is_requires_track_noise :: "string \<Rightarrow> string \<Rightarrow> bool" where
  "is_requires_track_noise name v \<longleftrightarrow>
     is_requires_track_label name \<and> (trim v = ''true'' \<or> trim v = ''false'')"

definition counterexample_display_name :: "string \<Rightarrow> string" where
  "counterexample_display_name name =
     (case strip_prefix name ''__field_'' of
        Some rest \<Rightarrow> rest
      | None \<Rightarrow> (case strip_prefix name ''__'' of Some rest \<Rightarrow> rest | None \<Rightarrow> name))"

definition extract_counter_model :: "(string \<times> nat \<times> string option) list \<Rightarrow> counter_model" where
  "extract_counter_model decls =
     sort_key fst
       (List.map_filter (\<lambda>(name, arity, interp).
          let v = (case interp of Some v \<Rightarrow> v | None \<Rightarrow> ''?'')
          in if arity > 0 \<or> is_requires_track_noise name v \<or> \<not> is_counterexample_user_var name then None
             else Some (counterexample_display_name name, v)) decls)"

definition extract_unsat_core_labels :: "string list \<Rightarrow> string list option" where
  "extract_unsat_core_labels core = (if core = [] then None else Some (remdups_adj (sort core)))"

fun z3_clause_sat_outcome :: "z3_answer \<Rightarrow> clause_sat_outcome" where
  "z3_clause_sat_outcome (AnsUnsat core) =
     unsat_with_core (case extract_unsat_core_labels core of Some ls \<Rightarrow> ls | None \<Rightarrow> [])"
| "z3_clause_sat_outcome (AnsSat (Some (text, decls))) = OcSat text (Some (extract_counter_model decls))"
| "z3_clause_sat_outcome (AnsSat None) = OcSat ''(no model)'' None"
| "z3_clause_sat_outcome (AnsUnknown reason) =
     (let r = (case reason of Some r \<Rightarrow> r | None \<Rightarrow> ''unknown'')
      in if z3_unknown_is_timeout r then OcTimeout else OcUnknown r)"

definition check_validity :: "z3_answer \<Rightarrow> string \<Rightarrow> verification_result" where
  "check_validity ans desc = interpret_clause_check_result desc Ensures (z3_clause_sat_outcome ans)"

definition check_satisfiability :: "z3_answer \<Rightarrow> string \<Rightarrow> verification_result" where
  "check_satisfiability ans desc = interpret_clause_check_result desc Invariant (z3_clause_sat_outcome ans)"

lemma unknown_outcome:
  "z3_clause_sat_outcome (AnsUnknown r) \<noteq> OcUnsat c" "z3_clause_sat_outcome (AnsUnknown r) \<noteq> OcSat t m"
  by (simp_all add: Let_def)

lemma interpret_verdict:
  "is_verified (interpret_clause_check_result desc kind oc) \<longleftrightarrow>
     (if kind = Invariant then \<exists>t m. oc = OcSat t m else \<exists>c. oc = OcUnsat c)"
  "is_counterexample (interpret_clause_check_result desc kind oc) \<longleftrightarrow>
     (if kind = Invariant then \<exists>c. oc = OcUnsat c else \<exists>t m. oc = OcSat t m)"
  by (cases oc; auto simp: clause_uses_satisfiability_semantics_def verified_def verified_with_core_def
      split: option.splits)+

lemma z3_outcome_kind:
  "(\<exists>c. z3_clause_sat_outcome ans = OcUnsat c) \<longleftrightarrow> (\<exists>core. ans = AnsUnsat core)"
  "(\<exists>t m. z3_clause_sat_outcome ans = OcSat t m) \<longleftrightarrow> (\<exists>m. ans = AnsSat m)"
  by (cases ans rule: z3_clause_sat_outcome.cases; auto simp: Let_def unsat_with_core_def)+

lemma check_verdicts:
  "is_verified (check_validity ans desc) \<longleftrightarrow> (\<exists>core. ans = AnsUnsat core)"
  "is_counterexample (check_validity ans desc) \<longleftrightarrow> (\<exists>m. ans = AnsSat m)"
  "is_verified (check_satisfiability ans desc) \<longleftrightarrow> (\<exists>m. ans = AnsSat m)"
  "is_counterexample (check_satisfiability ans desc) \<longleftrightarrow> (\<exists>core. ans = AnsUnsat core)"
  by (simp_all add: check_validity_def check_satisfiability_def interpret_verdict z3_outcome_kind)

section \<open>The portfolio of solvers\<close>

fun portfolio_result_priority :: "verification_result \<Rightarrow> nat" where
  "portfolio_result_priority (VrVerified _ _ _) = 3"
| "portfolio_result_priority (VrCounterexample _ _ _) = 2"
| "portfolio_result_priority (VrUnknown _ _) = 1"
| "portfolio_result_priority (VrTimeout _) = 0"

definition pick_better_portfolio_result ::
  "verification_result \<Rightarrow> verification_result \<Rightarrow> verification_result" where
  "pick_better_portfolio_result p s =
     (if portfolio_result_priority p \<ge> portfolio_result_priority s then p else s)"

fun merge_portfolio_results ::
  "verification_result list \<Rightarrow> verification_result list \<Rightarrow> verification_result list" where
  "merge_portfolio_results (p # ps) (s # ss) = pick_better_portfolio_result p s # merge_portfolio_results ps ss"
| "merge_portfolio_results ps [] = ps"
| "merge_portfolio_results [] ss = ss"

definition conclusive :: "verification_result \<Rightarrow> bool" where
  "conclusive r \<longleftrightarrow> is_verified r \<or> is_counterexample r"

lemma pick_better_cases:
  "pick_better_portfolio_result p s = p \<or> pick_better_portfolio_result p s = s"
  "is_verified (pick_better_portfolio_result p s) \<longleftrightarrow> is_verified p \<or> is_verified s"
  "conclusive (pick_better_portfolio_result p s) \<longleftrightarrow> conclusive p \<or> conclusive s"
  by (cases p; cases s; simp add: pick_better_portfolio_result_def conclusive_def)+

lemma length_merge: "length (merge_portfolio_results ps ss) = max (length ps) (length ss)"
  by (induction ps ss rule: merge_portfolio_results.induct) auto

lemma nth_merge:
  "i < length ps \<Longrightarrow> i < length ss \<Longrightarrow>
   merge_portfolio_results ps ss ! i = pick_better_portfolio_result (ps ! i) (ss ! i)"
  "length ss \<le> i \<Longrightarrow> i < length ps \<Longrightarrow> merge_portfolio_results ps ss ! i = ps ! i"
  "length ps \<le> i \<Longrightarrow> i < length ss \<Longrightarrow> merge_portfolio_results ps ss ! i = ss ! i"
  by (induction ps ss arbitrary: i rule: merge_portfolio_results.induct) (auto simp: nth_Cons split: nat.splits)

text \<open>C38: The portfolio has a result for every clause one of the solvers has one for; it is one of the
  two, it is conclusive where one of them is, and where each solver verifies only clauses that
  hold, so does the portfolio.\<close>

theorem portfolio_merge:
  assumes "\<And>i. i < length ps \<Longrightarrow> is_verified (ps ! i) \<Longrightarrow> holds i"
    and "\<And>i. i < length ss \<Longrightarrow> is_verified (ss ! i) \<Longrightarrow> holds i"
  shows "length (merge_portfolio_results ps ss) = max (length ps) (length ss) \<and>
    (\<forall>i < max (length ps) (length ss).
       (is_verified (merge_portfolio_results ps ss ! i) \<longrightarrow> holds i) \<and>
       (i < length ps \<and> merge_portfolio_results ps ss ! i = ps ! i \<or>
        i < length ss \<and> merge_portfolio_results ps ss ! i = ss ! i) \<and>
       (conclusive (merge_portfolio_results ps ss ! i) \<longleftrightarrow>
        i < length ps \<and> conclusive (ps ! i) \<or> i < length ss \<and> conclusive (ss ! i)))"
proof (intro conjI allI impI length_merge)
  fix i assume "i < max (length ps) (length ss)"
  then consider "i < length ps" "i < length ss" | "length ss \<le> i" "i < length ps" | "length ps \<le> i" "i < length ss"
    by linarith
  note cs = this
  show "holds i" if "is_verified (merge_portfolio_results ps ss ! i)"
    using cs that assms by cases (auto simp: nth_merge pick_better_cases)
  show "i < length ps \<and> merge_portfolio_results ps ss ! i = ps ! i \<or>
      i < length ss \<and> merge_portfolio_results ps ss ! i = ss ! i"
    using cs pick_better_cases(1) [of "ps ! i" "ss ! i"] by cases (auto simp: nth_merge)
  show "conclusive (merge_portfolio_results ps ss ! i) \<longleftrightarrow>
      i < length ps \<and> conclusive (ps ! i) \<or> i < length ss \<and> conclusive (ss ! i)"
    using cs by cases (auto simp: nth_merge pick_better_cases)
qed

lemma portfolio_merge_witness:
  "merge_portfolio_results [VrTimeout ''a''] [verified ''a'', verified ''b''] ! 1 = verified ''b'' \<and>
   is_verified (merge_portfolio_results [VrTimeout ''a''] [verified ''a'', verified ''b''] ! 0)"
  using portfolio_merge [of "[VrTimeout ''a'']" "\<lambda>i. i < 2" "[verified ''a'', verified ''b'']"]
  by (simp add: verified_def pick_better_portfolio_result_def)

text \<open>A clause one solver has a counterexample for counts as verified when the other verifies it.\<close>

lemma portfolio_hides_counterexample:
  "merge_portfolio_results [VrCounterexample ''c'' m cm] [verified ''c''] = [verified ''c'']"
  by (simp add: pick_better_portfolio_result_def verified_def)

end
