(* ===== verification/Verify_Clauses.thy ===== *)
theory Verify_Clauses
  imports Verify_Results Frame Type_Expr Smt_Builtins Ir_Syntax
begin

text \<open>
  The verification of a contract's clauses with Z3: which assumptions are asserted and which
  clauses are checked (\<open>policy/clause_policy.rs\<close>, \<open>prelude_policy.rs\<close>,
  \<open>lemma_inject_policy.rs\<close>, \<open>clause_gate_policy.rs\<close>, \<open>verify_labels.rs\<close>,
  \<open>havoc_assume.rs\<close>, \<open>feature_max.rs\<close>, \<open>cache.rs\<close>) and the loop that checks them
  (\<open>z3_backend/verify.rs\<close>).  The encoder of expressions is a parameter: a state and what the
  loop calls on it.
\<close>

section \<open>Labels and the session cache\<close>

fun clause_kind_label :: "clause_kind \<Rightarrow> string" where
  "clause_kind_label Requires = ''requires''"
| "clause_kind_label Ensures = ''ensures''"
| "clause_kind_label Invariant = ''invariant''"
| "clause_kind_label Effects = ''effects''"
| "clause_kind_label Modifies = ''modifies''"
| "clause_kind_label Input = ''input''"
| "clause_kind_label Output = ''output''"
| "clause_kind_label Errors = ''errors''"
| "clause_kind_label Rule = ''rule''"
| "clause_kind_label DataFlow = ''data_flow''"
| "clause_kind_label MustNot = ''must_not''"
| "clause_kind_label Decreases = ''decreases''"
| "clause_kind_label Ordering = ''ordering''"
| "clause_kind_label (OtherClause s) = s"

definition clause_desc :: "string \<Rightarrow> clause_kind \<Rightarrow> string" where
  "clause_desc parent kind = parent @ ''::'' @ clause_kind_label kind"

definition invariant_desc :: "string \<Rightarrow> string" where
  "invariant_desc parent = parent @ ''::invariant''"

text \<open>The derived \<open>Debug\<close> text of a body is a parameter.\<close>

definition clause_session_cache_key :: "(sp_expr \<Rightarrow> string) \<Rightarrow> string \<Rightarrow> clause_kind \<Rightarrow> sp_expr \<Rightarrow> string" where
  "clause_session_cache_key dbg desc kind body =
     desc @ ''::'' @ clause_kind_label kind @ '':'' @ dbg body"

record session_cache =
  sc_entries :: "(string \<times> string) list"
  sc_hits :: nat
  sc_misses :: nat

definition session_cache_new :: session_cache where
  "session_cache_new = \<lparr>sc_entries = [], sc_hits = 0, sc_misses = 0\<rparr>"

definition session_insert :: "string \<Rightarrow> string \<Rightarrow> session_cache \<Rightarrow> session_cache" where
  "session_insert key v c = c\<lparr>sc_entries := hm_insert key v (sc_entries c)\<rparr>"

definition session_lookup :: "string \<Rightarrow> session_cache \<Rightarrow> string option \<times> session_cache" where
  "session_lookup key c =
     (if hm_contains_key (sc_entries c) key
      then (hm_get (sc_entries c) key, c\<lparr>sc_hits := sc_hits c + 1\<rparr>)
      else (None, c\<lparr>sc_misses := sc_misses c + 1\<rparr>))"

datatype clause_cache_tag = TagVerified | TagCounterexample | TagTimeout | TagUnknown

fun tag_as_str :: "clause_cache_tag \<Rightarrow> string" where
  "tag_as_str TagVerified = ''verified''"
| "tag_as_str TagCounterexample = ''counterexample''"
| "tag_as_str TagTimeout = ''timeout''"
| "tag_as_str TagUnknown = ''unknown''"

fun tag_from_result :: "verification_result \<Rightarrow> clause_cache_tag" where
  "tag_from_result (VrVerified _ _ _) = TagVerified"
| "tag_from_result (VrCounterexample _ _ _) = TagCounterexample"
| "tag_from_result (VrTimeout _) = TagTimeout"
| "tag_from_result (VrUnknown _ _) = TagUnknown"

definition tag_parse :: "string \<Rightarrow> clause_cache_tag" where
  "tag_parse s =
     (if s = ''verified'' then TagVerified
      else if s = ''timeout'' then TagTimeout
      else if s = ''counterexample'' then TagCounterexample
      else TagUnknown)"

fun result_from_session_cache_tag :: "string \<Rightarrow> clause_cache_tag \<Rightarrow> verification_result" where
  "result_from_session_cache_tag desc TagVerified = verified desc"
| "result_from_session_cache_tag desc TagTimeout = VrTimeout desc"
| "result_from_session_cache_tag desc tag = VrUnknown desc (''cached: '' @ tag_as_str tag)"

definition entry_result :: "string \<Rightarrow> string \<Rightarrow> verification_result" where
  "entry_result desc entry =
     (if entry = ''verified'' then verified desc
      else if entry = ''timeout'' then VrTimeout desc
      else if entry = ''counterexample'' \<or> entry = ''unknown''
      then result_from_session_cache_tag desc (tag_parse entry)
      else VrUnknown desc entry)"

definition lookup_clause_session_cache ::
  "session_cache \<Rightarrow> string \<Rightarrow> string \<Rightarrow> verification_result option \<times> session_cache" where
  "lookup_clause_session_cache cache key desc =
     (let (entry, cache') = session_lookup key cache in (map_option (entry_result desc) entry, cache'))"

definition store_clause_session_cache ::
  "session_cache \<Rightarrow> string \<Rightarrow> verification_result \<Rightarrow> session_cache" where
  "store_clause_session_cache cache key r = session_insert key (tag_as_str (tag_from_result r)) cache"

section \<open>Which clauses are checked, and how\<close>

datatype clause_check_polarity =
  ValidityNegateBody | SatisfiabilityAssertBody | ValidityAssertBody | DecreasesNonNeg

fun is_verifiable_clause_kind :: "clause_kind \<Rightarrow> bool" where
  "is_verifiable_clause_kind Ensures \<longleftrightarrow> True"
| "is_verifiable_clause_kind Invariant \<longleftrightarrow> True"
| "is_verifiable_clause_kind Rule \<longleftrightarrow> True"
| "is_verifiable_clause_kind MustNot \<longleftrightarrow> True"
| "is_verifiable_clause_kind Decreases \<longleftrightarrow> True"
| "is_verifiable_clause_kind _ \<longleftrightarrow> False"

fun clause_check_polarity_of :: "clause_kind \<Rightarrow> clause_check_polarity option" where
  "clause_check_polarity_of Ensures = Some ValidityNegateBody"
| "clause_check_polarity_of Rule = Some ValidityNegateBody"
| "clause_check_polarity_of Invariant = Some SatisfiabilityAssertBody"
| "clause_check_polarity_of MustNot = Some ValidityAssertBody"
| "clause_check_polarity_of Decreases = Some DecreasesNonNeg"
| "clause_check_polarity_of _ = None"

definition clauses_of_kind :: "clause_kind \<Rightarrow> clause list \<Rightarrow> clause list" where
  "clauses_of_kind kind cls = filter (\<lambda>c. cl_kind c = kind) cls"

definition collect_verifiable_clauses :: "clause list \<Rightarrow> clause list" where
  "collect_verifiable_clauses cls = filter (\<lambda>c. is_verifiable_clause_kind (cl_kind c)) cls"

definition build_frame_checker :: "clause list \<Rightarrow> frame_checker" where
  "build_frame_checker cls =
     (let bodies = map cl_body (clauses_of_kind Modifies cls)
      in if bodies = [] then frame_empty else frame_new bodies)"

definition wants_frame_axioms :: "clause_kind \<Rightarrow> bool" where
  "wants_frame_axioms kind \<longleftrightarrow> kind = Ensures"

definition frame_axiom_vars_for_clause ::
  "frame_checker \<Rightarrow> clause_kind \<Rightarrow> sp_expr \<Rightarrow> string list \<Rightarrow> string list" where
  "frame_axiom_vars_for_clause fc kind body param_names =
     (if wants_frame_axioms kind then frame_axiom_vars_with_candidates fc body param_names else [])"

text \<open>The checker of feature clauses (\<open>smt_features.rs\<close>) is a parameter.\<close>

type_synonym feature_verifier = "string \<Rightarrow> string \<Rightarrow> sp_expr \<Rightarrow> clause list \<Rightarrow> nat \<Rightarrow> verification_result list"

definition dispatch_feature_clauses ::
  "feature_verifier \<Rightarrow> string \<Rightarrow> clause list \<Rightarrow> nat \<Rightarrow> verification_result list" where
  "dispatch_feature_clauses verify_feature name cls timeout =
     concat (map (\<lambda>c. case cl_kind c of
         OtherClause kind \<Rightarrow> verify_feature kind name (cl_body c) cls timeout
       | _ \<Rightarrow> []) cls)"

text \<open>\<open>derive_narrowings\<close> and \<open>collect_feature_max_constants\<close>.\<close>

definition derive_narrowings :: "(string \<times> int) list \<Rightarrow> (string \<times> int) list" where
  "derive_narrowings constants =
     concat (map (\<lambda>(name, v).
       let narrowed = (case strip_prefix name ''max_'' of
             Some r \<Rightarrow> Some r
           | None \<Rightarrow> strip_prefix name ''MAX_'')
       in case narrowed of
            None \<Rightarrow> []
          | Some n \<Rightarrow> if n = [] then []
              else (n, v) # (if to_lower n \<noteq> n then [(to_lower n, v)] else [])) constants)"

definition collect_feature_max_constants :: "spanned_decl list \<Rightarrow> (string \<times> int) list" where
  "collect_feature_max_constants decls =
     concat (map (\<lambda>d. case sd_node d of
         Block kind name (Some tokens) body \<Rightarrow>
           if kind = BkFeatureMax
           then (case token_pos ''='' tokens of
                   Some eq_pos \<Rightarrow>
                     if eq_pos + 1 < length tokens
                     then (case parse_i64 (tokens ! (eq_pos + 1)) of Some v \<Rightarrow> [(name, v)] | None \<Rightarrow> [])
                     else []
                 | None \<Rightarrow> [])
           else []
       | _ \<Rightarrow> []) decls)"

section \<open>Constraints of types and constants\<close>

datatype prelude_constraint =
  NatNonNegative string
| IntBounded string
| BoolZeroOrOne string
| ConstantEq string int
| NarrowingLe string int

definition param_type_tokens :: "param \<Rightarrow> string list" where
  "param_type_tokens p = (case p_ty p of Some t \<Rightarrow> to_tokens t | None \<Rightarrow> [])"

definition is_nat_type_tokens :: "string list \<Rightarrow> bool" where
  "is_nat_type_tokens ty \<longleftrightarrow> ty = [''Nat'']"

definition is_int_type_tokens :: "string list \<Rightarrow> bool" where
  "is_int_type_tokens ty \<longleftrightarrow> ty = [''Int'']"

definition is_bool_type_tokens :: "string list \<Rightarrow> bool" where
  "is_bool_type_tokens ty \<longleftrightarrow> (case ty of [t] \<Rightarrow> to_lower t = ''bool'' | _ \<Rightarrow> False)"

definition machine_arith_bits :: "string list \<Rightarrow> (nat \<times> bool) option" where
  "machine_arith_bits ty =
     (if ty = [''Int''] \<or> ty = [''int''] then Some (64, True)
      else if ty = [''Nat''] \<or> ty = [''nat''] then Some (64, False)
      else None)"

definition contract_machine_wrap :: "param list \<Rightarrow> string list \<Rightarrow> (nat \<times> bool) option" where
  "contract_machine_wrap params return_ty =
     (let kinds = List.map_filter (\<lambda>p. machine_arith_bits (param_type_tokens p)) params @
            (case machine_arith_bits return_ty of Some w \<Rightarrow> [w] | None \<Rightarrow> [])
      in case kinds of [] \<Rightarrow> None | f # _ \<Rightarrow> if list_all (\<lambda>k. k = f) kinds then Some f else None)"

definition collect_prelude_constraints ::
  "param list \<Rightarrow> string list \<Rightarrow> (string \<times> int) list \<Rightarrow> (string \<times> int) list \<Rightarrow> prelude_constraint list" where
  "collect_prelude_constraints params return_ty constants narrowings =
     concat (map (\<lambda>p. let pt = param_type_tokens p in
         (if is_nat_type_tokens pt then [NatNonNegative (p_name p)] else []) @
         (if is_int_type_tokens pt then [IntBounded (p_name p)] else []) @
         (if is_bool_type_tokens pt then [BoolZeroOrOne (p_name p)] else [])) params) @
     (if is_int_type_tokens return_ty then [IntBounded ''result'', IntBounded result_var_name] else []) @
     (if is_nat_type_tokens return_ty then [NatNonNegative ''result'', NatNonNegative result_var_name] else []) @
     (if is_bool_type_tokens return_ty then [BoolZeroOrOne ''result'', BoolZeroOrOne result_var_name] else []) @
     map (\<lambda>(n, v). ConstantEq n v) constants @ map (\<lambda>(n, v). NarrowingLe n v) narrowings"

section \<open>Lemmas\<close>

fun collect_apply_refs :: "sp_expr \<Rightarrow> string list" where
  "collect_apply_refs (Spanned (ApplyE lemma args) s) = lemma # concat (map collect_apply_refs args)"
| "collect_apply_refs (Spanned (BinOp l op r) s) = collect_apply_refs l @ collect_apply_refs r"
| "collect_apply_refs (Spanned (UnaryOp op e) s) = collect_apply_refs e"
| "collect_apply_refs (Spanned (Old e) s) = collect_apply_refs e"
| "collect_apply_refs (Spanned (Ghost e) s) = collect_apply_refs e"
| "collect_apply_refs (Spanned (Field e f) s) = collect_apply_refs e"
| "collect_apply_refs (Spanned (Cast e ty) s) = collect_apply_refs e"
| "collect_apply_refs (Spanned (Call f args) s) = collect_apply_refs f @ concat (map collect_apply_refs args)"
| "collect_apply_refs (Spanned (MethodCall r m args) s) =
     collect_apply_refs r @ concat (map collect_apply_refs args)"
| "collect_apply_refs (Spanned (Index e i) s) = collect_apply_refs e @ collect_apply_refs i"
| "collect_apply_refs (Spanned (Forall v d b) s) = collect_apply_refs d @ collect_apply_refs b"
| "collect_apply_refs (Spanned (Exists v d b) s) = collect_apply_refs d @ collect_apply_refs b"
| "collect_apply_refs (Spanned (IfE c t e) s) =
     collect_apply_refs c @ collect_apply_refs t @
     (case e of Some x \<Rightarrow> collect_apply_refs x | None \<Rightarrow> [])"
| "collect_apply_refs (Spanned (LetE n v b) s) = collect_apply_refs v @ collect_apply_refs b"
| "collect_apply_refs (Spanned (Match sc arms) s) =
     collect_apply_refs sc @ concat (map (\<lambda>a. case a of MatchArm p b \<Rightarrow> collect_apply_refs b) arms)"
| "collect_apply_refs (Spanned (ListE es) s) = concat (map collect_apply_refs es)"
| "collect_apply_refs (Spanned (BlockE es) s) = concat (map collect_apply_refs es)"
| "collect_apply_refs (Spanned (TupleE es) s) = concat (map collect_apply_refs es)"
| "collect_apply_refs (Spanned (Literal l) s) = []"
| "collect_apply_refs (Spanned (Ident n) s) = []"
| "collect_apply_refs (Spanned (Raw ts) s) = []"

definition collect_apply_refs_from_clauses :: "clause list \<Rightarrow> string list" where
  "collect_apply_refs_from_clauses cls =
     remdups_adj (sort (concat (map (\<lambda>c. collect_apply_refs (cl_body c)) cls)))"

definition lemma_ensures_bodies_for_refs :: "string list \<Rightarrow> (string \<times> sp_expr list) list \<Rightarrow> sp_expr list" where
  "lemma_ensures_bodies_for_refs refs defs =
     concat (map (\<lambda>n. case hm_get defs n of Some bodies \<Rightarrow> bodies | None \<Rightarrow> []) refs)"

definition lemma_ensures_bodies_for_clauses :: "clause list \<Rightarrow> (string \<times> sp_expr list) list \<Rightarrow> sp_expr list" where
  "lemma_ensures_bodies_for_clauses cls defs =
     lemma_ensures_bodies_for_refs (collect_apply_refs_from_clauses cls) defs"

definition collect_lemma_defs :: "spanned_decl list \<Rightarrow> (string \<times> sp_expr list) list" where
  "collect_lemma_defs decls =
     fold (\<lambda>d defs. case sd_node d of
         FnDef f \<Rightarrow> if fn_is_lemma f
           then hm_insert (fn_name f) (map cl_body (clauses_of_kind Ensures (fn_clauses f))) defs
           else defs
       | _ \<Rightarrow> defs) decls hm_empty"

end
