(* ===== verification/Vacuity.thy ===== *)
theory Vacuity
  imports Verify_Clauses Ast_Walk
begin

text \<open>
  Clauses that say no more than their assumptions (\<open>policy/vacuity.rs\<close>) and the links between
  lengths read off the clauses (\<open>havoc_assume.rs\<close>).
\<close>

section \<open>Restated requirements\<close>

definition commutative :: "binop \<Rightarrow> bool" where
  "commutative op \<longleftrightarrow> op \<in> {Eq, Neq, Add, Mul, And, Or}"

definition is_flipped_cmp :: "binop \<Rightarrow> binop \<Rightarrow> bool" where
  "is_flipped_cmp a b \<longleftrightarrow>
     a = Lte \<and> b = Gte \<or> a = Gte \<and> b = Lte \<or> a = Lt \<and> b = Gt \<or> a = Gt \<and> b = Lt"

text \<open>Expressions that are no operators are compared with their spans, as the derived \<open>==\<close> does.\<close>

lemma size_node: "size (node e) < size e"
  by (cases e) simp

function (sequential) same_expr :: "expr \<Rightarrow> expr \<Rightarrow> bool" where
  "same_expr (BinOp la opa ra) (BinOp lb opb rb) \<longleftrightarrow>
     (if opa = opb
      then same_expr (node la) (node lb) \<and> same_expr (node ra) (node rb) \<or>
           commutative opa \<and> same_expr (node la) (node rb) \<and> same_expr (node ra) (node lb)
      else is_flipped_cmp opa opb \<and> same_expr (node la) (node rb) \<and> same_expr (node ra) (node lb))"
| "same_expr (UnaryOp opa ea) (UnaryOp opb eb) \<longleftrightarrow>
     (if opa = opb then same_expr (node ea) (node eb) else UnaryOp opa ea = UnaryOp opb eb)"
| "same_expr a b \<longleftrightarrow> a = b"
  by pat_completeness auto
termination
  by (relation "measure (\<lambda>(a, b). size a)") (auto simp: size_node less_SucI trans_less_add1 trans_less_add2)

definition expr_same_obligation :: "sp_expr \<Rightarrow> sp_expr \<Rightarrow> bool" where
  "expr_same_obligation a b \<longleftrightarrow> same_expr (node a) (node b)"

definition restates_requires :: string where "restates_requires = ''restates a requires''"

definition nat_wrap_ceiling :: string where
  "nat_wrap_ceiling = ''true for every Nat because + and * wrap at 2^64''"

definition holds_without_requires :: string where
  "holds_without_requires = ''holds without the requires''"

definition is_u64_max_literal :: "sp_expr \<Rightarrow> bool" where
  "is_u64_max_literal e \<longleftrightarrow> node e = Literal (LInt ''18446744073709551615'')"

fun expr_contains_add_or_mul :: "sp_expr \<Rightarrow> bool" where
  "expr_contains_add_or_mul (Spanned (BinOp l op r) s) \<longleftrightarrow>
     op = Add \<or> op = Mul \<or> expr_contains_add_or_mul l \<or> expr_contains_add_or_mul r"
| "expr_contains_add_or_mul (Spanned (UnaryOp op e) s) \<longleftrightarrow> expr_contains_add_or_mul e"
| "expr_contains_add_or_mul (Spanned (Old e) s) \<longleftrightarrow> expr_contains_add_or_mul e"
| "expr_contains_add_or_mul (Spanned (Cast e ty) s) \<longleftrightarrow> expr_contains_add_or_mul e"
| "expr_contains_add_or_mul (Spanned (Ghost e) s) \<longleftrightarrow> expr_contains_add_or_mul e"
| "expr_contains_add_or_mul _ \<longleftrightarrow> False"

definition expr_is_nat_wrap_ceiling :: "sp_expr \<Rightarrow> bool" where
  "expr_is_nat_wrap_ceiling e \<longleftrightarrow>
     (case node e of
        BinOp l op r \<Rightarrow>
          op = Lte \<and> is_u64_max_literal r \<and> expr_contains_add_or_mul l \<or>
          op = Gte \<and> is_u64_max_literal l \<and> expr_contains_add_or_mul r
      | _ \<Rightarrow> False)"

definition clause_vacuity_reason :: "clause \<Rightarrow> sp_expr list \<Rightarrow> bool \<Rightarrow> string option" where
  "clause_vacuity_reason c reqs nat_machine_wrap =
     (if cl_kind c \<noteq> Ensures \<and> cl_kind c \<noteq> Invariant then None
      else if list_ex (\<lambda>req. expr_same_obligation (cl_body c) req) reqs then Some restates_requires
      else if nat_machine_wrap \<and> cl_kind c = Ensures \<and> expr_is_nat_wrap_ceiling (cl_body c)
      then Some nat_wrap_ceiling
      else None)"

text \<open>
  A mark is set on a verified result that has none; \<open>holds_without\<close> is the second query.
\<close>

fun mark_vacuous :: "string \<Rightarrow> verification_result \<Rightarrow> verification_result" where
  "mark_vacuous reason (VrVerified desc core None) = VrVerified desc core (Some reason)"
| "mark_vacuous reason r = r"

fun unmarked_verified :: "verification_result \<Rightarrow> bool" where
  "unmarked_verified (VrVerified desc core None) \<longleftrightarrow> True"
| "unmarked_verified r \<longleftrightarrow> False"

definition stamp_vacuity ::
  "clause list \<Rightarrow> sp_expr list \<Rightarrow> bool \<Rightarrow> (sp_expr \<Rightarrow> bool) \<Rightarrow> verification_result list \<Rightarrow> verification_result list" where
  "stamp_vacuity verifiable reqs nat_machine_wrap holds_without results =
     (if length verifiable \<noteq> length results then results
      else map2 (\<lambda>c r.
          if cl_kind c = Ensures \<and> unmarked_verified r \<and> holds_without (cl_body c)
          then mark_vacuous holds_without_requires r else r)
        verifiable
        (map2 (\<lambda>c r. case clause_vacuity_reason c reqs nat_machine_wrap of
             Some reason \<Rightarrow> mark_vacuous reason r | None \<Rightarrow> r) verifiable results))"

section \<open>Links between lengths\<close>

record length_bound =
  lb_object :: string
  lb_bound :: sp_expr
  lb_strict :: bool

definition is_receiver_length_method :: "string \<Rightarrow> nat \<Rightarrow> bool" where
  "is_receiver_length_method m extra \<longleftrightarrow> is_length_method_name m \<and> extra = 0"

definition ident_name :: "sp_expr \<Rightarrow> string option" where
  "ident_name e = (case node e of Ident n \<Rightarrow> Some n | _ \<Rightarrow> None)"

definition ident_length_field_obj_name :: "sp_expr \<Rightarrow> string \<Rightarrow> string option" where
  "ident_length_field_obj_name obj field = (if is_length_method_name field then ident_name obj else None)"

definition length_object :: "sp_expr \<Rightarrow> string option" where
  "length_object e =
     (case node e of
        MethodCall receiver m args \<Rightarrow>
          if is_receiver_length_method m (length args) then ident_name receiver else None
      | Field obj field \<Rightarrow> ident_length_field_obj_name obj field
      | _ \<Rightarrow> None)"

fun collect_length_bounds :: "sp_expr \<Rightarrow> length_bound list" where
  "collect_length_bounds (Spanned (BinOp l op r) s) =
     (if op = Lte \<or> op = Lt
      then (case length_object l of
              Some obj \<Rightarrow> [\<lparr>lb_object = obj, lb_bound = r, lb_strict = (op = Lt)\<rparr>]
            | None \<Rightarrow> [])
      else if op = And \<or> op = Or then collect_length_bounds l @ collect_length_bounds r
      else [])"
| "collect_length_bounds (Spanned (Ghost e) s) = collect_length_bounds e"
| "collect_length_bounds (Spanned (IfE c t e) s) =
     collect_length_bounds c @ collect_length_bounds t @
     (case e of Some x \<Rightarrow> collect_length_bounds x | None \<Rightarrow> [])"
| "collect_length_bounds (Spanned (BlockE es) s) = concat (map collect_length_bounds es)"
| "collect_length_bounds (Spanned (TupleE es) s) = concat (map collect_length_bounds es)"
| "collect_length_bounds (Spanned (ListE es) s) = concat (map collect_length_bounds es)"
| "collect_length_bounds _ = []"

lemma size_zip_left:
  assumes "p \<in> set (zip xs ys)"
  shows "size (fst p) \<le> size_list size xs"
proof -
  obtain x y where "p = (x, y)" by fastforce
  with assms have "fst p \<in> set xs" by (auto dest: set_zip_leftD)
  then show ?thesis by (rule size_member)
qed

function expr_structurally_eq :: "sp_expr \<Rightarrow> sp_expr \<Rightarrow> bool" where
  "expr_structurally_eq a b \<longleftrightarrow>
     (case node a of
        Ident x \<Rightarrow> node b = Ident x
      | Literal l \<Rightarrow> node b = Literal l
      | BinOp la oa ra \<Rightarrow>
          (case node b of
             BinOp lb ob rb \<Rightarrow> oa = ob \<and> expr_structurally_eq la lb \<and> expr_structurally_eq ra rb
           | _ \<Rightarrow> False)
      | MethodCall ra ma aa \<Rightarrow>
          (case node b of
             MethodCall rb mb ab \<Rightarrow>
               ma = mb \<and> length aa = length ab \<and> expr_structurally_eq ra rb \<and>
               (\<forall>p \<in> set (zip aa ab). expr_structurally_eq (fst p) (snd p))
           | _ \<Rightarrow> False)
      | _ \<Rightarrow> False)"
  by pat_completeness auto
termination
proof (relation "measure (\<lambda>(a, b). size a)", simp_all, goal_cases)
  case (1 a b r m args r' m' args')
  then show ?case using size_node [of a] by simp
next
  case (2 a b r m args r' m' args' p)
  then show ?case using size_node [of a] size_zip_left [of p args args'] by (simp add: split_beta)
next
  case (3 a b l op r l' op' r')
  then show ?case using size_node [of a] by simp
next
  case (4 a b l op r l' op' r')
  then show ?case using size_node [of a] by simp
qed

declare expr_structurally_eq.simps [simp del]

definition push_link :: "string \<Rightarrow> string \<Rightarrow> (string \<times> string) list \<Rightarrow> (string \<times> string) list" where
  "push_link res inp links = (if (res, inp) \<in> set links then links else links @ [(res, inp)])"

definition bound_links ::
  "length_bound list \<Rightarrow> length_bound \<Rightarrow> (string \<times> string) list \<Rightarrow> (string \<times> string) list" where
  "bound_links req_bounds eb links =
     (if lb_object eb \<noteq> ''result'' then links
      else let links' = fold (\<lambda>rb ls.
             if lb_object rb \<noteq> ''result'' \<and> expr_structurally_eq (lb_bound eb) (lb_bound rb)
             then push_link ''result'' (lb_object rb) ls else ls) req_bounds links
           in case length_object (lb_bound eb) of
                Some p \<Rightarrow> if p \<noteq> ''result'' then push_link ''result'' p links' else links'
              | None \<Rightarrow> links')"

definition infer_length_identity_links :: "clause list \<Rightarrow> clause list \<Rightarrow> (string \<times> string) list" where
  "infer_length_identity_links reqs enss =
     (let req_bounds = concat (map (\<lambda>c. collect_length_bounds (cl_body c)) reqs)
      in fold (\<lambda>ens links. fold (bound_links req_bounds) (collect_length_bounds (cl_body ens)) links) enss [])"

definition is_collection_return :: "string list \<Rightarrow> bool" where
  "is_collection_return ty \<longleftrightarrow>
     (case ty of [] \<Rightarrow> False | t # _ \<Rightarrow> t \<in> set [''Bytes'', ''String'', ''List'', ''Vec''])"

text \<open>The trait \<open>HavocAssumeEffects\<close> over a state, and the order its methods are called in.\<close>

record 'e havoc_effects =
  he_collection_result_nonneg :: "'e \<Rightarrow> 'e"
  he_length_identity_le :: "string \<Rightarrow> string \<Rightarrow> 'e \<Rightarrow> 'e"
  he_apply_ir_body :: "ir_function \<Rightarrow> string list \<Rightarrow> 'e \<Rightarrow> 'e"

record havoc_assume_input =
  hi_requires :: "clause list"
  hi_ensures :: "clause list"
  hi_return_ty :: "string list"
  hi_param_names :: "string list"
  hi_ir :: "ir_function option"

definition apply_havoc_assume_policy :: "'e havoc_effects \<Rightarrow> havoc_assume_input \<Rightarrow> 'e \<Rightarrow> 'e" where
  "apply_havoc_assume_policy eff input e =
     (let e1 = (if is_collection_return (hi_return_ty input) then he_collection_result_nonneg eff e else e);
          e2 = fold (\<lambda>(res, inp). he_length_identity_le eff res inp)
                 (infer_length_identity_links (hi_requires input) (hi_ensures input)) e1
      in case hi_ir input of
           Some func \<Rightarrow> he_apply_ir_body eff func (hi_param_names input) e2
         | None \<Rightarrow> e2)"

end
