(* ===== verification/Verify_Loop.thy ===== *)
theory Verify_Loop
  imports Vacuity
begin

text \<open>
  The verification loop of Z3: \<open>verify_clauses_with_types\<close> and its entry points in
  \<open>z3_backend/verify.rs\<close>, the jobs of a file (\<open>entry/jobs.rs\<close>, \<open>helpers.rs\<close>, \<open>verify.rs\<close>) and
  the cache of results on disk (\<open>cache.rs\<close>).
\<close>

section \<open>The encoder and the solver\<close>

text \<open>
  The encoder is a state \<open>'e\<close>, its values are \<open>'v\<close>: the state for a contract with its types and
  constants and without them, a copy of it for a clause, the encoding of an expression, a value as
  condition and as integer, the constant of a name, and the axioms it has put aside.  The solver
  answers a list of assertions, those that are tracked with their label.
\<close>

record ('e, 'v) z3_encoder =
  en_new :: "param list \<Rightarrow> string list \<Rightarrow> (string \<times> int) list \<Rightarrow> clause list \<Rightarrow> 'e"
  en_plain :: "param list \<Rightarrow> string list \<Rightarrow> 'e"
  en_clause :: "param list \<Rightarrow> string list \<Rightarrow> (string \<times> int) list \<Rightarrow> clause list \<Rightarrow> 'e \<Rightarrow> 'e"
  en_expr :: "sp_expr \<Rightarrow> 'e \<Rightarrow> 'v \<times> 'e"
  en_as_bool :: "'v \<Rightarrow> smt_term"
  en_as_int :: "'v \<Rightarrow> 'e \<Rightarrow> smt_term"
  en_int :: "string \<Rightarrow> 'e \<Rightarrow> smt_term \<times> 'e"
  en_axioms :: "'e \<Rightarrow> smt_term list"
  en_clear :: "'e \<Rightarrow> 'e"
  en_havoc :: "'e havoc_effects"

type_synonym assertion = "string option \<times> smt_term"

type_synonym clause_solver = "assertion list \<Rightarrow> z3_answer"

record ('e, 'v) z3_backend =
  zb_encoder :: "('e, 'v) z3_encoder"
  zb_solver :: clause_solver
  zb_debug :: "sp_expr \<Rightarrow> string"
  zb_feature :: feature_verifier

record type_constraints =
  tcs_params :: "param list"
  tcs_return_ty :: "string list"
  tcs_constants :: "(string \<times> int) list"
  tcs_narrowings :: "(string \<times> int) list"
  tcs_ir :: "ir_function option"

abbreviation untracked :: "smt_term list \<Rightarrow> assertion list" where
  "untracked ts \<equiv> map (Pair None) ts"

definition track_requires_unsat_cores :: "nat \<Rightarrow> bool" where
  "track_requires_unsat_cores n \<longleftrightarrow> n > 1"

section \<open>The assumptions of a contract\<close>

text \<open>The axioms put aside so far, asserted and dropped.\<close>

definition drain_axioms :: "('e, 'v) z3_encoder \<Rightarrow> 'e \<Rightarrow> assertion list \<times> 'e" where
  "drain_axioms en e = (untracked (en_axioms en e), en_clear en e)"

fun assert_requires :: "('e, 'v) z3_encoder \<Rightarrow> bool \<Rightarrow> nat \<Rightarrow> clause list \<Rightarrow> 'e \<Rightarrow> assertion list \<times> 'e" where
  "assert_requires en track i [] e = ([], e)"
| "assert_requires en track i (req # reqs) e =
     (let (v, e1) = en_expr en (cl_body req) e;
          (as, e2) = assert_requires en track (i + 1) reqs e1
      in ((if track then Some (''req_'' @ dec i) else None, en_as_bool en v) # as, e2))"

text \<open>Constants are bound in the encoder and not asserted again.\<close>

fun constraint_terms :: "('e, 'v) z3_encoder \<Rightarrow> prelude_constraint \<Rightarrow> 'e \<Rightarrow> smt_term list \<times> 'e" where
  "constraint_terms en (NatNonNegative name) e =
     (let (p, e1) = en_int en name e in ([SApp FGe [p, SInt 0], SApp FLe [p, SInt (2 ^ 64 - 1)]], e1))"
| "constraint_terms en (IntBounded name) e =
     (let (p, e1) = en_int en name e in ([SApp FGe [p, SInt i64_min], SApp FLe [p, SInt i64_max]], e1))"
| "constraint_terms en (BoolZeroOrOne name) e =
     (let (p, e1) = en_int en name e in ([SApp FGe [p, SInt 0], SApp FLe [p, SInt 1]], e1))"
| "constraint_terms en (ConstantEq name v) e = ([], e)"
| "constraint_terms en (NarrowingLe name bound) e =
     (let (p, e1) = en_int en name e in ([SApp FLe [p, SInt bound]], e1))"

fun assert_constraints :: "('e, 'v) z3_encoder \<Rightarrow> prelude_constraint list \<Rightarrow> 'e \<Rightarrow> assertion list \<times> 'e" where
  "assert_constraints en [] e = ([], e)"
| "assert_constraints en (c # cs) e =
     (let (ts, e1) = constraint_terms en c e;
          (as, e2) = assert_constraints en cs e1
      in (untracked ts @ as, e2))"

fun assert_bodies :: "('e, 'v) z3_encoder \<Rightarrow> sp_expr list \<Rightarrow> 'e \<Rightarrow> assertion list \<times> 'e" where
  "assert_bodies en [] e = ([], e)"
| "assert_bodies en (b # bs) e =
     (let (v, e1) = en_expr en b e;
          (as, e2) = assert_bodies en bs e1
      in ((None, en_as_bool en v) # as, e2))"

text \<open>The steps of \<open>VERIFY_PRELUDE_ORDER\<close> up to the clause checks.\<close>

definition contract_assumptions ::
  "('e, 'v) z3_encoder \<Rightarrow> clause list \<Rightarrow> (string \<times> sp_expr list) list \<Rightarrow> type_constraints \<Rightarrow> assertion list \<times> 'e" where
  "contract_assumptions en cls lemma_defs ty =
     (let reqs = clauses_of_kind Requires cls;
          e0 = en_new en (tcs_params ty) (tcs_return_ty ty) (tcs_constants ty) cls;
          e1 = apply_havoc_assume_policy (en_havoc en)
                 \<lparr>hi_requires = reqs, hi_ensures = clauses_of_kind Ensures cls, hi_return_ty = tcs_return_ty ty,
                  hi_param_names = map p_name (tcs_params ty), hi_ir = tcs_ir ty\<rparr> e0;
          (a1, e2) = drain_axioms en e1;
          (a2, e3) = assert_requires en (track_requires_unsat_cores (length reqs)) 0 reqs e2;
          (a3, e4) = drain_axioms en e3;
          (a4, e5) = assert_constraints en
                 (collect_prelude_constraints (tcs_params ty) (tcs_return_ty ty) (tcs_constants ty) (tcs_narrowings ty)) e4;
          (a5, e6) = assert_bodies en (lemma_ensures_bodies_for_clauses cls lemma_defs) e5;
          (a6, e7) = drain_axioms en e6
      in (a1 @ a2 @ a3 @ a4 @ a5 @ a6, e7))"

section \<open>The check of a clause\<close>

definition old_snapshot_name :: "string \<Rightarrow> string" where
  "old_snapshot_name name = sanitize_smt_name name @ ''__old''"

fun frame_axioms :: "('e, 'v) z3_encoder \<Rightarrow> string list \<Rightarrow> 'e \<Rightarrow> assertion list \<times> 'e" where
  "frame_axioms en [] e = ([], e)"
| "frame_axioms en (name # names) e =
     (let (cur, e1) = en_int en name e;
          (old, e2) = en_int en (old_snapshot_name name) e1;
          (as, e3) = frame_axioms en names e2
      in ((None, SApp FEq [cur, old]) # as, e3))"

text \<open>What is asserted beside the assumptions, and the value of the body.\<close>

definition clause_assertions ::
  "('e, 'v) z3_encoder \<Rightarrow> clause list \<Rightarrow> type_constraints \<Rightarrow> 'e \<Rightarrow> clause \<Rightarrow> assertion list \<times> 'v \<times> 'e" where
  "clause_assertions en cls ty base c =
     (let e0 = en_clause en (tcs_params ty) (tcs_return_ty ty) (tcs_constants ty) cls base;
          (a1, e1) = frame_axioms en
            (frame_axiom_vars_for_clause (build_frame_checker cls) (cl_kind c) (cl_body c) (map p_name (tcs_params ty))) e0;
          (v, e2) = en_expr en (cl_body c) e1;
          (a2, e3) = drain_axioms en e2
      in (a1 @ a2, v, e3))"

definition check_clause ::
  "('e, 'v) z3_backend \<Rightarrow> clause list \<Rightarrow> type_constraints \<Rightarrow> assertion list \<Rightarrow> 'e \<Rightarrow> string \<Rightarrow> clause \<Rightarrow>
   verification_result list" where
  "check_clause zb cls ty assumptions base desc c =
     (let en = zb_encoder zb; z3 = zb_solver zb;
          (as, v, e) = clause_assertions en cls ty base c;
          fs = assumptions @ as; b = en_as_bool en v
      in case clause_check_polarity_of (cl_kind c) of
           Some ValidityNegateBody \<Rightarrow> [check_validity (z3 (fs @ [(None, SApp FNot [b])])) desc]
         | Some SatisfiabilityAssertBody \<Rightarrow> [check_satisfiability (z3 (fs @ [(None, b)])) desc]
         | Some ValidityAssertBody \<Rightarrow> [check_validity (z3 (fs @ [(None, b)])) desc]
         | Some DecreasesNonNeg \<Rightarrow>
             [check_validity (z3 (fs @ [(None, SApp FNot [SApp FGe [en_as_int en v e, SInt 0]])])) desc]
         | None \<Rightarrow> [])"

text \<open>
  No expression is beyond the encoder (\<open>expr_has_unmodelable_features\<close> is never true), so the
  gate before the cache lets every clause pass.
\<close>

fun check_clauses ::
  "('e, 'v) z3_backend \<Rightarrow> clause list \<Rightarrow> type_constraints \<Rightarrow> assertion list \<Rightarrow> 'e \<Rightarrow> string \<Rightarrow> clause list \<Rightarrow>
   session_cache \<Rightarrow> verification_result list \<times> session_cache" where
  "check_clauses zb cls ty assumptions base parent [] cache = ([], cache)"
| "check_clauses zb cls ty assumptions base parent (c # cs) cache =
     (let desc = clause_desc parent (cl_kind c);
          key = clause_session_cache_key (zb_debug zb) desc (cl_kind c) (cl_body c)
      in case lookup_clause_session_cache cache key desc of
           (Some r, cache1) \<Rightarrow>
             (let (rs, cache2) = check_clauses zb cls ty assumptions base parent cs cache1 in (r # rs, cache2))
         | (None, cache1) \<Rightarrow>
             (let new = check_clause zb cls ty assumptions base desc c;
                  cache2 = (case new of [] \<Rightarrow> cache1 | r # _ \<Rightarrow> store_clause_session_cache cache1 key r);
                  (rs, cache3) = check_clauses zb cls ty assumptions base parent cs cache2
              in (new @ rs, cache3)))"

definition clause_holds_without_user_requires ::
  "('e, 'v) z3_backend \<Rightarrow> type_constraints \<Rightarrow> sp_expr \<Rightarrow> bool" where
  "clause_holds_without_user_requires zb ty body =
     (let en = zb_encoder zb;
          e0 = en_plain en (tcs_params ty) (tcs_return_ty ty);
          (a1, e1) = assert_constraints en
            (collect_prelude_constraints (tcs_params ty) (tcs_return_ty ty) (tcs_constants ty) (tcs_narrowings ty)) e0;
          (v, e2) = en_expr en body e1
      in (case z3_clause_sat_outcome
             (zb_solver zb (a1 @ untracked (en_axioms en e2) @ [(None, SApp FNot [en_as_bool en v])])) of
            OcUnsat core \<Rightarrow> True
          | _ \<Rightarrow> False))"

definition verify_clauses_with_types ::
  "('e, 'v) z3_backend \<Rightarrow> string \<Rightarrow> clause list \<Rightarrow> (string \<times> sp_expr list) list \<Rightarrow> type_constraints \<Rightarrow> nat \<Rightarrow>
   session_cache \<Rightarrow> verification_result list \<times> session_cache" where
  "verify_clauses_with_types zb parent cls lemma_defs ty timeout cache =
     (let features = dispatch_feature_clauses (zb_feature zb) parent cls timeout;
          verifiable = collect_verifiable_clauses cls
      in if verifiable = [] then (features, cache)
         else let (assumptions, base) = contract_assumptions (zb_encoder zb) cls lemma_defs ty;
                  (rs, cache') = check_clauses zb cls ty assumptions base parent verifiable cache
              in (features @ stamp_vacuity verifiable (map cl_body (clauses_of_kind Requires cls))
                    (contract_machine_wrap (tcs_params ty) (tcs_return_ty ty) = Some (64, False))
                    (clause_holds_without_user_requires zb ty) rs, cache'))"

section \<open>The jobs of a file\<close>

record verification_job =
  vj_name :: string
  vj_clauses :: "clause list"
  vj_params :: "param list"
  vj_return_ty :: "string list"

fun extract_output_return_type :: "clause list \<Rightarrow> string list" where
  "extract_output_return_type [] = []"
| "extract_output_return_type (c # cs) =
     (case (cl_kind c, node (cl_body c)) of
        (Output, Raw tokens) \<Rightarrow>
          if length tokens \<ge> 3 \<and> tokens ! 1 = '':'' then drop 2 tokens else tokens
      | _ \<Rightarrow> extract_output_return_type cs)"

text \<open>The depth is an \<open>i32\<close> that saturates when it falls.\<close>

definition input_depth :: "int \<Rightarrow> string \<Rightarrow> int" where
  "input_depth depth t =
     (if t \<in> set [''('', ''['', ''<'', ''{''] then depth + 1
      else if t \<in> set ['')'', '']'', ''>'', ''}''] then depth - 1 else depth)"

fun input_type_tokens :: "int \<Rightarrow> string list \<Rightarrow> string list \<times> string list" where
  "input_type_tokens depth [] = ([], [])"
| "input_type_tokens depth (t # ts) =
     (if depth = 0 \<and> t = '','' then ([], t # ts)
      else let (ty, rest) = input_type_tokens (input_depth depth t) ts in (t # ty, rest))"

lemma input_type_tokens_bound: "input_type_tokens d ts = (ty, rest) \<Longrightarrow> length rest \<le> length ts"
  by (induction d ts arbitrary: ty rest rule: input_type_tokens.induct) (auto simp: Let_def split: if_splits prod.splits)

definition simple_type_from_tokens :: "string list \<Rightarrow> type_expr option" where
  "simple_type_from_tokens tokens =
     (if tokens = [] then None
      else case try_parse_type_tokens tokens of
             Some te \<Rightarrow> Some te
           | None \<Rightarrow> Some (TNamed (if length tokens = 1 then hd tokens else join '' '' tokens)))"

function (sequential) input_params :: "string list \<Rightarrow> param list" where
  "input_params [] = []"
| "input_params (t # ts) =
     (if t = '','' then input_params ts
      else if ts \<noteq> [] \<and> hd ts = '':''
      then (case input_type_tokens 0 (tl ts) of (ty, rest) \<Rightarrow>
              \<lparr>p_name = t, p_ty = simple_type_from_tokens ty\<rparr> # input_params rest)
      else \<lparr>p_name = t, p_ty = None\<rparr> # input_params ts)"
  by pat_completeness auto
termination
proof (relation "measure length", goal_cases)
  case (3 t ts ty rest)
  then have "length rest \<le> length (tl ts)" using input_type_tokens_bound [of 0 "tl ts" ty rest] by simp
  then show ?case by (cases ts) auto
qed auto

fun extract_input_params :: "clause list \<Rightarrow> param list" where
  "extract_input_params [] = []"
| "extract_input_params (c # cs) =
     (case (cl_kind c, node (cl_body c)) of
        (Input, Raw tokens) \<Rightarrow> input_params tokens
      | _ \<Rightarrow> extract_input_params cs)"

definition contract_params :: "contract_decl \<Rightarrow> param list" where
  "contract_params ct =
     fold (\<lambda>p ps. if p_name p \<in> set (map p_name ps) then ps else ps @ [p])
       (ct_fn_params ct) (extract_input_params (ct_clauses ct))"

definition type_expr_to_token_vec :: "type_expr option \<Rightarrow> string list" where
  "type_expr_to_token_vec te = (case te of Some t \<Rightarrow> to_tokens t | None \<Rightarrow> [])"

abbreviation untyped_job :: "string \<Rightarrow> clause list \<Rightarrow> verification_job" where
  "untyped_job name cls \<equiv> \<lparr>vj_name = name, vj_clauses = cls, vj_params = [], vj_return_ty = []\<rparr>"

fun service_item_jobs :: "string \<Rightarrow> service_item \<Rightarrow> verification_job list" where
  "service_item_jobs s (SvOperation name cls) = [untyped_job (s @ ''.'' @ name) cls]"
| "service_item_jobs s (SvQuery name cls) = [untyped_job (s @ ''.'' @ name) cls]"
| "service_item_jobs s (SvInvariant e) =
     [untyped_job (invariant_desc s) [\<lparr>cl_kind = Invariant, cl_body = e, cl_effect_variables = []\<rparr>]]"
| "service_item_jobs s _ = []"

fun decl_jobs :: "decl \<Rightarrow> verification_job list" where
  "decl_jobs (Contract ct) =
     [\<lparr>vj_name = ct_name ct, vj_clauses = ct_clauses ct, vj_params = contract_params ct,
       vj_return_ty = extract_output_return_type (ct_clauses ct)\<rparr>]"
| "decl_jobs (FnDef f) =
     [\<lparr>vj_name = fn_name f, vj_clauses = fn_clauses f, vj_params = fn_params f,
       vj_return_ty = type_expr_to_token_vec (fn_return_ty f)\<rparr>]"
| "decl_jobs (Extern e) =
     [\<lparr>vj_name = ex_name e, vj_clauses = ex_clauses e, vj_params = ex_params e,
       vj_return_ty = type_expr_to_token_vec (ex_return_ty e)\<rparr>]"
| "decl_jobs (Service s) =
     concat (map (service_item_jobs (service_decl.sv_name s)) (service_decl.sv_items s))"
| "decl_jobs (Block kind name v body) = [untyped_job name body]"
| "decl_jobs (Bind b) =
     [\<lparr>vj_name = bd_name b, vj_clauses = bd_clauses b, vj_params = bd_params b,
       vj_return_ty = type_expr_to_token_vec (bd_return_ty b)\<rparr>]"
| "decl_jobs _ = []"

definition collect_verification_jobs :: "spanned_decl list \<Rightarrow> verification_job list" where
  "collect_verification_jobs decls = concat (map (\<lambda>d. decl_jobs (sd_node d)) decls)"

section \<open>Clauses about a result without implementation\<close>

definition is_ident :: "string \<Rightarrow> sp_expr \<Rightarrow> bool" where
  "is_ident name e \<longleftrightarrow> node e = Ident name"

definition is_length_name :: "string \<Rightarrow> bool" where
  "is_length_name m \<longleftrightarrow> m = ''length'' \<or> m = ''len'' \<or> m = ''size''"

definition is_result_length_expr :: "sp_expr \<Rightarrow> bool" where
  "is_result_length_expr e \<longleftrightarrow>
     (case node e of
        MethodCall receiver m args \<Rightarrow>
          args = [] \<and> expr_references_result receiver \<and> is_ident ''result'' receiver \<and> is_length_name m
      | Call f args \<Rightarrow>
          length args = 1 \<and> (case node f of Ident n \<Rightarrow> is_length_name n | _ \<Rightarrow> False) \<and> is_ident ''result'' (hd args)
      | _ \<Rightarrow> False)"

definition is_zero_literal :: "sp_expr \<Rightarrow> bool" where
  "is_zero_literal e \<longleftrightarrow> node e = Literal (LInt ''0'')"

definition is_result_length_nonneg_atom :: "sp_expr \<Rightarrow> bool" where
  "is_result_length_nonneg_atom e \<longleftrightarrow>
     (case node e of
        BinOp l op r \<Rightarrow>
          op = Gte \<and> is_result_length_expr l \<and> is_zero_literal r \<or>
          op = Lte \<and> is_zero_literal l \<and> is_result_length_expr r
      | _ \<Rightarrow> False)"

fun collect_and :: "sp_expr \<Rightarrow> sp_expr list" where
  "collect_and (Spanned (BinOp l op r) s) =
     (if op = And then collect_and l @ collect_and r else [Spanned (BinOp l op r) s])"
| "collect_and e = [e]"

definition ensures_result_length_nonneg :: "sp_expr \<Rightarrow> bool" where
  "ensures_result_length_nonneg e \<longleftrightarrow>
     collect_and e \<noteq> [] \<and> list_all is_result_length_nonneg_atom (collect_and e)"

definition ensures_needs_ir_for_unconstrained_result :: "clause \<Rightarrow> bool" where
  "ensures_needs_ir_for_unconstrained_result c \<longleftrightarrow>
     cl_kind c = Ensures \<and> expr_references_result (cl_body c) \<and> \<not> ensures_result_length_nonneg (cl_body c)"

definition unconstrained_result_unknowns ::
  "string \<Rightarrow> clause list \<Rightarrow> bool \<Rightarrow> bool \<Rightarrow> verification_result list" where
  "unconstrained_result_unknowns name cls has_ir ir_loading_attempted =
     (if has_ir \<or> \<not> ir_loading_attempted then []
      else map (\<lambda>c. unknown_not_encoded (name @ ''::ensures'')
          (''no implementation body for `'' @ name @ ''` and ensures shape is not auto-synthesizable; '' @
           ''`result` stays unconstrained without IR (write a co-located `'' @ name @
           ''.ir`, run `assura build --write-ir`, use `--auto-implement`, or rewrite ensures over inputs only)''))
        (filter ensures_needs_ir_for_unconstrained_result cls))"

section \<open>A file\<close>

record file_context =
  fx_constants :: "(string \<times> int) list"
  fx_lemma_defs :: "(string \<times> sp_expr list) list"
  fx_ir_bodies :: "(string \<times> ir_function) list"
  fx_ir_loading_attempted :: bool

definition file_context_of :: "spanned_decl list \<Rightarrow> (string \<times> ir_function) list \<Rightarrow> bool \<Rightarrow> file_context" where
  "file_context_of decls irs attempted =
     \<lparr>fx_constants = collect_feature_max_constants decls, fx_lemma_defs = collect_lemma_defs decls,
      fx_ir_bodies = irs, fx_ir_loading_attempted = attempted\<rparr>"

definition job_constraints :: "file_context \<Rightarrow> verification_job \<Rightarrow> type_constraints" where
  "job_constraints fx job =
     \<lparr>tcs_params = vj_params job, tcs_return_ty = vj_return_ty job, tcs_constants = fx_constants fx,
      tcs_narrowings = derive_narrowings (fx_constants fx), tcs_ir = hm_get (fx_ir_bodies fx) (vj_name job)\<rparr>"

definition clause_timeout_ms :: "nat \<Rightarrow> nat" where
  "clause_timeout_ms requested = max (min requested (2 ^ 32 - 1)) 10000"

definition job_skips :: "file_context \<Rightarrow> verification_job \<Rightarrow> verification_result list" where
  "job_skips fx job =
     unconstrained_result_unknowns (vj_name job) (vj_clauses job)
       (hm_get (fx_ir_bodies fx) (vj_name job) \<noteq> None) (fx_ir_loading_attempted fx)"

definition solver_clauses :: "verification_job \<Rightarrow> clause list" where
  "solver_clauses job = filter (\<lambda>c. \<not> ensures_needs_ir_for_unconstrained_result c) (vj_clauses job)"

definition verify_job ::
  "('e, 'v) z3_backend \<Rightarrow> file_context \<Rightarrow> nat \<Rightarrow> verification_job \<Rightarrow> session_cache \<Rightarrow>
   verification_result list \<times> session_cache" where
  "verify_job zb fx timeout job cache =
     (let skip = job_skips fx job;
          run = (\<lambda>cls. verify_clauses_with_types zb (vj_name job) cls (fx_lemma_defs fx) (job_constraints fx job)
                   (clause_timeout_ms timeout) cache)
      in if skip = [] then run (vj_clauses job)
         else if list_ex (\<lambda>c. cl_kind c = Ensures \<or> cl_kind c = Invariant) (solver_clauses job)
         then (let (rs, cache') = run (solver_clauses job) in (rs @ skip, cache'))
         else (skip, cache))"

fun verify_jobs ::
  "('e, 'v) z3_backend \<Rightarrow> file_context \<Rightarrow> nat \<Rightarrow> verification_job list \<Rightarrow> session_cache \<Rightarrow> verification_result list" where
  "verify_jobs zb fx timeout [] cache = []"
| "verify_jobs zb fx timeout (job # jobs) cache =
     (let (rs, cache') = verify_job zb fx timeout job cache in rs @ verify_jobs zb fx timeout jobs cache')"

text \<open>\<open>verify_impl_with_timeout\<close>; the results of the advanced passes come after.\<close>

definition verify_file ::
  "('e, 'v) z3_backend \<Rightarrow> spanned_decl list \<Rightarrow> (string \<times> ir_function) list \<Rightarrow> bool \<Rightarrow> nat \<Rightarrow>
   verification_result list \<Rightarrow> verification_result list" where
  "verify_file zb decls irs attempted timeout advanced =
     verify_jobs zb (file_context_of decls irs attempted) timeout (collect_verification_jobs decls) session_cache_new @
     advanced"

section \<open>Results on disk\<close>

datatype cached_result =
  CachedVerified string
| CachedCounterexample string string
| CachedTimeout string
| CachedUnknown string string

fun to_cached :: "verification_result \<Rightarrow> cached_result" where
  "to_cached (VrVerified desc core reason) = CachedVerified desc"
| "to_cached (VrCounterexample desc model cm) = CachedCounterexample desc model"
| "to_cached (VrTimeout desc) = CachedTimeout desc"
| "to_cached (VrUnknown desc reason) = CachedUnknown desc reason"

fun from_cached :: "cached_result \<Rightarrow> verification_result" where
  "from_cached (CachedVerified desc) = verified desc"
| "from_cached (CachedCounterexample desc model) = VrCounterexample desc model None"
| "from_cached (CachedTimeout desc) = VrTimeout desc"
| "from_cached (CachedUnknown desc reason) = VrUnknown desc reason"

text \<open>
  The files of the cache directory by name; \<open>None\<close> is the disabled cache.  The digest and the
  derived \<open>Debug\<close> texts of kinds and bodies are parameters.
\<close>

record cache_texts =
  tx_digest :: "string \<Rightarrow> string"
  tx_kind :: "clause_kind \<Rightarrow> string"
  tx_body :: "sp_expr \<Rightarrow> string"

type_synonym verification_cache = "(string \<times> cached_result list) list option"

definition hash_clauses :: "cache_texts \<Rightarrow> string \<Rightarrow> clause list \<Rightarrow> string option \<Rightarrow> string" where
  "hash_clauses tx name cls ir =
     tx_digest tx (name @ concat (map (\<lambda>c. tx_kind tx (cl_kind c) @ tx_body tx (cl_body c)) cls) @
       (case ir of Some fp \<Rightarrow> ''ir:'' @ fp | None \<Rightarrow> ''ir:none''))"

definition cache_get ::
  "cache_texts \<Rightarrow> verification_cache \<Rightarrow> string \<Rightarrow> clause list \<Rightarrow> string option \<Rightarrow> verification_result list option" where
  "cache_get tx cache name cls ir =
     (case cache of
        None \<Rightarrow> None
      | Some files \<Rightarrow> map_option (map from_cached) (hm_get files (hash_clauses tx name cls ir)))"

definition cache_put ::
  "cache_texts \<Rightarrow> verification_cache \<Rightarrow> string \<Rightarrow> clause list \<Rightarrow> string option \<Rightarrow> verification_result list \<Rightarrow>
   verification_cache" where
  "cache_put tx cache name cls ir rs =
     map_option (hm_insert (hash_clauses tx name cls ir) (map to_cached rs)) cache"

text \<open>One job of \<open>verify_parallel_with_solver\<close> with Z3; \<open>fp\<close> is the \<open>Debug\<close> text of an IR body.\<close>

definition verify_cached_job ::
  "('e, 'v) z3_backend \<Rightarrow> cache_texts \<Rightarrow> (ir_function \<Rightarrow> string) \<Rightarrow> file_context \<Rightarrow> nat \<Rightarrow> verification_cache \<Rightarrow>
   verification_job \<Rightarrow> verification_result list \<times> verification_cache" where
  "verify_cached_job zb tx fp fx timeout cache job =
     (let ir_fp = map_option fp (hm_get (fx_ir_bodies fx) (vj_name job));
          fresh = fst (verify_job zb fx timeout job session_cache_new)
      in if job_skips fx job \<noteq> [] then (fresh, cache)
         else case cache_get tx cache (vj_name job) (vj_clauses job) ir_fp of
                Some rs \<Rightarrow> (rs, cache)
              | None \<Rightarrow> (fresh, cache_put tx cache (vj_name job) (vj_clauses job) ir_fp fresh))"

end
