(* ===== verification/Verify_Sound.thy ===== *)
theory Verify_Sound
  imports Verify_Loop
begin

text \<open>
  What the results of the clause checks mean, for a solver whose answers are right and any
  encoder, and where assumptions and caches let more pass than they should.
\<close>

section \<open>The meaning of a result\<close>

definition satisfies :: "smt_model \<Rightarrow> assertion list \<Rightarrow> bool" where
  "satisfies M as \<longleftrightarrow> (\<forall>a \<in> set as. beval M (snd a))"

lemma satisfies_append [simp]: "satisfies M (as @ bs) \<longleftrightarrow> satisfies M as \<and> satisfies M bs"
  by (auto simp: satisfies_def)

lemma satisfies_single [simp]: "satisfies M [(l, t)] \<longleftrightarrow> beval M t" "satisfies M []"
  by (simp_all add: satisfies_def)

definition solver_right :: "clause_solver \<Rightarrow> bool" where
  "solver_right z3 \<longleftrightarrow>
     (\<forall>as core. z3 as = AnsUnsat core \<longrightarrow> (\<nexists>M. satisfies M as)) \<and>
     (\<forall>as m. z3 as = AnsSat m \<longrightarrow> (\<exists>M. satisfies M as))"

text \<open>
  A postcondition or rule is true under the assumptions, an invariant can be true with them, a
  forbidden condition is never true, a measure is never negative.
\<close>

definition clause_valid ::
  "('e, 'v) z3_encoder \<Rightarrow> clause list \<Rightarrow> type_constraints \<Rightarrow> assertion list \<Rightarrow> 'e \<Rightarrow> clause \<Rightarrow> bool" where
  "clause_valid en cls ty assumptions base c =
     (let (as, v, e) = clause_assertions en cls ty base c; fs = assumptions @ as
      in case cl_kind c of
           Invariant \<Rightarrow> \<exists>M. satisfies M fs \<and> beval M (en_as_bool en v)
         | MustNot \<Rightarrow> \<forall>M. satisfies M fs \<longrightarrow> \<not> beval M (en_as_bool en v)
         | Decreases \<Rightarrow> \<forall>M. satisfies M fs \<longrightarrow> 0 \<le> ieval M (en_as_int en v e)
         | _ \<Rightarrow> \<forall>M. satisfies M fs \<longrightarrow> beval M (en_as_bool en v))"

lemma clause_valid_cong:
  "cl_kind c = cl_kind d \<Longrightarrow> cl_body c = cl_body d \<Longrightarrow>
   clause_valid en cls ty as base c = clause_valid en cls ty as base d"
  by (simp add: clause_valid_def clause_assertions_def)

definition right_result :: "verification_result \<Rightarrow> bool \<Rightarrow> bool" where
  "right_result r valid \<longleftrightarrow> (is_verified r \<longrightarrow> valid) \<and> (is_counterexample r \<longrightarrow> \<not> valid)"

lemma check_clause_right:
  assumes "solver_right (zb_solver zb)" and "is_verifiable_clause_kind (cl_kind c)"
  shows "\<exists>r. check_clause zb cls ty as base desc c = [r] \<and>
    right_result r (clause_valid (zb_encoder zb) cls ty as base c)"
proof -
  obtain bs v e where ca: "clause_assertions (zb_encoder zb) cls ty base c = (bs, v, e)" by (metis prod_cases3)
  have unsat: "satisfies M as \<Longrightarrow> satisfies M bs \<Longrightarrow> \<not> beval M g"
    if "zb_solver zb (as @ bs @ [(None, g)]) = AnsUnsat core" for g core M
    using assms(1) that unfolding solver_right_def by (metis satisfies_append satisfies_single(1))
  have sat: "\<exists>M. satisfies M as \<and> satisfies M bs \<and> beval M g"
    if "zb_solver zb (as @ bs @ [(None, g)]) = AnsSat m" for g m
    using assms(1) that unfolding solver_right_def by (metis satisfies_append satisfies_single(1))
  note facts = check_clause_def clause_valid_def right_result_def check_verdicts ca Let_def
  let ?en = "zb_encoder zb"
  let ?neg = "SApp FNot [en_as_bool ?en v]" and ?pos = "en_as_bool ?en v"
    and ?measure = "SApp FNot [SApp FGe [en_as_int ?en v e, SInt 0]]"
  show ?thesis
    using assms(2) unsat [of ?neg] sat [of ?neg] unsat [of ?pos] sat [of ?pos] unsat [of ?measure] sat [of ?measure]
    by (cases "cl_kind c"; simp add: facts; blast)
qed

section \<open>The session cache\<close>

text \<open>
  One cache serves all the jobs of a file.  Its keys begin with the name of the job, so an entry is
  only found again by a job of the same name: names are identifiers, joined by a dot for the
  operations of a service and followed by \<open>::invariant\<close> for its invariants, and the \<open>Debug\<close> text of
  a body does not begin with a colon.
\<close>

definition job_name_ok :: "string \<Rightarrow> bool" where
  "job_name_ok n \<longleftrightarrow> dropWhile (\<lambda>c. c \<noteq> CHR '':'') n \<in> {[], invariant_desc []}"

definition debug_ok :: "('e, 'v) z3_backend \<Rightarrow> sp_expr set \<Rightarrow> bool" where
  "debug_ok zb bodies \<longleftrightarrow> inj_on (zb_debug zb) bodies \<and> (\<forall>b \<in> bodies. take 1 (zb_debug zb b) \<noteq> '':'')"

definition clause_key :: "('e, 'v) z3_backend \<Rightarrow> string \<Rightarrow> clause \<Rightarrow> string" where
  "clause_key zb parent c =
     clause_session_cache_key (zb_debug zb) (clause_desc parent (cl_kind c)) (cl_kind c) (cl_body c)"

lemma split_at_colon:
  "CHR '':'' \<notin> set a \<Longrightarrow> CHR '':'' \<notin> set b \<Longrightarrow>
   a @ CHR '':'' # x = b @ CHR '':'' # y \<longleftrightarrow> a = b \<and> x = y"
proof (induction a arbitrary: b)
  case Nil
  then show ?case by (cases b) auto
next
  case (Cons z a)
  then show ?case by (cases b) auto
qed

lemma label_no_colon: "is_verifiable_clause_kind k \<Longrightarrow> CHR '':'' \<notin> set (clause_kind_label k)"
  by (cases k) auto

lemma label_inject:
  "is_verifiable_clause_kind k \<Longrightarrow> is_verifiable_clause_kind k' \<Longrightarrow> clause_kind_label k = clause_kind_label k' \<Longrightarrow>
   k = k'"
  by (cases k; cases k') auto

text \<open>What follows the name in a key.\<close>

definition key_rest :: "clause_kind \<Rightarrow> string \<Rightarrow> string" where
  "key_rest k t = clause_kind_label k @ CHR '':'' # CHR '':'' # clause_kind_label k @ CHR '':'' # t"

lemma key_rest_inject:
  assumes "is_verifiable_clause_kind k" and "is_verifiable_clause_kind k'" and "key_rest k t = key_rest k' t'"
  shows "k = k' \<and> t = t'"
  using assms label_inject [OF assms(1,2)]
  by (auto simp: key_rest_def split_at_colon label_no_colon)

lemma key_rest_invariant:
  assumes "is_verifiable_clause_kind k" and "is_verifiable_clause_kind k'" and "take 1 t \<noteq> '':''"
  shows "key_rest k t \<noteq> ''invariant'' @ CHR '':'' # CHR '':'' # key_rest k' t'"
proof
  assume eq: "key_rest k t = ''invariant'' @ CHR '':'' # CHR '':'' # key_rest k' t'"
  let ?t' = "clause_kind_label k' @ CHR '':'' # t'"
  have "CHR '':'' \<notin> set ''invariant''" by simp
  note parts = iffD1 [OF split_at_colon [OF label_no_colon [OF assms(1)] this] eq [unfolded key_rest_def [of k t]]]
  from conjunct2 [OF parts] have "clause_kind_label k @ CHR '':'' # t = key_rest k' t'"
    by (simp only: list.inject simp_thms)
  then have "clause_kind_label k @ CHR '':'' # t = clause_kind_label k' @ CHR '':'' # CHR '':'' # ?t'"
    unfolding key_rest_def by blast
  then have "t = CHR '':'' # ?t'"
    using split_at_colon [OF label_no_colon [OF assms(1)] label_no_colon [OF assms(2)]] by blast
  with assms(3) show False by simp
qed

lemma clause_key_parts: "clause_key zb p c = p @ CHR '':'' # CHR '':'' # key_rest (cl_kind c) (zb_debug zb (cl_body c))"
  by (simp add: clause_key_def clause_session_cache_key_def clause_desc_def key_rest_def)

lemma job_name_cases:
  assumes "job_name_ok n"
  obtains a where "CHR '':'' \<notin> set a" "n = a" | a where "CHR '':'' \<notin> set a" "n = a @ ''::invariant''"
proof -
  define a d where "a = takeWhile (\<lambda>c. c \<noteq> CHR '':'') n" and "d = dropWhile (\<lambda>c. c \<noteq> CHR '':'') n"
  then have "n = a @ d" "CHR '':'' \<notin> set a" by (auto dest: set_takeWhileD)
  moreover have "d = [] \<or> d = ''::invariant''" using assms by (auto simp: job_name_ok_def invariant_desc_def d_def)
  ultimately show ?thesis using that by blast
qed

lemma clause_key_inject:
  assumes names: "job_name_ok p" "job_name_ok q"
    and kinds: "is_verifiable_clause_kind (cl_kind c)" "is_verifiable_clause_kind (cl_kind d)"
    and debug: "debug_ok zb bodies" "cl_body c \<in> bodies" "cl_body d \<in> bodies"
    and key: "clause_key zb p c = clause_key zb q d"
  shows "p = q \<and> cl_kind c = cl_kind d \<and> cl_body c = cl_body d"
proof -
  let ?r = "\<lambda>c. key_rest (cl_kind c) (zb_debug zb (cl_body c))"
  have other: "?r c \<noteq> ''invariant'' @ CHR '':'' # CHR '':'' # ?r d"
    if "is_verifiable_clause_kind (cl_kind c)" "is_verifiable_clause_kind (cl_kind d)" "cl_body c \<in> bodies" for c d
    using that debug(1) by (intro key_rest_invariant) (auto simp: debug_ok_def)
  have "p = q \<and> ?r c = ?r d"
    using names(1)
  proof (cases rule: job_name_cases)
    case (1 a)
    from names(2) show ?thesis
    proof (cases rule: job_name_cases)
      case (1 b)
      with \<open>CHR '':'' \<notin> set a\<close> \<open>p = a\<close> key show ?thesis by (simp add: clause_key_parts split_at_colon)
    next
      case (2 b)
      with \<open>CHR '':'' \<notin> set a\<close> \<open>p = a\<close> key other [OF kinds debug(2)] show ?thesis
        by (simp add: clause_key_parts split_at_colon)
    qed
  next
    case (2 a)
    from names(2) show ?thesis
    proof (cases rule: job_name_cases)
      case (1 b)
      with \<open>CHR '':'' \<notin> set a\<close> \<open>p = a @ ''::invariant''\<close> key other [OF kinds(2,1) debug(3)] show ?thesis
        by (simp add: clause_key_parts split_at_colon)
    next
      case (2 b)
      with \<open>CHR '':'' \<notin> set a\<close> \<open>p = a @ ''::invariant''\<close> key show ?thesis by (simp add: clause_key_parts split_at_colon)
    qed
  qed
  with key_rest_inject [OF kinds] debug show ?thesis by (auto simp: debug_ok_def dest: inj_onD)
qed

text \<open>An entry \<open>verified\<close> belongs to a job and a clause of \<open>V\<close>.\<close>

definition cache_ok :: "('e, 'v) z3_backend \<Rightarrow> (string \<times> clause) set \<Rightarrow> session_cache \<Rightarrow> bool" where
  "cache_ok zb V cache \<longleftrightarrow>
     (\<forall>key. hm_get (sc_entries cache) key = Some ''verified'' \<longrightarrow> (\<exists>(p, d) \<in> V. key = clause_key zb p d))"

lemma cache_ok_new: "cache_ok zb V session_cache_new"
  by (simp add: cache_ok_def session_cache_new_def hm_get_def)

lemma lookup_entries:
  assumes "lookup_clause_session_cache cache key desc = (r, cache')"
  shows "sc_entries cache' = sc_entries cache" and "r = map_option (entry_result desc) (hm_get (sc_entries cache) key)"
  using assms by (auto simp: lookup_clause_session_cache_def session_lookup_def hm_contains_key_def split: if_split_asm)

lemma entry_result_verdict:
  "is_verified (entry_result desc entry) \<longleftrightarrow> entry = ''verified''"
  "\<not> is_counterexample (entry_result desc entry)"
  by (simp_all add: entry_result_def verified_def tag_parse_def)

lemma lookup_right:
  assumes "lookup_clause_session_cache cache (clause_key zb parent c) desc = (Some r, cache')"
    and "cache_ok zb V cache" and "\<And>p d. (p, d) \<in> V \<Longrightarrow> clause_key zb p d = clause_key zb parent c \<Longrightarrow> valid"
  shows "right_result r valid"
proof -
  have r: "Some r = map_option (entry_result desc) (hm_get (sc_entries cache) (clause_key zb parent c))"
    by (rule lookup_entries(2) [OF assms(1)])
  then have "\<not> is_counterexample r"
    by (cases "hm_get (sc_entries cache) (clause_key zb parent c)") (simp_all add: entry_result_verdict)
  moreover have valid if "is_verified r"
  proof -
    have "hm_get (sc_entries cache) (clause_key zb parent c) = Some ''verified''"
      using r that
      by (cases "hm_get (sc_entries cache) (clause_key zb parent c)") (simp_all add: entry_result_verdict)
    with assms(2,3) show ?thesis by (fastforce simp: cache_ok_def)
  qed
  ultimately show ?thesis by (simp add: right_result_def)
qed

lemma store_ok:
  assumes "cache_ok zb V cache" and "right_result r valid" and "valid \<Longrightarrow> (parent, c) \<in> V"
  shows "cache_ok zb V (store_clause_session_cache cache (clause_key zb parent c) r)"
proof -
  have "is_verified r" if "tag_as_str (tag_from_result r) = ''verified''" using that by (cases r) auto
  with assms show ?thesis
    by (auto simp: cache_ok_def store_clause_session_cache_def session_insert_def hm_insert_def hm_get_def
        right_result_def update_conv)
qed

lemma lookup_ok:
  "lookup_clause_session_cache cache key desc = (r, cache') \<Longrightarrow> cache_ok zb V cache \<Longrightarrow> cache_ok zb V cache'"
  by (simp add: cache_ok_def lookup_entries(1))

section \<open>All clauses of a contract\<close>

lemma check_clauses_right:
  assumes "solver_right (zb_solver zb)"
    and "\<And>c. c \<in> set cs \<Longrightarrow> is_verifiable_clause_kind (cl_kind c)"
    and "\<And>c p d. c \<in> set cs \<Longrightarrow> (p, d) \<in> V \<Longrightarrow> clause_key zb p d = clause_key zb parent c \<Longrightarrow>
           clause_valid (zb_encoder zb) cls ty as base c"
    and "\<And>c. c \<in> set cs \<Longrightarrow> clause_valid (zb_encoder zb) cls ty as base c \<Longrightarrow> (parent, c) \<in> V"
    and "cache_ok zb V cache" and "check_clauses zb cls ty as base parent cs cache = (rs, cache')"
  shows "list_all2 (\<lambda>c r. right_result r (clause_valid (zb_encoder zb) cls ty as base c)) cs rs \<and> cache_ok zb V cache'"
  using assms(2-)
proof (induction cs arbitrary: cache rs cache')
  case (Cons c cs)
  let ?valid = "clause_valid (zb_encoder zb) cls ty as base" and ?desc = "clause_desc parent (cl_kind c)"
  note key = clause_key_def [of zb parent c, symmetric]
  obtain hit cache1 where look: "lookup_clause_session_cache cache (clause_key zb parent c) ?desc = (hit, cache1)"
    by fastforce
  note ok1 = lookup_ok [OF look Cons.prems(4)]
  have sub: "x \<in> set (c # cs)" if "x \<in> set cs" for x using that by simp
  note IH = Cons.IH [OF Cons.prems(1) [OF sub] Cons.prems(2) [OF sub] Cons.prems(3) [OF sub]]
  show ?case
  proof (cases hit)
    case (Some r)
    obtain rs' cache2 where rest: "check_clauses zb cls ty as base parent cs cache1 = (rs', cache2)" by fastforce
    have "right_result r (?valid c)"
      using look Some Cons.prems(2) [of c] by (intro lookup_right [OF _ Cons.prems(4)]) auto
    moreover have "rs = r # rs'" "cache' = cache2" using Cons.prems(5) look Some rest by (simp_all add: Let_def key)
    ultimately show ?thesis using IH [OF _ _ _ _ _ _ ok1 rest] by simp
  next
    case None
    from check_clause_right [OF assms(1) Cons.prems(1)] obtain r
      where r: "check_clause zb cls ty as base ?desc c = [r]" "right_result r (?valid c)" by fastforce
    let ?cache2 = "store_clause_session_cache cache1 (clause_key zb parent c) r"
    obtain rs' cache3 where rest: "check_clauses zb cls ty as base parent cs ?cache2 = (rs', cache3)" by fastforce
    have "rs = r # rs'" "cache' = cache3" using Cons.prems(5) look None r(1) rest by (simp_all add: Let_def key)
    moreover have "cache_ok zb V ?cache2" using store_ok [OF ok1 r(2), of parent c] Cons.prems(3) [of c] by simp
    ultimately show ?thesis using IH [OF _ _ _ _ _ _ _ rest] r(2) by simp
  qed
qed simp

lemma mark_vacuous_verdict [simp]:
  "is_verified (mark_vacuous reason r) = is_verified r"
  "is_counterexample (mark_vacuous reason r) = is_counterexample r"
  by (cases "(reason, r)" rule: mark_vacuous.cases; simp)+

lemma stamp_right:
  "list_all2 (\<lambda>c r. right_result r (valid c)) cs rs \<Longrightarrow>
   list_all2 (\<lambda>c r. right_result r (valid c)) cs (stamp_vacuity cs reqs wrap hw rs)"
  by (auto simp: stamp_vacuity_def list_all2_conv_all_nth right_result_def split: option.splits)

lemma contract_verdicts_right:
  assumes "solver_right (zb_solver zb)"
    and "contract_assumptions (zb_encoder zb) cls lemma_defs ty = (as, base)"
    and "\<And>c p d. c \<in> set (collect_verifiable_clauses cls) \<Longrightarrow> (p, d) \<in> V \<Longrightarrow>
           clause_key zb p d = clause_key zb parent c \<Longrightarrow> clause_valid (zb_encoder zb) cls ty as base c"
    and "\<And>c. c \<in> set (collect_verifiable_clauses cls) \<Longrightarrow> clause_valid (zb_encoder zb) cls ty as base c \<Longrightarrow>
           (parent, c) \<in> V"
    and "cache_ok zb V cache"
    and "verify_clauses_with_types zb parent cls lemma_defs ty timeout cache = (results, cache')"
  shows "(\<exists>rs. results = dispatch_feature_clauses (zb_feature zb) parent cls timeout @ rs \<and>
      list_all2 (\<lambda>c r. right_result r (clause_valid (zb_encoder zb) cls ty as base c)) (collect_verifiable_clauses cls) rs) \<and>
    cache_ok zb V cache'"
proof (cases "collect_verifiable_clauses cls = []")
  case True
  then show ?thesis using assms(5,6) by (auto simp: verify_clauses_with_types_def)
next
  case False
  obtain rs cache1 where rs: "check_clauses zb cls ty as base parent (collect_verifiable_clauses cls) cache = (rs, cache1)"
    by fastforce
  have "is_verifiable_clause_kind (cl_kind c)" if "c \<in> set (collect_verifiable_clauses cls)" for c
    using that by (simp add: collect_verifiable_clauses_def)
  from check_clauses_right [OF assms(1) this assms(3,4,5) rs] stamp_right
  show ?thesis using False rs assms(2,6) by (auto simp: verify_clauses_with_types_def Let_def)
qed

section \<open>All jobs of a file\<close>

text \<open>The clauses of a job that reach the solver, when they are valid, and what its results have to be.\<close>

definition checked_clauses :: "file_context \<Rightarrow> verification_job \<Rightarrow> clause list" where
  "checked_clauses fx job =
     (if job_skips fx job = [] then vj_clauses job
      else if list_ex (\<lambda>c. cl_kind c = Ensures \<or> cl_kind c = Invariant) (solver_clauses job) then solver_clauses job
      else [])"

definition job_valid :: "('e, 'v) z3_backend \<Rightarrow> file_context \<Rightarrow> verification_job \<Rightarrow> clause \<Rightarrow> bool" where
  "job_valid zb fx job c =
     (let cls = checked_clauses fx job; ty = job_constraints fx job;
          (as, base) = contract_assumptions (zb_encoder zb) cls (fx_lemma_defs fx) ty
      in clause_valid (zb_encoder zb) cls ty as base c)"

definition job_results_right ::
  "('e, 'v) z3_backend \<Rightarrow> file_context \<Rightarrow> nat \<Rightarrow> verification_job \<Rightarrow> verification_result list \<Rightarrow> bool" where
  "job_results_right zb fx timeout job results \<longleftrightarrow>
     (\<exists>rs. results = dispatch_feature_clauses (zb_feature zb) (vj_name job) (checked_clauses fx job)
            (clause_timeout_ms timeout) @ rs @ job_skips fx job \<and>
        list_all2 (\<lambda>c r. right_result r (job_valid zb fx job c))
          (collect_verifiable_clauses (checked_clauses fx job)) rs)"

text \<open>Jobs of one name share no checked clause; the invariants of a service are such jobs.\<close>

definition jobs_apart :: "file_context \<Rightarrow> verification_job list \<Rightarrow> bool" where
  "jobs_apart fx jobs \<longleftrightarrow>
     (\<forall>i \<in> set jobs. \<forall>j \<in> set jobs. vj_name i = vj_name j \<longrightarrow> i = j \<or>
        (\<forall>c \<in> set (checked_clauses fx i). \<forall>d \<in> set (checked_clauses fx j).
           cl_kind c = cl_kind d \<longrightarrow> cl_body c \<noteq> cl_body d))"

definition valid_clauses ::
  "('e, 'v) z3_backend \<Rightarrow> file_context \<Rightarrow> verification_job list \<Rightarrow> (string \<times> clause) set" where
  "valid_clauses zb fx jobs =
     {(vj_name j, c) |j c. j \<in> set jobs \<and> c \<in> set (collect_verifiable_clauses (checked_clauses fx j)) \<and> job_valid zb fx j c}"

definition job_bodies :: "file_context \<Rightarrow> verification_job list \<Rightarrow> sp_expr set" where
  "job_bodies fx jobs = (\<Union>j \<in> set jobs. cl_body ` set (checked_clauses fx j))"

lemma job_valid_cong: "cl_kind c = cl_kind d \<Longrightarrow> cl_body c = cl_body d \<Longrightarrow> job_valid zb fx job c = job_valid zb fx job d"
  by (simp add: job_valid_def clause_valid_cong [of c d] split: prod.split)

lemma known_key_valid:
  assumes names: "\<And>j. j \<in> set jobs \<Longrightarrow> job_name_ok (vj_name j)"
    and apart: "jobs_apart fx jobs" and debug: "debug_ok zb (job_bodies fx jobs)"
    and job: "job \<in> set jobs" and c: "c \<in> set (collect_verifiable_clauses (checked_clauses fx job))"
    and known: "(p, d) \<in> valid_clauses zb fx jobs" "clause_key zb p d = clause_key zb (vj_name job) c"
  shows "job_valid zb fx job c"
proof -
  from known(1) obtain j where j: "j \<in> set jobs" "p = vj_name j" "job_valid zb fx j d"
    "d \<in> set (collect_verifiable_clauses (checked_clauses fx j))" by (auto simp: valid_clauses_def)
  have mem: "c \<in> set (checked_clauses fx job)" "is_verifiable_clause_kind (cl_kind c)"
    "d \<in> set (checked_clauses fx j)" "is_verifiable_clause_kind (cl_kind d)"
    using c j(4) by (simp_all add: collect_verifiable_clauses_def)
  then have "cl_body c \<in> job_bodies fx jobs" "cl_body d \<in> job_bodies fx jobs"
    using job j(1) by (auto simp: job_bodies_def)
  from clause_key_inject [OF names [OF j(1)] names [OF job] mem(4,2) debug this(2,1)] known(2) j(2)
  have same: "vj_name j = vj_name job" "cl_kind d = cl_kind c" "cl_body d = cl_body c" by simp_all
  have "j = job"
    using apart same mem(1,3) job j(1) unfolding jobs_apart_def by metis
  with j(3) job_valid_cong [OF same(2,3), of zb fx job] show ?thesis by simp
qed

lemma verify_job_right:
  assumes "solver_right (zb_solver zb)" and "\<And>j. j \<in> set jobs \<Longrightarrow> job_name_ok (vj_name j)"
    and "jobs_apart fx jobs" and "debug_ok zb (job_bodies fx jobs)" and job: "job \<in> set jobs"
    and ok: "cache_ok zb (valid_clauses zb fx jobs) cache"
    and run: "verify_job zb fx timeout job cache = (results, cache')"
  shows "job_results_right zb fx timeout job results \<and> cache_ok zb (valid_clauses zb fx jobs) cache'"
proof -
  let ?cls = "checked_clauses fx job" and ?ty = "job_constraints fx job" and ?V = "valid_clauses zb fx jobs"
  obtain as base where as: "contract_assumptions (zb_encoder zb) ?cls (fx_lemma_defs fx) ?ty = (as, base)" by fastforce
  then have valid: "job_valid zb fx job c = clause_valid (zb_encoder zb) ?cls ?ty as base c" for c
    by (simp add: job_valid_def)
  obtain rs cache1 where rs: "verify_clauses_with_types zb (vj_name job) ?cls (fx_lemma_defs fx) ?ty
      (clause_timeout_ms timeout) cache = (rs, cache1)" by fastforce
  have "results = rs @ job_skips fx job \<and> cache' = cache1"
    using run rs by (auto simp: verify_job_def checked_clauses_def Let_def verify_clauses_with_types_def
        dispatch_feature_clauses_def collect_verifiable_clauses_def split: if_splits)
  moreover have "(vj_name job, c) \<in> ?V" if "c \<in> set (collect_verifiable_clauses ?cls)" "job_valid zb fx job c" for c
    using that job by (auto simp: valid_clauses_def)
  ultimately show ?thesis
    using contract_verdicts_right [OF assms(1) as, of ?V "vj_name job" cache "clause_timeout_ms timeout" rs cache1,
        folded valid, OF known_key_valid [OF assms(2,3,4) job] _ ok rs]
    by (auto simp: job_results_right_def)
qed

lemma verify_jobs_right:
  assumes "solver_right (zb_solver zb)" and "\<And>j. j \<in> set jobs \<Longrightarrow> job_name_ok (vj_name j)"
    and "jobs_apart fx jobs" and "debug_ok zb (job_bodies fx jobs)"
    and "set js \<subseteq> set jobs" and "cache_ok zb (valid_clauses zb fx jobs) cache"
  shows "\<exists>rss. verify_jobs zb fx timeout js cache = concat rss \<and> list_all2 (job_results_right zb fx timeout) js rss"
  using assms(5,6)
proof (induction js arbitrary: cache)
  case (Cons job js)
  obtain rs cache1 where run: "verify_job zb fx timeout job cache = (rs, cache1)" by fastforce
  from verify_job_right [OF assms(1-4) _ Cons.prems(2) run] Cons.prems(1)
  have right: "job_results_right zb fx timeout job rs" "cache_ok zb (valid_clauses zb fx jobs) cache1" by simp_all
  from Cons.IH [OF _ right(2)] Cons.prems(1) obtain rss where
    "verify_jobs zb fx timeout js cache1 = concat rss" "list_all2 (job_results_right zb fx timeout) js rss" by auto
  with right(1) run show ?case by (intro exI [of _ "rs # rss"]) simp
qed simp

text \<open>C4: The results of a file are those of its jobs in order, with one session cache through all of
  them; the results of a job are those of its feature clauses, exactly one for each checked clause in
  order, and one for each clause skipped for want of an implementation.  With a right solver a clause
  reported verified is valid under the assumptions of its own job, and one reported with a
  counterexample is not, for every encoder and also where the result comes from the cache.  Two
  declarations of one name, which the resolver reports as \<open>A02003\<close>, must not share a checked clause
  (\<open>same_name_hit\<close> shows why); names hold no colon besides that of the invariants of services, and the
  \<open>Debug\<close> texts of different bodies are different and begin with no colon.\<close>

theorem clause_verdicts_right:
  assumes "solver_right (zb_solver zb)"
    and "\<And>j. j \<in> set (collect_verification_jobs decls) \<Longrightarrow> job_name_ok (vj_name j)"
    and "jobs_apart (file_context_of decls irs attempted) (collect_verification_jobs decls)"
    and "debug_ok zb (job_bodies (file_context_of decls irs attempted) (collect_verification_jobs decls))"
  shows "\<exists>rss. verify_file zb decls irs attempted timeout advanced = concat rss @ advanced \<and>
    list_all2 (job_results_right zb (file_context_of decls irs attempted) timeout) (collect_verification_jobs decls) rss"
  using verify_jobs_right [OF assms order_refl cache_ok_new] by (auto simp: verify_file_def)

text \<open>
  An encoder for comparisons of names, integers and lengths, and a solver that finds plain
  contradictions, to run the loop with.  The encoder's state is the list of axioms put aside.
\<close>

fun tiny_term :: "sp_expr \<Rightarrow> smt_term" where
  "tiny_term (Spanned (Ident n) s) = SSym n"
| "tiny_term (Spanned (Literal (LBool b)) s) = SBool b"
| "tiny_term (Spanned (Literal (LInt t)) s) = SInt (case parse_i64 t of Some n \<Rightarrow> n | None \<Rightarrow> 0)"
| "tiny_term (Spanned (MethodCall r m args) s) =
     SSym (canonical_length_name (case node r of Ident n \<Rightarrow> n | _ \<Rightarrow> []))"
| "tiny_term (Spanned (BinOp l op r) s) =
     SApp (if op = Lte then FLe else if op = Gte then FGe else if op = Lt then FLt else FEq) [tiny_term l, tiny_term r]"
| "tiny_term _ = SBool True"

definition tiny_encoder :: "(smt_term list, smt_term) z3_encoder" where
  "tiny_encoder =
     \<lparr>en_new = \<lambda>ps ret cs cls. [], en_plain = \<lambda>ps ret. [], en_clause = \<lambda>ps ret cs cls e. e,
      en_expr = \<lambda>b e. (tiny_term b, e), en_as_bool = \<lambda>v. v, en_as_int = \<lambda>v e. v,
      en_int = \<lambda>n e. (SSym n, e), en_axioms = \<lambda>e. e, en_clear = \<lambda>e. [],
      en_havoc =
        \<lparr>he_collection_result_nonneg = \<lambda>e. e @ [SApp FGe [SSym (canonical_length_name ''result''), SInt 0]],
         he_length_identity_le = \<lambda>r i e. e @ [SApp FLe [SSym (canonical_length_name r), SSym (canonical_length_name i)]],
         he_apply_ir_body = \<lambda>f ns e. e\<rparr>\<rparr>"

definition contradiction_solver :: clause_solver where
  "contradiction_solver as =
     (if list_ex (\<lambda>a. snd a = SBool False \<or> list_ex (\<lambda>b. snd b = SApp FNot [snd a]) as) as then AnsUnsat []
      else AnsUnknown (Some ''timeout''))"

lemma contradiction_solver_right: "solver_right contradiction_solver"
proof -
  have "\<not> satisfies M as" if "contradiction_solver as = AnsUnsat core" for M as core
  proof
    assume M: "satisfies M as"
    from that obtain a where a: "a \<in> set as" "snd a = SBool False \<or> (\<exists>b \<in> set as. snd b = SApp FNot [snd a])"
      by (auto simp: contradiction_solver_def list_ex_iff split: if_splits)
    from M a(1) have "beval M (snd a)" by (simp add: satisfies_def)
    moreover have "\<forall>b \<in> set as. beval M (snd b)" using M by (simp add: satisfies_def)
    ultimately show False using a(2) by force
  qed
  then show ?thesis by (auto simp: solver_right_def contradiction_solver_def)
qed

definition tiny_backend :: "(smt_term list, smt_term) z3_backend" where
  "tiny_backend = \<lparr>zb_encoder = tiny_encoder, zb_solver = contradiction_solver, zb_debug = \<lambda>b. [],
     zb_feature = \<lambda>k n b cls t. []\<rparr>"

definition untyped :: type_constraints where
  "untyped = \<lparr>tcs_params = [], tcs_return_ty = [], tcs_constants = [], tcs_narrowings = [], tcs_ir = None\<rparr>"

abbreviation plain_clause :: "clause_kind \<Rightarrow> sp_expr \<Rightarrow> clause" where
  "plain_clause kind body \<equiv> \<lparr>cl_kind = kind, cl_body = body, cl_effect_variables = []\<rparr>"

definition name_at_least_zero :: sp_expr where
  "name_at_least_zero = no_span (BinOp (no_span (Ident ''x'')) Gte (no_span (Literal (LInt ''0''))))"

text \<open>Two contracts with the same postcondition, of which only the first requires it.\<close>

definition named_contract :: "string \<Rightarrow> clause list \<Rightarrow> spanned_decl" where
  "named_contract name cls =
     \<lparr>sd_node = Contract \<lparr>ct_name = name, ct_type_params = [], ct_clauses = cls, ct_fn_params = []\<rparr>, sd_span = (0, 1)\<rparr>"

definition two_contracts :: "string \<Rightarrow> string \<Rightarrow> spanned_decl list" where
  "two_contracts a b =
     [named_contract a [plain_clause Requires name_at_least_zero, plain_clause Ensures name_at_least_zero],
      named_contract b [plain_clause Ensures name_at_least_zero]]"

lemma two_contract_jobs:
  "collect_verification_jobs (two_contracts a b) =
     [untyped_job a [plain_clause Requires name_at_least_zero, plain_clause Ensures name_at_least_zero],
      untyped_job b [plain_clause Ensures name_at_least_zero]]"
  by (simp add: collect_verification_jobs_def two_contracts_def named_contract_def contract_params_def)

lemma two_contracts_context:
  "file_context_of (two_contracts a b) [] False =
     \<lparr>fx_constants = [], fx_lemma_defs = [], fx_ir_bodies = [], fx_ir_loading_attempted = False\<rparr>"
  by (simp add: file_context_of_def two_contracts_def named_contract_def collect_feature_max_constants_def
      collect_lemma_defs_def hm_empty_def)

lemma no_attempt_job:
  "verify_job zb \<lparr>fx_constants = [], fx_lemma_defs = [], fx_ir_bodies = [], fx_ir_loading_attempted = False\<rparr> 0
     (untyped_job name cls) cache = verify_clauses_with_types zb name cls [] untyped 10000 cache"
  by (simp add: verify_job_def job_skips_def unconstrained_result_unknowns_def job_constraints_def untyped_def
      derive_narrowings_def hm_get_def clause_timeout_ms_def)

lemma two_contracts_run:
  "verify_file tiny_backend (two_contracts a b) [] False 0 [] =
     (case verify_clauses_with_types tiny_backend a
        [plain_clause Requires name_at_least_zero, plain_clause Ensures name_at_least_zero] [] untyped 10000
        session_cache_new of
        (rs, cache) \<Rightarrow> rs @ fst (verify_clauses_with_types tiny_backend b [plain_clause Ensures name_at_least_zero] []
           untyped 10000 cache))"
  by (simp add: verify_file_def two_contract_jobs two_contracts_context no_attempt_job split: prod.split)

lemma two_contracts_verified:
  "map is_verified (verify_file tiny_backend (two_contracts ''C'' ''D'') [] False 0 []) = [True, False]"
  unfolding two_contracts_run by code_simp

lemma no_attempt_clauses:
  "job_skips \<lparr>fx_constants = [], fx_lemma_defs = [], fx_ir_bodies = [], fx_ir_loading_attempted = False\<rparr> job = []"
  "checked_clauses \<lparr>fx_constants = [], fx_lemma_defs = [], fx_ir_bodies = [], fx_ir_loading_attempted = False\<rparr> job =
     vj_clauses job"
  by (simp_all add: checked_clauses_def job_skips_def unconstrained_result_unknowns_def)

lemma two_contracts_right:
  "job_name_ok ''C''" "job_name_ok ''D''"
  "jobs_apart (file_context_of (two_contracts ''C'' ''D'') [] False)
     (collect_verification_jobs (two_contracts ''C'' ''D''))"
  "debug_ok tiny_backend (job_bodies (file_context_of (two_contracts ''C'' ''D'') [] False)
     (collect_verification_jobs (two_contracts ''C'' ''D'')))"
  by (simp_all add: job_name_ok_def jobs_apart_def two_contract_jobs two_contracts_context no_attempt_clauses
      debug_ok_def job_bodies_def tiny_backend_def)

lemma clause_verdicts_right_witness:
  "map is_verified (verify_file tiny_backend (two_contracts ''C'' ''D'') [] False 0 []) = [True, False] \<and>
   job_valid tiny_backend (file_context_of (two_contracts ''C'' ''D'') [] False)
     (untyped_job ''C'' [plain_clause Requires name_at_least_zero, plain_clause Ensures name_at_least_zero])
     (plain_clause Ensures name_at_least_zero)"
proof (intro conjI two_contracts_verified)
  let ?decls = "two_contracts ''C'' ''D''" and ?ensures = "plain_clause Ensures name_at_least_zero"
  let ?fx = "file_context_of ?decls [] False"
  let ?C = "untyped_job ''C'' [plain_clause Requires name_at_least_zero, ?ensures]" and ?D = "untyped_job ''D'' [?ensures]"
  have "solver_right (zb_solver tiny_backend)" by (simp add: tiny_backend_def contradiction_solver_right)
  moreover have "job_name_ok (vj_name j)" if "j \<in> set (collect_verification_jobs ?decls)" for j
    using that two_contracts_right(1,2) by (auto simp: two_contract_jobs)
  ultimately obtain rss where rss: "verify_file tiny_backend ?decls [] False 0 [] = concat rss @ []"
      "list_all2 (job_results_right tiny_backend ?fx 0) [?C, ?D] rss"
    using clause_verdicts_right [OF _ _ two_contracts_right(3,4), of 0 "[]"] unfolding two_contract_jobs by blast
  then obtain r1 r2 where r: "rss = [r1, r2]" "job_results_right tiny_backend ?fx 0 ?C r1" by (auto simp: list_all2_Cons1)
  have "dispatch_feature_clauses (zb_feature tiny_backend) ''C'' (vj_clauses ?C) t = []" for t
    by (simp add: dispatch_feature_clauses_def)
  moreover have "collect_verifiable_clauses (vj_clauses ?C) = [?ensures]" by (simp add: collect_verifiable_clauses_def)
  ultimately obtain x where x: "r1 = [x]" "right_result x (job_valid tiny_backend ?fx ?C ?ensures)"
    using r(2) by (auto simp: job_results_right_def two_contracts_context no_attempt_clauses list_all2_Cons1)
  have "is_verified x" using two_contracts_verified rss(1) r(1) x(1) by simp
  with x(2) show "job_valid tiny_backend ?fx ?C ?ensures" by (simp add: right_result_def)
qed

text \<open>Under one name the second contract is reported verified from the cache, though nothing it assumes
  makes its postcondition valid.\<close>

lemma same_name_hit:
  "map is_verified (verify_file tiny_backend (two_contracts ''C'' ''C'') [] False 0 []) = [True, True]"
  "\<not> job_valid tiny_backend (file_context_of (two_contracts ''C'' ''C'') [] False)
     (untyped_job ''C'' [plain_clause Ensures name_at_least_zero]) (plain_clause Ensures name_at_least_zero)"
proof -
  show "map is_verified (verify_file tiny_backend (two_contracts ''C'' ''C'') [] False 0 []) = [True, True]"
    unfolding two_contracts_run by code_simp
  have "contract_assumptions tiny_encoder [plain_clause Ensures name_at_least_zero] [] untyped = ([], [])"
    "clause_assertions tiny_encoder [plain_clause Ensures name_at_least_zero] untyped []
       (plain_clause Ensures name_at_least_zero) = ([], SApp FGe [SSym ''x'', SInt 0], [])"
    by code_simp+
  moreover have "\<exists>M :: smt_model. \<not> 0 \<le> sm_var M ''x''"
    by (rule exI [of _ "\<lparr>sm_var = \<lambda>x. - 1, sm_fun = \<lambda>f vs. 0\<rparr>"]) simp
  ultimately show "\<not> job_valid tiny_backend (file_context_of (two_contracts ''C'' ''C'') [] False)
     (untyped_job ''C'' [plain_clause Ensures name_at_least_zero]) (plain_clause Ensures name_at_least_zero)"
    by (auto simp: job_valid_def two_contracts_context no_attempt_clauses job_constraints_def untyped_def [symmetric]
        derive_narrowings_def hm_get_def tiny_backend_def clause_valid_def tiny_encoder_def)
qed

end
