(* ===== verification/Verify_Facts.thy ===== *)
theory Verify_Facts
  imports Verify_Sound
begin

text \<open>
  Restated requirements say no more than the requirements, and facts on the assumptions and caches
  that let more pass than they should.
\<close>

section \<open>Restated requirements\<close>

text \<open>The value of an expression over a meaning of the operators and of all other forms.\<close>

function op_value :: "(binop \<Rightarrow> 'v \<Rightarrow> 'v \<Rightarrow> 'v) \<Rightarrow> (unary_op \<Rightarrow> 'v \<Rightarrow> 'v) \<Rightarrow> (expr \<Rightarrow> 'v) \<Rightarrow> expr \<Rightarrow> 'v" where
  "op_value bin un oth e =
     (case e of
        BinOp l op r \<Rightarrow> bin op (op_value bin un oth (node l)) (op_value bin un oth (node r))
      | UnaryOp op x \<Rightarrow> un op (op_value bin un oth (node x))
      | _ \<Rightarrow> oth e)"
  by pat_completeness auto
termination
  by (relation "measure (\<lambda>(bin, un, oth, e). size e)") (auto simp: size_node less_SucI trans_less_add1 trans_less_add2)

declare op_value.simps [simp del]

lemma op_value_simps [simp]:
  "op_value bin un oth (BinOp l op r) = bin op (op_value bin un oth (node l)) (op_value bin un oth (node r))"
  "op_value bin un oth (UnaryOp uop x) = un uop (op_value bin un oth (node x))"
  by (simp_all add: op_value.simps [of _ _ _ "BinOp l op r"] op_value.simps [of _ _ _ "UnaryOp uop x"])

locale operator_meaning =
  fixes bin :: "binop \<Rightarrow> 'v \<Rightarrow> 'v \<Rightarrow> 'v"
  assumes symmetric: "commutative op \<Longrightarrow> bin op a b = bin op b a"
    and mirrored: "is_flipped_cmp op op' \<Longrightarrow> bin op a b = bin op' b a"
begin

lemma same_value: "same_expr a b \<Longrightarrow> op_value bin un oth a = op_value bin un oth b"
proof (induction a b rule: same_expr.induct)
  case (1 la opa ra lb opb rb)
  show ?case
  proof (cases "opa = opb")
    case True
    with "1.prems" consider
      "same_expr (node la) (node lb)" "same_expr (node ra) (node rb)"
      | "commutative opa" "same_expr (node la) (node rb)" "same_expr (node ra) (node lb)" by auto
    then show ?thesis
    proof cases
      case 1
      then show ?thesis using True "1.IH"(1,2) by simp
    next
      case 2
      then show ?thesis using True "1.IH"(3,4) symmetric [of opa] by simp
    qed
  next
    case False
    with "1.prems" have "is_flipped_cmp opa opb" "same_expr (node la) (node rb)" "same_expr (node ra) (node lb)" by auto
    then show ?thesis using False "1.IH"(5,6) mirrored [of opa opb] by simp
  qed
next
  case (2 opa ea opb eb)
  then show ?case by (auto split: if_splits)
qed auto

end

text \<open>
  The integers of the encoding: machine arithmetic, truth values as 1 and 0, and a meaning \<open>uf\<close> of
  the operators that are not interpreted.
\<close>

definition as_int :: "bool \<Rightarrow> int" where
  "as_int p = (if p then 1 else 0)"

fun int_bin :: "(nat \<times> bool) option \<Rightarrow> (binop \<Rightarrow> int \<Rightarrow> int \<Rightarrow> int) \<Rightarrow> binop \<Rightarrow> int \<Rightarrow> int \<Rightarrow> int" where
  "int_bin wrap uf Add a b = machine_value wrap (a + b)"
| "int_bin wrap uf Sub a b = machine_value wrap (a - b)"
| "int_bin wrap uf Mul a b = machine_value wrap (a * b)"
| "int_bin wrap uf Eq a b = as_int (a = b)"
| "int_bin wrap uf Neq a b = as_int (a \<noteq> b)"
| "int_bin wrap uf Lt a b = as_int (a < b)"
| "int_bin wrap uf Lte a b = as_int (a \<le> b)"
| "int_bin wrap uf Gt a b = as_int (a > b)"
| "int_bin wrap uf Gte a b = as_int (a \<ge> b)"
| "int_bin wrap uf And a b = as_int (a \<noteq> 0 \<and> b \<noteq> 0)"
| "int_bin wrap uf Or a b = as_int (a \<noteq> 0 \<or> b \<noteq> 0)"
| "int_bin wrap uf Implies a b = as_int (a \<noteq> 0 \<longrightarrow> b \<noteq> 0)"
| "int_bin wrap uf op a b = uf op a b"

interpretation int_ops: operator_meaning "int_bin wrap uf" for wrap uf
proof
  show "int_bin wrap uf op a b = int_bin wrap uf op b a" if "commutative op" for op a b
    using that by (cases op; auto simp: commutative_def as_int_def add.commute mult.commute)
  show "int_bin wrap uf op a b = int_bin wrap uf op' b a" if "is_flipped_cmp op op'" for op op' a b
    using that by (auto simp: is_flipped_cmp_def)
qed

definition condition_true ::
  "(nat \<times> bool) option \<Rightarrow> (binop \<Rightarrow> int \<Rightarrow> int \<Rightarrow> int) \<Rightarrow> (unary_op \<Rightarrow> int \<Rightarrow> int) \<Rightarrow> (expr \<Rightarrow> int) \<Rightarrow> sp_expr \<Rightarrow> bool" where
  "condition_true wrap uf un oth e \<longleftrightarrow> op_value (int_bin wrap uf) un oth (node e) \<noteq> 0"

text \<open>C37: A clause marked as restating a requirement is true wherever the requirements are, whatever its
  names, negations and uninterpreted operators mean and with machine arithmetic or without; and it
  is true exactly where one of the requirements is.\<close>

theorem restated_requires_holds:
  assumes "clause_vacuity_reason c reqs wrap = Some restates_requires"
  shows "\<exists>req \<in> set reqs. \<forall>w uf un oth.
    condition_true w uf un oth (cl_body c) \<longleftrightarrow> condition_true w uf un oth req"
proof -
  have "restates_requires \<noteq> nat_wrap_ceiling" by (simp add: restates_requires_def nat_wrap_ceiling_def)
  with assms obtain req where req: "req \<in> set reqs" "same_expr (node (cl_body c)) (node req)"
    by (auto simp: clause_vacuity_reason_def list_ex_iff expr_same_obligation_def split: if_splits)
  have "condition_true w uf un oth (cl_body c) \<longleftrightarrow> condition_true w uf un oth req" for w uf un oth
    using int_ops.same_value [OF req(2)] by (simp add: condition_true_def)
  with req(1) show ?thesis by blast
qed

lemma restated_requires_holds_witness:
  "\<exists>req \<in> set [no_span (BinOp (no_span (Ident ''a'')) Lte (no_span (Ident ''b'')))]. \<forall>w uf un oth.
     condition_true w uf un oth (no_span (BinOp (no_span (Ident ''b'')) Gte (no_span (Ident ''a'')))) \<longleftrightarrow>
     condition_true w uf un oth req"
  using restated_requires_holds
    [of "plain_clause Ensures (no_span (BinOp (no_span (Ident ''b'')) Gte (no_span (Ident ''a''))))"
      "[no_span (BinOp (no_span (Ident ''a'')) Lte (no_span (Ident ''b'')))]" False]
  by (simp add: clause_vacuity_reason_def expr_same_obligation_def no_span_def restates_requires_def
      is_flipped_cmp_def)

text \<open>Calls are compared with the spans of their parts, so the same call at another place is another one.\<close>

lemma same_call_not_recognised:
  "\<not> same_expr (Call (Spanned (Ident f) (0, 1)) []) (Call (Spanned (Ident f) (9, 10)) [])"
  by simp

section \<open>Assumptions that are what is to be shown\<close>

text \<open>
  A bound on the length of the result that a postcondition states becomes an assumption, and the
  postcondition is verified without an implementation; so is any length bound the result shares
  with a parameter.
\<close>

definition length_of :: "string \<Rightarrow> sp_expr" where
  "length_of n = no_span (MethodCall (no_span (Ident n)) ''length'' [])"

definition result_not_longer :: sp_expr where
  "result_not_longer = no_span (BinOp (length_of ''result'') Lte (length_of ''raw''))"

lemma ensures_length_is_assumed:
  "infer_length_identity_links [] [plain_clause Ensures result_not_longer] = [(''result'', ''raw'')]"
  "fst (verify_clauses_with_types tiny_backend ''C'' [plain_clause Ensures result_not_longer] [] untyped 0
     session_cache_new) = [verified ''C::ensures'']"
  by code_simp+

definition length_at_most_100 :: "string \<Rightarrow> sp_expr" where
  "length_at_most_100 n = no_span (BinOp (length_of n) Lte (no_span (Literal (LInt ''100''))))"

lemma shared_bound_orders_lengths:
  "infer_length_identity_links [plain_clause Requires (length_at_most_100 ''raw'')]
     [plain_clause Ensures (length_at_most_100 ''result'')] = [(''result'', ''raw'')]"
  by code_simp

text \<open>A lemma that applies itself is assumed while it is checked: its postcondition false is verified.\<close>

definition false_lemma_fn :: fn_def where
  "false_lemma_fn =
     \<lparr>fn_name = ''l'', fn_is_ghost = False, fn_is_lemma = True, fn_params = [], fn_return_ty = None,
      fn_clauses = [plain_clause Ensures (no_span (Literal (LBool False))),
        plain_clause Rule (no_span (ApplyE ''l'' []))]\<rparr>"

definition false_lemma :: spanned_decl where
  "false_lemma = \<lparr>sd_node = FnDef false_lemma_fn, sd_span = (0, 0)\<rparr>"

lemma lemma_applies_itself:
  "map vj_clauses (collect_verification_jobs [false_lemma]) = [fn_clauses false_lemma_fn]"
  "hd (fst (verify_clauses_with_types tiny_backend ''l'' (fn_clauses false_lemma_fn) (collect_lemma_defs [false_lemma])
     untyped 10000 session_cache_new)) = verified ''l::ensures''"
  by code_simp+

section \<open>The cache on disk\<close>

text \<open>
  The key leaves out the types of the parameters and of the result, the constants and the lemmas
  of the file: a job that differs only there is given the results of the other.
\<close>

lemma cached_job_ignores_types:
  assumes "vj_name job' = vj_name job" "vj_clauses job' = vj_clauses job"
    and "fx_ir_bodies fx' = fx_ir_bodies fx" "fx_ir_loading_attempted fx' = fx_ir_loading_attempted fx"
    and "verify_cached_job zb tx fp fx timeout (Some files) job = (rs, cache)" "job_skips fx job = []"
  shows "map to_cached (fst (verify_cached_job zb tx fp fx' timeout' cache job')) = map to_cached rs"
proof -
  have skips: "job_skips fx' job' = []" using assms by (simp add: job_skips_def)
  have "to_cached (from_cached x) = x" for x by (cases x) (simp_all add: verified_def)
  then have "map (to_cached \<circ> from_cached) xs = xs" for xs by (simp add: map_idI)
  then show ?thesis
    using assms skips
    by (auto simp: verify_cached_job_def Let_def cache_get_def cache_put_def hm_get_def hm_insert_def update_conv'
        split: option.splits)
qed

text \<open>A result read back from the cache has lost its mark.\<close>

lemma cached_result_forgets_vacuity:
  "from_cached (to_cached (VrVerified desc core (Some reason))) = verified desc"
  by simp

end
