(* ===== verification/Spec2Isabelle.thy ===== *)
theory Spec2Isabelle
  imports Prelude Hash_Map Ast Ast_Walk Checker_Base Ast_Display Type_Expr Type_Core Type_Convert
    Infer Infer_Safety Labels Dependent Info_Flow Taint Effects Totality Exhaustive
    Fixed_Width Interfaces Structural Ffi Generics
    Frame Linear Typestate Page_Cache Transactions Durability Locks
    Smt_Terms Smt_Builtins Adt_Axioms Ir_Syntax Ir_Lower Ir_Sound Ir_Builders Ir_Facts
    Bmc Bmc_Text Bmc_Parse Bmc_Paths K_Induction Bmc_Lasso
    Verify_Results Verify_Clauses Vacuity Verify_Loop Verify_Sound Verify_Facts
begin

text \<open>
  A verification of the Assura contract compiler: the syntax tree of contracts and the type
  language (\<open>crates/assura-ast\<close>), the checkers that run over it (\<open>crates/assura-types\<close>), and the
  encoding of implementations for the SMT solvers (\<open>crates/assura-smt\<close>).

  \<^bold>\<open>The program.\<close>  A source file is parsed into declarations with clauses (\<open>requires\<close>, \<open>ensures\<close>,
  \<open>modifies\<close>, and many domain specific kinds), resolved, and type checked.  The checker of a domain
  is a small state machine: it is created for a file, fed with the clauses of every declaration, and
  reports errors with codes.  Contracts are then given to Z3 or CVC5; where an implementation is
  available as IR (numbered slots, blocks, calls), its body becomes axioms about the result.

  \<^bold>\<open>The theories.\<close>
  \<^item> \<open>Prelude\<close>, \<open>Hash_Map\<close>: strings, number formatting and parsing, machine words, and Rust's
    \<open>HashMap\<close> with the locale \<open>hash_map\<close> for what does not depend on iteration order.
  \<^item> \<open>Ast\<close>, \<open>Ast_Walk\<close>, \<open>Ast_Display\<close> (\<open>assura-ast/src/ast/mod.rs\<close>, \<open>display.rs\<close>): the data types, the
    default traversal of \<open>ExprVisitor\<close>, printing, and the negation of conditions, which is proved
    correct for a three-valued meaning of expressions.
  \<^item> \<open>Type_Expr\<close>, \<open>Type_Core\<close>, \<open>Type_Convert\<close> (\<open>mod.rs\<close>, \<open>assura-types/src/types.rs\<close>, \<open>convert.rs\<close>): type
    expressions as trees and as tokens (round trips), the types and scopes of the checker (locale
    \<open>scoped_env\<close>), and the two conversions, which agree.  The splitting of token lists at commas is
    the locale \<open>comma_splitter\<close>, interpreted for both splitters of the code.
  \<^item> \<open>Checker_Base\<close> (\<open>checkers/mod.rs\<close>, \<open>checks/mod.rs\<close> and shared parts of the checkers): errors, selection of
    clauses, values of clause bodies; the locale \<open>clause_scanner\<close> lifts an invariant of a
    checker's step to the scan of a file.
  \<^item> \<open>Infer\<close>, \<open>Infer_Safety\<close> (\<open>inference.rs\<close>, \<open>clauses.rs\<close>): inference of expression types, what its errors
    look like, what it lets through, and type soundness with respect to a reference evaluator, for
    expressions that meet four operand conditions inference does not check itself.
  \<^item> \<open>Labels\<close>, \<open>Info_Flow\<close>, \<open>Taint\<close>, \<open>Dependent\<close> (\<open>checkers/info_flow.rs\<close>, \<open>taint.rs\<close>): security and trust
    labels, whose joins are the locale \<open>label_join\<close>, interpreted for both lattices, and the indices of
    dependent types.  \<open>Labels\<close> gives expressions a value for any reading of the operators; accepted
    clauses then say that results and sensitive positions do not depend on secret or untrusted
    inputs, where nothing is read in ghost code, raw text or quantifier domains; the clauses and
    declarations the checks miss are there too.
  \<^item> \<open>Effects\<close> (\<open>checkers/effects.rs\<close>, \<open>ghost_effects.rs\<close>, the policy of \<open>pipeline.rs\<close>): the effect hierarchy, the effects read off clauses and those of callees;
    calls are found by visiting every node of every clause, and in an accepted file effects reach no
    declared caller that does not allow them, as far as the check sees the clauses and callees.
  \<^item> \<open>Totality\<close> (\<open>checkers/totality.rs\<close>): measures and recursive calls; an accepted function has a
    well-founded relation of calls over integers, for measures that are one unshadowed parameter.  \<open>Exhaustive\<close> (\<open>domain/meta/match_exhaustiveness.rs\<close>): matches on
    enumerations and Booleans, with the values their arms cover when no pattern is nested.
  \<^item> \<open>Fixed_Width\<close> (\<open>checkers/fixed_width.rs\<close>, \<open>domain/numeric.rs\<close>): overflow as interval arithmetic, proved
    exact, and casts, which keep values in an accepted file.  \<open>Interfaces\<close>, \<open>Structural\<close> (\<open>interface.rs\<close>,
    \<open>structural_invariant.rs\<close>) and \<open>Ffi\<close> (\<open>ffi.rs\<close>): implementations of interfaces, invariants of recursive
    types, and the boundary to foreign code, with what each check decides.  \<open>Generics\<close> (\<open>generics.rs\<close>): the
    arguments of generic types, whose instantiation agrees with the conversion of types.
  \<^item> \<open>Frame\<close>, \<open>Linear\<close>, \<open>Typestate\<close> (\<open>checkers/frame.rs\<close>, \<open>linear.rs\<close>, \<open>typestate.rs\<close>): \<open>modifies\<close> clauses and
    the frame axioms; counting of uses, proved exact with respect to the execution paths of the
    clauses; state machines over services, proved a refinement of the declared automaton where a
    state has one transition per operation (the code takes the first of several).
  \<^item> \<open>Page_Cache\<close>, \<open>Transactions\<close>, \<open>Durability\<close> (\<open>domain/storage\<close>), \<open>Locks\<close> (\<open>checkers/security/lock_order.rs\<close>,
    \<open>domain/memory.rs\<close>): page pins, versions and savepoints, write-ahead logging, monotonic values,
    failure models and lock orders, with what each check decides.  The page cache is compared with a
    reference that never forgets a pin, on runs that load no pinned or dirty page again; the checks of
    transactions are exact on every history of begins, writes and commits.
  \<^item> \<open>Smt_Terms\<close>, \<open>Smt_Builtins\<close>, \<open>Adt_Axioms\<close> (\<open>assura-smt/src/policy\<close>, \<open>z3_backend\<close>, \<open>cvc5_backend\<close>): the terms
    both back ends build with their SMT-LIB meaning, truncating division, machine integers, built-in
    operations, and the axioms of data types.
  \<^item> \<open>Ir_Syntax\<close>, \<open>Ir_Lower\<close> (\<open>ir.rs\<close>, \<open>ir_modules/ir_lower.rs\<close>, \<open>ir_exec.rs\<close>, \<open>ir_encode.rs\<close>, \<open>ir_type_ctx.rs\<close>): the IR and
    its lowering over a record of operations, the trait \<open>IrTermBuilder\<close>.  \<open>Ir_Sound\<close> has a reference
    interpreter and the locale \<open>ir_builder_sem\<close> of what a builder promises; \<open>Ir_Builders\<close> models the
    shell and the Z3 builder (\<open>cvc5_backend/cvc5_ir_smtlib.rs\<close>, \<open>z3_backend/havoc_assume.rs\<close>) and interprets
    the locale for both.  The reference interpreter gives strings, records, typestates, lengths, loops
    and (for Z3) concatenation no value, and the shell is right on positive divisors only; \<open>Ir_Facts\<close> has termination, satisfiability, and the counterexamples.
  \<^item> \<open>Bmc\<close> (\<open>bmc.rs\<close>, \<open>k_induction.rs\<close>): bounded model checking of transition systems given as text, and
    k-induction.  \<open>Bmc_Text\<close> and \<open>Bmc_Parse\<close> show that renaming and parsing the text of a predicate
    keeps its meaning; \<open>Bmc_Paths\<close> has transition systems and what a safety answer says of their
    paths, \<open>K_Induction\<close> what \<open>Verified\<close> says of the reachable states, \<open>Bmc_Lasso\<close> what the liveness
    check says of infinite runs; the systems on which the answers are wrong are there too.
  \<^item> \<open>Verify_Results\<close>, \<open>Verify_Clauses\<close>, \<open>Vacuity\<close>, \<open>Verify_Loop\<close> (\<open>result.rs\<close>, \<open>cache.rs\<close>, \<open>havoc_assume.rs\<close>,
    \<open>policy/\<close>, \<open>z3_backend/verify.rs\<close>, \<open>entry/\<close>): how the clauses of a contract are chosen, which
    assumptions they get, the loop that asks Z3 about each, the caches, the marks for vacuous
    clauses, and the jobs of a file.  The encoder of expressions, the feature checkers, the debug
    text of a clause and the digest of the disk cache are arguments.  \<open>Verify_Sound\<close> shows that the
    verdicts of all jobs of a file, which share one session cache, are right for every encoder; \<open>Verify_Facts\<close> that restated requirements are recognised
    rightly (locale \<open>operator_meaning\<close>), with the contracts on which assumptions, lemmas and caches
    go wrong.

  \<^bold>\<open>Conventions.\<close>  A \<open>String\<close> is the list of its bytes; spans are pairs; an \<open>i64\<close> literal is an \<open>int\<close> within
  its bounds; counters that can overflow are words (or naturals with the wrap-around written out); a
  \<open>Result\<close> is a sum and an \<open>Option\<close> an option.  Recursion that the code does not bound (inlining of IR
  calls and blocks) takes a depth; \<open>Ir_Facts.ir_lowering_terminates\<close> says when some
  depth is enough: when no endless chain of references runs through the units a body reaches.  A solver is
  not modelled: a statement about verification is about all models of the axioms given to it, or takes the
  solver as a parameter with the hypothesis that its answers are right.  The model checker counts a query
  the solver gave up on for another reason than time as unsatisfiable; its properties say that no query of
  the run was of that kind, or name those that were.

  \<^bold>\<open>Not modelled.\<close>  The lexer and grammar (built on the crates \<open>logos\<close> and \<open>rowan\<close>, which are not in the
  repository), name resolution, the list of passes, and the remaining domain checkers, which
  follow the pattern of those modelled here; the encoding of
  expressions, an argument of the verification loop; the CVC5 loop over the clauses, the native CVC5
  builder and the IR text parser.  Code generation, the command line, the language and protocol servers,
  configuration and the LLM support are input/output or text generation over external crates.
\<close>

end
